(* ===== verification/Prelude.thy ===== *)
theory Prelude
  imports Main "HOL-Library.AList" "HOL-Library.Char_ord" "HOL-Library.List_Lexorder"
begin

text \<open>
  What the components share: Python exceptions as values of a sum type, sequences of
  checks that stop at the first failure, the string operations the code uses, and sorted
  duplicate-free lists. A Python \<open>str\<close> is a list of code points below 256; a Python
  \<open>int\<close> is an \<open>int\<close> (or a \<open>nat\<close> where the code only counts).
\<close>

text \<open>The operations that keep the invariant of their component; the lemma on a step of a session
  of calls rests on this collection.\<close>

named_theorems keeps

section \<open>Exceptions and fallible computations\<close>

datatype pyexc =
    ValueError string
  | KeyError "string list"
  | RuntimeError string
  | PermissionError string
  | IntegrityError string
  | AttributeError string
  | AssertionError string
  | TypeError string
  | OverflowError string
  | FileExistsError string
  | FileNotFoundError string

type_synonym 'a res = "pyexc + 'a"

definition res_bind :: "'a res \<Rightarrow> ('a \<Rightarrow> 'b res) \<Rightarrow> 'b res" where
  "res_bind m f = (case m of Inl e \<Rightarrow> Inl e | Inr x \<Rightarrow> f x)"

lemma res_bind_Inl [simp]: "res_bind (Inl e) f = Inl e"
  by (simp add: res_bind_def)

lemma res_bind_Inr [simp]: "res_bind (Inr x) f = f x"
  by (simp add: res_bind_def)

lemma res_bind_eq_Inr [simp]: "res_bind m f = Inr y \<longleftrightarrow> (\<exists>x. m = Inr x \<and> f x = Inr y)"
  by (cases m) auto

lemma Inr_eq_res_bind [simp]: "Inr y = res_bind m f \<longleftrightarrow> (\<exists>x. m = Inr x \<and> f x = Inr y)"
  by (cases m) auto

lemma res_bind_cong [fundef_cong]:
  "m = m' \<Longrightarrow> (\<And>x. m' = Inr x \<Longrightarrow> f x = f' x) \<Longrightarrow> res_bind m f = res_bind m' f'"
  by (cases m') auto

definition raise_if :: "bool \<Rightarrow> pyexc \<Rightarrow> unit res" where
  "raise_if b e = (if b then Inl e else Inr ())"

lemma raise_if_eq_Inr [simp]: "raise_if b e = Inr u \<longleftrightarrow> \<not> b"
  by (simp add: raise_if_def)

lemma raise_if_True [simp]: "raise_if True e = Inl e"
  by (simp add: raise_if_def)

lemma raise_if_False [simp]: "raise_if False e = Inr ()"
  by (simp add: raise_if_def)

lemma raise_if_eq_Inl [simp]: "raise_if b e = Inl e' \<longleftrightarrow> b \<and> e' = e"
  by (auto simp: raise_if_def)

text \<open>A sequence of statements that may raise: the first exception ends it.\<close>

fun checks :: "unit res list \<Rightarrow> unit res" where
  "checks [] = Inr ()"
| "checks (c # cs) = res_bind c (\<lambda>_. checks cs)"

lemma checks_eq_Inr [simp]: "checks cs = Inr u \<longleftrightarrow> (\<forall>c \<in> set cs. c = Inr ())"
  by (induction cs) auto

text \<open>A loop that validates every item.\<close>

definition check_all :: "('a \<Rightarrow> unit res) \<Rightarrow> 'a list \<Rightarrow> unit res" where
  "check_all f xs = checks (map f xs)"

lemma check_all_eq_Inr [simp]: "check_all f xs = Inr u \<longleftrightarrow> (\<forall>x \<in> set xs. f x = Inr ())"
  by (simp add: check_all_def)

lemma check_all_Nil [simp]: "check_all f [] = Inr ()"
  by simp

lemma check_all_Cons [simp]: "check_all f (x # xs) = res_bind (f x) (\<lambda>_. check_all f xs)"
  by (simp add: check_all_def)

text \<open>A list comprehension whose element expression may raise.\<close>

fun map_res :: "('a \<Rightarrow> 'b res) \<Rightarrow> 'a list \<Rightarrow> 'b list res" where
  "map_res f [] = Inr []"
| "map_res f (x # xs) = res_bind (f x) (\<lambda>y. res_bind (map_res f xs) (\<lambda>ys. Inr (y # ys)))"

lemma map_res_cong [fundef_cong]:
  "xs = ys \<Longrightarrow> (\<And>x. x \<in> set ys \<Longrightarrow> f x = g x) \<Longrightarrow> map_res f xs = map_res g ys"
  by (induction xs arbitrary: ys) auto

lemma map_res_eq_Inr:
  "map_res f xs = Inr ys \<longleftrightarrow> list_all2 (\<lambda>x y. f x = Inr y) xs ys"
  by (induction xs arbitrary: ys) (auto simp: list_all2_Cons1)

lemma map_res_map: "map_res f (map g xs) = map_res (f \<circ> g) xs"
  by (induction xs) simp_all

definition is_ok :: "'a res \<Rightarrow> bool" where
  "is_ok m = (case m of Inl _ \<Rightarrow> False | Inr _ \<Rightarrow> True)"

lemma is_ok_simps [simp]: "is_ok (Inl e) = False" "is_ok (Inr x) = True"
  by (simp_all add: is_ok_def)

lemma is_ok_iff: "is_ok m \<longleftrightarrow> (\<exists>x. m = Inr x)"
  by (cases m) auto

lemma is_ok_unit: "is_ok m \<longleftrightarrow> m = Inr ()" for m :: "unit res"
  by (cases m) auto

section \<open>Computations on a state\<close>

text \<open>An action reads and updates a state and returns or raises; what it did before an exception
  stays done. A transaction (one \<open>with connection\<close> block) that raises leaves the state unchanged.\<close>

type_synonym ('s, 'a) act = "'s \<Rightarrow> 's \<times> 'a res"

definition act_return :: "'a \<Rightarrow> ('s, 'a) act" where
  "act_return x = (\<lambda>s. (s, Inr x))"

definition act_bind :: "('s, 'a) act \<Rightarrow> ('a \<Rightarrow> ('s, 'b) act) \<Rightarrow> ('s, 'b) act" where
  "act_bind m f = (\<lambda>s. case m s of (s', Inl e) \<Rightarrow> (s', Inl e) | (s', Inr x) \<Rightarrow> f x s')"

definition reading :: "('s \<Rightarrow> 'a res) \<Rightarrow> ('s, 'a) act" where
  "reading f = (\<lambda>s. (s, f s))"

definition transaction :: "('s \<Rightarrow> ('s \<times> 'a) res) \<Rightarrow> ('s, 'a) act" where
  "transaction f = (\<lambda>s. case f s of Inl e \<Rightarrow> (s, Inl e) | Inr (s', x) \<Rightarrow> (s', Inr x))"

lemma act_simps [simp]:
  "act_return x s = (s, Inr x)"
  "reading f s = (s, f s)"
  by (simp_all add: act_return_def reading_def)

lemma act_bind_Inr: "act_bind m f s = (s', Inr y) \<longleftrightarrow> (\<exists>s1 x. m s = (s1, Inr x) \<and> f x s1 = (s', Inr y))"
  by (auto simp: act_bind_def split: prod.splits sum.splits)

lemma act_bind_apply:
  "act_bind m f s = (case snd (m s) of Inl e \<Rightarrow> (fst (m s), Inl e) | Inr x \<Rightarrow> f x (fst (m s)))"
  by (auto simp: act_bind_def split: prod.splits sum.splits)

lemma transaction_Inr: "transaction f s = (s', Inr x) \<longleftrightarrow> f s = Inr (s', x)"
  by (auto simp: transaction_def split: sum.splits)

text \<open>Invariants of actions.\<close>

definition preserves :: "('s \<Rightarrow> bool) \<Rightarrow> ('s, 'a) act \<Rightarrow> bool" where
  "preserves P m \<longleftrightarrow> (\<forall>s. P s \<longrightarrow> P (fst (m s)))"

lemma preservesD: "preserves P m \<Longrightarrow> P s \<Longrightarrow> m s = (s', r) \<Longrightarrow> P s'"
  by (auto simp: preserves_def)

lemma preserves_bind [intro]:
  "preserves P m \<Longrightarrow> (\<And>x. preserves P (f x)) \<Longrightarrow> preserves P (act_bind m f)"
  by (auto simp: preserves_def act_bind_apply split: sum.splits)

lemma preserves_return [intro, simp]: "preserves P (act_return x)"
  by (simp add: preserves_def)

lemma preserves_reading [intro, simp]: "preserves P (reading f)"
  by (simp add: preserves_def)

lemma preserves_transaction:
  "(\<And>s s' x. P s \<Longrightarrow> f s = Inr (s', x) \<Longrightarrow> P s') \<Longrightarrow> preserves P (transaction f)"
  by (auto simp: preserves_def transaction_def split: sum.splits)

section \<open>Lookups\<close>

text \<open>A dictionary lookup \<open>d[k]\<close> or a row fetched by key, with what the code raises without it.\<close>

definition fetch :: "pyexc \<Rightarrow> 'a option \<Rightarrow> 'a res" where
  "fetch e r = (case r of None \<Rightarrow> Inl e | Some x \<Rightarrow> Inr x)"

lemma fetch_simps [simp]: "fetch e None = Inl e" "fetch e (Some x) = Inr x"
  by (simp_all add: fetch_def)

lemma fetch_eq_Inr [simp]: "fetch e r = Inr x \<longleftrightarrow> r = Some x"
  by (cases r) auto

section \<open>Strings\<close>

definition is_space :: "char \<Rightarrow> bool" where
  "is_space c = (let n = (of_char c :: nat) in
     9 \<le> n \<and> n \<le> 13 \<or> 28 \<le> n \<and> n \<le> 32 \<or> n = 133 \<or> n = 160)"

definition strip :: "string \<Rightarrow> string" where
  "strip s = rev (dropWhile is_space (rev (dropWhile is_space s)))"

text \<open>\<open>not s.strip()\<close>\<close>

definition blank :: "string \<Rightarrow> bool" where
  "blank s = list_all is_space s"

lemma dropWhile_Nil_iff: "dropWhile P xs = [] \<longleftrightarrow> (\<forall>x \<in> set xs. P x)"
  by (induction xs) auto

lemma strip_eq_Nil: "strip s = [] \<longleftrightarrow> blank s"
proof -
  have "strip s = [] \<longleftrightarrow> (\<forall>x \<in> set (dropWhile is_space s). is_space x)"
    by (simp add: strip_def dropWhile_Nil_iff)
  also have "\<dots> \<longleftrightarrow> dropWhile is_space s = []"
    by (metis dropWhile_Nil_iff dropWhile_eq_Nil_conv dropWhile_idem)
  finally show ?thesis
    by (simp add: dropWhile_Nil_iff blank_def list_all_iff)
qed

lemma blank_Nil [simp]: "blank []"
  by (simp add: blank_def)

lemma blank_Cons [simp]: "blank (c # s) \<longleftrightarrow> is_space c \<and> blank s"
  by (simp add: blank_def)

lemma blank_append [simp]: "blank (s @ t) \<longleftrightarrow> blank s \<and> blank t"
  by (simp add: blank_def)

lemma not_blank_not_Nil: "\<not> blank s \<Longrightarrow> s \<noteq> []"
  by auto

definition prefixed :: "string \<Rightarrow> string \<Rightarrow> bool" where
  "prefixed p s = (take (length p) s = p)"

lemma prefixed_iff: "prefixed p s \<longleftrightarrow> (\<exists>t. s = p @ t)"
  unfolding prefixed_def by (metis append_eq_conv_conj append_take_drop_id)

fun join :: "string \<Rightarrow> string list \<Rightarrow> string" where
  "join sep [] = []"
| "join sep [x] = x"
| "join sep (x # y # zs) = x @ sep @ join sep (y # zs)"

text \<open>\<open>str.lower\<close> on code points below 256\<close>

definition lower_char :: "char \<Rightarrow> char" where
  "lower_char c = (let n = (of_char c :: nat) in
     if 65 \<le> n \<and> n \<le> 90 \<or> 192 \<le> n \<and> n \<le> 222 \<and> n \<noteq> 215 then char_of (n + 32) else c)"

definition lower :: "string \<Rightarrow> string" where
  "lower s = map lower_char s"

section \<open>Decimal numerals\<close>

definition digit :: "nat \<Rightarrow> char" where
  "digit d = char_of (48 + d)"

definition is_digit :: "char \<Rightarrow> bool" where
  "is_digit c = (let n = (of_char c :: nat) in 48 \<le> n \<and> n \<le> 57)"

fun show_nat :: "nat \<Rightarrow> string" where
  "show_nat n = (if n < 10 then [digit n] else show_nat (n div 10) @ [digit (n mod 10)])"

declare show_nat.simps [simp del]

lemma of_char_digit: "d < 10 \<Longrightarrow> (of_char (digit d) :: nat) = 48 + d"
  by (simp add: digit_def)

lemma is_digit_digit: "d < 10 \<Longrightarrow> is_digit (digit d)"
  by (simp add: is_digit_def of_char_digit)

definition read_nat :: "string \<Rightarrow> nat" where
  "read_nat s = foldl (\<lambda>n c. 10 * n + (of_char c - 48)) 0 s"

lemma read_show_nat [simp]: "read_nat (show_nat n) = n"
proof (induction n rule: show_nat.induct)
  case (1 n)
  show ?case
  proof (cases "n < 10")
    case True
    then show ?thesis by (simp add: show_nat.simps [of n] read_nat_def of_char_digit)
  next
    case False
    have "read_nat (show_nat n) = 10 * read_nat (show_nat (n div 10)) + n mod 10"
      using False by (simp add: show_nat.simps [of n] read_nat_def of_char_digit)
    with 1 False show ?thesis by simp
  qed
qed

lemma show_nat_digits: "list_all is_digit (show_nat n)"
proof (induction n rule: show_nat.induct)
  case (1 n)
  then show ?case by (cases "n < 10") (auto simp: show_nat.simps [of n] is_digit_digit)
qed

lemma show_nat_not_Nil [simp]: "show_nat n \<noteq> []"
  by (simp add: show_nat.simps [of n])

lemma show_nat_inject [simp]: "show_nat m = show_nat n \<longleftrightarrow> m = n"
  by (metis read_show_nat)

text \<open>The format \<open>{n:06d}\<close>.\<close>

definition pad6 :: "nat \<Rightarrow> string" where
  "pad6 n = replicate (6 - length (show_nat n)) (digit 0) @ show_nat n"

lemma read_nat_zeros: "read_nat (replicate k (digit 0) @ s) = read_nat s"
  by (induction k) (simp_all add: read_nat_def of_char_digit)

lemma pad6_inject [simp]: "pad6 m = pad6 n \<longleftrightarrow> m = n"
  by (metis pad6_def read_nat_zeros read_show_nat)

section \<open>Sorted, duplicate-free lists\<close>

text \<open>\<open>sorted(set(xs))\<close>\<close>

definition sorted_set :: "'a::linorder list \<Rightarrow> 'a list" where
  "sorted_set xs = sort (remdups xs)"

lemma set_sorted_set [simp]: "set (sorted_set xs) = set xs"
  by (simp add: sorted_set_def)

lemma distinct_sorted_set [simp]: "distinct (sorted_set xs)"
  by (simp add: sorted_set_def)

lemma sorted_sorted_set [simp]: "sorted (sorted_set xs)"
  by (simp add: sorted_set_def)

lemma sorted_set_eq_Nil [simp]: "sorted_set xs = [] \<longleftrightarrow> xs = []"
  by (metis set_sorted_set set_empty)

lemma insort_key_map: "insort_key f (g x) (map g xs) = map g (insort_key (f \<circ> g) x xs)"
  by (induction xs) simp_all

lemma sort_key_map: "sort_key f (map g xs) = map g (sort_key (f \<circ> g) xs)"
  by (induction xs) (simp_all add: insort_key_map o_def)

lemma map_filter_append: "List.map_filter f (xs @ ys) = List.map_filter f xs @ List.map_filter f ys"
  by (simp add: List.map_filter_def)

lemma map_filter_rev: "List.map_filter f (rev xs) = rev (List.map_filter f xs)"
  by (simp add: List.map_filter_def rev_map rev_filter)

definition disjoint :: "'a list \<Rightarrow> 'a list \<Rightarrow> bool" where
  "disjoint xs ys = list_all (\<lambda>x. x \<notin> set ys) xs"

lemma disjoint_set_iff: "disjoint xs ys \<longleftrightarrow> set xs \<inter> set ys = {}"
  by (auto simp: disjoint_def list_all_iff)

section \<open>Dictionaries\<close>

text \<open>A Python dict is an association list kept by \<open>AList.update\<close>: a new key goes to the end, an
  old one keeps its place and takes the new value. \<open>{key(x): val(x) for x in xs}\<close>:\<close>

definition dict_by :: "('a \<Rightarrow> 'k) \<Rightarrow> ('a \<Rightarrow> 'v) \<Rightarrow> 'a list \<Rightarrow> ('k \<times> 'v) list" where
  "dict_by key val xs = foldl (\<lambda>d x. AList.update (key x) (val x) d) [] xs"

lemma update_new: "k \<notin> fst ` set d \<Longrightarrow> AList.update k v d = d @ [(k, v)]"
  by (induction d) auto

lemma dict_by_distinct:
  assumes "distinct (map key xs)"
  shows "dict_by key val xs = map (\<lambda>x. (key x, val x)) xs"
proof -
  have "distinct (map key xs) \<Longrightarrow> fst ` set d \<inter> key ` set xs = {} \<Longrightarrow>
     foldl (\<lambda>d x. AList.update (key x) (val x) d) d xs = d @ map (\<lambda>x. (key x, val x)) xs" for d
    by (induction xs arbitrary: d) (auto simp: update_new)
  from this [of "[]"] assms show ?thesis by (simp add: dict_by_def)
qed

lemma dict_by_keys: "fst ` set (dict_by key val xs) = key ` set xs"
proof -
  have "fst ` set (foldl (\<lambda>d x. AList.update (key x) (val x) d) d xs) = fst ` set d \<union> key ` set xs" for d
    by (induction xs arbitrary: d) (auto simp: dom_update)
  from this [of "[]"] show ?thesis by (simp add: dict_by_def)
qed

lemma distinct_dict_by: "distinct (map fst (dict_by key val xs))"
proof -
  have "distinct (map fst d) \<Longrightarrow>
     distinct (map fst (foldl (\<lambda>d x. AList.update (key x) (val x) d) d xs))" for d
    by (induction xs arbitrary: d) (auto simp: distinct_update)
  from this [of "[]"] show ?thesis by (simp add: dict_by_def)
qed

lemma map_of_by_iff:
  assumes "distinct (map key xs)"
  shows "map_of (map (\<lambda>x. (key x, val x)) xs) k = Some v \<longleftrightarrow> (\<exists>x \<in> set xs. key x = k \<and> val x = v)"
  using assms by (subst map_of_eq_Some_iff) (auto simp: comp_def)

end
