(* ===== verification/Json_Text.thy ===== *)
theory Json_Text
  imports Prelude
begin

text \<open>
  JSON values and the canonical text \<open>json.dumps(v, sort_keys=True, separators=(",", ":"),
  ensure_ascii=False)\<close> that every hash chain of the program signs, as a function
  \<open>json_dumps\<close> on a datatype of JSON values. Floating-point numbers are not part of the
  datatype: an object that holds them is put together as a text (\<open>object_text\<close>).
\<close>

section \<open>Values and their canonical order\<close>

datatype json =
    JNull
  | JBool bool
  | JInt int
  | JStr string
  | JList "json list"
  | JObj "(string \<times> json) list"

text \<open>An object is a Python dict: of a repeated key the last value counts, at the place of the first.\<close>

definition last_wins :: "(string \<times> 'a) list \<Rightarrow> (string \<times> 'a) list" where
  "last_wins kvs = dict_by fst snd kvs"

lemma set_last_wins: "set (last_wins kvs) \<subseteq> set kvs"
proof -
  have "set (AList.update k v d) \<subseteq> insert (k, v) (set d)" for k :: string and v :: 'a and d
    by (induction d) auto
  then have "set (foldl (\<lambda>d x. AList.update (fst x) (snd x) d) d kvs) \<subseteq> set d \<union> set kvs" for d
    by (induction kvs arbitrary: d) fastforce+
  from this [of "[]"] show ?thesis by (simp add: last_wins_def dict_by_def)
qed

lemma distinct_last_wins [simp]: "distinct (map fst (last_wins kvs))"
  by (simp add: last_wins_def distinct_dict_by)

lemma last_wins_id: "distinct (map fst kvs) \<Longrightarrow> last_wins kvs = kvs"
  by (simp add: last_wins_def dict_by_distinct)

text \<open>\<open>sort_keys=True\<close> orders the keys of every object, at every depth.\<close>

fun json_norm :: "json \<Rightarrow> json" where
  "json_norm (JList vs) = JList (map json_norm vs)"
| "json_norm (JObj kvs) = JObj (sort_key fst (last_wins (map (\<lambda>(k, v). (k, json_norm v)) kvs)))"
| "json_norm v = v"

definition JStrs :: "string list \<Rightarrow> json" where
  "JStrs xs = JList (map JStr xs)"

definition JStrOpt :: "string option \<Rightarrow> json" where
  "JStrOpt s = (case s of None \<Rightarrow> JNull | Some t \<Rightarrow> JStr t)"

lemma distinct_sort_key [simp]: "distinct (map fst (sort_key fst kvs)) = distinct (map fst kvs)"
  by (metis distinct_map distinct_sort set_sort)

lemma norm_members: "(k, v) \<in> set (sort_key fst (last_wins (map (\<lambda>(k, v). (k, json_norm v)) kvs))) \<Longrightarrow> \<exists>w. (k, w) \<in> set kvs \<and> v = json_norm w"
  using set_last_wins [of "map (\<lambda>(k, v). (k, json_norm v)) kvs"] by force

lemma json_norm_idem [simp]: "json_norm (json_norm v) = json_norm v"
proof (induction v)
  case (JObj kvs)
  let ?xs = "sort_key fst (last_wins (map (\<lambda>(k, v). (k, json_norm v)) kvs))"
  have "map (\<lambda>(k, v). (k, json_norm v)) ?xs = ?xs"
    by (rule map_idI) (use JObj norm_members [of _ _ kvs] in \<open>fastforce\<close>)
  then show ?case by (simp add: sort_key_id_if_sorted last_wins_id)
qed simp_all

lemma json_norm_JStrs [simp]: "json_norm (JStrs xs) = JStrs xs"
  by (simp add: JStrs_def)

lemma json_norm_JStrOpt [simp]: "json_norm (JStrOpt s) = JStrOpt s"
  by (cases s) (simp_all add: JStrOpt_def)

lemma JStrs_inject [simp]: "JStrs xs = JStrs ys \<longleftrightarrow> xs = ys"
  by (auto simp: JStrs_def inj_map_eq_map inj_def)

lemma JStrOpt_inject [simp]: "JStrOpt s = JStrOpt t \<longleftrightarrow> s = t"
  by (cases s; cases t) (simp_all add: JStrOpt_def)

section \<open>The printer\<close>

abbreviation bslash :: char where "bslash \<equiv> CHR 0x5C"
abbreviation dquote :: char where "dquote \<equiv> CHR 0x22"

definition hex_digit :: "nat \<Rightarrow> char" where
  "hex_digit d = (if d < 10 then char_of (48 + d) else char_of (87 + d))"

definition esc_char :: "bool \<Rightarrow> char \<Rightarrow> string" where
  "esc_char a c = (let n = (of_char c :: nat) in
     if c = dquote then [bslash, dquote]
     else if c = bslash then [bslash, bslash]
     else if n = 8 then [bslash, CHR ''b'']
     else if n = 9 then [bslash, CHR ''t'']
     else if n = 10 then [bslash, CHR ''n'']
     else if n = 12 then [bslash, CHR ''f'']
     else if n = 13 then [bslash, CHR ''r'']
     else if n < 32 \<or> a \<and> 127 \<le> n then [bslash, CHR ''u'', CHR ''0'', CHR ''0'', hex_digit (n div 16), hex_digit (n mod 16)]
     else [c])"

definition quote :: "bool \<Rightarrow> string \<Rightarrow> string" where
  "quote a s = dquote # concat (map (esc_char a) s) @ [dquote]"

definition show_int :: "int \<Rightarrow> string" where
  "show_int i = (if i < 0 then CHR ''-'' # show_nat (nat (- i)) else show_nat (nat i))"

fun render :: "bool \<Rightarrow> json \<Rightarrow> string" where
  "render a JNull = ''null''"
| "render a (JBool b) = (if b then ''true'' else ''false'')"
| "render a (JInt i) = show_int i"
| "render a (JStr s) = quote a s"
| "render a (JList vs) = ''['' @ join '','' (map (render a) vs) @ '']''"
| "render a (JObj kvs) = ''{'' @ join '','' (map (\<lambda>(k, v). quote a k @ '':'' @ render a v) kvs) @ ''}''"

definition json_dumps :: "json \<Rightarrow> string" where
  "json_dumps v = render False (json_norm v)"

text \<open>The same call with the default \<open>ensure_ascii=True\<close>.\<close>

definition json_dumps_ascii :: "json \<Rightarrow> string" where
  "json_dumps_ascii v = render True (json_norm v)"

section \<open>Objects written out\<close>

lemma map_norm_eq:
  assumes "\<And>x y. json_norm (g x) = json_norm (g y) \<longleftrightarrow> x = y"
  shows "map (json_norm \<circ> g) xs = map (json_norm \<circ> g) ys \<longleftrightarrow> xs = ys"
  using assms by (simp add: inj_map_eq_map [of "json_norm \<circ> g"] inj_def)

text \<open>The keys of an object written out, sorted by the simplifier.\<close>

lemma insort_pair:
  "insort_key fst (a, b) [] = [(a, b)]"
  "insort_key fst (a, b) ((c, d) # xs) =
     (if a \<le> c then (a, b) # (c, d) # xs else (c, d) # insort_key fst (a, b) xs)"
  by simp_all

lemma sort_key_Cons: "sort_key f (x # xs) = insort_key f x (sort_key f xs)"
  by (simp add: sort_key_def)

lemma sort_key_Nil: "sort_key f [] = []"
  by (simp add: sort_key_def)

lemmas sort_literal = last_wins_id sort_key_Cons sort_key_Nil insort_pair

section \<open>Objects with floats\<close>

text \<open>The canonical text of an object is put together from the texts of its values, in key order. Floats
  are rational numbers whose text an argument \<open>show_float\<close> gives.\<close>

definition int_json :: "int option \<Rightarrow> json" where
  "int_json x = (case x of None \<Rightarrow> JNull | Some v \<Rightarrow> JInt v)"

definition str_text :: "string \<Rightarrow> string" where
  "str_text s = render False (JStr s)"

definition bool_text :: "bool \<Rightarrow> string" where
  "bool_text b = render False (JBool b)"

definition object_text :: "(string \<times> string) list \<Rightarrow> string" where
  "object_text kvs = ''{'' @ join '','' (map (\<lambda>(k, v). quote False k @ '':'' @ v) kvs) @ ''}''"

definition array_text :: "string list \<Rightarrow> string" where
  "array_text vs = ''['' @ join '','' vs @ '']''"

end
