(* ===== verification/Json.thy ===== *)
theory Json
  imports Json_Text
begin

text \<open>
  \<open>json.loads\<close>: the strict reader of JSON texts, with white space, escapes, the number syntax and the
  check that nothing follows the value. It refuses what the datatype has no value for: floats
  and escapes beyond Latin-1. What the program prints is read back
  (\<open>json_read_dumps\<close>), so the printer is injective up to the order of object keys
  (\<open>json_dumps_eq_iff\<close>), which is what tamper detection rests on.
\<close>

section \<open>The reader\<close>

definition json_space :: "char \<Rightarrow> bool" where
  "json_space c \<longleftrightarrow> c \<in> {CHR 0x09, CHR 0x0A, CHR 0x0D, CHR '' ''}"

abbreviation skip :: "string \<Rightarrow> string" where
  "skip s \<equiv> dropWhile json_space s"

definition hex_value :: "char \<Rightarrow> nat option" where
  "hex_value c = (let n = (of_char c :: nat) in
     if 48 \<le> n \<and> n \<le> 57 then Some (n - 48)
     else if 97 \<le> n \<and> n \<le> 102 then Some (n - 87)
     else if 65 \<le> n \<and> n \<le> 70 then Some (n - 55) else None)"

text \<open>The escapes of one character, and the code unit after \<open>\\u\<close> as far as it is below 256.\<close>

definition simple_escape :: "char \<Rightarrow> char option" where
  "simple_escape e = (if e = dquote \<or> e = bslash \<or> e = CHR ''/'' then Some e
     else if e = CHR ''b'' then Some (char_of (8::nat)) else if e = CHR ''t'' then Some (char_of (9::nat))
     else if e = CHR ''n'' then Some (char_of (10::nat)) else if e = CHR ''f'' then Some (char_of (12::nat))
     else if e = CHR ''r'' then Some (char_of (13::nat)) else None)"

definition code_unit :: "char \<Rightarrow> char \<Rightarrow> char \<Rightarrow> char \<Rightarrow> char option" where
  "code_unit a b c d = (case (hex_value a, hex_value b, hex_value c, hex_value d) of
       (Some w, Some x, Some y, Some z) \<Rightarrow> if w = 0 \<and> x = 0 then Some (char_of (16 * y + z)) else None
     | _ \<Rightarrow> None)"

abbreviation prepend :: "'a option \<Rightarrow> ('a list \<times> 'b) option \<Rightarrow> ('a list \<times> 'b) option" where
  "prepend x m \<equiv> (case x of None \<Rightarrow> None | Some c \<Rightarrow> map_option (\<lambda>(t, r). (c # t, r)) m)"

text \<open>The text after an opening quote: raw control characters are refused.\<close>

fun read_str :: "string \<Rightarrow> (string \<times> string) option" where
  "read_str [] = None"
| "read_str (c # s) =
     (if c = dquote then Some ([], s)
      else if c \<noteq> bslash then (if (of_char c :: nat) < 32 then None else prepend (Some c) (read_str s))
      else case s of [] \<Rightarrow> None
        | e # r \<Rightarrow> if e \<noteq> CHR ''u'' then prepend (simple_escape e) (read_str r)
            else (case r of h1 # h2 # h3 # h4 # r' \<Rightarrow> prepend (code_unit h1 h2 h3 h4) (read_str r') | _ \<Rightarrow> None))"

definition read_digits :: "string \<Rightarrow> (nat \<times> string) option" where
  "read_digits s = (case s of [] \<Rightarrow> None
     | c # r \<Rightarrow> if c = CHR ''0'' then Some (0, r)
         else if is_digit c then Some (read_nat (takeWhile is_digit s), dropWhile is_digit s) else None)"

text \<open>An integer; with a fraction or an exponent it would be a float.\<close>

definition float_follows :: "string \<Rightarrow> bool" where
  "float_follows r = (case r of [] \<Rightarrow> False | c # _ \<Rightarrow> c \<in> {CHR ''.'', CHR ''e'', CHR ''E''})"

definition read_int :: "string \<Rightarrow> (int \<times> string) option" where
  "read_int s = (let minus = prefixed ''-'' s in
     case read_digits (if minus then tl s else s) of None \<Rightarrow> None
     | Some (n, r) \<Rightarrow> if float_follows r then None else Some (if minus then - int n else int n, r))"

text \<open>
  The reader recurses on fuel: twice the length of the text is enough (\<open>read_fuel\<close>). Elements and
  members are read after their opening bracket and the white space behind it.
\<close>

fun read_value :: "nat \<Rightarrow> string \<Rightarrow> (json \<times> string) option"
  and read_items :: "nat \<Rightarrow> string \<Rightarrow> (json list \<times> string) option"
  and read_members :: "nat \<Rightarrow> string \<Rightarrow> ((string \<times> json) list \<times> string) option" where
  "read_value 0 s = None"
| "read_value (Suc k) s =
     (if prefixed [dquote] s then map_option (\<lambda>(t, r). (JStr t, r)) (read_str (tl s))
      else if prefixed ''{'' s then
        (if prefixed ''}'' (skip (tl s)) then Some (JObj [], tl (skip (tl s)))
         else map_option (\<lambda>(kvs, r). (JObj kvs, r)) (read_members k (skip (tl s))))
      else if prefixed ''['' s then
        (if prefixed '']'' (skip (tl s)) then Some (JList [], tl (skip (tl s)))
         else map_option (\<lambda>(vs, r). (JList vs, r)) (read_items k (skip (tl s))))
      else if prefixed ''null'' s then Some (JNull, drop 4 s)
      else if prefixed ''true'' s then Some (JBool True, drop 4 s)
      else if prefixed ''false'' s then Some (JBool False, drop 5 s)
      else map_option (\<lambda>(i, r). (JInt i, r)) (read_int s))"
| "read_items 0 s = None"
| "read_items (Suc k) s =
     (case read_value k s of None \<Rightarrow> None
      | Some (v, r) \<Rightarrow>
          if prefixed '','' (skip r) then prepend (Some v) (read_items k (skip (tl (skip r))))
          else if prefixed '']'' (skip r) then Some ([v], tl (skip r)) else None)"
| "read_members 0 s = None"
| "read_members (Suc k) s =
     (if \<not> prefixed [dquote] s then None else case read_str (tl s) of None \<Rightarrow> None
      | Some (key, r) \<Rightarrow> if \<not> prefixed '':'' (skip r) then None
          else (case read_value k (skip (tl (skip r))) of None \<Rightarrow> None
           | Some (v, r') \<Rightarrow>
               if prefixed '','' (skip r') then prepend (Some (key, v)) (read_members k (skip (tl (skip r'))))
               else if prefixed ''}'' (skip r') then Some ([(key, v)], tl (skip r')) else None))"

text \<open>One value, with white space around it and nothing else.\<close>

definition json_parse :: "string \<Rightarrow> json option" where
  "json_parse s = (case read_value (Suc (2 * length s)) (skip s) of None \<Rightarrow> None
     | Some (v, r) \<Rightarrow> if skip r = [] then Some v else None)"

fun json_dict :: "json \<Rightarrow> json" where
  "json_dict (JList vs) = JList (map json_dict vs)"
| "json_dict (JObj kvs) = JObj (last_wins (map (\<lambda>(k, v). (k, json_dict v)) kvs))"
| "json_dict v = v"

definition json_read :: "string \<Rightarrow> json option" where
  "json_read s = map_option json_dict (json_parse s)"

section \<open>Fuel\<close>

lemma prefixed_simps [simp]:
  "prefixed [] s" "prefixed (a # p) (c # s) \<longleftrightarrow> a = c \<and> prefixed p s" "\<not> prefixed (a # p) []"
  by (auto simp: prefixed_def)

lemma prefixed_length: "prefixed p s \<Longrightarrow> length p \<le> length s"
  by (auto simp: prefixed_def) (metis length_take min.cobounded1)

lemma skip_length: "length (skip s) \<le> length s"
  by (rule length_dropWhile_le)

lemma read_str_length: "read_str s = Some (t, r) \<Longrightarrow> length r < length s"
  by (induction s arbitrary: t rule: read_str.induct) (fastforce split: if_splits list.splits option.splits)+

lemma read_digits_length: "read_digits s = Some (n, r) \<Longrightarrow> length r < length s"
  using length_dropWhile_le [of is_digit "tl s"]
  by (cases s) (auto simp: read_digits_def split: if_splits)

lemma read_int_length: "read_int s = Some (i, r) \<Longrightarrow> length r < length s"
  by (auto simp: read_int_def Let_def split: option.splits if_splits dest!: read_digits_length)

lemma skip_tl_length: "prefixed (c # p) (skip s) \<Longrightarrow> length (skip (tl (skip s))) < length s" "prefixed (c # p) (skip s) \<Longrightarrow> length (tl (skip s)) < length s"
proof -
  assume "prefixed (c # p) (skip s)"
  then obtain t where t: "skip s = c # t" by (cases "skip s") auto
  with skip_length [of s] have "length t < length s" by simp
  with t skip_length [of t] show "length (skip (tl (skip s))) < length s" "length (tl (skip s)) < length s" by simp_all
qed

lemma read_length:
  "read_value k s = Some (v, r) \<Longrightarrow> length r < length s"
  "read_items k s = Some (vs, r) \<Longrightarrow> length r < length s"
  "read_members k s = Some (kvs, r) \<Longrightarrow> length r < length s"
proof (induction k s and k s and k s arbitrary: v r and vs r and kvs r rule: read_value_read_items_read_members.induct)
  case (2 k s)
  have sk: "length (skip (tl s)) < length s" "length (tl s) < length s" "length (tl (skip (tl s))) < length s" if "prefixed (c # p) s" for c p
    using that skip_length [of "tl s"] by (cases s; simp)+
  show ?case
  proof (cases "prefixed [dquote] s \<or> prefixed ''{'' s \<or> prefixed ''['' s")
    case True
    with "2.prems" "2.IH" sk show ?thesis
      by (fastforce split: if_splits dest!: read_str_length dest: order.strict_trans)
  next
    case False
    with "2.prems" show ?thesis
      using prefixed_length [of "''null''" s] prefixed_length [of "''true''" s] prefixed_length [of "''false''" s]
      by (auto split: if_splits dest!: read_int_length)
  qed
next
  case (4 k s)
  from "4.prems" obtain v r1 where v: "read_value k s = Some (v, r1)" by (auto split: option.splits)
  with "4.IH"(1) have "length r1 < length s" by blast
  with "4.prems" v "4.IH"(2) [OF v refl] skip_tl_length [of _ "[]" r1] show ?case
    by (auto split: if_splits) (meson order.strict_trans)+
next
  case (6 k s)
  from "6.prems" obtain key r1 where key: "prefixed [dquote] s" "read_str (tl s) = Some (key, r1)"
    by (auto split: if_splits option.splits)
  with "6.prems" obtain v r2 where v: "prefixed '':'' (skip r1)" "read_value k (skip (tl (skip r1))) = Some (v, r2)"
    by (auto split: if_splits option.splits)
  have "length r1 < length s" using key read_str_length [of "tl s"] by (cases s) auto
  with v "6.IH"(1) [OF _ key(2) refl] key(1) skip_tl_length(1) [of "CHR '':''" "[]" r1] have "length r2 < length s" by force
  with "6.prems" key v "6.IH"(2) [OF _ key(2) refl _ v(2) refl] skip_tl_length [of _ "[]" r2] show ?case
    by (auto split: if_splits) (meson order.strict_trans)+
qed simp_all

text \<open>Twice the length of a text is enough fuel: more never changes what is read.\<close>

lemma read_fuel:
  "read_value k s = Some x \<Longrightarrow> 2 * length s < n \<Longrightarrow> read_value n s = Some x"
  "read_items k s = Some y \<Longrightarrow> 2 * length s + 1 < n \<Longrightarrow> read_items n s = Some y"
  "read_members k s = Some z \<Longrightarrow> 2 * length s + 1 < n \<Longrightarrow> read_members n s = Some z"
proof (induction k s and k s and k s arbitrary: x n and y n and z n rule: read_value_read_items_read_members.induct)
  case (2 k s)
  obtain m where n: "n = Suc m" using "2.prems"(2) by (cases n) auto
  have sk: "2 * length (skip (tl s)) + 1 < m" if "prefixed (c # p) s" for c p
    using that "2.prems"(2) n skip_length [of "tl s"] by (cases s) auto
  show ?case
  proof (cases "\<not> prefixed [dquote] s \<and> prefixed ''{'' s \<and> \<not> prefixed ''}'' (skip (tl s))")
    case True
    with "2.prems"(1) obtain z where z: "read_members k (skip (tl s)) = Some z" "x = (case z of (kvs, r) \<Rightarrow> (JObj kvs, r))" by auto
    have "read_members m (skip (tl s)) = Some z" using "2.IH"(1) True z(1) sk by blast
    with True z(2) n show ?thesis by simp
  next
    case obj: False
    show ?thesis
    proof (cases "\<not> prefixed [dquote] s \<and> \<not> prefixed ''{'' s \<and> prefixed ''['' s \<and> \<not> prefixed '']'' (skip (tl s))")
      case True
      with "2.prems"(1) obtain z where z: "read_items k (skip (tl s)) = Some z" "x = (case z of (vs, r) \<Rightarrow> (JList vs, r))" by auto
      have "read_items m (skip (tl s)) = Some z" using "2.IH"(2) True z(1) sk by blast
      with True z(2) n show ?thesis by simp
    next
      case False
      then have "read_value (Suc m) s = read_value (Suc k) s"
        using obj by (cases "prefixed [dquote] s"; cases "prefixed ''{'' s"; cases "prefixed ''['' s") simp_all
      with n "2.prems"(1) show ?thesis by simp
    qed
  qed
next
  case (4 k s)
  obtain m where n: "n = Suc m" using "4.prems"(2) by (cases n) auto
  from "4.prems"(1) obtain v r where v: "read_value k s = Some (v, r)" by (cases "read_value k s") auto
  have "2 * length s < m" using "4.prems"(2) n by simp
  with "4.IH"(1) [OF v] have v': "read_value m s = Some (v, r)" by blast
  have "2 * length (skip (tl (skip r))) + 1 < m" if "prefixed '','' (skip r)"
    using skip_tl_length(1) [OF that] read_length(1) [OF v] "4.prems"(2) n by linarith
  note rest = this
  show ?case
  proof (cases "prefixed '','' (skip r)")
    case True
    with "4.prems"(1) v obtain z where z: "read_items k (skip (tl (skip r))) = Some z" "y = (case z of (vs, r') \<Rightarrow> (v # vs, r'))"
      by auto
    have "read_items m (skip (tl (skip r))) = Some z" using "4.IH"(2) [OF v refl True refl z(1) rest [OF True]] .
    with z(2) True v' n show ?thesis by simp
  next
    case False
    with "4.prems"(1) v v' n show ?thesis by simp
  qed
next
  case (6 k s)
  obtain m where n: "n = Suc m" using "6.prems"(2) by (cases n) auto
  from "6.prems"(1) obtain key r where key: "prefixed [dquote] s" "read_str (tl s) = Some (key, r)"
    by (auto split: if_splits option.splits)
  with "6.prems"(1) obtain v r' where v: "prefixed '':'' (skip r)" "read_value k (skip (tl (skip r))) = Some (v, r')"
    by (auto split: if_splits option.splits)
  have r: "length r < length s" using key read_str_length [of "tl s"] by (cases s) auto
  have "2 * length (skip (tl (skip r))) < m" using skip_tl_length(1) [OF v(1)] r "6.prems"(2) n by linarith
  then have v': "read_value m (skip (tl (skip r))) = Some (v, r')" using "6.IH"(1) [OF _ key(2) refl _ v(2)] key(1) v(1) by blast
  have "2 * length (skip (tl (skip r'))) + 1 < m" if "prefixed '','' (skip r')"
    using skip_tl_length(1) [OF that] read_length(1) [OF v(2)] skip_tl_length(1) [OF v(1)] r "6.prems"(2) n by linarith
  note rest = this
  show ?case
  proof (cases "prefixed '','' (skip r')")
    case True
    with "6.prems"(1) key v obtain z' where z: "read_members k (skip (tl (skip r'))) = Some z'"
      "z = (case z' of (kvs, r'') \<Rightarrow> ((key, v) # kvs, r''))"
      by auto
    have "read_members m (skip (tl (skip r'))) = Some z'"
      using "6.IH"(2) [OF _ key(2) refl _ v(2) refl True refl z(1) rest [OF True]] key(1) v(1) by blast
    with z(2) True key v(1) v' n show ?thesis by simp
  next
    case False
    with "6.prems"(1) key v v' n show ?thesis by simp
  qed
qed simp_all

lemma json_parse_fuel: "read_value k (skip s) = Some (v, r) \<Longrightarrow> skip r = [] \<Longrightarrow> json_parse s = Some v"
  using read_fuel(1) [of k "skip s" "(v, r)" "Suc (2 * length s)"] skip_length [of s] by (simp add: json_parse_def del: read_value.simps)

section \<open>Reading back what was printed\<close>

lemma hex_value_digit: "d < 16 \<Longrightarrow> hex_value (hex_digit d) = Some d"
  by (auto simp: hex_value_def hex_digit_def Let_def)

lemma read_str_esc: "read_str (esc_char a c @ t) = prepend (Some c) (read_str t)"
proof -
  define n where "n = (of_char c :: nat)"
  have c: "c = char_of n" by (simp add: n_def)
  have "n < 256" by (simp add: n_def)
  moreover have "hex_value (CHR ''0'') = Some 0" by (simp add: hex_value_def)
  ultimately have hex: "n < 32 \<or> 127 \<le> n \<Longrightarrow> code_unit (CHR ''0'') (CHR ''0'') (hex_digit (n div 16)) (hex_digit (n mod 16)) = Some c"
    by (simp add: code_unit_def hex_value_digit c)
  consider "c = dquote" | "c = bslash" | "n = 8" | "n = 9" | "n = 10" | "n = 12" | "n = 13"
    | "n < 32 \<or> a \<and> 127 \<le> n" "c \<noteq> dquote" "c \<noteq> bslash" "n \<notin> {8, 9, 10, 12, 13}"
    | "\<not> n < 32" "\<not> (a \<and> 127 \<le> n)" "c \<noteq> dquote" "c \<noteq> bslash"
    by blast
  then show ?thesis
  proof cases
    case 8
    then have "esc_char a c = [bslash, CHR ''u'', CHR ''0'', CHR ''0'', hex_digit (n div 16), hex_digit (n mod 16)]"
      by (simp add: esc_char_def Let_def n_def)
    with hex 8(1) show ?thesis by auto
  next
    case 9
    then have "esc_char a c = [c]" by (simp add: esc_char_def Let_def n_def)
    with 9 show ?thesis by (simp add: n_def)
  qed (simp_all add: esc_char_def Let_def simple_escape_def c)
qed

lemma read_str_escaped: "read_str (concat (map (esc_char a) s) @ dquote # r) = Some (s, r)"
  by (induction s) (simp_all add: read_str_esc)

text \<open>What may follow a number that was printed.\<close>

definition number_end :: "string \<Rightarrow> bool" where
  "number_end r = (case r of [] \<Rightarrow> True | c # _ \<Rightarrow> \<not> is_digit c \<and> c \<notin> {CHR ''.'', CHR ''e'', CHR ''E''})"

lemma number_end_Cons [simp]: "number_end (c # r) \<longleftrightarrow> \<not> is_digit c \<and> c \<notin> {CHR ''.'', CHR ''e'', CHR ''E''}"
  by (simp add: number_end_def)

lemma number_end_Nil [simp]: "number_end []"
  by (simp add: number_end_def)

lemma not_digits [simp]: "\<not> is_digit (CHR '','')" "\<not> is_digit (CHR '']'')" "\<not> is_digit (CHR ''}'')"
  by (simp_all add: is_digit_def)

lemma takeWhile_show_nat:
  assumes "number_end r"
  shows "takeWhile is_digit (show_nat n @ r) = show_nat n" "dropWhile is_digit (show_nat n @ r) = r"
proof -
  have d: "\<forall>c \<in> set (show_nat n). is_digit c" using show_nat_digits by (simp add: list_all_iff)
  have r: "takeWhile is_digit r = [] \<and> dropWhile is_digit r = r"
    using assms by (cases r) auto
  show "takeWhile is_digit (show_nat n @ r) = show_nat n" "dropWhile is_digit (show_nat n @ r) = r"
    using d r by (simp_all add: takeWhile_append2 dropWhile_append2)
qed

lemma show_nat_Cons: "\<exists>c cs. show_nat n = c # cs \<and> is_digit c"
  using show_nat_digits [of n] by (cases "show_nat n") auto

lemma show_nat_0 [simp]: "show_nat 0 = ''0''"
proof -
  have "(of_char (CHR ''0'') :: nat) = 48" by simp
  then have "char_of (48 :: nat) = CHR ''0''" by (metis char_of_char)
  then show ?thesis by (simp add: show_nat.simps [of 0] digit_def)
qed

lemma show_nat_leading: "n \<noteq> 0 \<Longrightarrow> hd (show_nat n) \<noteq> CHR ''0''"
proof (induction n rule: show_nat.induct)
  case (1 n)
  show ?case
  proof (cases "n < 10")
    case True
    then have "(of_char (digit n) :: nat) \<noteq> of_char (CHR ''0'')" using 1(2) by (simp add: of_char_digit)
    then have "digit n \<noteq> CHR ''0''" by metis
    then show ?thesis using True by (simp add: show_nat.simps [of n])
  next
    case False
    then show ?thesis using 1(1) by (simp add: show_nat.simps [of n])
  qed
qed

lemma read_digits_show: "number_end r \<Longrightarrow> read_digits (show_nat n @ r) = Some (n, r)"
proof (cases "n = 0")
  case False
  assume r: "number_end r"
  obtain c cs where c: "show_nat n = c # cs" "is_digit c" using show_nat_Cons by blast
  with show_nat_leading [OF False] have "c \<noteq> CHR ''0''" by simp
  with c takeWhile_show_nat [OF r, of n] read_show_nat [of n] show ?thesis by (simp add: read_digits_def)
qed (simp add: read_digits_def)

lemma no_float: "number_end r \<Longrightarrow> \<not> float_follows r"
  by (cases r) (auto simp: float_follows_def)

lemma show_int_Cons: "\<exists>c cs. show_int i = c # cs \<and> (is_digit c \<or> c = CHR ''-'')"
  using show_nat_Cons [of "nat i"] by (auto simp: show_int_def)

lemma read_show_int: "number_end r \<Longrightarrow> read_int (show_int i @ r) = Some (i, r)"
proof (cases "i < 0")
  case True
  assume "number_end r"
  with True show ?thesis by (simp add: read_int_def show_int_def read_digits_show no_float)
next
  case False
  assume r: "number_end r"
  obtain c cs where c: "show_nat (nat i) = c # cs" "is_digit c" using show_nat_Cons by blast
  then have "\<not> prefixed ''-'' (show_nat (nat i) @ r)" by (auto simp: is_digit_def)
  then show ?thesis using False r by (simp add: read_int_def show_int_def read_digits_show no_float)
qed

text \<open>A printed value starts with no white space and no closing bracket.\<close>

lemma render_Cons: "\<exists>c cs. render a v = c # cs \<and> c \<noteq> CHR '']'' \<and> c \<noteq> CHR ''}'' \<and> \<not> json_space c"
proof (cases v)
  case (JInt i)
  then show ?thesis using show_int_Cons [of i] by (auto simp: is_digit_def json_space_def)
qed (auto simp: quote_def json_space_def)

lemma skip_Cons [simp]: "\<not> json_space c \<Longrightarrow> skip (c # s) = c # s"
  by simp

lemma not_spaces [simp]: "\<not> json_space (CHR '','')" "\<not> json_space (CHR '']'')" "\<not> json_space (CHR ''}'')" "\<not> json_space (CHR '':'')"
  "\<not> json_space dquote"
  by (simp_all add: json_space_def)

lemma skip_render [simp]: "skip (render a v @ r) = render a v @ r"
  using render_Cons [of a v] by (metis append_Cons skip_Cons)

lemma skip_quote [simp]: "skip (quote a s @ r) = quote a s @ r"
  by (simp add: quote_def)

definition reads_back :: "bool \<Rightarrow> json \<Rightarrow> bool" where
  "reads_back a v \<longleftrightarrow> (\<forall>k r. length (render a v) \<le> k \<longrightarrow> number_end r \<longrightarrow>
     read_value k (render a v @ r) = Some (v, r))"

lemma reads_backD:
  "reads_back a v \<Longrightarrow> length (render a v) \<le> k \<Longrightarrow> number_end r \<Longrightarrow>
     read_value k (render a v @ r) = Some (v, r)"
  by (simp add: reads_back_def)

lemma reads_backI:
  assumes "\<And>k r. length (render a v) \<le> Suc k \<Longrightarrow> number_end r \<Longrightarrow>
     read_value (Suc k) (render a v @ r) = Some (v, r)"
  shows "reads_back a v"
proof -
  have "length (render a v) \<noteq> 0" using render_Cons [of a v] by auto
  then show ?thesis unfolding reads_back_def using assms by (metis Suc_pred le_zero_eq neq0_conv)
qed

lemma read_items_render:
  "vs \<noteq> [] \<Longrightarrow> \<forall>v \<in> set vs. reads_back a v \<Longrightarrow> length (join '','' (map (render a) vs)) < k \<Longrightarrow>
     read_items k (join '','' (map (render a) vs) @ '']'' @ r) = Some (vs, r)"
proof (induction vs arbitrary: k rule: induct_list012)
  case (2 v)
  then obtain k' where "k = Suc k'" by (cases k) auto
  with 2 show ?case by (simp add: reads_backD)
next
  case (3 v w ws)
  then obtain k' where k: "k = Suc k'" by (cases k) auto
  let ?rest = "join '','' (map (render a) (w # ws)) @ '']'' @ r"
  have skip: "skip ?rest = ?rest" by (cases ws) simp_all
  from 3 k have "read_value k' (render a v @ CHR '','' # ?rest) = Some (v, CHR '','' # ?rest)"
    by (intro reads_backD) auto
  moreover from 3 k have "read_items k' ?rest = Some (w # ws, r)" by (intro "3.IH") auto
  ultimately show ?case using k skip by simp
qed simp

abbreviation render_member :: "bool \<Rightarrow> string \<times> json \<Rightarrow> string" where
  "render_member a kv \<equiv> (case kv of (k, v) \<Rightarrow> quote a k @ '':'' @ render a v)"

lemma read_members_render:
  "kvs \<noteq> [] \<Longrightarrow> \<forall>kv \<in> set kvs. reads_back a (snd kv) \<Longrightarrow>
     length (join '','' (map (render_member a) kvs)) < k \<Longrightarrow>
     read_members k (join '','' (map (render_member a) kvs) @ ''}'' @ r) = Some (kvs, r)"
proof (induction kvs arbitrary: k rule: induct_list012)
  case (2 kv)
  then obtain k' where "k = Suc k'" by (cases k) auto
  with 2 show ?case
    by (cases kv) (simp add: quote_def read_str_escaped reads_backD)
next
  case (3 kv kw kvs)
  then obtain k' where k: "k = Suc k'" by (cases k) auto
  let ?rest = "join '','' (map (render_member a) (kw # kvs)) @ ''}'' @ r"
  have skip: "skip ?rest = ?rest" by (cases kvs; cases kw) simp_all
  from 3 k have "read_value k' (render a (snd kv) @ CHR '','' # ?rest) = Some (snd kv, CHR '','' # ?rest)"
    by (intro reads_backD) (auto split: prod.splits)
  moreover from 3 k have "read_members k' ?rest = Some (kw # kvs, r)" by (intro "3.IH") auto
  ultimately show ?case using k skip
    by (cases kv) (simp add: quote_def read_str_escaped)
qed simp

lemma reads_back_JInt: "reads_back a (JInt i)"
proof -
  obtain c cs where c: "show_int i = c # cs" "is_digit c \<or> c = CHR ''-''"
    using show_int_Cons by blast
  from c(2) have "c \<noteq> CHR ''n''" "c \<noteq> CHR ''t''" "c \<noteq> CHR ''f''" "c \<noteq> dquote" "c \<noteq> CHR ''[''" "c \<noteq> CHR ''{''"
    by (auto simp: is_digit_def)
  moreover have "number_end r \<Longrightarrow> read_int (c # cs @ r) = Some (i, r)" for r
    using read_show_int [of r i] c by simp
  ultimately show ?thesis
    by (intro reads_backI) (auto simp: c)
qed

lemma reads_back_all: "reads_back a v"
proof (induction v)
  case (JList vs)
  show ?case
  proof (cases "vs = []")
    case False
    then obtain w ws where "vs = w # ws" by (cases vs) auto
    then obtain c cs where c: "join '','' (map (render a) vs) = c # cs" "c \<noteq> CHR '']''" "\<not> json_space c"
      using render_Cons [of a w] by (cases ws) auto
    show ?thesis
      using read_items_render [OF False, of a] JList c by (intro reads_backI) auto
  qed (auto intro!: reads_backI)
next
  case (JObj kvs)
  show ?case
  proof (cases "kvs = []")
    case False
    then obtain cs where c: "join '','' (map (render_member a) kvs) = dquote # cs"
      by (cases kvs rule: remdups_adj.cases) (auto simp: quote_def)
    have "\<forall>kv \<in> set kvs. reads_back a (snd kv)" using JObj by fastforce
    with read_members_render [OF False this] c show ?thesis by (intro reads_backI) auto
  qed (auto intro!: reads_backI)
qed (auto intro!: reads_backI reads_back_JInt simp: quote_def read_str_escaped)

lemma json_parse_padded:
  assumes "\<forall>c \<in> set pad. json_space c"
  shows "json_parse (render a v @ pad) = Some v"
proof -
  have "number_end (c # p)" if "json_space c" for c p
    using that by (auto simp: json_space_def is_digit_def)
  then have "number_end pad" using assms by (cases pad) simp_all
  from reads_backD [OF reads_back_all order_refl this, of a v] have
    "read_value (length (render a v)) (skip (render a v @ pad)) = Some (v, pad)" by (simp only: skip_render)
  moreover have "skip pad = []" using assms by (simp add: dropWhile_eq_Nil_conv)
  ultimately show ?thesis by (rule json_parse_fuel)
qed

lemma json_dict_norm [simp]: "json_dict (json_norm v) = json_norm v"
proof (induction v)
  case (JObj kvs)
  let ?xs = "sort_key fst (last_wins (map (\<lambda>(k, v). (k, json_norm v)) kvs))"
  have "map (\<lambda>(k, v). (k, json_dict v)) ?xs = ?xs"
    by (rule map_idI) (use JObj norm_members [of _ _ kvs] in \<open>fastforce\<close>)
  then show ?case by (simp add: last_wins_id)
qed simp_all

lemma json_read_padded: "\<forall>c \<in> set pad. json_space c \<Longrightarrow> json_read (json_dumps v @ pad) = Some (json_norm v)"
  by (simp add: json_read_def json_dumps_def json_parse_padded)

lemma json_read_dumps: "json_read (json_dumps v) = Some (json_norm v)"
  using json_read_padded [of "[]"] by simp

lemma json_dumps_ascii_eq_iff: "json_dumps_ascii v = json_dumps_ascii w \<longleftrightarrow> json_norm v = json_norm w"
  using json_parse_padded [of "[]" True] by (metis append_Nil2 json_dumps_ascii_def list.set(1) ball_empty option.inject)

lemma json_dumps_eq_iff: "json_dumps v = json_dumps w \<longleftrightarrow> json_norm v = json_norm w"
  by (metis json_dumps_def json_read_dumps option.inject)

end
