(* ===== verification/Hash_Chain.thy ===== *)
theory Hash_Chain
  imports Prelude
begin

text \<open>
  The interface of a hash-chained log. The in-memory audit ledger, the incident history and the
  trust review queue interpret it, and the SQLite ledger refines the first of them. Each event carries the hash of its predecessor and the
  digest of a text (its material) that covers its content and the predecessor's hash.
  The digest \<open>sha\<close> stands for \<open>hashlib.sha256(...).hexdigest()\<close> of the UTF-8
  bytes of a text and is an arbitrary function throughout: no lemma assumes that it has no
  collisions; instead a collision appears as an explicit pair of materials in a conclusion.
\<close>

section \<open>Chains as lists\<close>

fun linked :: "('e \<Rightarrow> string) \<Rightarrow> ('e \<Rightarrow> string) \<Rightarrow> string \<Rightarrow> 'e list \<Rightarrow> bool" where
  "linked prev_of hash_of p [] \<longleftrightarrow> True"
| "linked prev_of hash_of p (e # es) \<longleftrightarrow> prev_of e = p \<and> linked prev_of hash_of (hash_of e) es"

definition last_hash :: "('e \<Rightarrow> string) \<Rightarrow> string \<Rightarrow> 'e list \<Rightarrow> string" where
  "last_hash hash_of p es = (if es = [] then p else hash_of (last es))"

definition signed :: "(string \<Rightarrow> string) \<Rightarrow> ('e \<Rightarrow> string) \<Rightarrow> ('e \<Rightarrow> string) \<Rightarrow> 'e list \<Rightarrow> bool" where
  "signed sha material hash_of es \<longleftrightarrow> list_all (\<lambda>e. sha (material e) = hash_of e) es"

text \<open>A collision between two logs: two materials at the same position, different, with one digest.\<close>

definition collision :: "(string \<Rightarrow> string) \<Rightarrow> ('e \<Rightarrow> string) \<Rightarrow> 'e list \<Rightarrow> 'e list \<Rightarrow> bool" where
  "collision sha material es es' \<longleftrightarrow>
     list_ex (\<lambda>(e, e'). material e \<noteq> material e' \<and> sha (material e) = sha (material e')) (zip es es')"

lemma last_hash_Nil [simp]: "last_hash hash_of p [] = p"
  by (simp add: last_hash_def)

lemma last_hash_snoc [simp]: "last_hash hash_of p (es @ [e]) = hash_of e"
  by (simp add: last_hash_def)

lemma last_hash_Cons: "last_hash hash_of p (e # es) = last_hash hash_of (hash_of e) es"
  by (simp add: last_hash_def)

lemma linked_append:
  "linked prev_of hash_of p (es @ fs) \<longleftrightarrow>
     linked prev_of hash_of p es \<and> linked prev_of hash_of (last_hash hash_of p es) fs"
  by (induction es arbitrary: p) (auto simp: last_hash_Cons)

lemma signed_simps [simp]:
  "signed sha material hash_of []"
  "signed sha material hash_of (e # es) \<longleftrightarrow> sha (material e) = hash_of e \<and> signed sha material hash_of es"
  "signed sha material hash_of (es @ fs) \<longleftrightarrow>
     signed sha material hash_of es \<and> signed sha material hash_of fs"
  by (auto simp: signed_def)

lemma collision_snoc:
  "length es = length es' \<Longrightarrow>
   collision sha material (es @ [e]) (es' @ [e']) \<longleftrightarrow>
     collision sha material es es' \<or> (material e \<noteq> material e' \<and> sha (material e) = sha (material e'))"
  by (auto simp: collision_def)

section \<open>The contract of a log\<close>

locale hash_chain =
  fixes sha :: "string \<Rightarrow> string"
    and material :: "'e \<Rightarrow> string"
    and prev_of :: "'e \<Rightarrow> string"
    and hash_of :: "'e \<Rightarrow> string"
    and content :: "'e \<Rightarrow> 'c"
  assumes material_covers: "material e = material e' \<Longrightarrow> content e = content e'"
    and content_prev: "content e = content e' \<Longrightarrow> prev_of e = prev_of e'"
begin

lemma append_verified:
  assumes "linked prev_of hash_of p es" "signed sha material hash_of es"
    and "prev_of e = last_hash hash_of p es" "hash_of e = sha (material e)"
  shows "linked prev_of hash_of p (es @ [e]) \<and> signed sha material hash_of (es @ [e])"
  using assms by (simp add: linked_append)

lemma same_head_same_content:
  "length es = length es' \<Longrightarrow> linked prev_of hash_of p es \<Longrightarrow> linked prev_of hash_of p es' \<Longrightarrow>
   signed sha material hash_of es \<Longrightarrow> signed sha material hash_of es' \<Longrightarrow>
   last_hash hash_of p es = last_hash hash_of p es' \<Longrightarrow>
   map content es = map content es' \<or> collision sha material es es'"
proof (induction es arbitrary: es' rule: rev_induct)
  case Nil
  then show ?case by simp
next
  case (snoc e es)
  from snoc.prems(1) obtain fs f where es': "es' = fs @ [f]" and len: "length es = length fs"
    by (cases es' rule: rev_cases) auto
  from snoc.prems es' have hash: "sha (material e) = sha (material f)" by simp
  show ?case
  proof (cases "material e = material f")
    case False
    with hash len es' show ?thesis by (simp add: collision_snoc)
  next
    case True
    then have c: "content e = content f" by (rule material_covers)
    then have "prev_of e = prev_of f" by (rule content_prev)
    with snoc.prems es' have "last_hash hash_of p es = last_hash hash_of p fs"
      by (simp add: linked_append)
    with snoc.prems es' len have "map content es = map content fs \<or> collision sha material es fs"
      by (intro snoc.IH) (auto simp: linked_append)
    with c es' len show ?thesis by (auto simp: collision_snoc)
  qed
qed

lemma in_place_edit_detected:
  assumes "length es = length es'" "linked prev_of hash_of p es" "signed sha material hash_of es"
    and "last_hash hash_of p es = last_hash hash_of p es'"
    and "map content es \<noteq> map content es'"
    and "\<not> collision sha material es es'"
  shows "\<not> (linked prev_of hash_of p es' \<and> signed sha material hash_of es')"
  using same_head_same_content [of es es' p] assms by blast

end

end
