(* ===== verification/Task_Graph.thy ===== *)
theory Task_Graph
  imports Prelude
begin

text \<open>
  The dependency graph of a mission (factory/control_plane/graph.py) and the deterministic
  orchestration rules (factory/control_plane/orchestration.py): validation by depth-first
  search, release of ready tasks, parallelism, invalidation of everything downstream of a
  change, and the retry decision.
\<close>

section \<open>Task nodes and their lookup\<close>

record task_node =
  task_id :: string
  dependencies :: "string list"
  write_scopes :: "string list"

definition node_of :: "task_node list \<Rightarrow> string \<Rightarrow> task_node option" where
  "node_of ns t = find (\<lambda>n. task_id n = t) ns"

definition ids :: "task_node list \<Rightarrow> string list" where
  "ids ns = map task_id ns"

definition deps_of :: "task_node list \<Rightarrow> string \<Rightarrow> string list" where
  "deps_of ns t = (case node_of ns t of None \<Rightarrow> [] | Some n \<Rightarrow> dependencies n)"

definition depends :: "task_node list \<Rightarrow> (string \<times> string) set" where
  "depends ns = {(t, d). d \<in> set (deps_of ns t)}"

lemma node_of_None: "node_of ns t = None \<longleftrightarrow> t \<notin> set (ids ns)"
  by (auto simp: node_of_def ids_def find_None_iff)

lemma node_of_Some: "node_of ns t = Some n \<Longrightarrow> n \<in> set ns \<and> task_id n = t"
  by (auto simp: node_of_def find_Some_iff)

lemma node_of_distinct: "distinct (ids ns) \<Longrightarrow> n \<in> set ns \<Longrightarrow> node_of ns (task_id n) = Some n"
  by (induction ns) (auto simp: node_of_def ids_def rev_image_eqI)

section \<open>Graph validation\<close>

text \<open>
  \<open>visit\<close> threads the set of visited tasks, newest first; \<open>path\<close> is the set the code
  calls \<open>visiting\<close>, from which a task is removed when its call returns.
\<close>

function visit :: "task_node list \<Rightarrow> string list \<Rightarrow> string list \<Rightarrow> string \<Rightarrow> string list res"
  and visit_all :: "task_node list \<Rightarrow> string list \<Rightarrow> string list \<Rightarrow> string list \<Rightarrow> string list res" where
  "visit ns path seen t =
     (if t \<in> set seen then Inr seen
      else if t \<in> set path then Inl (ValueError ''dependency cycle detected'')
      else case node_of ns t of
             None \<Rightarrow> Inl (KeyError [t])
           | Some n \<Rightarrow> res_bind (visit_all ns (t # path) seen (dependencies n)) (\<lambda>seen'. Inr (t # seen')))"
| "visit_all ns path seen [] = Inr seen"
| "visit_all ns path seen (d # ds) =
     res_bind (visit ns path seen d) (\<lambda>seen'. visit_all ns path seen' ds)"
  by pat_completeness auto
termination
proof (relation "measures [case_sum (\<lambda>(ns, path, seen, t). card (set (ids ns) - set path))
                                    (\<lambda>(ns, path, seen, ds). card (set (ids ns) - set path)),
                           case_sum (\<lambda>_. 0) (\<lambda>(ns, path, seen, ds). length ds)]", goal_cases)
  case (2 ns path seen t n)
  then have "t \<in> set (ids ns) - set path" using node_of_None [of ns t] by auto
  then have "card (set (ids ns) - set (t # path)) < card (set (ids ns) - set path)"
    by (intro psubset_card_mono) auto
  then show ?case by simp
qed auto

declare visit.simps [simp del]

definition validate_node :: "task_node list \<Rightarrow> task_node \<Rightarrow> unit res" where
  "validate_node ns n = checks [
     raise_if (\<not> (\<forall>d \<in> set (dependencies n). d \<in> set (ids ns)))
       (ValueError (''missing dependencies for '' @ task_id n)),
     raise_if (task_id n \<in> set (dependencies n))
       (ValueError (''self dependency: '' @ task_id n))]"

definition validate_graph :: "task_node list \<Rightarrow> unit res" where
  "validate_graph ns = checks [
     raise_if (\<not> distinct (ids ns)) (ValueError ''duplicate task id''),
     check_all (validate_node ns) ns,
     res_bind (visit_all ns [] [] (ids ns)) (\<lambda>_. Inr ())]"

text \<open>What a successful search leaves behind: every visited task comes before its dependencies.\<close>

fun topo :: "task_node list \<Rightarrow> string list \<Rightarrow> bool" where
  "topo ns [] \<longleftrightarrow> True"
| "topo ns (t # ts) \<longleftrightarrow> set (deps_of ns t) \<subseteq> set ts \<and> topo ns ts"

lemma visit_topo:
  "visit ns path seen t = Inr seen' \<Longrightarrow> topo ns seen \<Longrightarrow>
     topo ns seen' \<and> set seen \<subseteq> set seen' \<and> t \<in> set seen'"
  "visit_all ns path seen ds = Inr seen' \<Longrightarrow> topo ns seen \<Longrightarrow>
     topo ns seen' \<and> set seen \<subseteq> set seen' \<and> set ds \<subseteq> set seen'"
proof (induction ns path seen t and ns path seen ds arbitrary: seen' and seen' rule: visit_visit_all.induct)
  case (1 ns path seen t)
  show ?case
  proof (cases "t \<in> set seen")
    case True
    with 1 show ?thesis by (simp add: visit.simps)
  next
    case False
    with "1.prems" obtain n s where "t \<notin> set path" "node_of ns t = Some n"
      "visit_all ns (t # path) seen (dependencies n) = Inr s" "seen' = t # s"
      by (auto simp: visit.simps [of ns path seen t] split: if_splits option.splits)
    with False "1.IH" [of n s] "1.prems" show ?thesis by (auto simp: deps_of_def)
  qed
next
  case (3 ns path seen d ds)
  from "3.prems" obtain s where s: "visit ns path seen d = Inr s" "visit_all ns path s ds = Inr seen'"
    by auto
  from "3.IH"(1) [OF s(1) "3.prems"(2)] "3.IH"(2) [OF s(1) s(2)] show ?case by auto
qed simp

lemma topo_closed: "topo ns ts \<Longrightarrow> t \<in> set ts \<Longrightarrow> (t, d) \<in> (depends ns)\<^sup>+ \<Longrightarrow> d \<in> set ts"
proof -
  have step: "topo ns ts \<Longrightarrow> t \<in> set ts \<Longrightarrow> (t, d) \<in> depends ns \<Longrightarrow> d \<in> set ts" for t d
    by (induction ts) (auto simp: depends_def)
  assume "topo ns ts" "t \<in> set ts" and "(t, d) \<in> (depends ns)\<^sup>+"
  from this(3,2) show "d \<in> set ts"
    by (induction rule: trancl_induct) (auto intro: step [OF \<open>topo ns ts\<close>])
qed

lemma topo_acyclic: "topo ns ts \<Longrightarrow> t \<in> set ts \<Longrightarrow> (t, t) \<notin> (depends ns)\<^sup>+"
proof (induction ts)
  case (Cons u ts)
  show ?case
  proof (cases "t \<in> set ts")
    case True
    with Cons show ?thesis by simp
  next
    case False
    with Cons.prems have t: "t = u" "topo ns ts" "set (deps_of ns t) \<subseteq> set ts" by auto
    show ?thesis
    proof
      assume "(t, t) \<in> (depends ns)\<^sup>+"
      then obtain y where y: "(t, y) \<in> depends ns" "(y, t) \<in> (depends ns)\<^sup>*"
        by (auto dest: tranclD)
      then have "y \<in> set ts" using t by (auto simp: depends_def)
      with y(2) have "t \<in> set ts" using topo_closed [OF t(2)] by (auto dest: rtranclD)
      with False show False ..
    qed
  qed
qed simp

lemma depends_iff:
  "(t, d) \<in> depends ns \<longleftrightarrow> (\<exists>n. node_of ns t = Some n \<and> d \<in> set (dependencies n))"
  by (cases "node_of ns t") (simp_all add: depends_def deps_of_def)

lemma depends_ids: "(t, d) \<in> (depends ns)\<^sup>+ \<Longrightarrow> t \<in> set (ids ns)"
  by (induction rule: trancl_induct) (auto simp: depends_iff ids_def dest!: node_of_Some)

lemma visit_succeeds:
  "acyclic (depends ns) \<Longrightarrow> Range (depends ns) \<subseteq> set (ids ns) \<Longrightarrow> t \<in> set (ids ns) \<Longrightarrow>
     \<forall>p \<in> set path. (p, t) \<in> (depends ns)\<^sup>+ \<Longrightarrow> \<exists>s. visit ns path seen t = Inr s"
  "acyclic (depends ns) \<Longrightarrow> Range (depends ns) \<subseteq> set (ids ns) \<Longrightarrow> set ds \<subseteq> set (ids ns) \<Longrightarrow>
     \<forall>p \<in> set path. \<forall>d \<in> set ds. (p, d) \<in> (depends ns)\<^sup>+ \<Longrightarrow> \<exists>s. visit_all ns path seen ds = Inr s"
proof (induction ns path seen t and ns path seen ds rule: visit_visit_all.induct)
  case (1 ns path seen t)
  from "1.prems" have "t \<notin> set path" by (auto simp: acyclic_def)
  moreover from "1.prems"(3) obtain n where n: "node_of ns t = Some n"
    using node_of_None [of ns t] by auto
  moreover have e: "(t, d) \<in> depends ns" if "d \<in> set (dependencies n)" for d
    using that n by (simp add: depends_def deps_of_def)
  have "t \<notin> set seen \<Longrightarrow> \<exists>s. visit_all ns (t # path) seen (dependencies n) = Inr s"
    using "1.prems" e n \<open>t \<notin> set path\<close>
    by (intro "1.IH") (auto intro: trancl_into_trancl)
  ultimately show ?case by (auto simp: visit.simps [of ns path seen t])
next
  case (3 ns path seen d ds)
  from "3.prems" "3.IH"(1) obtain s where s: "visit ns path seen d = Inr s" by auto
  with "3.prems" "3.IH"(2) [OF s] show ?case by simp
qed simp

lemma validate_graph_spec:
  "validate_graph ns = Inr () \<longleftrightarrow>
     distinct (ids ns) \<and> (\<forall>n \<in> set ns. set (dependencies n) \<subseteq> set (ids ns)) \<and> acyclic (depends ns)"
  (is "?L \<longleftrightarrow> ?R")
proof
  assume ?L
  then obtain s where dk: "distinct (ids ns)" "\<forall>n \<in> set ns. set (dependencies n) \<subseteq> set (ids ns)"
    and s: "visit_all ns [] [] (ids ns) = Inr s"
    by (auto simp: validate_graph_def validate_node_def)
  from visit_topo(2) [OF s] have "topo ns s" "set (ids ns) \<subseteq> set s" by auto
  then have "(t, t) \<notin> (depends ns)\<^sup>+" for t using topo_acyclic depends_ids by blast
  with dk show ?R by (simp add: acyclic_def)
next
  assume R: ?R
  have "Range (depends ns) \<subseteq> set (ids ns)"
    using R by (fastforce simp: depends_iff dest!: node_of_Some)
  with R visit_succeeds(2) [of ns "ids ns" "[]" "[]"]
  obtain s where "visit_all ns [] [] (ids ns) = Inr s" by auto
  moreover have "task_id n \<notin> set (dependencies n)" if "n \<in> set ns" for n
    using R that node_of_distinct [of ns n] depends_iff [of "task_id n" "task_id n" ns]
    by (auto simp: acyclic_def dest: r_into_trancl)
  ultimately show ?L using R by (auto simp: validate_graph_def validate_node_def)
qed

section \<open>Release of ready tasks\<close>

definition ready_tasks :: "task_node list \<Rightarrow> (string \<times> string) list \<Rightarrow> string list res" where
  "ready_tasks ns states =
     res_bind (validate_graph ns) (\<lambda>_.
       if set (ids ns) \<noteq> set (map fst states)
       then Inl (ValueError ''states must exactly match graph task ids'')
       else Inr (sort (map task_id [n \<leftarrow> ns. map_of states (task_id n) = Some ''BACKLOG'' \<and>
                                  (\<forall>d \<in> set (dependencies n). map_of states d = Some ''DONE'')])))"

lemma ready_tasks_set:
  "ready_tasks ns states = Inr ts \<Longrightarrow>
     set ts = {task_id n | n. n \<in> set ns \<and> map_of states (task_id n) = Some ''BACKLOG'' \<and>
                              (\<forall>d \<in> set (dependencies n). map_of states d = Some ''DONE'')}"
  by (auto simp: ready_tasks_def split: if_splits)

lemma ready_tasks_sorted: "ready_tasks ns states = Inr ts \<Longrightarrow> sorted ts \<and> distinct ts"
  by (auto simp: ready_tasks_def validate_graph_spec ids_def distinct_map inj_on_def split: if_splits)

lemma finite_depends: "finite (depends ns)"
proof (rule finite_subset)
  show "depends ns \<subseteq> set (ids ns) \<times> (\<Union>n \<in> set ns. set (dependencies n))"
    by (auto simp: depends_iff ids_def dest!: node_of_Some)
qed simp

text \<open>A valid graph always has a next task: some unfinished task waits for finished ones only.\<close>

lemma minimal_unfinished:
  assumes "validate_graph ns = Inr ()" "t \<in> set (ids ns)" "\<not> fin t"
  shows "\<exists>n \<in> set ns. \<not> fin (task_id n) \<and> (\<forall>d \<in> set (dependencies n). fin d)"
proof -
  from assms(1) have v: "distinct (ids ns)" "\<forall>n \<in> set ns. set (dependencies n) \<subseteq> set (ids ns)"
    "acyclic (depends ns)" by (auto simp: validate_graph_spec)
  have "wf ((depends ns)\<inverse>)"
    by (rule finite_acyclic_wf_converse [OF finite_depends v(3)])
  moreover from assms have "t \<in> {t. t \<in> set (ids ns) \<and> \<not> fin t}" by simp
  ultimately obtain u where u: "u \<in> set (ids ns)" "\<not> fin u"
    and least: "\<And>y. (y, u) \<in> (depends ns)\<inverse> \<Longrightarrow> y \<notin> {t. t \<in> set (ids ns) \<and> \<not> fin t}"
    by (rule wfE_min) auto
  from u(1) obtain n where n: "n \<in> set ns" "task_id n = u" by (auto simp: ids_def)
  with v have "fin d" if "d \<in> set (dependencies n)" for d
    using least [of d] that node_of_distinct [of ns n] by (auto simp: depends_iff)
  with n u show ?thesis by auto
qed

section \<open>Parallel execution\<close>

definition can_run_in_parallel :: "task_node \<Rightarrow> task_node \<Rightarrow> bool" where
  "can_run_in_parallel a b =
     (if task_id a \<in> set (dependencies b) \<or> task_id b \<in> set (dependencies a) then False
      else disjoint (write_scopes a) (write_scopes b))"

fun parallel_pairs :: "task_node list \<Rightarrow> (string \<times> string) list" where
  "parallel_pairs [] = []"
| "parallel_pairs (a # rest) =
     [(task_id a, task_id b). b \<leftarrow> rest, can_run_in_parallel a b] @ parallel_pairs rest"

lemma can_run_in_parallel_sym: "can_run_in_parallel a b = can_run_in_parallel b a"
  by (auto simp: can_run_in_parallel_def disjoint_set_iff)

lemma parallel_pairs_iff:
  "(x, y) \<in> set (parallel_pairs ns) \<longleftrightarrow>
     (\<exists>i j. i < j \<and> j < length ns \<and> x = task_id (ns ! i) \<and> y = task_id (ns ! j) \<and>
            can_run_in_parallel (ns ! i) (ns ! j))"
proof (induction ns)
  case (Cons a ns)
  have "(x, y) \<in> set (parallel_pairs (a # ns)) \<longleftrightarrow>
      (\<exists>b \<in> set ns. x = task_id a \<and> y = task_id b \<and> can_run_in_parallel a b) \<or>
      (\<exists>i j. i < j \<and> j < length ns \<and> x = task_id (ns ! i) \<and> y = task_id (ns ! j) \<and>
            can_run_in_parallel (ns ! i) (ns ! j))"
    using Cons.IH by auto
  also have "\<dots> \<longleftrightarrow> (\<exists>i j. i < j \<and> j < length (a # ns) \<and> x = task_id ((a # ns) ! i) \<and>
      y = task_id ((a # ns) ! j) \<and> can_run_in_parallel ((a # ns) ! i) ((a # ns) ! j))"
    (is "?l \<longleftrightarrow> (\<exists>i j. ?P i j)")
  proof
    assume ?l
    then show "\<exists>i j. ?P i j"
    proof (elim disjE bexE exE)
      fix b assume "b \<in> set ns" "x = task_id a \<and> y = task_id b \<and> can_run_in_parallel a b"
      then obtain j where "j < length ns" "b = ns ! j" by (auto simp: in_set_conv_nth)
      with \<open>x = task_id a \<and> _\<close> have "?P 0 (Suc j)" by simp
      then show ?thesis by blast
    next
      fix i j assume "i < j \<and> j < length ns \<and> x = task_id (ns ! i) \<and> y = task_id (ns ! j) \<and>
            can_run_in_parallel (ns ! i) (ns ! j)"
      then have "?P (Suc i) (Suc j)" by simp
      then show ?thesis by blast
    qed
  next
    assume "\<exists>i j. ?P i j"
    then obtain i j where P: "?P i j" by blast
    then obtain j' where j: "j = Suc j'" by (cases j) auto
    show ?l using P j by (cases i) auto
  qed
  finally show ?case .
qed simp

section \<open>Invalidation downstream of a change\<close>

definition children :: "task_node list \<Rightarrow> string \<Rightarrow> string list" where
  "children ns t = [task_id n. n \<leftarrow> ns, t \<in> set (dependencies n)]"

lemma children_ids: "set (children ns t) \<subseteq> set (ids ns)"
  by (auto simp: children_def ids_def)

function invalidate :: "task_node list \<Rightarrow> string list \<Rightarrow> string list \<Rightarrow> string list" where
  "invalidate ns stale [] = stale"
| "invalidate ns stale (t # queue) =
     (if t \<in> set stale then invalidate ns stale queue
      else invalidate ns (t # stale) (queue @ children ns t))"
  by pat_completeness auto
termination
proof (relation "measures [\<lambda>(ns, stale, queue). card ((set (ids ns) \<union> set queue) - set stale),
                           \<lambda>(ns, stale, queue). length queue]", goal_cases)
  case (2 ns stale t queue)
  then have "(set (ids ns) \<union> set (t # queue)) - set stale = (set (ids ns) \<union> set queue) - set stale"
    by auto
  then show ?case by simp
next
  case (3 ns stale t queue)
  have "(set (ids ns) \<union> set (queue @ children ns t)) - set (t # stale) \<subset>
        (set (ids ns) \<union> set (t # queue)) - set stale"
    using 3 children_ids [of ns t] by auto
  then have "card ((set (ids ns) \<union> set (queue @ children ns t)) - set (t # stale)) <
             card ((set (ids ns) \<union> set (t # queue)) - set stale)"
    by (intro psubset_card_mono) auto
  then show ?case by simp
qed auto

definition invalidate_downstream :: "string \<Rightarrow> task_node list \<Rightarrow> string list" where
  "invalidate_downstream changed ns = invalidate ns [] (children ns changed)"

text \<open>The specification reads the dependencies of the nodes: a task depends directly on each of its dependencies.\<close>

definition dependents :: "task_node list \<Rightarrow> (string \<times> string) set" where
  "dependents ns = {(d, task_id n) | d n. n \<in> set ns \<and> d \<in> set (dependencies n)}"

lemma children_dependents: "t \<in> set (children ns d) \<longleftrightarrow> (d, t) \<in> dependents ns"
  by (auto simp: children_def dependents_def)

lemma invalidate_sound:
  "set stale \<union> set queue \<subseteq> A \<Longrightarrow> (\<And>t u. t \<in> A \<Longrightarrow> (t, u) \<in> dependents ns \<Longrightarrow> u \<in> A) \<Longrightarrow>
     set (invalidate ns stale queue) \<subseteq> A"
proof (induction ns stale queue rule: invalidate.induct)
  case (2 ns stale t queue)
  then show ?case by (cases "t \<in> set stale") (auto simp flip: children_dependents)
qed simp

lemma invalidate_mono: "set stale \<union> set queue \<subseteq> set (invalidate ns stale queue)"
  by (induction ns stale queue rule: invalidate.induct) auto

definition covered :: "task_node list \<Rightarrow> string list \<Rightarrow> string list \<Rightarrow> bool" where
  "covered ns stale queue \<longleftrightarrow> (\<forall>t \<in> set stale. set (children ns t) \<subseteq> set stale \<union> set queue)"

lemma invalidate_covered:
  "covered ns stale queue \<Longrightarrow> covered ns (invalidate ns stale queue) []"
proof (induction ns stale queue rule: invalidate.induct)
  case (2 ns stale x queue)
  show ?case
  proof (cases "x \<in> set stale")
    case True
    with "2.prems" have "covered ns stale queue" by (auto simp: covered_def)
    with True "2.IH"(1) show ?thesis by simp
  next
    case False
    from "2.prems" have "covered ns (x # stale) (queue @ children ns x)" by (auto simp: covered_def)
    with False "2.IH"(2) show ?thesis by simp
  qed
qed simp

lemma invalidate_downstream_spec:
  "set (invalidate_downstream c ns) = {t. (c, t) \<in> (dependents ns)\<^sup>+}"
proof
  show "set (invalidate_downstream c ns) \<subseteq> {t. (c, t) \<in> (dependents ns)\<^sup>+}"
    unfolding invalidate_downstream_def
    by (rule invalidate_sound) (auto simp: children_dependents intro: trancl_into_trancl)
  have "(c, t) \<in> (dependents ns)\<^sup>+ \<Longrightarrow> t \<in> set (invalidate_downstream c ns)" for t
  proof (induction rule: trancl_induct)
    case (base y)
    then show ?case using invalidate_mono [of "[]" "children ns c" ns]
      by (auto simp: invalidate_downstream_def children_dependents)
  next
    case (step y z)
    have "covered ns (invalidate_downstream c ns) []"
      unfolding invalidate_downstream_def by (rule invalidate_covered) (simp add: covered_def)
    with step show ?case by (auto simp: covered_def simp flip: children_dependents)
  qed
  then show "{t. (c, t) \<in> (dependents ns)\<^sup>+} \<subseteq> set (invalidate_downstream c ns)" by blast
qed

section \<open>Routing, retry and stop rules\<close>

datatype retry = RETRY | RECONCILE | STOP

record failure_context =
  transient :: bool
  side_effecting :: bool
  outcome_known :: bool
  fc_attempts :: int
  max_retries :: int

definition retry_decision :: "failure_context \<Rightarrow> retry" where
  "retry_decision c =
     (if side_effecting c \<and> \<not> outcome_known c then RECONCILE
      else if \<not> transient c \<or> fc_attempts c \<ge> max_retries c then STOP
      else RETRY)"

definition choose_execution_mode :: "int \<Rightarrow> bool \<Rightarrow> int \<Rightarrow> string" where
  "choose_execution_mode task_count independent_review specialist_domains =
     (if task_count \<le> 1 \<and> \<not> independent_review \<and> specialist_domains \<le> 1
      then ''single_worker'' else ''pod'')"

definition protected_ambiguity_requires_human :: "bool \<Rightarrow> bool \<Rightarrow> bool" where
  "protected_ambiguity_requires_human protected ambiguity_material = (protected \<and> ambiguity_material)"

definition budget_exhausted :: "int \<Rightarrow> int \<Rightarrow> bool" where
  "budget_exhausted used limit = (used \<ge> limit)"

definition retrieved_content_can_grant_authority :: "string \<Rightarrow> bool" where
  "retrieved_content_can_grant_authority content = False"

definition completion_claim_supported :: "string list \<Rightarrow> bool \<Rightarrow> bool" where
  "completion_claim_supported evidence_ids checks_passed = (evidence_ids \<noteq> [] \<and> checks_passed)"

lemma retry_decision_RETRY:
  "retry_decision c = RETRY \<longleftrightarrow>
     (side_effecting c \<longrightarrow> outcome_known c) \<and> transient c \<and> fc_attempts c < max_retries c"
  by (auto simp: retry_decision_def)

end
