(* ===== verification/Task_State.thy ===== *)
theory Task_State
  imports Prelude
begin

text \<open>
  The task life cycle (factory/control_plane/state.py): the states, the table of allowed
  transitions and the evidence, independence and approval guards of \<open>validate_transition\<close>.
\<close>

datatype task_state =
    BACKLOG | READY | IN_PROGRESS | BLOCKED | READY_FOR_VERIFICATION | REVIEW
  | CHANGES_REQUESTED | VERIFIED | DONE | FAILED | CANCELLED | STALE | AWAITING_HUMAN_APPROVAL

definition all_states :: "task_state list" where
  "all_states = [BACKLOG, READY, IN_PROGRESS, BLOCKED, READY_FOR_VERIFICATION, REVIEW,
     CHANGES_REQUESTED, VERIFIED, DONE, FAILED, CANCELLED, STALE, AWAITING_HUMAN_APPROVAL]"

fun state_value :: "task_state \<Rightarrow> string" where
  "state_value BACKLOG = ''BACKLOG''"
| "state_value READY = ''READY''"
| "state_value IN_PROGRESS = ''IN_PROGRESS''"
| "state_value BLOCKED = ''BLOCKED''"
| "state_value READY_FOR_VERIFICATION = ''READY_FOR_VERIFICATION''"
| "state_value REVIEW = ''REVIEW''"
| "state_value CHANGES_REQUESTED = ''CHANGES_REQUESTED''"
| "state_value VERIFIED = ''VERIFIED''"
| "state_value DONE = ''DONE''"
| "state_value FAILED = ''FAILED''"
| "state_value CANCELLED = ''CANCELLED''"
| "state_value STALE = ''STALE''"
| "state_value AWAITING_HUMAN_APPROVAL = ''AWAITING_HUMAN_APPROVAL''"

text \<open>\<open>TaskState(value)\<close>\<close>

definition state_of_value :: "string \<Rightarrow> task_state res" where
  "state_of_value v = fetch (ValueError (v @ '' is not a valid TaskState''))
     (find (\<lambda>s. state_value s = v) all_states)"

lemma state_of_value_value [simp]: "state_of_value (state_value s) = Inr s"
  by (cases s) (simp_all add: state_of_value_def all_states_def)

lemma state_value_inject [simp]: "state_value s = state_value t \<longleftrightarrow> s = t"
  by (metis state_of_value_value sum.inject(2))

fun allowed :: "task_state \<Rightarrow> task_state list" where
  "allowed BACKLOG = [READY, CANCELLED]"
| "allowed READY = [IN_PROGRESS, BLOCKED, CANCELLED, STALE]"
| "allowed IN_PROGRESS = [BLOCKED, READY_FOR_VERIFICATION, FAILED, CANCELLED, AWAITING_HUMAN_APPROVAL, STALE]"
| "allowed BLOCKED = [READY, IN_PROGRESS, CANCELLED, FAILED, STALE]"
| "allowed READY_FOR_VERIFICATION = [REVIEW, CHANGES_REQUESTED, FAILED, STALE]"
| "allowed REVIEW = [VERIFIED, CHANGES_REQUESTED, FAILED, STALE]"
| "allowed CHANGES_REQUESTED = [IN_PROGRESS, CANCELLED, STALE]"
| "allowed VERIFIED = [DONE, STALE]"
| "allowed DONE = [STALE]"
| "allowed FAILED = [READY, CANCELLED]"
| "allowed CANCELLED = []"
| "allowed STALE = [READY, CANCELLED]"
| "allowed AWAITING_HUMAN_APPROVAL = [IN_PROGRESS, CANCELLED, FAILED, STALE]"

record transition_context =
  ctx_evidence_ids :: "string list"
  ctx_reviewer_ids :: "string list"
  ctx_worker_ids :: "string list"
  ctx_blocking_objections :: "string list"
  ctx_human_approval_id :: "string option"

definition truthy :: "string option \<Rightarrow> bool" where
  "truthy s = (case s of None \<Rightarrow> False | Some t \<Rightarrow> t \<noteq> [])"

lemma truthy_simps [simp]: "\<not> truthy None" "truthy (Some t) \<longleftrightarrow> t \<noteq> []"
  by (simp_all add: truthy_def)

definition validate_transition :: "task_state \<Rightarrow> task_state \<Rightarrow> transition_context \<Rightarrow> unit res" where
  "validate_transition current target ctx = checks [
     raise_if (target \<notin> set (allowed current))
       (ValueError (''illegal transition: '' @ state_value current @ '' -> '' @ state_value target)),
     raise_if (target = REVIEW \<and> ctx_evidence_ids ctx = []) (ValueError ''REVIEW requires evidence''),
     (if target = VERIFIED then checks [
        raise_if (ctx_evidence_ids ctx = []) (ValueError ''VERIFIED requires evidence''),
        raise_if (ctx_reviewer_ids ctx = []) (ValueError ''VERIFIED requires an independent reviewer''),
        raise_if (\<not> disjoint (ctx_reviewer_ids ctx) (ctx_worker_ids ctx))
          (ValueError ''VERIFIED requires reviewer independence from task workers''),
        raise_if (ctx_blocking_objections ctx \<noteq> [])
          (ValueError ''VERIFIED forbidden while blocking objections exist'')]
      else Inr ()),
     raise_if (current = AWAITING_HUMAN_APPROVAL \<and> target = IN_PROGRESS \<and> \<not> truthy (ctx_human_approval_id ctx))
       (ValueError ''resuming protected work requires human approval evidence'')]"

definition allowed_targets :: "task_state \<Rightarrow> task_state list" where
  "allowed_targets current = sort_key state_value (allowed current)"

lemma validate_transition_ok:
  "validate_transition s t c = Inr () \<longleftrightarrow>
     t \<in> set (allowed s) \<and> (t = REVIEW \<longrightarrow> ctx_evidence_ids c \<noteq> []) \<and>
     (t = VERIFIED \<longrightarrow> ctx_evidence_ids c \<noteq> [] \<and> ctx_reviewer_ids c \<noteq> [] \<and>
        disjoint (ctx_reviewer_ids c) (ctx_worker_ids c) \<and> ctx_blocking_objections c = []) \<and>
     (s = AWAITING_HUMAN_APPROVAL \<longrightarrow> t = IN_PROGRESS \<longrightarrow> truthy (ctx_human_approval_id c))"
  by (auto simp: validate_transition_def)

text \<open>The allowed edges as a step relation, for reachability arguments.\<close>

inductive edge :: "task_state \<Rightarrow> task_state \<Rightarrow> bool" where
  edge: "t \<in> set (allowed s) \<Longrightarrow> edge s t"

inductive_simps edge_iff: "edge s t"
inductive_cases edge_to_VERIFIED: "edge s VERIFIED"
inductive_cases edge_to_DONE: "edge s DONE"

lemma only_REVIEW_to_VERIFIED: "edge s VERIFIED \<Longrightarrow> s = REVIEW"
  by (cases s) (auto elim: edge_to_VERIFIED)

lemma only_VERIFIED_to_DONE: "edge s DONE \<Longrightarrow> s = VERIFIED"
  by (cases s) (auto elim: edge_to_DONE)

lemma edge_from_BACKLOG: "edge s t \<Longrightarrow> t \<noteq> BACKLOG"
  by (cases s) (auto simp: edge_iff)

end
