(* ===== verification/Audit_Ledger.thy ===== *)
theory Audit_Ledger
  imports Hash_Chain Json
begin

text \<open>
  The append-only audit ledger (factory/control_plane/ledger.py): events, the canonical text
  each event signs, append, filtered reading and integrity verification. The clock reading
  and the digest are arguments.
\<close>

section \<open>Events\<close>

record audit_event =
  ae_sequence :: nat
  ae_event_id :: string
  ae_mission_id :: string
  ae_actor_id :: string
  ae_event_type :: string
  ae_payload :: json
  ae_created_at :: string
  ae_previous_hash :: string
  ae_event_hash :: string

definition unsigned_payload :: "audit_event \<Rightarrow> json" where
  "unsigned_payload e = JObj [
     (''sequence'', JInt (int (ae_sequence e))),
     (''event_id'', JStr (ae_event_id e)),
     (''mission_id'', JStr (ae_mission_id e)),
     (''actor_id'', JStr (ae_actor_id e)),
     (''event_type'', JStr (ae_event_type e)),
     (''payload'', ae_payload e),
     (''created_at'', JStr (ae_created_at e)),
     (''previous_hash'', JStr (ae_previous_hash e))]"

definition event_material :: "audit_event \<Rightarrow> string" where
  "event_material e = json_dumps (unsigned_payload e)"

text \<open>Everything of an event but its own hash, with the payload up to the order of keys.\<close>

definition event_content :: "audit_event \<Rightarrow> audit_event" where
  "event_content e = e\<lparr>ae_payload := json_norm (ae_payload e), ae_event_hash := []\<rparr>"

lemma event_material_eq:
  "event_material e = event_material e' \<longleftrightarrow> event_content e = event_content e'"
proof -
  have "event_material e = event_material e' \<longleftrightarrow>
      json_norm (unsigned_payload e) = json_norm (unsigned_payload e')"
    by (simp add: event_material_def json_dumps_eq_iff)
  also have "\<dots> \<longleftrightarrow> event_content e = event_content e'"
    by (cases e; cases e') (auto simp: unsigned_payload_def event_content_def sort_literal)
  finally show ?thesis .
qed

interpretation ledger_chain: hash_chain sha event_material ae_previous_hash ae_event_hash event_content
  for sha
proof unfold_locales
  fix e e'
  show "event_material e = event_material e' \<Longrightarrow> event_content e = event_content e'"
    by (simp add: event_material_eq)
  show "event_content e = event_content e' \<Longrightarrow> ae_previous_hash e = ae_previous_hash e'"
    by (metis (no_types, lifting) audit_event.select_convs(8) audit_event.surjective
        audit_event.update_convs(6,9) event_content_def)
qed

section \<open>Operations\<close>

definition or_now :: "string option \<Rightarrow> string \<Rightarrow> string" where
  "or_now created_at now = (case created_at of None \<Rightarrow> now | Some t \<Rightarrow> if t = [] then now else t)"

definition new_event :: "(string \<Rightarrow> string) \<Rightarrow> nat \<Rightarrow> string \<Rightarrow> string \<Rightarrow> string \<Rightarrow> string \<Rightarrow> json \<Rightarrow>
     string \<Rightarrow> string \<Rightarrow> audit_event" where
  "new_event sha n event_id mission_id actor_id event_type payload timestamp previous_hash =
     (let unsigned = \<lparr>ae_sequence = n, ae_event_id = event_id, ae_mission_id = mission_id,
        ae_actor_id = actor_id, ae_event_type = event_type, ae_payload = payload,
        ae_created_at = timestamp, ae_previous_hash = previous_hash, ae_event_hash = []\<rparr>
      in unsigned\<lparr>ae_event_hash := sha (event_material unsigned)\<rparr>)"

definition ledger_append :: "(string \<Rightarrow> string) \<Rightarrow> string \<Rightarrow> audit_event list \<Rightarrow> string \<Rightarrow> string \<Rightarrow>
     string \<Rightarrow> string \<Rightarrow> json \<Rightarrow> string option \<Rightarrow> (audit_event list \<times> audit_event) res" where
  "ledger_append sha now events event_id mission_id actor_id event_type payload created_at =
     res_bind (checks [
       raise_if (list_ex (\<lambda>e. ae_event_id e = event_id) events)
         (ValueError (''duplicate event id: '' @ event_id)),
       raise_if (mission_id = [] \<or> actor_id = [] \<or> event_type = [])
         (ValueError ''mission_id, actor_id and event_type are required'')])
     (\<lambda>_. let e = new_event sha (length events + 1) event_id mission_id actor_id event_type payload
                   (or_now created_at now) (last_hash ae_event_hash ''GENESIS'' events)
          in Inr (events @ [e], e))"

definition ledger_events :: "audit_event list \<Rightarrow> string option \<Rightarrow> audit_event list" where
  "ledger_events events mission_id =
     (case mission_id of None \<Rightarrow> events | Some m \<Rightarrow> [e \<leftarrow> events. ae_mission_id e = m])"

fun verify_from :: "(string \<Rightarrow> string) \<Rightarrow> nat \<Rightarrow> string \<Rightarrow> audit_event list \<Rightarrow> unit res" where
  "verify_from sha expected previous_hash [] = Inr ()"
| "verify_from sha expected previous_hash (e # es) = checks [
     raise_if (ae_sequence e \<noteq> expected) (ValueError ''audit sequence gap or reordering detected''),
     raise_if (ae_previous_hash e \<noteq> previous_hash) (ValueError ''audit hash-chain break detected''),
     raise_if (sha (event_material e) \<noteq> ae_event_hash e) (ValueError ''audit event mutation detected''),
     verify_from sha (expected + 1) (ae_event_hash e) es]"

definition verify_integrity :: "(string \<Rightarrow> string) \<Rightarrow> audit_event list \<Rightarrow> unit res" where
  "verify_integrity sha events = verify_from sha 1 ''GENESIS'' events"

definition from_events :: "(string \<Rightarrow> string) \<Rightarrow> audit_event list \<Rightarrow> audit_event list res" where
  "from_events sha events = res_bind (verify_integrity sha events) (\<lambda>_. Inr events)"

section \<open>Correctness\<close>

lemma verify_from_iff:
  "verify_from sha n p es = Inr () \<longleftrightarrow>
     map ae_sequence es = [n ..< n + length es] \<and>
     linked ae_previous_hash ae_event_hash p es \<and> signed sha event_material ae_event_hash es"
proof (induction es arbitrary: n p)
  case (Cons e es)
  have "[n ..< n + length (e # es)] = n # [Suc n ..< Suc n + length es]"
    using upt_conv_Cons [of n "n + length (e # es)"] by (simp del: upt_Suc)
  then have "map ae_sequence (e # es) = [n ..< n + length (e # es)] \<longleftrightarrow>
      ae_sequence e = n \<and> map ae_sequence es = [Suc n ..< Suc n + length es]"
    by (simp del: upt_Suc)
  then show ?case using Cons.IH [of "Suc n" "ae_event_hash e"] by (auto simp del: upt_Suc)
qed simp

definition ledger_ok :: "(string \<Rightarrow> string) \<Rightarrow> audit_event list \<Rightarrow> bool" where
  "ledger_ok sha events \<longleftrightarrow> verify_integrity sha events = Inr () \<and> distinct (map ae_event_id events)"

lemma event_material_hash [simp]: "event_material (e\<lparr>ae_event_hash := h\<rparr>) = event_material e"
  by (simp add: event_material_def unsigned_payload_def)

lemma new_event_simps [simp]:
  "ae_sequence (new_event sha n i m a t p c h) = n"
  "ae_event_id (new_event sha n i m a t p c h) = i"
  "ae_mission_id (new_event sha n i m a t p c h) = m"
  "ae_actor_id (new_event sha n i m a t p c h) = a"
  "ae_event_type (new_event sha n i m a t p c h) = t"
  "ae_payload (new_event sha n i m a t p c h) = p"
  "ae_previous_hash (new_event sha n i m a t p c h) = h"
  "ae_event_hash (new_event sha n i m a t p c h) = sha (event_material (new_event sha n i m a t p c h))"
  by (simp_all add: new_event_def Let_def event_material_def unsigned_payload_def)

lemma ledger_append_Inr:
  "ledger_append sha now es i m a t p c = Inr (es', e) \<longleftrightarrow>
     i \<notin> set (map ae_event_id es) \<and> m \<noteq> [] \<and> a \<noteq> [] \<and> t \<noteq> [] \<and>
     e = new_event sha (length es + 1) i m a t p (or_now c now) (last_hash ae_event_hash ''GENESIS'' es) \<and>
     es' = es @ [e]"
  by (auto simp: ledger_append_def Let_def list_ex_iff)

lemma ledger_append_ok:
  assumes "ledger_append sha now es i m a t p c = Inr (es', e)" "ledger_ok sha es"
  shows "ledger_ok sha es'"
proof -
  from assms(1) have e: "e = new_event sha (length es + 1) i m a t p (or_now c now) (last_hash ae_event_hash ''GENESIS'' es)"
    and es': "es' = es @ [e]" and fresh: "i \<notin> set (map ae_event_id es)"
    unfolding ledger_append_Inr by blast+
  have "linked ae_previous_hash ae_event_hash ''GENESIS'' es'" "signed sha event_material ae_event_hash es'"
    using ledger_chain.append_verified [of "''GENESIS''" es sha e] assms(2) e es'
    by (simp_all add: ledger_ok_def verify_integrity_def verify_from_iff)
  then show ?thesis
    using assms(2) fresh e es' by (simp add: ledger_ok_def verify_integrity_def verify_from_iff)
qed

lemma ledger_ok_Nil: "ledger_ok sha []"
  by (simp add: ledger_ok_def verify_integrity_def)

end
