(* ===== verification/Mission_Runner.thy ===== *)
theory Mission_Runner
  imports Audit_Ledger Task_Graph Task_State "HOL-Library.AList"
begin

text \<open>
  The deterministic mission runner (factory/control_plane/runner.py): the runtime record of a
  task, the audited transition of one task, the release of dependency-satisfied tasks, the
  completion check and the reconstruction of a runner from its events. The dictionary
  \<open>tasks\<close> is an association list in insertion order; \<open>now\<close> is the clock reading.
\<close>

section \<open>State\<close>

record task_record =
  tr_state :: task_state
  tr_evidence_ids :: "string list"
  tr_reviewer_ids :: "string list"
  tr_worker_ids :: "string list"
  tr_blocking_objections :: "string list"

definition fresh_record :: task_record where
  "fresh_record = \<lparr>tr_state = BACKLOG, tr_evidence_ids = [], tr_reviewer_ids = [],
     tr_worker_ids = [], tr_blocking_objections = []\<rparr>"

record runner =
  rn_mission_id :: string
  rn_tasks :: "(string \<times> task_record) list"
  rn_task_nodes :: "task_node list"
  rn_ledger :: "audit_event list"

text \<open>\<open>MissionRunner(mission_id, task_ids, ledger, task_nodes)\<close>\<close>

definition plain_node :: "string \<Rightarrow> task_node" where
  "plain_node t = \<lparr>task_id = t, dependencies = [], write_scopes = []\<rparr>"

definition new_runner :: "string \<Rightarrow> string list \<Rightarrow> audit_event list \<Rightarrow> task_node list \<Rightarrow> runner res" where
  "new_runner mission_id task_ids ledger task_nodes =
     res_bind (checks [
       raise_if (mission_id = []) (ValueError ''mission_id is required''),
       raise_if (\<not> distinct task_ids) (ValueError ''duplicate task id'')]) (\<lambda>_.
     let nodes = (if task_nodes = [] then map plain_node task_ids else task_nodes) in
     res_bind (validate_graph nodes) (\<lambda>_.
     res_bind (raise_if (set task_ids \<noteq> set (ids nodes))
       (ValueError ''task_ids and task_nodes must match'')) (\<lambda>_.
     Inr \<lparr>rn_mission_id = mission_id, rn_tasks = map (\<lambda>t. (t, fresh_record)) task_ids,
       rn_task_nodes = nodes, rn_ledger = ledger\<rparr>)))"

section \<open>Transition\<close>

definition transition_payload :: "string \<Rightarrow> task_state \<Rightarrow> task_state \<Rightarrow> string list \<Rightarrow> string list \<Rightarrow>
     string list \<Rightarrow> string list \<Rightarrow> string option \<Rightarrow> json" where
  "transition_payload t previous target evidence reviewers workers objections approval = JObj [
     (''task_id'', JStr t),
     (''from'', JStr (state_value previous)),
     (''to'', JStr (state_value target)),
     (''evidence_ids'', JStrs evidence),
     (''reviewer_ids'', JStrs reviewers),
     (''worker_ids'', JStrs workers),
     (''blocking_objections'', JStrs objections),
     (''human_approval_id'', JStrOpt approval)]"

definition the_task :: "runner \<Rightarrow> string \<Rightarrow> task_record res" where
  "the_task r t = fetch (KeyError [''unknown task: '' @ t]) (map_of (rn_tasks r) t)"

definition next_workers :: "task_record \<Rightarrow> task_state \<Rightarrow> string \<Rightarrow> string list" where
  "next_workers rec target actor_id =
     (if target = IN_PROGRESS \<and> actor_id \<notin> set (tr_worker_ids rec)
      then sorted_set (actor_id # tr_worker_ids rec) else tr_worker_ids rec)"

definition default_event_id :: "audit_event list \<Rightarrow> string option \<Rightarrow> string" where
  "default_event_id ledger event_id =
     (if truthy event_id then the event_id else ''EVT-'' @ pad6 (length ledger + 1))"

text \<open>The caller's arguments of one transition.\<close>

record transition_args =
  ta_actor_id :: string
  ta_evidence_ids :: "string list"
  ta_reviewer_ids :: "string list"
  ta_blocking_objections :: "string list"
  ta_human_approval_id :: "string option"
  ta_event_id :: "string option"

definition plain_args :: "string \<Rightarrow> transition_args" where
  "plain_args actor_id = \<lparr>ta_actor_id = actor_id, ta_evidence_ids = [], ta_reviewer_ids = [],
     ta_blocking_objections = [], ta_human_approval_id = None, ta_event_id = None\<rparr>"

definition updated_record :: "task_record \<Rightarrow> task_state \<Rightarrow> transition_args \<Rightarrow> task_record" where
  "updated_record rec target a = \<lparr>tr_state = target,
     tr_evidence_ids = (if ta_evidence_ids a \<noteq> [] then ta_evidence_ids a else tr_evidence_ids rec),
     tr_reviewer_ids = (if ta_reviewer_ids a \<noteq> [] then ta_reviewer_ids a else tr_reviewer_ids rec),
     tr_worker_ids = next_workers rec target (ta_actor_id a),
     tr_blocking_objections = ta_blocking_objections a\<rparr>"

definition transition :: "(string \<Rightarrow> string) \<Rightarrow> string \<Rightarrow> runner \<Rightarrow> string \<Rightarrow> task_state \<Rightarrow>
     transition_args \<Rightarrow> (runner \<times> audit_event) res" where
  "transition sha now r t target a =
     res_bind (the_task r t) (\<lambda>rec.
     let workers = next_workers rec target (ta_actor_id a) in
     res_bind (validate_transition (tr_state rec) target
       \<lparr>ctx_evidence_ids = ta_evidence_ids a, ctx_reviewer_ids = ta_reviewer_ids a,
        ctx_worker_ids = workers, ctx_blocking_objections = ta_blocking_objections a,
        ctx_human_approval_id = ta_human_approval_id a\<rparr>) (\<lambda>_.
     res_bind (ledger_append sha now (rn_ledger r) (default_event_id (rn_ledger r) (ta_event_id a))
       (rn_mission_id r) (ta_actor_id a) ''TASK_STATE_TRANSITION''
       (transition_payload t (tr_state rec) target (ta_evidence_ids a) (ta_reviewer_ids a) workers
         (ta_blocking_objections a) (ta_human_approval_id a)) None) (\<lambda>(ledger, event).
     Inr (r\<lparr>rn_tasks := AList.update t (updated_record rec target a) (rn_tasks r),
            rn_ledger := ledger\<rparr>, event))))"

section \<open>Release, completion, replay\<close>

definition runner_states :: "runner \<Rightarrow> (string \<times> string) list" where
  "runner_states r = map (\<lambda>(t, rec). (t, state_value (tr_state rec))) (rn_tasks r)"

text \<open>The loop commits one transition after the other; an exception leaves the earlier ones.\<close>

fun release_loop :: "(string \<Rightarrow> string) \<Rightarrow> (nat \<Rightarrow> string) \<Rightarrow> string \<Rightarrow> runner \<Rightarrow> string list \<Rightarrow>
     runner \<times> unit res" where
  "release_loop sha clock actor_id r [] = (r, Inr ())"
| "release_loop sha clock actor_id r (t # ts) =
     (case transition sha (clock (length (rn_ledger r))) r t READY (plain_args actor_id) of
        Inl e \<Rightarrow> (r, Inl e)
      | Inr (r', _) \<Rightarrow> release_loop sha clock actor_id r' ts)"

definition release_ready_tasks :: "(string \<Rightarrow> string) \<Rightarrow> (nat \<Rightarrow> string) \<Rightarrow> string \<Rightarrow> runner \<Rightarrow>
     runner \<times> string list res" where
  "release_ready_tasks sha clock actor_id r =
     (case ready_tasks (rn_task_nodes r) (runner_states r) of
        Inl e \<Rightarrow> (r, Inl e)
      | Inr ts \<Rightarrow> map_prod id (map_sum id (\<lambda>_. ts)) (release_loop sha clock actor_id r ts))"

definition assert_all_done :: "(string \<Rightarrow> string) \<Rightarrow> runner \<Rightarrow> unit res" where
  "assert_all_done sha r = checks [
     raise_if (\<not> (\<forall>(t, rec) \<in> set (rn_tasks r). tr_state rec = DONE)) (ValueError ''unfinished tasks: ''),
     verify_integrity sha (rn_ledger r)]"

text \<open>Reading a payload back: \<open>payload[k]\<close>, \<open>payload.get(k, ())\<close>; a value of
  another JSON type than the runner writes is a type error.\<close>

definition payload_item :: "json \<Rightarrow> string \<Rightarrow> json option res" where
  "payload_item p k = (case p of JObj kvs \<Rightarrow> Inr (map_of kvs k) | _ \<Rightarrow> Inl (TypeError k))"

definition as_str :: "json \<Rightarrow> string res" where
  "as_str v = (case v of JStr s \<Rightarrow> Inr s | _ \<Rightarrow> Inl (TypeError ''str''))"

definition as_strs :: "json option \<Rightarrow> string list res" where
  "as_strs v = (case v of None \<Rightarrow> Inr [] | Some (JList vs) \<Rightarrow> map_res as_str vs
     | _ \<Rightarrow> Inl (TypeError ''list''))"

definition as_str_opt :: "json option \<Rightarrow> string option res" where
  "as_str_opt v = (case v of None \<Rightarrow> Inr None | Some JNull \<Rightarrow> Inr None | Some (JStr s) \<Rightarrow> Inr (Some s)
     | _ \<Rightarrow> Inl (TypeError ''str''))"

definition event_args :: "audit_event \<Rightarrow> (string \<times> task_state \<times> transition_args) res" where
  "event_args e =
     (let p = ae_payload e in
     res_bind (payload_item p ''task_id'') (\<lambda>v.
     res_bind (fetch (KeyError [''task_id'']) v) (\<lambda>v. res_bind (as_str v) (\<lambda>t.
     res_bind (payload_item p ''to'') (\<lambda>v.
     res_bind (fetch (KeyError [''to'']) v) (\<lambda>v. res_bind (as_str v) (\<lambda>to_value.
     res_bind (state_of_value to_value) (\<lambda>target.
     res_bind (res_bind (payload_item p ''evidence_ids'') as_strs) (\<lambda>evidence.
     res_bind (res_bind (payload_item p ''reviewer_ids'') as_strs) (\<lambda>reviewers.
     res_bind (res_bind (payload_item p ''blocking_objections'') as_strs) (\<lambda>objections.
     res_bind (res_bind (payload_item p ''human_approval_id'') as_str_opt) (\<lambda>approval.
     Inr (t, target, \<lparr>ta_actor_id = ae_actor_id e, ta_evidence_ids = evidence,
       ta_reviewer_ids = reviewers, ta_blocking_objections = objections,
       ta_human_approval_id = approval, ta_event_id = Some (ae_event_id e)\<rparr>)))))))))))))"

fun replay_events :: "(string \<Rightarrow> string) \<Rightarrow> (nat \<Rightarrow> string) \<Rightarrow> runner \<Rightarrow> audit_event list \<Rightarrow> runner res" where
  "replay_events sha clock r [] = Inr r"
| "replay_events sha clock r (e # es) =
     (if ae_event_type e \<noteq> ''TASK_STATE_TRANSITION'' then replay_events sha clock r es
      else res_bind (event_args e) (\<lambda>(t, target, a).
        res_bind (transition sha (clock (length (rn_ledger r))) r t target a) (\<lambda>(r', _).
        replay_events sha clock r' es)))"

definition replay :: "(string \<Rightarrow> string) \<Rightarrow> (nat \<Rightarrow> string) \<Rightarrow> string \<Rightarrow> string list \<Rightarrow>
     audit_event list \<Rightarrow> task_node list \<Rightarrow> runner res" where
  "replay sha clock mission_id task_ids events task_nodes =
     res_bind (from_events sha events) (\<lambda>source_ledger.
     res_bind (new_runner mission_id task_ids [] task_nodes) (\<lambda>r.
     replay_events sha clock r (ledger_events source_ledger (Some mission_id))))"

section \<open>One transition\<close>

lemma transition_Inr:
  "transition sha now r t target a = Inr (r', e) \<longleftrightarrow>
     (\<exists>rec. map_of (rn_tasks r) t = Some rec \<and>
       validate_transition (tr_state rec) target
         \<lparr>ctx_evidence_ids = ta_evidence_ids a, ctx_reviewer_ids = ta_reviewer_ids a,
          ctx_worker_ids = next_workers rec target (ta_actor_id a),
          ctx_blocking_objections = ta_blocking_objections a,
          ctx_human_approval_id = ta_human_approval_id a\<rparr> = Inr () \<and>
       ledger_append sha now (rn_ledger r) (default_event_id (rn_ledger r) (ta_event_id a))
         (rn_mission_id r) (ta_actor_id a) ''TASK_STATE_TRANSITION''
         (transition_payload t (tr_state rec) target (ta_evidence_ids a) (ta_reviewer_ids a)
           (next_workers rec target (ta_actor_id a)) (ta_blocking_objections a)
           (ta_human_approval_id a)) None = Inr (rn_ledger r', e) \<and>
       r' = r\<lparr>rn_tasks := AList.update t (updated_record rec target a) (rn_tasks r),
              rn_ledger := rn_ledger r'\<rparr>)"
  by (cases r'; cases r) (auto simp: transition_def the_task_def Let_def)

lemma transition_InrE:
  assumes "transition sha now r t target a = Inr (r', e)"
  obtains rec where "map_of (rn_tasks r) t = Some rec"
    and "validate_transition (tr_state rec) target
      \<lparr>ctx_evidence_ids = ta_evidence_ids a, ctx_reviewer_ids = ta_reviewer_ids a,
       ctx_worker_ids = next_workers rec target (ta_actor_id a),
       ctx_blocking_objections = ta_blocking_objections a,
       ctx_human_approval_id = ta_human_approval_id a\<rparr> = Inr ()"
    and "ledger_append sha now (rn_ledger r) (default_event_id (rn_ledger r) (ta_event_id a))
      (rn_mission_id r) (ta_actor_id a) ''TASK_STATE_TRANSITION''
      (transition_payload t (tr_state rec) target (ta_evidence_ids a) (ta_reviewer_ids a)
        (next_workers rec target (ta_actor_id a)) (ta_blocking_objections a)
        (ta_human_approval_id a)) None = Inr (rn_ledger r', e)"
    and "rn_tasks r' = AList.update t (updated_record rec target a) (rn_tasks r)"
    and "rn_mission_id r' = rn_mission_id r" and "rn_task_nodes r' = rn_task_nodes r"
proof -
  from assms obtain rec where parts: "map_of (rn_tasks r) t = Some rec"
    "validate_transition (tr_state rec) target
      \<lparr>ctx_evidence_ids = ta_evidence_ids a, ctx_reviewer_ids = ta_reviewer_ids a,
       ctx_worker_ids = next_workers rec target (ta_actor_id a),
       ctx_blocking_objections = ta_blocking_objections a,
       ctx_human_approval_id = ta_human_approval_id a\<rparr> = Inr ()"
    "ledger_append sha now (rn_ledger r) (default_event_id (rn_ledger r) (ta_event_id a))
      (rn_mission_id r) (ta_actor_id a) ''TASK_STATE_TRANSITION''
      (transition_payload t (tr_state rec) target (ta_evidence_ids a) (ta_reviewer_ids a)
        (next_workers rec target (ta_actor_id a)) (ta_blocking_objections a)
        (ta_human_approval_id a)) None = Inr (rn_ledger r', e)"
    and eq: "r' = r\<lparr>rn_tasks := AList.update t (updated_record rec target a) (rn_tasks r),
              rn_ledger := rn_ledger r'\<rparr>"
    unfolding transition_Inr by blast
  from arg_cong [OF eq, of rn_tasks] arg_cong [OF eq, of rn_mission_id] arg_cong [OF eq, of rn_task_nodes]
  show thesis by (intro that [OF parts]) simp_all
qed

section \<open>The invariant of a runner\<close>

text \<open>A task is done by somebody, and no task is verified without evidence, an independent
  reviewer and the absence of blocking objections.\<close>

definition worked :: "task_state \<Rightarrow> bool" where
  "worked s = (s \<in> {IN_PROGRESS, READY_FOR_VERIFICATION, REVIEW, CHANGES_REQUESTED, VERIFIED, DONE,
     AWAITING_HUMAN_APPROVAL})"

definition record_ok :: "task_record \<Rightarrow> bool" where
  "record_ok rec \<longleftrightarrow>
     (worked (tr_state rec) \<longrightarrow> tr_worker_ids rec \<noteq> []) \<and>
     (tr_state rec \<in> {REVIEW, VERIFIED, DONE} \<longrightarrow> tr_evidence_ids rec \<noteq> []) \<and>
     (tr_state rec \<in> {VERIFIED, DONE} \<longrightarrow> tr_reviewer_ids rec \<noteq> []) \<and>
     (tr_state rec = VERIFIED \<longrightarrow> tr_blocking_objections rec = [] \<and>
        disjoint (tr_reviewer_ids rec) (tr_worker_ids rec))"

definition runner_ok :: "(string \<Rightarrow> string) \<Rightarrow> runner \<Rightarrow> bool" where
  "runner_ok sha r \<longleftrightarrow> ledger_ok sha (rn_ledger r) \<and> distinct (map fst (rn_tasks r)) \<and>
     validate_graph (rn_task_nodes r) = Inr () \<and>
     set (ids (rn_task_nodes r)) = set (map fst (rn_tasks r)) \<and>
     list_all (\<lambda>(t, rec). record_ok rec) (rn_tasks r)"

lemma worked_edge: "t \<in> set (allowed s) \<Longrightarrow> worked t \<Longrightarrow> t = IN_PROGRESS \<or> worked s"
  by (cases s) (auto simp: worked_def)

lemma next_workers_mono: "set (tr_worker_ids rec) \<subseteq> set (next_workers rec t a)"
  by (auto simp: next_workers_def)

lemma next_workers_IN_PROGRESS: "a \<in> set (next_workers rec IN_PROGRESS a)"
  by (simp add: next_workers_def)

lemma next_workers_Nil: "next_workers rec t a = [] \<longleftrightarrow> t \<noteq> IN_PROGRESS \<and> tr_worker_ids rec = []"
  by (auto simp: next_workers_def)

lemma updated_record_ok:
  assumes "record_ok rec"
    and "validate_transition (tr_state rec) target
      \<lparr>ctx_evidence_ids = ta_evidence_ids a, ctx_reviewer_ids = ta_reviewer_ids a,
       ctx_worker_ids = next_workers rec target (ta_actor_id a),
       ctx_blocking_objections = ta_blocking_objections a,
       ctx_human_approval_id = ta_human_approval_id a\<rparr> = Inr ()"
  shows "record_ok (updated_record rec target a)"
proof -
  from assms(2) have step: "target \<in> set (allowed (tr_state rec))"
    by (simp add: validate_transition_ok)
  then have "edge (tr_state rec) target" by (rule edge)
  then have done_from: "target = DONE \<Longrightarrow> tr_state rec = VERIFIED"
    using only_VERIFIED_to_DONE by blast
  have "worked target \<Longrightarrow> next_workers rec target (ta_actor_id a) \<noteq> []"
    using worked_edge [OF step] assms(1) by (auto simp: next_workers_Nil record_ok_def)
  with assms done_from show ?thesis
    by (auto simp: record_ok_def updated_record_def validate_transition_ok)
qed

lemma set_AList_update: "x \<in> set (AList.update k v al) \<Longrightarrow> x = (k, v) \<or> x \<in> set al"
  by (induction al) (auto split: if_splits)

lemma transition_ok:
  assumes "transition sha now r t target a = Inr (r', e)" "runner_ok sha r"
  shows "runner_ok sha r'"
proof -
  from assms(1) obtain rec where rec: "map_of (rn_tasks r) t = Some rec"
    and valid: "validate_transition (tr_state rec) target
      \<lparr>ctx_evidence_ids = ta_evidence_ids a, ctx_reviewer_ids = ta_reviewer_ids a,
       ctx_worker_ids = next_workers rec target (ta_actor_id a),
       ctx_blocking_objections = ta_blocking_objections a,
       ctx_human_approval_id = ta_human_approval_id a\<rparr> = Inr ()"
    and led: "\<exists>i m a p. ledger_append sha now (rn_ledger r) i m a ''TASK_STATE_TRANSITION'' p None = Inr (rn_ledger r', e)"
    and r': "rn_tasks r' = AList.update t (updated_record rec target a) (rn_tasks r)"
    and frame: "rn_task_nodes r' = rn_task_nodes r"
    by (elim transition_InrE) blast
  have "(t, rec) \<in> set (rn_tasks r)" using rec by (rule map_of_SomeD)
  then have "record_ok rec" and mem: "t \<in> fst ` set (rn_tasks r)"
    using assms(2) by (auto simp: runner_ok_def list_all_iff rev_image_eqI)
  then have "record_ok (updated_record rec target a)" using valid by (intro updated_record_ok)
  then have "list_all (\<lambda>(t, rec). record_ok rec) (rn_tasks r')"
    using assms(2) r' set_AList_update by (fastforce simp: runner_ok_def list_all_iff)
  moreover have "ledger_ok sha (rn_ledger r')"
    using led assms(2) ledger_append_ok by (auto simp: runner_ok_def)
  moreover have "map fst (rn_tasks r') = map fst (rn_tasks r)"
    using r' mem by (simp add: update_keys)
  ultimately show ?thesis
    using assms(2) frame by (simp add: runner_ok_def)
qed

lemma record_ok_fresh: "record_ok fresh_record"
  by (simp add: record_ok_def fresh_record_def worked_def)

lemma new_runner_ok:
  assumes "new_runner m ts led ns = Inr r" "ledger_ok sha led"
  shows "runner_ok sha r"
  using assms by (auto simp: new_runner_def Let_def runner_ok_def list_all_iff record_ok_fresh
      o_def image_image split: if_splits)

section \<open>Runs\<close>

text \<open>What may happen to a runner: its own transitions, interleaved with appends to the shared
  ledger that are not task transitions of its mission.\<close>

inductive runs :: "(string \<Rightarrow> string) \<Rightarrow> runner \<Rightarrow> runner \<Rightarrow> bool" for sha r0 where
  start: "runs sha r0 r0"
| step: "runs sha r0 r \<Longrightarrow> transition sha now r t target a = Inr (r', e) \<Longrightarrow> runs sha r0 r'"
| other: "runs sha r0 r \<Longrightarrow> ledger_append sha now (rn_ledger r) i m actor ty p c = Inr (es, e) \<Longrightarrow>
    m \<noteq> rn_mission_id r \<or> ty \<noteq> ''TASK_STATE_TRANSITION'' \<Longrightarrow> runs sha r0 (r\<lparr>rn_ledger := es\<rparr>)"

lemma runs_ok: "runs sha r0 r \<Longrightarrow> runner_ok sha r0 \<Longrightarrow> runner_ok sha r"
proof (induction rule: runs.induct)
  case (other r now i m actor ty p c es e)
  then have "ledger_ok sha es" using ledger_append_ok by (auto simp: runner_ok_def)
  with other show ?case by (simp add: runner_ok_def)
qed (auto intro: transition_ok)

lemma runs_frame:
  "runs sha r0 r \<Longrightarrow> rn_mission_id r = rn_mission_id r0 \<and> rn_task_nodes r = rn_task_nodes r0"
  by (induction rule: runs.induct) (auto elim: transition_InrE)

text \<open>The audit history of the runner's own task transitions.\<close>

definition transitions_of :: "string \<Rightarrow> audit_event list \<Rightarrow> audit_event list" where
  "transitions_of m es = [e \<leftarrow> es. ae_mission_id e = m \<and> ae_event_type e = ''TASK_STATE_TRANSITION'']"

lemma replay_events_filter:
  "replay_events sha clock r es =
     replay_events sha clock r [e \<leftarrow> es. ae_event_type e = ''TASK_STATE_TRANSITION'']"
  by (induction es arbitrary: r) (auto intro!: res_bind_cong)

lemma replay_events_append:
  "replay_events sha clock r (es @ fs) =
     res_bind (replay_events sha clock r es) (\<lambda>r. replay_events sha clock r fs)"
  by (induction es arbitrary: r) (auto simp: res_bind_def split: sum.splits)

lemma as_strs_JStrs [simp]: "as_strs (Some (JStrs xs)) = Inr xs"
proof -
  have "map_res as_str (map JStr xs) = Inr xs" by (induction xs) (simp_all add: as_str_def)
  then show ?thesis by (simp add: as_strs_def JStrs_def)
qed

lemma as_str_opt_JStrOpt [simp]: "as_str_opt (Some (JStrOpt s)) = Inr s"
  by (cases s) (simp_all add: as_str_opt_def JStrOpt_def)

lemma event_args_transition:
  "event_args (new_event sha n i m (ta_actor_id a) ty
      (transition_payload t s target (ta_evidence_ids a) (ta_reviewer_ids a) ws
        (ta_blocking_objections a) (ta_human_approval_id a)) c h) =
   Inr (t, target, a\<lparr>ta_event_id := Some i\<rparr>)"
  by (simp add: event_args_def transition_payload_def payload_item_def as_str_def Let_def)

lemma default_event_id_not_Nil: "default_event_id led i \<noteq> []"
  by (cases i) (auto simp: default_event_id_def)

lemma default_event_id_Some: "i \<noteq> [] \<Longrightarrow> default_event_id led (Some i) = i"
  by (simp add: default_event_id_def)

definition follows :: "runner \<Rightarrow> runner \<Rightarrow> bool" where
  "follows r r' \<longleftrightarrow> map_of (rn_tasks r') = map_of (rn_tasks r) \<and> rn_mission_id r' = rn_mission_id r \<and>
     ae_event_id ` set (rn_ledger r') \<subseteq> ae_event_id ` set (rn_ledger r)"

lemma follows_append: "follows r r' \<Longrightarrow> follows (r\<lparr>rn_ledger := rn_ledger r @ es\<rparr>) r'"
  by (simp add: follows_def image_Un le_supI1)

lemma transition_repeated:
  assumes "transition sha now r t target a = Inr (r1, e)" "follows r r'"
  shows "\<exists>r1'. replay_events sha clock r' [e] = Inr r1' \<and> follows r1 r1'"
proof -
  from assms(1) obtain rec where rec: "map_of (rn_tasks r) t = Some rec"
    and valid: "validate_transition (tr_state rec) target
      \<lparr>ctx_evidence_ids = ta_evidence_ids a, ctx_reviewer_ids = ta_reviewer_ids a,
       ctx_worker_ids = next_workers rec target (ta_actor_id a),
       ctx_blocking_objections = ta_blocking_objections a,
       ctx_human_approval_id = ta_human_approval_id a\<rparr> = Inr ()"
    and led: "ledger_append sha now (rn_ledger r) (default_event_id (rn_ledger r) (ta_event_id a))
      (rn_mission_id r) (ta_actor_id a) ''TASK_STATE_TRANSITION''
      (transition_payload t (tr_state rec) target (ta_evidence_ids a) (ta_reviewer_ids a)
        (next_workers rec target (ta_actor_id a)) (ta_blocking_objections a)
        (ta_human_approval_id a)) None = Inr (rn_ledger r1, e)"
    and r1: "rn_tasks r1 = AList.update t (updated_record rec target a) (rn_tasks r)"
      "rn_mission_id r1 = rn_mission_id r"
    by (rule transition_InrE)
  let ?i = "default_event_id (rn_ledger r) (ta_event_id a)"
  let ?a = "a\<lparr>ta_event_id := Some ?i\<rparr>"
  let ?now = "clock (length (rn_ledger r'))"
  let ?p = "transition_payload t (tr_state rec) target (ta_evidence_ids a) (ta_reviewer_ids a)
        (next_workers rec target (ta_actor_id a)) (ta_blocking_objections a) (ta_human_approval_id a)"
  from led have args: "event_args e = Inr (t, target, ?a)" and ty: "ae_event_type e = ''TASK_STATE_TRANSITION''"
    and ledger: "rn_ledger r1 = rn_ledger r @ [e]" "ae_event_id e = ?i"
    and fresh: "?i \<notin> ae_event_id ` set (rn_ledger r)" "rn_mission_id r \<noteq> []" "ta_actor_id a \<noteq> []"
    by (auto simp: ledger_append_Inr event_args_transition)
  obtain e' where e': "ledger_append sha ?now (rn_ledger r') ?i (rn_mission_id r) (ta_actor_id a)
      ''TASK_STATE_TRANSITION'' ?p None = Inr (rn_ledger r' @ [e'], e')" "ae_event_id e' = ?i"
    using fresh assms(2) by (auto simp: ledger_append_Inr follows_def)
  have upd: "updated_record rec target ?a = updated_record rec target a"
    by (simp add: updated_record_def)
  let ?r = "r'\<lparr>rn_tasks := AList.update t (updated_record rec target a) (rn_tasks r'),
               rn_ledger := rn_ledger r' @ [e']\<rparr>"
  have "transition sha ?now r' t target ?a = Inr (?r, e')"
    unfolding transition_Inr using assms(2) rec valid e' upd
    by (simp add: follows_def default_event_id_Some default_event_id_not_Nil)
  moreover have "follows r1 ?r"
    using assms(2) r1 ledger e' by (auto simp: follows_def update_conv')
  ultimately show ?thesis using args ty by simp
qed

lemma transitions_of_append:
  "transitions_of m (es @ [e]) = transitions_of m es @
     (if ae_mission_id e = m \<and> ae_event_type e = ''TASK_STATE_TRANSITION'' then [e] else [])"
  by (simp add: transitions_of_def)

lemma runs_replay:
  assumes "runs sha r0 r" "transitions_of (rn_mission_id r0) (rn_ledger r0) = []" "follows r0 r0'"
  shows "\<exists>r'. replay_events sha clock r0' (transitions_of (rn_mission_id r0) (rn_ledger r)) = Inr r' \<and>
     follows r r'"
  using assms
proof (induction rule: runs.induct)
  case start
  then show ?case by simp
next
  case (step r now t target a r1 e)
  then obtain r' where r': "replay_events sha clock r0' (transitions_of (rn_mission_id r0) (rn_ledger r)) = Inr r'"
    "follows r r'" by blast
  from transition_repeated [OF step.hyps(2) r'(2)] obtain r1'
    where r1': "replay_events sha clock r' [e] = Inr r1'" "follows r1 r1'" by blast
  have "\<exists>es. rn_ledger r1 = es @ [e] \<and> es = rn_ledger r \<and> ae_mission_id e = rn_mission_id r \<and>
      ae_event_type e = ''TASK_STATE_TRANSITION''"
    using step.hyps(2) by (elim transition_InrE) (auto simp: ledger_append_Inr)
  then show ?case using runs_frame [OF step.hyps(1)] r' r1'
    by (auto simp: transitions_of_append replay_events_append simp del: replay_events.simps)
next
  case (other r now i m actor ty p c es e)
  then have "es = rn_ledger r @ [e]" "ae_mission_id e = m" "ae_event_type e = ty"
    by (simp_all add: ledger_append_Inr)
  with other runs_frame [OF other.hyps(1)] show ?case
    by (auto simp: transitions_of_append intro: follows_append)
qed

lemma map_of_fresh: "map_of (map (\<lambda>t. (t, x)) ts) = (\<lambda>t. if t \<in> set ts then Some x else None)"
  by (induction ts) auto

lemma new_runner_tasks:
  "new_runner m ts led ns = Inr r \<Longrightarrow> map_of (rn_tasks r) = (\<lambda>t. if t \<in> set ts then Some fresh_record else None) \<and>
     rn_mission_id r = m \<and> rn_ledger r = led"
  by (auto simp: new_runner_def Let_def map_of_fresh split: if_splits)

text \<open>A replay may list the tasks and nodes of the mission in another order.\<close>

lemma replay_run:
  assumes "new_runner m ts led ns = Inr r0" "ledger_ok sha led" "transitions_of m led = []"
    and "runs sha r0 r" "new_runner m ts' [] ns' = Inr r0'" "set ts' = set ts"
  shows "\<exists>r'. replay sha clock m ts' (rn_ledger r) ns' = Inr r' \<and> map_of (rn_tasks r') = map_of (rn_tasks r) \<and>
     rn_mission_id r' = m"
proof -
  note r0 = new_runner_tasks [OF assms(1)] and r0' = new_runner_tasks [OF assms(5)]
  have f0: "follows r0 r0'" using r0 r0' assms(6) by (simp add: follows_def)
  have "runner_ok sha r" using runs_ok [OF assms(4)] new_runner_ok [OF assms(1,2)] .
  then have "from_events sha (rn_ledger r) = Inr (rn_ledger r)"
    by (simp add: from_events_def runner_ok_def ledger_ok_def)
  moreover have "transitions_of (rn_mission_id r0) (rn_ledger r0) = []"
    using assms(3) r0 by simp
  then obtain r' where "replay_events sha clock r0' (transitions_of m (rn_ledger r)) = Inr r'" "follows r r'"
    using runs_replay [OF assms(4) _ f0, of clock] r0 by blast
  moreover have "replay_events sha clock r0' (ledger_events (rn_ledger r) (Some m)) =
      replay_events sha clock r0' (transitions_of m (rn_ledger r))"
    by (subst replay_events_filter) (simp add: ledger_events_def transitions_of_def conj_commute)
  ultimately show ?thesis using assms(5) runs_frame [OF assms(4)] r0 by (simp add: replay_def follows_def)
qed

section \<open>Release of ready tasks\<close>

text \<open>The identifier an append without one gets from the length of the ledger. Other missions and explicit
  identifiers may have taken it; then the append is refused.\<close>

definition auto_event_id :: "nat \<Rightarrow> string" where
  "auto_event_id n = ''EVT-'' @ pad6 n"

definition id_taken :: "audit_event list \<Rightarrow> nat \<Rightarrow> bool" where
  "id_taken es n \<longleftrightarrow> auto_event_id n \<in> ae_event_id ` set es"

lemma id_taken_append:
  "ae_event_id e = auto_event_id (length es + 1) \<Longrightarrow> id_taken (es @ [e]) n \<longleftrightarrow> n = length es + 1 \<or> id_taken es n"
  by (auto simp: id_taken_def auto_event_id_def)

definition released :: "string list \<Rightarrow> (string \<times> task_record) list \<Rightarrow> (string \<times> task_record) list" where
  "released ts tasks = map (\<lambda>(t, rec). (t, if t \<in> set ts
     then rec\<lparr>tr_state := READY, tr_blocking_objections := []\<rparr> else rec)) tasks"

lemma released_Nil [simp]: "released [] tasks = tasks"
  by (simp add: released_def case_prod_beta)

lemma AList_update_map:
  "distinct (map fst al) \<Longrightarrow> map_of al k = Some w \<Longrightarrow>
     AList.update k v al = map (\<lambda>(k', v'). (k', if k' = k then v else v')) al"
proof (induction al)
  case (Cons x al)
  then show ?case
    by (cases x) (auto intro!: map_idI [symmetric] simp: image_iff split: if_splits)
qed simp

text \<open>The event that records the release of a task.\<close>

definition release_event :: "runner \<Rightarrow> string \<Rightarrow> string \<Rightarrow> nat \<Rightarrow> audit_event \<Rightarrow> bool" where
  "release_event r actor_id t n e \<longleftrightarrow> ae_event_id e = auto_event_id n \<and> ae_mission_id e = rn_mission_id r \<and>
     ae_actor_id e = actor_id \<and> ae_event_type e = ''TASK_STATE_TRANSITION'' \<and>
     (\<exists>rec. map_of (rn_tasks r) t = Some rec \<and>
        ae_payload e = transition_payload t BACKLOG READY [] [] (tr_worker_ids rec) [] None)"

lemma release_taken:
  assumes "map_of (rn_tasks r) t = Some rec" "tr_state rec = BACKLOG" "id_taken (rn_ledger r) (length (rn_ledger r) + 1)"
  shows "transition sha now r t READY (plain_args actor_id) =
     Inl (ValueError (''duplicate event id: '' @ auto_event_id (length (rn_ledger r) + 1)))"
proof -
  have "list_ex (\<lambda>e. ae_event_id e = ''EVT-'' @ pad6 (length (rn_ledger r) + 1)) (rn_ledger r)"
    using assms(3) by (auto simp: id_taken_def auto_event_id_def list_ex_iff)
  moreover have "validate_transition BACKLOG READY \<lparr>ctx_evidence_ids = [], ctx_reviewer_ids = [], ctx_worker_ids = ws,
      ctx_blocking_objections = [], ctx_human_approval_id = None\<rparr> = Inr ()" for ws
    by (simp add: validate_transition_ok)
  ultimately show ?thesis using assms(1,2)
    by (simp add: transition_def the_task_def plain_args_def default_event_id_def ledger_append_def
        auto_event_id_def Let_def)
qed

lemma release_one:
  assumes "map_of (rn_tasks r) t = Some rec" "tr_state rec = BACKLOG" "actor_id \<noteq> []"
    and "rn_mission_id r \<noteq> []" "\<not> id_taken (rn_ledger r) (length (rn_ledger r) + 1)" "distinct (map fst (rn_tasks r))"
  shows "\<exists>e. transition sha now r t READY (plain_args actor_id) =
     Inr (r\<lparr>rn_tasks := released [t] (rn_tasks r), rn_ledger := rn_ledger r @ [e]\<rparr>, e) \<and>
     release_event r actor_id t (length (rn_ledger r) + 1) e"
proof -
  let ?i = "auto_event_id (length (rn_ledger r) + 1)"
  have i: "default_event_id (rn_ledger r) None = ?i" "?i \<notin> ae_event_id ` set (rn_ledger r)"
    using assms(5) by (simp_all add: default_event_id_def id_taken_def auto_event_id_def)
  let ?p = "transition_payload t BACKLOG READY [] [] (tr_worker_ids rec) [] None"
  obtain e where e: "ledger_append sha now (rn_ledger r) ?i (rn_mission_id r) actor_id
      ''TASK_STATE_TRANSITION'' ?p None = Inr (rn_ledger r @ [e], e)" "release_event r actor_id t (length (rn_ledger r) + 1) e"
    using i assms(1,3,4) by (auto simp: ledger_append_Inr release_event_def)
  let ?rec = "rec\<lparr>tr_state := READY, tr_blocking_objections := []\<rparr>"
  have rec': "updated_record rec READY (plain_args actor_id) = ?rec"
    by (simp add: updated_record_def plain_args_def next_workers_def)
  have upd: "AList.update t ?rec (rn_tasks r) = released [t] (rn_tasks r)"
    using assms(1,6) by (auto simp: AList_update_map released_def dest: map_of_SomeD
        eq_key_imp_eq_value)
  have "transition sha now r t READY (plain_args actor_id) =
      Inr (r\<lparr>rn_tasks := released [t] (rn_tasks r), rn_ledger := rn_ledger r @ [e]\<rparr>, e)"
    unfolding transition_Inr using assms(1,2) e(1) i(1) rec' upd
    by (simp add: plain_args_def next_workers_def validate_transition_ok)
  with e(2) show ?thesis by blast
qed

lemma released_Cons: "released ts (released [t] tasks) = released (t # ts) tasks"
  by (auto simp: released_def)

lemma map_of_released:
  "t \<notin> set ts \<Longrightarrow> map_of (released ts tasks) t = map_of tasks t"
  by (induction tasks) (auto simp: released_def)

lemma released_keys [simp]: "map fst (released ts tasks) = map fst tasks"
  by (simp add: released_def case_prod_beta o_def)

text \<open>What a release of the tasks \<open>ts\<close> does: the first \<open>k\<close> of them are released, one event each; it stops at the
  first automatic identifier that is taken.\<close>

definition released_prefix :: "runner \<Rightarrow> string \<Rightarrow> string list \<Rightarrow> nat \<Rightarrow> audit_event list \<Rightarrow> runner \<Rightarrow> bool" where
  "released_prefix r actor_id ts k es r' \<longleftrightarrow> k \<le> length ts \<and> length es = k \<and>
     (\<forall>j < k. \<not> id_taken (rn_ledger r) (length (rn_ledger r) + j + 1) \<and>
        release_event r actor_id (ts ! j) (length (rn_ledger r) + j + 1) (es ! j)) \<and>
     (k < length ts \<longrightarrow> id_taken (rn_ledger r) (length (rn_ledger r) + k + 1)) \<and>
     r' = r\<lparr>rn_tasks := released (take k ts) (rn_tasks r), rn_ledger := rn_ledger r @ es\<rparr>"

definition stopped_at :: "runner \<Rightarrow> 'a list \<Rightarrow> nat \<Rightarrow> 'b \<Rightarrow> 'b res" where
  "stopped_at r ts k x = (if k = length ts then Inr x
     else Inl (ValueError (''duplicate event id: '' @ auto_event_id (length (rn_ledger r) + k + 1))))"

lemma released_prefix_Cons:
  assumes "release_event r actor_id t (length (rn_ledger r) + 1) e" "\<not> id_taken (rn_ledger r) (length (rn_ledger r) + 1)"
    and "released_prefix (r\<lparr>rn_tasks := released [t] (rn_tasks r), rn_ledger := rn_ledger r @ [e]\<rparr>) actor_id ts k es r'"
    and "t \<notin> set ts"
  shows "released_prefix r actor_id (t # ts) (Suc k) (e # es) r'"
proof -
  let ?r = "r\<lparr>rn_tasks := released [t] (rn_tasks r), rn_ledger := rn_ledger r @ [e]\<rparr>"
  have id: "ae_event_id e = auto_event_id (length (rn_ledger r) + 1)" using assms(1) by (simp add: release_event_def)
  note taken = id_taken_append [OF id]
  have same: "release_event ?r actor_id u n f \<longleftrightarrow> release_event r actor_id u n f" if "u \<in> set ts" for u n f
  proof -
    have "u \<notin> set [t]" using that assms(4) by auto
    from map_of_released [OF this, of "rn_tasks r"] show ?thesis by (simp add: release_event_def)
  qed
  from assms(3) have k: "k \<le> length ts" "length es = k" "k < length ts \<longrightarrow> id_taken (rn_ledger r) (length (rn_ledger r) + k + 2)"
    and r': "r' = r\<lparr>rn_tasks := released (take k ts) (released [t] (rn_tasks r)), rn_ledger := rn_ledger r @ e # es\<rparr>"
    by (simp_all add: released_prefix_def taken)
  have each: "\<not> id_taken (rn_ledger r) (length (rn_ledger r) + j + 2) \<and>
        release_event r actor_id (ts ! j) (length (rn_ledger r) + j + 2) (es ! j)" if "j < k" for j
    using that assms(3) k(1) same [of "ts ! j"] by (auto simp: released_prefix_def taken)
  have "\<not> id_taken (rn_ledger r) (length (rn_ledger r) + j + 1) \<and>
        release_event r actor_id ((t # ts) ! j) (length (rn_ledger r) + j + 1) ((e # es) ! j)" if "j < Suc k" for j
    using that assms(1,2) each [of "j - 1"] by (cases j) auto
  with k r' show ?thesis by (simp add: released_prefix_def released_Cons)
qed

lemma release_loop_exact:
  assumes "\<forall>t \<in> set ts. \<exists>rec. map_of (rn_tasks r) t = Some rec \<and> tr_state rec = BACKLOG"
    and "distinct ts" "actor_id \<noteq> []" "rn_mission_id r \<noteq> []" "distinct (map fst (rn_tasks r))"
  shows "\<exists>r' k es. release_loop sha clock actor_id r ts = (r', stopped_at r ts k ()) \<and> released_prefix r actor_id ts k es r'"
  using assms
proof (induction ts arbitrary: r)
  case Nil
  have "released_prefix r actor_id [] 0 [] r" by (simp add: released_prefix_def)
  then show ?case by (intro exI [of _ r] exI [of _ 0] exI [of _ "[]"]) (simp add: stopped_at_def)
next
  case (Cons t ts)
  then obtain rec where rec: "map_of (rn_tasks r) t = Some rec" "tr_state rec = BACKLOG" by auto
  show ?case
  proof (cases "id_taken (rn_ledger r) (length (rn_ledger r) + 1)")
    case True
    from release_taken [OF rec True] have "release_loop sha clock actor_id r (t # ts) = (r, stopped_at r (t # ts) 0 ())"
      by (simp add: stopped_at_def)
    moreover have "released_prefix r actor_id (t # ts) 0 [] r" using True by (simp add: released_prefix_def)
    ultimately show ?thesis by blast
  next
    case False
    let ?now = "clock (length (rn_ledger r))"
    from release_one [OF rec Cons.prems(3,4) False Cons.prems(5), of sha ?now] obtain e where
      e: "transition sha ?now r t READY (plain_args actor_id) =
        Inr (r\<lparr>rn_tasks := released [t] (rn_tasks r), rn_ledger := rn_ledger r @ [e]\<rparr>, e)"
        "release_event r actor_id t (length (rn_ledger r) + 1) e" by blast
    let ?r = "r\<lparr>rn_tasks := released [t] (rn_tasks r), rn_ledger := rn_ledger r @ [e]\<rparr>"
    have states: "\<forall>u \<in> set ts. \<exists>rec. map_of (rn_tasks ?r) u = Some rec \<and> tr_state rec = BACKLOG"
    proof
      fix u
      assume u: "u \<in> set ts"
      with Cons.prems(2) have "u \<notin> set [t]" by auto
      from map_of_released [OF this, of "rn_tasks r"] u Cons.prems(1)
      show "\<exists>rec. map_of (rn_tasks ?r) u = Some rec \<and> tr_state rec = BACKLOG" by simp
    qed
    from Cons.IH [of ?r, OF states] Cons.prems(2-5) obtain r' k es where
      r': "release_loop sha clock actor_id ?r ts = (r', stopped_at ?r ts k ())" "released_prefix ?r actor_id ts k es r'"
      by auto
    have "stopped_at ?r ts k () = stopped_at r (t # ts) (Suc k) ()" by (simp add: stopped_at_def)
    with r'(1) e(1) have "release_loop sha clock actor_id r (t # ts) = (r', stopped_at r (t # ts) (Suc k) ())" by simp
    moreover have "t \<notin> set ts" using Cons.prems(2) by simp
    note released_prefix_Cons [OF e(2) False r'(2) this]
    ultimately show ?thesis by blast
  qed
qed

lemma map_of_runner_states:
  "map_of (runner_states r) t = map_option (state_value \<circ> tr_state) (map_of (rn_tasks r) t)"
  by (simp add: runner_states_def map_of_map o_def)

definition releasable :: "runner \<Rightarrow> string \<Rightarrow> bool" where
  "releasable r t \<longleftrightarrow> (\<exists>n \<in> set (rn_task_nodes r). task_id n = t \<and>
     map_option tr_state (map_of (rn_tasks r) t) = Some BACKLOG \<and>
     (\<forall>d \<in> set (dependencies n). map_option tr_state (map_of (rn_tasks r) d) = Some DONE))"

lemma state_value_literal:
  "(''BACKLOG'' = state_value s) = (s = BACKLOG)" "(''DONE'' = state_value s) = (s = DONE)"
  "(state_value s = ''BACKLOG'') = (s = BACKLOG)" "(state_value s = ''DONE'') = (s = DONE)"
  by (cases s; simp)+

lemma release_ready:
  assumes "runner_ok sha r" "actor_id \<noteq> []" "rn_mission_id r \<noteq> []"
  shows "\<exists>r' ts k es. release_ready_tasks sha clock actor_id r = (r', stopped_at r ts k ts) \<and>
     set ts = Collect (releasable r) \<and> sorted ts \<and> distinct ts \<and> released_prefix r actor_id ts k es r'"
proof -
  have "set (map fst (runner_states r)) = set (ids (rn_task_nodes r))"
    using assms(1) by (simp add: runner_ok_def runner_states_def case_prod_beta image_image)
  then obtain ts where ts: "ready_tasks (rn_task_nodes r) (runner_states r) = Inr ts"
    using assms(1) by (auto simp: ready_tasks_def runner_ok_def)
  have set: "set ts = Collect (releasable r)"
    unfolding ready_tasks_set [OF ts] releasable_def map_of_runner_states
    by (auto simp: map_option_eq_Some state_value_literal)
  have order: "sorted ts" "distinct ts" using ready_tasks_sorted [OF ts] by auto
  have "\<exists>r' k es. release_loop sha clock actor_id r ts = (r', stopped_at r ts k ()) \<and> released_prefix r actor_id ts k es r'"
    using assms set order by (intro release_loop_exact) (auto simp: runner_ok_def releasable_def)
  then obtain r' k es where r': "release_loop sha clock actor_id r ts = (r', stopped_at r ts k ())"
    "released_prefix r actor_id ts k es r'" by blast
  then have "release_ready_tasks sha clock actor_id r = (r', stopped_at r ts k ts)"
    using ts by (simp add: release_ready_tasks_def stopped_at_def)
  with set order r'(2) show ?thesis by blast
qed

lemma some_releasable:
  assumes "runner_ok sha r" "\<forall>(t, rec) \<in> set (rn_tasks r). tr_state rec \<in> {BACKLOG, DONE}"
    and "\<not> (\<forall>(t, rec) \<in> set (rn_tasks r). tr_state rec = DONE)"
  shows "\<exists>t. releasable r t"
proof -
  define fin where "fin t \<longleftrightarrow> map_option tr_state (map_of (rn_tasks r) t) = Some DONE" for t
  have state: "t \<in> set (ids (rn_task_nodes r)) \<Longrightarrow>
      map_option tr_state (map_of (rn_tasks r) t) \<in> {Some BACKLOG, Some DONE}" for t
    using assms(1,2) map_of_SomeD [of "rn_tasks r" t]
    by (cases "map_of (rn_tasks r) t") (auto simp: runner_ok_def map_of_eq_None_iff)
  from assms(3) obtain t rec where t: "(t, rec) \<in> set (rn_tasks r)" "tr_state rec \<noteq> DONE" by auto
  then have "map_of (rn_tasks r) t = Some rec" "t \<in> set (ids (rn_task_nodes r))"
    using assms(1) by (auto simp: runner_ok_def rev_image_eqI)
  with t have "\<not> fin t" by (simp add: fin_def)
  then obtain n where n: "n \<in> set (rn_task_nodes r)" "\<not> fin (task_id n)" "\<forall>d \<in> set (dependencies n). fin d"
    using minimal_unfinished [of "rn_task_nodes r" t fin] assms(1) \<open>t \<in> set (ids (rn_task_nodes r))\<close>
    by (auto simp: runner_ok_def)
  then have "task_id n \<in> set (ids (rn_task_nodes r))" by (simp add: ids_def)
  with state [of "task_id n"] n show ?thesis by (auto simp: releasable_def fin_def)
qed

lemma map_of_map_key: "map_of (map (\<lambda>(k, v). (k, f k v)) al) k = map_option (f k) (map_of al k)"
  by (induction al) auto

text \<open>What a release of at least one task achieves.\<close>

lemma release_progress:
  assumes "release_ready_tasks sha clock actor_id r = (r', stopped_at r (t # ts) k (t # ts))"
    and "released_prefix r actor_id (t # ts) k es r'" and "releasable r t"
  shows "(if id_taken (rn_ledger r) (length (rn_ledger r) + 1)
      then release_ready_tasks sha clock actor_id r =
        (r, Inl (ValueError (''duplicate event id: '' @ auto_event_id (length (rn_ledger r) + 1))))
      else \<exists>t r' result. release_ready_tasks sha clock actor_id r = (r', result) \<and> releasable r t \<and>
        map_option tr_state (map_of (rn_tasks r') t) = Some READY) \<and>
    (map ae_event_id (rn_ledger r) = map auto_event_id [1 ..< length (rn_ledger r) + 1] \<longrightarrow>
       (\<exists>r' t ts'. release_ready_tasks sha clock actor_id r = (r', Inr (t # ts'))))"
proof -
  note p = assms(2) [unfolded released_prefix_def]
  have k0: "k = 0 \<longleftrightarrow> id_taken (rn_ledger r) (length (rn_ledger r) + 1)" using p by (cases k) auto
  show ?thesis
  proof (intro conjI impI)
    assume "map ae_event_id (rn_ledger r) = map auto_event_id [1 ..< length (rn_ledger r) + 1]"
    then have "ae_event_id ` set (rn_ledger r) = auto_event_id ` {1 ..< length (rn_ledger r) + 1}"
      by (metis set_map set_upt)
    then have "\<not> id_taken (rn_ledger r) (length (rn_ledger r) + k + 1)"
      by (auto simp: id_taken_def auto_event_id_def)
    then have "k = length (t # ts)" using p by linarith
    then show "\<exists>r' t ts'. release_ready_tasks sha clock actor_id r = (r', Inr (t # ts'))"
      using assms(1) by (simp add: stopped_at_def)
  next
    show "if id_taken (rn_ledger r) (length (rn_ledger r) + 1)
      then release_ready_tasks sha clock actor_id r =
        (r, Inl (ValueError (''duplicate event id: '' @ auto_event_id (length (rn_ledger r) + 1))))
      else \<exists>t r' result. release_ready_tasks sha clock actor_id r = (r', result) \<and> releasable r t \<and>
        map_option tr_state (map_of (rn_tasks r') t) = Some READY"
    proof (cases "k = 0")
      case True
      with p have "r' = r" by simp
      with True k0 assms(1) show ?thesis by (simp add: stopped_at_def)
    next
      case False
      then obtain j where "k = Suc j" by (cases k) auto
      with p have "rn_tasks r' = released (t # take j ts) (rn_tasks r)" by simp
      moreover obtain rec where "map_of (rn_tasks r) t = Some rec" using assms(3) by (auto simp: releasable_def)
      ultimately have "map_option tr_state (map_of (rn_tasks r') t) = Some READY"
        by (simp add: released_def map_of_map_key)
      with False k0 assms(1,3) show ?thesis by auto
    qed
  qed
qed

end
