(* ===== verification/Durable_Ledger.thy ===== *)
theory Durable_Ledger
  imports Mission_Runner
begin

text \<open>
  The SQLite persistence of missions (factory/runtime/sqlite_store.py): the audit ledger whose
  rows hold the payload as canonical JSON text, the mission tables, creation and restoration of
  runners. The tables are the lists of their rows; \<open>now\<close> is the clock reading of a call. The
  durable ledger is shown to refine the in-memory one.
\<close>

section \<open>The durable ledger\<close>

record audit_row =
  ar_sequence :: nat
  ar_event_id :: string
  ar_mission_id :: string
  ar_actor_id :: string
  ar_event_type :: string
  ar_payload_json :: string
  ar_created_at :: string
  ar_previous_hash :: string
  ar_event_hash :: string

definition row_of_event :: "audit_event \<Rightarrow> audit_row" where
  "row_of_event e = \<lparr>ar_sequence = ae_sequence e, ar_event_id = ae_event_id e,
     ar_mission_id = ae_mission_id e, ar_actor_id = ae_actor_id e, ar_event_type = ae_event_type e,
     ar_payload_json = json_dumps (ae_payload e), ar_created_at = ae_created_at e,
     ar_previous_hash = ae_previous_hash e, ar_event_hash = ae_event_hash e\<rparr>"

text \<open>\<open>ORDER BY sequence DESC LIMIT 1\<close>\<close>

definition last_row :: "audit_row list \<Rightarrow> audit_row option" where
  "last_row rows = (let s = sort_key ar_sequence rows in if s = [] then None else Some (last s))"

definition sql_append :: "(string \<Rightarrow> string) \<Rightarrow> string \<Rightarrow> audit_row list \<Rightarrow> string \<Rightarrow> string \<Rightarrow> string \<Rightarrow>
     string \<Rightarrow> json \<Rightarrow> string option \<Rightarrow> (audit_row list \<times> audit_event) res" where
  "sql_append sha now rows event_id mission_id actor_id event_type payload created_at =
     res_bind (checks [
       raise_if (mission_id = [] \<or> actor_id = [] \<or> event_type = [])
         (ValueError ''mission_id, actor_id and event_type are required''),
       raise_if (list_ex (\<lambda>r. ar_event_id r = event_id) rows)
         (ValueError (''duplicate event id: '' @ event_id))]) (\<lambda>_.
     let e = new_event sha (case last_row rows of None \<Rightarrow> 1 | Some r \<Rightarrow> ar_sequence r + 1)
           event_id mission_id actor_id event_type payload (or_now created_at now)
           (case last_row rows of None \<Rightarrow> ''GENESIS'' | Some r \<Rightarrow> ar_event_hash r) in
     res_bind (raise_if (list_ex (\<lambda>r. ar_sequence r = ae_sequence e \<or> ar_event_hash r = ae_event_hash e) rows)
       (IntegrityError ''audit_events'')) (\<lambda>_.
     Inr (rows @ [row_of_event e], e)))"

definition event_of_row :: "audit_row \<Rightarrow> audit_event res" where
  "event_of_row r = res_bind (fetch (ValueError ''json'') (json_read (ar_payload_json r))) (\<lambda>payload.
     Inr \<lparr>ae_sequence = ar_sequence r, ae_event_id = ar_event_id r, ae_mission_id = ar_mission_id r,
       ae_actor_id = ar_actor_id r, ae_event_type = ar_event_type r, ae_payload = payload,
       ae_created_at = ar_created_at r, ae_previous_hash = ar_previous_hash r,
       ae_event_hash = ar_event_hash r\<rparr>)"

definition sql_events :: "audit_row list \<Rightarrow> string option \<Rightarrow> audit_event list res" where
  "sql_events rows mission_id = map_res event_of_row (sort_key ar_sequence
     (case mission_id of None \<Rightarrow> rows | Some m \<Rightarrow> [r \<leftarrow> rows. ar_mission_id r = m]))"

definition sql_verify_integrity :: "(string \<Rightarrow> string) \<Rightarrow> audit_row list \<Rightarrow> unit res" where
  "sql_verify_integrity sha rows = res_bind (sql_events rows None) (\<lambda>es.
     res_bind (from_events sha es) (\<lambda>_. Inr ()))"

section \<open>The mission store\<close>

record task_row =
  tk_mission_id :: string
  tk_task_id :: string
  tk_dependencies_json :: string
  tk_write_scopes_json :: string

record mission_db =
  ml_missions :: "(string \<times> string) list"
  ml_tasks :: "task_row list"
  ml_events :: "audit_row list"

definition items_json :: "string list \<Rightarrow> string" where
  "items_json xs = json_dumps (JObj [(''items'', JStrs xs)])"

definition row_of_node :: "string \<Rightarrow> task_node \<Rightarrow> task_row" where
  "row_of_node m n = \<lparr>tk_mission_id = m, tk_task_id = task_id n,
     tk_dependencies_json = items_json (dependencies n), tk_write_scopes_json = items_json (write_scopes n)\<rparr>"

text \<open>A runner of the store has the durable ledger: its events are those of the table. A row whose
  payload is not JSON only matters when the events are read.\<close>

definition table_events :: "audit_row list \<Rightarrow> audit_event list" where
  "table_events rows = (case sql_events rows None of Inl _ \<Rightarrow> [] | Inr es \<Rightarrow> es)"

definition create_runner :: "string \<Rightarrow> string \<Rightarrow> task_node list \<Rightarrow> mission_db \<Rightarrow> (mission_db \<times> runner) res" where
  "create_runner now mission_id nodes db =
     res_bind (checks [
       validate_graph nodes,
       raise_if (mission_id = [] \<or> nodes = []) (ValueError ''mission_id and at least one task are required''),
       raise_if (mission_id \<in> set (map fst (ml_missions db)) \<or>
           list_ex (\<lambda>r. tk_mission_id r = mission_id \<and> tk_task_id r \<in> set (ids nodes)) (ml_tasks db))
         (ValueError (''mission already exists: '' @ mission_id))]) (\<lambda>_.
     let db' = db\<lparr>ml_missions := ml_missions db @ [(mission_id, now)],
                 ml_tasks := ml_tasks db @ map (row_of_node mission_id) nodes\<rparr> in
     res_bind (new_runner mission_id (ids nodes) (table_events (ml_events db)) nodes) (\<lambda>r. Inr (db', r)))"

definition items_of :: "string \<Rightarrow> string list res" where
  "items_of txt = res_bind (fetch (ValueError ''json'') (json_read txt)) (\<lambda>v.
     res_bind (payload_item v ''items'') (\<lambda>i.
     res_bind (fetch (KeyError [''items'']) i) (\<lambda>i. as_strs (Some i))))"

definition node_of_row :: "task_row \<Rightarrow> task_node res" where
  "node_of_row r = res_bind (items_of (tk_dependencies_json r)) (\<lambda>deps.
     res_bind (items_of (tk_write_scopes_json r)) (\<lambda>scopes.
     Inr \<lparr>task_id = tk_task_id r, dependencies = deps, write_scopes = scopes\<rparr>))"

definition load_nodes :: "string \<Rightarrow> mission_db \<Rightarrow> task_node list res" where
  "load_nodes mission_id db =
     res_bind (raise_if (mission_id \<notin> set (map fst (ml_missions db)))
       (KeyError [''unknown mission: '' @ mission_id])) (\<lambda>_.
     map_res node_of_row (sort_key tk_task_id [r \<leftarrow> ml_tasks db. tk_mission_id r = mission_id]))"

definition restore_runner :: "(string \<Rightarrow> string) \<Rightarrow> (nat \<Rightarrow> string) \<Rightarrow> string \<Rightarrow> mission_db \<Rightarrow> runner res" where
  "restore_runner sha clock mission_id db =
     res_bind (load_nodes mission_id db) (\<lambda>nodes.
     res_bind (sql_events (ml_events db) None) (\<lambda>es.
     res_bind (replay sha clock mission_id (ids nodes) es nodes) (\<lambda>r.
     Inr (r\<lparr>rn_ledger := es\<rparr>))))"

section \<open>The durable ledger refines the in-memory ledger\<close>

definition norm_event :: "audit_event \<Rightarrow> audit_event" where
  "norm_event e = e\<lparr>ae_payload := json_norm (ae_payload e)\<rparr>"

text \<open>The rows that a sequence of events leaves in the table.\<close>

definition holds_events :: "audit_row list \<Rightarrow> audit_event list \<Rightarrow> bool" where
  "holds_events rows es \<longleftrightarrow> rows = map row_of_event es \<and> map ae_sequence es = [1 ..< 1 + length es]"

lemma event_of_row_of_event: "event_of_row (row_of_event e) = Inr (norm_event e)"
  by (simp add: event_of_row_def row_of_event_def json_read_dumps norm_event_def)

lemma map_res_total: "(\<And>x. f x = Inr (g x)) \<Longrightarrow> map_res f xs = Inr (map g xs)"
  by (induction xs) auto

lemma ar_sequence_row [simp]: "ar_sequence \<circ> row_of_event = ae_sequence"
  by (auto simp: row_of_event_def)

lemma holds_sorted: "holds_events rows es \<Longrightarrow> sort_key ar_sequence rows = rows"
proof -
  assume h: "holds_events rows es"
  then have "map ar_sequence rows = [1 ..< 1 + length es]" by (simp add: holds_events_def del: upt_Suc)
  then show ?thesis by (intro sort_key_id_if_sorted) (simp del: upt_Suc)
qed

lemma sql_events_holds: "holds_events rows es \<Longrightarrow> sql_events rows None = Inr (map norm_event es)"
  using holds_sorted [of rows es] map_res_total [of "event_of_row \<circ> row_of_event" norm_event es]
  by (simp add: sql_events_def holds_events_def map_res_map event_of_row_of_event)

lemma holds_last:
  assumes "holds_events rows es"
  shows "(case last_row rows of None \<Rightarrow> 1 | Some r \<Rightarrow> ar_sequence r + 1) = length es + 1"
    and "(case last_row rows of None \<Rightarrow> ''GENESIS'' | Some r \<Rightarrow> ar_event_hash r) =
      last_hash ae_event_hash ''GENESIS'' es"
proof -
  have "ae_sequence (last es) = length es" if "es \<noteq> []"
  proof -
    have "map ae_sequence es = [1 ..< 1 + length es]" using assms by (simp add: holds_events_def)
    then have "ae_sequence (last es) = last [1 ..< 1 + length es]" using that by (metis last_map)
    with that show ?thesis by (cases "length es") simp_all
  qed
  moreover have "rows = map row_of_event es" using assms by (simp add: holds_events_def)
  ultimately show "(case last_row rows of None \<Rightarrow> 1 | Some r \<Rightarrow> ar_sequence r + 1) = length es + 1"
    "(case last_row rows of None \<Rightarrow> ''GENESIS'' | Some r \<Rightarrow> ar_event_hash r) = last_hash ae_event_hash ''GENESIS'' es"
    using holds_sorted [OF assms]
    by (auto simp: last_row_def Let_def last_map row_of_event_def last_hash_def)
qed

lemma row_simps [simp]:
  "ar_event_id (row_of_event e) = ae_event_id e" "ar_event_hash (row_of_event e) = ae_event_hash e"
  "ar_sequence (row_of_event e) = ae_sequence e" "ar_mission_id (row_of_event e) = ae_mission_id e"
  by (simp_all add: row_of_event_def)

text \<open>One durable append is one append of the in-memory ledger, unless the digest collides with
  the digest of an earlier row (the table keeps digests unique).\<close>

lemma sql_append_refines:
  assumes "holds_events rows es"
  shows "sql_append sha now rows i m a t p c = Inr (rows', e) \<longleftrightarrow>
     ledger_append sha now es i m a t p c = Inr (es @ [e], e) \<and> rows' = rows @ [row_of_event e] \<and>
     ae_event_hash e \<notin> ae_event_hash ` set es"
proof -
  have rows: "rows = map row_of_event es" and seq: "map ae_sequence es = [1 ..< 1 + length es]"
    using assms by (simp_all add: holds_events_def)
  have "\<forall>f \<in> set es. ae_sequence f \<noteq> Suc (length es)"
  proof
    fix f assume "f \<in> set es"
    then have "ae_sequence f \<in> set (map ae_sequence es)" by simp
    then show "ae_sequence f \<noteq> Suc (length es)" unfolding seq by auto
  qed
  then have "list_ex (\<lambda>r. ar_sequence r = Suc (length es) \<or> ar_event_hash r = h) rows \<longleftrightarrow>
      h \<in> ae_event_hash ` set es" for h
    unfolding rows by (auto simp: list_ex_iff)
  moreover have "list_ex (\<lambda>r. ar_event_id r = i) rows \<longleftrightarrow> i \<in> set (map ae_event_id es)"
    unfolding rows by (auto simp: list_ex_iff)
  ultimately show ?thesis
    unfolding sql_append_def holds_last [OF assms] ledger_append_Inr by (auto simp: Let_def)
qed

lemma holds_snoc:
  "holds_events rows es \<Longrightarrow> ledger_append sha now es i m a t p c = Inr (es', e) \<Longrightarrow>
     holds_events (rows @ [row_of_event e]) es'"
  by (auto simp: holds_events_def ledger_append_Inr)

lemma norm_event_simps [simp]:
  "ae_sequence (norm_event e) = ae_sequence e" "ae_event_id (norm_event e) = ae_event_id e"
  "ae_mission_id (norm_event e) = ae_mission_id e" "ae_event_type (norm_event e) = ae_event_type e"
  "ae_previous_hash (norm_event e) = ae_previous_hash e" "ae_event_hash (norm_event e) = ae_event_hash e"
  "ae_actor_id (norm_event e) = ae_actor_id e"
  by (simp_all add: norm_event_def)

lemma event_material_norm [simp]: "event_material (norm_event e) = event_material e"
  by (simp add: event_material_eq event_content_def norm_event_def)

lemma verify_from_norm: "verify_from sha n p (map norm_event es) = verify_from sha n p es"
  by (induction es arbitrary: n p) (simp_all)

lemma sql_verify_holds:
  "holds_events rows es \<Longrightarrow> sql_verify_integrity sha rows = verify_integrity sha es"
  by (cases "verify_integrity sha es")
     (simp_all add: sql_verify_integrity_def sql_events_holds from_events_def verify_integrity_def verify_from_norm)

section \<open>Restoration\<close>

definition reads_alike :: "audit_event \<Rightarrow> bool" where
  "reads_alike e \<longleftrightarrow> event_args (norm_event e) = event_args e"

lemma transition_reads_alike:
  "reads_alike (new_event sha n i m actor ty (transition_payload t s target ev rv ws ob ap) c h)"
  by (simp add: reads_alike_def event_args_def norm_event_def transition_payload_def payload_item_def as_str_def
      Let_def sort_literal)

lemma replay_events_norm:
  "\<forall>e \<in> set es. ae_event_type e = ''TASK_STATE_TRANSITION'' \<longrightarrow> reads_alike e \<Longrightarrow>
     replay_events sha clock r (map norm_event es) = replay_events sha clock r es"
  by (induction es arbitrary: r) (auto simp: reads_alike_def intro!: res_bind_cong)

lemma runs_read_alike:
  assumes "runs sha r0 r"
    and "\<forall>e \<in> set (transitions_of (rn_mission_id r0) (rn_ledger r0)). reads_alike e"
  shows "\<forall>e \<in> set (transitions_of (rn_mission_id r0) (rn_ledger r)). reads_alike e"
  using assms
proof (induction rule: runs.induct)
  case (step r now t target a r1 e)
  from step.hyps(2) obtain rec p where "rn_ledger r1 = rn_ledger r @ [e]" "reads_alike e"
    by (elim transition_InrE) (auto simp: ledger_append_Inr transition_reads_alike)
  with step show ?case by (auto simp: transitions_of_append)
next
  case (other r now i m actor ty p c es e)
  then show ?case using runs_frame [OF other.hyps(1)] by (auto simp: transitions_of_append ledger_append_Inr)
qed simp

lemma items_round_trip [simp]: "items_of (items_json xs) = Inr xs"
  by (simp add: items_of_def items_json_def json_read_dumps payload_item_def sort_literal)

lemma node_round_trip: "node_of_row (row_of_node m n) = Inr n"
  by (simp add: node_of_row_def row_of_node_def)

lemma depends_perm:
  assumes "set ns' = set ns" "distinct (ids ns)" "distinct (ids ns')"
  shows "depends ns' = depends ns"
proof -
  have "node_of ns t = Some n \<longleftrightarrow> n \<in> set ns \<and> task_id n = t" if "distinct (ids ns)" for ns t n
    using node_of_Some node_of_distinct [OF that] by blast
  from this [OF assms(2)] this [OF assms(3)] assms(1) show ?thesis
    by (auto simp: depends_iff)
qed

lemma validate_graph_perm:
  "set ns' = set ns \<Longrightarrow> distinct (ids ns') \<Longrightarrow> validate_graph ns = Inr () \<Longrightarrow> validate_graph ns' = Inr ()"
  using depends_perm [of ns' ns] by (auto simp: validate_graph_spec) (auto simp: ids_def)

definition no_orphans :: "mission_db \<Rightarrow> bool" where
  "no_orphans db \<longleftrightarrow> (\<forall>r \<in> set (ml_tasks db). tk_mission_id r \<in> set (map fst (ml_missions db)))"

lemma create_runner_Inr:
  "create_runner now m ns db = Inr (db', r) \<longleftrightarrow> validate_graph ns = Inr () \<and> m \<noteq> [] \<and> ns \<noteq> [] \<and>
     m \<notin> set (map fst (ml_missions db)) \<and>
     \<not> list_ex (\<lambda>r. tk_mission_id r = m \<and> tk_task_id r \<in> set (ids ns)) (ml_tasks db) \<and>
     db' = db\<lparr>ml_missions := ml_missions db @ [(m, now)], ml_tasks := ml_tasks db @ map (row_of_node m) ns\<rparr> \<and>
     new_runner m (ids ns) (table_events (ml_events db)) ns = Inr r"
  by (auto simp: create_runner_def Let_def)

lemma load_created:
  assumes "create_runner now m ns db = Inr (db', r)" "no_orphans db"
  shows "load_nodes m (db'\<lparr>ml_events := rows\<rparr>) = Inr (sort_key task_id ns)"
proof -
  have "[r \<leftarrow> ml_tasks db. tk_mission_id r = m] = []"
    using assms by (auto simp: create_runner_Inr no_orphans_def filter_empty_conv)
  then have "[r \<leftarrow> ml_tasks db'. tk_mission_id r = m] = map (row_of_node m) ns"
    using assms(1) by (auto simp: create_runner_Inr row_of_node_def filter_map o_def)
  moreover have "tk_task_id \<circ> row_of_node m = task_id" by (auto simp: row_of_node_def)
  ultimately have "map_res node_of_row (sort_key tk_task_id [r \<leftarrow> ml_tasks db'. tk_mission_id r = m]) =
      Inr (sort_key task_id ns)"
    using map_res_total [of "node_of_row \<circ> row_of_node m" id "sort_key task_id ns"]
    by (simp add: sort_key_map map_res_map node_round_trip)
  then show ?thesis
    using assms(1) by (auto simp: create_runner_Inr load_nodes_def)
qed

text \<open>Whatever happened to a mission since its creation, restoring it from the tables gives a
  runner with the same dictionary of task records, the same nodes and the durable ledger.\<close>

lemma restore_run:
  assumes "create_runner now m ns db = Inr (db1, r0)" "no_orphans db"
    and "holds_events (ml_events db) es0" "ledger_ok sha es0" "transitions_of m es0 = []"
    and "runs sha r0 r" "holds_events rows es" "map norm_event es = map norm_event (rn_ledger r)"
  shows "\<exists>r'. restore_runner sha clock m (db1\<lparr>ml_events := rows\<rparr>) = Inr r' \<and>
     map_of (rn_tasks r') = map_of (rn_tasks r) \<and> rn_mission_id r' = m \<and>
     rn_ledger r' = map norm_event (rn_ledger r)"
proof -
  let ?ns = "sort_key task_id ns" and ?led = "map norm_event es0"
  have c: "validate_graph ns = Inr ()" "m \<noteq> []" "ns \<noteq> []" "new_runner m (ids ns) ?led ns = Inr r0"
    using assms(1) sql_events_holds [OF assms(3)] by (auto simp: create_runner_Inr table_events_def)
  have "verify_integrity sha ?led = Inr ()" "distinct (map ae_event_id ?led)"
    using assms(4) verify_from_norm by (simp_all add: ledger_ok_def verify_integrity_def o_def)
  then have led: "ledger_ok sha ?led" by (simp add: ledger_ok_def)
  have no: "transitions_of m ?led = []"
    using assms(5) by (auto simp: transitions_of_def filter_empty_conv)
  have ids: "ids ?ns = sort (ids ns)" by (simp add: ids_def sort_key_map o_def)
  have "distinct (ids ns)" using c(1) by (simp add: validate_graph_spec)
  then have graph: "validate_graph ?ns = Inr ()"
    using validate_graph_perm [of ?ns ns] c(1) by (simp add: ids)
  have "length ?ns \<noteq> 0" using c(3) by simp
  then have "?ns \<noteq> []" by force
  with graph obtain r0' where r0': "new_runner m (ids ?ns) [] ?ns = Inr r0'"
    using c(2) \<open>distinct (ids ns)\<close> by (auto simp: new_runner_def ids Let_def)
  from replay_run [OF c(4) led no assms(6) r0'] obtain r' where
    r': "replay sha clock m (ids ?ns) (rn_ledger r) ?ns = Inr r'" "map_of (rn_tasks r') = map_of (rn_tasks r)"
      "rn_mission_id r' = m" by (auto simp: ids)
  have "runner_ok sha r" using runs_ok [OF assms(6)] new_runner_ok [OF c(4) led] .
  then have ok: "verify_integrity sha (rn_ledger r) = Inr ()" by (simp add: runner_ok_def ledger_ok_def)
  have "rn_mission_id r0 = m" "rn_ledger r0 = ?led" using new_runner_tasks [OF c(4)] by auto
  with runs_read_alike [OF assms(6)] no have "\<forall>e \<in> set (transitions_of m (rn_ledger r)). reads_alike e"
    by simp
  then have "replay_events sha clock r0' [e \<leftarrow> map norm_event (rn_ledger r). ae_mission_id e = m] =
      replay_events sha clock r0' [e \<leftarrow> rn_ledger r. ae_mission_id e = m]"
    by (subst filter_map, subst replay_events_norm) (auto simp: transitions_of_def o_def)
  with r'(1) r0' ok have "replay sha clock m (ids ?ns) (map norm_event (rn_ledger r)) ?ns = Inr r'"
    using verify_from_norm [of sha 1 "''GENESIS''" "rn_ledger r"]
    by (simp add: replay_def from_events_def verify_integrity_def ledger_events_def)
  then show ?thesis
    using r'(2,3) load_created [OF assms(1,2)] sql_events_holds [OF assms(7)] assms(8)
    by (simp add: restore_runner_def)
qed

end
