(* ===== verification/Reliability_Rules.thy ===== *)
theory Reliability_Rules
  imports Prelude Complex_Main
begin

text \<open>
  The contracts of durable operations (factory/reliability/contracts.py) and the pure decision
  engine (factory/reliability/engine.py): which failure is retried, reconciled or stopped, and
  how the circuit breaker moves. The code keeps effect classes, outcomes and statuses as
  strings that \<open>validate\<close> checks against fixed sets; so does the model. A Python
  \<open>float\<close> that is only compared is a rational.
\<close>

section \<open>Contracts\<close>

record operation_spec =
  op_operation_id :: string
  op_mission_id :: string
  op_effect_class :: string
  op_max_attempts :: int
  op_timeout_seconds :: int
  op_idempotency_key :: "string option"
  op_reconciliation_supported :: bool
  op_compensation_ref :: "string option"

text \<open>\<open>not s or not s.strip()\<close> on an optional string\<close>

definition blank_opt :: "string option \<Rightarrow> bool" where
  "blank_opt s = (case s of None \<Rightarrow> True | Some t \<Rightarrow> blank t)"

definition operation_validate :: "operation_spec \<Rightarrow> unit res" where
  "operation_validate op = checks [
     raise_if (blank (op_operation_id op) \<or> blank (op_mission_id op))
       (ValueError ''operation_id and mission_id are required''),
     raise_if (op_effect_class op \<notin> {''READ_ONLY'', ''LOCAL_WRITE'', ''EXTERNAL_WRITE''})
       (ValueError (''unknown effect_class:'' @ op_effect_class op)),
     raise_if (op_max_attempts op < 1) (ValueError ''max_attempts must be >= 1''),
     raise_if (op_timeout_seconds op < 1) (ValueError ''timeout_seconds must be >= 1''),
     raise_if (op_effect_class op = ''READ_ONLY'' \<and> op_compensation_ref op \<noteq> None)
       (ValueError ''READ_ONLY operation cannot define compensation''),
     (if op_effect_class op = ''EXTERNAL_WRITE'' then checks [
        raise_if (blank_opt (op_idempotency_key op))
          (ValueError ''EXTERNAL_WRITE requires a stable idempotency_key''),
        raise_if (\<not> op_reconciliation_supported op)
          (ValueError ''EXTERNAL_WRITE requires reconciliation support'')]
      else Inr ())]"

record attempt_record =
  at_operation_id :: string
  at_attempt :: int
  at_outcome :: string
  at_error_code :: "string option"
  at_reconciliation_result :: "string option"

definition attempt_outcomes :: "string set" where
  "attempt_outcomes = {''SUCCESS'', ''RETRYABLE_FAILURE'', ''TERMINAL_FAILURE'', ''UNKNOWN''}"

definition reconciliation_results :: "string set" where
  "reconciliation_results = {''APPLIED'', ''NOT_APPLIED'', ''UNKNOWN''}"

definition attempt_validate :: "attempt_record \<Rightarrow> unit res" where
  "attempt_validate a = checks [
     raise_if (blank (at_operation_id a)) (ValueError ''operation_id is required''),
     raise_if (at_attempt a < 1) (ValueError ''attempt must be >= 1''),
     raise_if (at_outcome a \<notin> attempt_outcomes) (ValueError (''unknown attempt outcome:'' @ at_outcome a)),
     raise_if (case at_reconciliation_result a of None \<Rightarrow> False | Some r \<Rightarrow> r \<notin> reconciliation_results)
       (ValueError (''unknown reconciliation result:'' @ the (at_reconciliation_result a))),
     raise_if (at_outcome a \<noteq> ''UNKNOWN'' \<and> at_reconciliation_result a \<noteq> None)
       (ValueError ''reconciliation_result is only valid for UNKNOWN outcome'')]"

record circuit =
  cb_state :: string
  cb_consecutive_failures :: int
  cb_failure_threshold :: int

definition default_circuit :: circuit where
  "default_circuit = \<lparr>cb_state = ''CLOSED'', cb_consecutive_failures = 0, cb_failure_threshold = 3\<rparr>"

definition circuit_validate :: "circuit \<Rightarrow> unit res" where
  "circuit_validate c = checks [
     raise_if (cb_state c \<notin> {''CLOSED'', ''OPEN'', ''HALF_OPEN''})
       (ValueError (''unknown circuit state:'' @ cb_state c)),
     raise_if (cb_consecutive_failures c < 0) (ValueError ''consecutive_failures must be >= 0''),
     raise_if (cb_failure_threshold c < 1) (ValueError ''failure_threshold must be >= 1''),
     raise_if (cb_state c = ''OPEN'' \<and> cb_consecutive_failures c < cb_failure_threshold c)
       (ValueError ''OPEN circuit requires threshold failures'')]"

record recovery_decision =
  rd_operation_id :: string
  rd_action :: string
  rd_reason :: string
  rd_next_attempt :: "int option"

definition recovery_actions :: "string set" where
  "recovery_actions = {''COMPLETE'', ''RETRY'', ''RECONCILE'', ''STOP''}"

definition decision_validate :: "recovery_decision \<Rightarrow> unit res" where
  "decision_validate d = checks [
     raise_if (blank (rd_operation_id d) \<or> blank (rd_reason d))
       (ValueError ''recovery decision identity and reason are required''),
     raise_if (rd_action d \<notin> recovery_actions) (ValueError (''unknown recovery action:'' @ rd_action d)),
     (if rd_action d = ''RETRY''
      then raise_if (case rd_next_attempt d of None \<Rightarrow> True | Some n \<Rightarrow> n < 2)
        (ValueError ''RETRY requires next_attempt >= 2'')
      else raise_if (rd_next_attempt d \<noteq> None) (ValueError ''only RETRY may set next_attempt''))]"

record deadline_observation =
  dl_operation_id :: string
  dl_attempt :: int
  dl_elapsed_seconds :: rat
  dl_timeout_seconds :: int
  dl_result :: string

definition deadline_result :: "rat \<Rightarrow> int \<Rightarrow> string" where
  "deadline_result elapsed timeout_s =
     (if elapsed \<ge> of_int timeout_s then ''TIMED_OUT'' else ''WITHIN_DEADLINE'')"

definition deadline_validate :: "deadline_observation \<Rightarrow> unit res" where
  "deadline_validate d = checks [
     raise_if (blank (dl_operation_id d) \<or> dl_attempt d < 1)
       (ValueError ''deadline observation identity is required''),
     raise_if (dl_elapsed_seconds d < 0 \<or> dl_timeout_seconds d < 1)
       (ValueError ''deadline values must be non-negative and timeout >= 1''),
     raise_if (dl_result d \<notin> {''WITHIN_DEADLINE'', ''TIMED_OUT''})
       (ValueError (''unknown deadline result:'' @ dl_result d)),
     raise_if (dl_result d \<noteq> deadline_result (dl_elapsed_seconds d) (dl_timeout_seconds d))
       (ValueError ''deadline result does not match elapsed/timeout values'')]"

record compensation_plan =
  cp_operation_id :: string
  cp_compensation_ref :: string
  cp_reason :: string
  cp_requires_human_approval :: bool

definition plan_validate :: "compensation_plan \<Rightarrow> unit res" where
  "plan_validate p = raise_if (blank (cp_operation_id p) \<or> blank (cp_compensation_ref p) \<or> blank (cp_reason p))
     (ValueError ''compensation plan identity, ref and reason are required'')"

record compensation_record =
  cr_operation_id :: string
  cr_status :: string
  cr_evidence_ref :: "string option"
  cr_error_code :: "string option"

definition compensation_validate :: "compensation_record \<Rightarrow> unit res" where
  "compensation_validate r = checks [
     raise_if (blank (cr_operation_id r)) (ValueError ''operation_id is required''),
     raise_if (cr_status r \<notin> {''PENDING'', ''RUNNING'', ''SUCCEEDED'', ''FAILED'', ''NOT_REQUIRED''})
       (ValueError (''unknown compensation status:'' @ cr_status r)),
     raise_if (cr_status r = ''SUCCEEDED'' \<and> blank_opt (cr_evidence_ref r))
       (ValueError ''successful compensation requires evidence_ref'')]"

record reliability_metric =
  rm_mission_id :: string
  rm_name :: string
  rm_value :: rat
  rm_operation_id :: "string option"
  rm_unit :: string

definition metric_validate :: "reliability_metric \<Rightarrow> unit res" where
  "metric_validate m = checks [
     raise_if (blank (rm_mission_id m) \<or> blank (rm_name m) \<or> blank (rm_unit m))
       (ValueError ''metric mission_id, name and unit are required''),
     raise_if (case rm_operation_id m of None \<Rightarrow> False | Some i \<Rightarrow> blank i)
       (ValueError ''operation_id cannot be blank'')]"

section \<open>The decision engine\<close>

definition decision :: "operation_spec \<Rightarrow> string \<Rightarrow> string \<Rightarrow> recovery_decision res" where
  "decision op action reason =
     (let d = \<lparr>rd_operation_id = op_operation_id op, rd_action = action, rd_reason = reason,
               rd_next_attempt = None\<rparr>
      in res_bind (decision_validate d) (\<lambda>_. Inr d))"

definition retry_or_stop :: "operation_spec \<Rightarrow> attempt_record \<Rightarrow> string \<Rightarrow> recovery_decision res" where
  "retry_or_stop op a reason =
     (if at_attempt a \<ge> op_max_attempts op then decision op ''STOP'' (reason @ '':retry_budget_exhausted'')
      else let d = \<lparr>rd_operation_id = op_operation_id op, rd_action = ''RETRY'', rd_reason = reason,
                    rd_next_attempt = Some (at_attempt a + 1)\<rparr>
           in res_bind (decision_validate d) (\<lambda>_. Inr d))"

definition decide :: "operation_spec \<Rightarrow> attempt_record \<Rightarrow> circuit option \<Rightarrow> recovery_decision res" where
  "decide op a circuit_arg =
     (let c = (case circuit_arg of None \<Rightarrow> default_circuit | Some c \<Rightarrow> c) in
     res_bind (checks [
       operation_validate op, attempt_validate a, circuit_validate c,
       raise_if (at_operation_id a \<noteq> op_operation_id op) (ValueError ''attempt/operation identity mismatch''),
       raise_if (at_attempt a > op_max_attempts op) (ValueError ''attempt exceeds operation max_attempts'')])
     (\<lambda>_.
       if cb_state c = ''OPEN'' then decision op ''STOP'' ''circuit_open''
       else if at_outcome a = ''SUCCESS'' then decision op ''COMPLETE'' ''operation_succeeded''
       else if at_outcome a = ''TERMINAL_FAILURE'' then decision op ''STOP'' ''terminal_failure''
       else if at_outcome a = ''RETRYABLE_FAILURE'' then retry_or_stop op a ''retryable_failure''
       else if op_effect_class op = ''EXTERNAL_WRITE'' then
         (case at_reconciliation_result a of
            None \<Rightarrow> decision op ''RECONCILE'' ''external_write_outcome_unknown''
          | Some r \<Rightarrow>
              if r = ''APPLIED'' then decision op ''COMPLETE'' ''reconciliation_confirmed_applied''
              else if r = ''NOT_APPLIED'' then retry_or_stop op a ''reconciliation_confirmed_not_applied''
              else decision op ''STOP'' ''reconciliation_remains_unknown'')
       else if op_effect_class op = ''READ_ONLY'' then retry_or_stop op a ''read_outcome_unknown''
       else decision op ''STOP'' ''local_write_outcome_unknown_requires_state_recovery''))"

definition next_circuit_state :: "circuit \<Rightarrow> attempt_record \<Rightarrow> circuit res" where
  "next_circuit_state c a =
     res_bind (checks [circuit_validate c, attempt_validate a]) (\<lambda>_.
     if at_outcome a = ''SUCCESS'' then
       let s = \<lparr>cb_state = ''CLOSED'', cb_consecutive_failures = 0, cb_failure_threshold = cb_failure_threshold c\<rparr>
       in res_bind (circuit_validate s) (\<lambda>_. Inr s)
     else if at_outcome a \<in> {''RETRYABLE_FAILURE'', ''TERMINAL_FAILURE'', ''UNKNOWN''} then
       let failures = cb_consecutive_failures c + 1;
           s = \<lparr>cb_state = (if failures \<ge> cb_failure_threshold c then ''OPEN'' else ''CLOSED''),
                cb_consecutive_failures = failures, cb_failure_threshold = cb_failure_threshold c\<rparr>
       in res_bind (circuit_validate s) (\<lambda>_. Inr s)
     else Inl (ValueError (''unsupported attempt outcome:'' @ at_outcome a)))"

definition half_open :: "circuit \<Rightarrow> circuit res" where
  "half_open c =
     res_bind (checks [circuit_validate c,
       raise_if (cb_state c \<noteq> ''OPEN'') (RuntimeError ''only OPEN circuit can enter HALF_OPEN'')]) (\<lambda>_.
     let s = \<lparr>cb_state = ''HALF_OPEN'', cb_consecutive_failures = cb_consecutive_failures c,
              cb_failure_threshold = cb_failure_threshold c\<rparr>
     in res_bind (circuit_validate s) (\<lambda>_. Inr s))"

section \<open>Correctness of the engine\<close>

lemma decision_Inr:
  "decision op action reason = Inr d \<longleftrightarrow>
     \<not> blank (op_operation_id op) \<and> \<not> blank reason \<and> action \<in> recovery_actions - {''RETRY''} \<and>
     d = \<lparr>rd_operation_id = op_operation_id op, rd_action = action, rd_reason = reason, rd_next_attempt = None\<rparr>"
  by (auto simp: decision_def decision_validate_def Let_def)

lemma retry_or_stop_Inr:
  "retry_or_stop op a reason = Inr d \<longleftrightarrow>
     \<not> blank (op_operation_id op) \<and>
     (if at_attempt a \<ge> op_max_attempts op
      then d = \<lparr>rd_operation_id = op_operation_id op, rd_action = ''STOP'',
                rd_reason = reason @ '':retry_budget_exhausted'', rd_next_attempt = None\<rparr>
      else \<not> blank reason \<and> 1 \<le> at_attempt a \<and>
           d = \<lparr>rd_operation_id = op_operation_id op, rd_action = ''RETRY'', rd_reason = reason,
                rd_next_attempt = Some (at_attempt a + 1)\<rparr>)"
  by (auto simp: retry_or_stop_def decision_Inr decision_validate_def Let_def recovery_actions_def is_space_def)

definition decidable :: "operation_spec \<Rightarrow> attempt_record \<Rightarrow> circuit \<Rightarrow> bool" where
  "decidable op a c \<longleftrightarrow> operation_validate op = Inr () \<and> attempt_validate a = Inr () \<and>
     circuit_validate c = Inr () \<and> at_operation_id a = op_operation_id op \<and>
     at_attempt a \<le> op_max_attempts op"

text \<open>The action the engine takes, as a table over the operation, the attempt and the circuit.\<close>

definition action_of :: "operation_spec \<Rightarrow> attempt_record \<Rightarrow> circuit \<Rightarrow> string" where
  "action_of op a c =
     (let retry = (if at_attempt a < op_max_attempts op then ''RETRY'' else ''STOP'') in
      if cb_state c = ''OPEN'' \<or> at_outcome a = ''TERMINAL_FAILURE'' then ''STOP''
      else if at_outcome a = ''SUCCESS'' then ''COMPLETE''
      else if at_outcome a = ''RETRYABLE_FAILURE'' \<or> op_effect_class op = ''READ_ONLY'' then retry
      else if op_effect_class op = ''LOCAL_WRITE'' then ''STOP''
      else if at_reconciliation_result a = None then ''RECONCILE''
      else if at_reconciliation_result a = Some ''APPLIED'' then ''COMPLETE''
      else if at_reconciliation_result a = Some ''NOT_APPLIED'' then retry else ''STOP'')"

lemma decidable_not_blank: "decidable op a c \<Longrightarrow> \<not> blank (op_operation_id op) \<and> 1 \<le> at_attempt a"
  by (auto simp: decidable_def operation_validate_def attempt_validate_def)

lemma decide_eq:
  assumes "decidable op a c"
  shows "\<exists>reason. decide op a (Some c) = Inr \<lparr>rd_operation_id = op_operation_id op,
     rd_action = action_of op a c, rd_reason = reason,
     rd_next_attempt = (if action_of op a c = ''RETRY'' then Some (at_attempt a + 1) else None)\<rparr> \<and>
     \<not> blank reason"
proof -
  have "op_effect_class op \<in> {''READ_ONLY'', ''LOCAL_WRITE'', ''EXTERNAL_WRITE''}"
    and "at_outcome a \<in> attempt_outcomes"
    and "case at_reconciliation_result a of None \<Rightarrow> True | Some r \<Rightarrow> r \<in> reconciliation_results"
    using assms by (auto simp: decidable_def operation_validate_def attempt_validate_def split: option.splits)
  then show ?thesis
    using assms decidable_not_blank [OF assms]
    by (auto simp: decidable_def decide_def action_of_def Let_def decision_Inr retry_or_stop_Inr
        recovery_actions_def attempt_outcomes_def reconciliation_results_def is_space_def split: option.splits)
qed

lemma decide_Inr:
  "decide op a (Some c) = Inr d \<Longrightarrow> decidable op a c"
  by (auto simp: decide_def decidable_def)

lemma decide_valid:
  assumes "decide op a (Some c) = Inr d"
  shows "decision_validate d = Inr ()" "rd_operation_id d = op_operation_id op"
    "rd_action d = action_of op a c" "rd_action d \<in> recovery_actions"
proof -
  have dec: "decidable op a c" using assms by (rule decide_Inr)
  from decide_eq [OF dec] assms obtain reason where d:
    "d = \<lparr>rd_operation_id = op_operation_id op, rd_action = action_of op a c, rd_reason = reason,
       rd_next_attempt = (if action_of op a c = ''RETRY'' then Some (at_attempt a + 1) else None)\<rparr>"
    "\<not> blank reason" by auto
  have "action_of op a c \<in> recovery_actions"
    by (simp add: action_of_def Let_def recovery_actions_def)
  then show "decision_validate d = Inr ()" "rd_operation_id d = op_operation_id op"
    "rd_action d = action_of op a c" "rd_action d \<in> recovery_actions"
    using d decidable_not_blank [OF dec] by (auto simp: decision_validate_def)
qed

lemma next_circuit_Inr:
  "next_circuit_state c a = Inr c' \<longleftrightarrow> circuit_validate c = Inr () \<and> attempt_validate a = Inr () \<and>
     c' = \<lparr>cb_state = (if at_outcome a \<noteq> ''SUCCESS'' \<and> cb_failure_threshold c \<le> cb_consecutive_failures c + 1
                      then ''OPEN'' else ''CLOSED''),
           cb_consecutive_failures = (if at_outcome a = ''SUCCESS'' then 0 else cb_consecutive_failures c + 1),
           cb_failure_threshold = cb_failure_threshold c\<rparr>"
  by (auto simp: next_circuit_state_def circuit_validate_def attempt_validate_def attempt_outcomes_def Let_def)

lemma next_circuit_valid: "next_circuit_state c a = Inr c' \<Longrightarrow> circuit_validate c' = Inr ()"
  by (auto simp: next_circuit_Inr circuit_validate_def)

lemma half_open_Inr:
  "half_open c = Inr c' \<longleftrightarrow> circuit_validate c = Inr () \<and> cb_state c = ''OPEN'' \<and>
     c' = c\<lparr>cb_state := ''HALF_OPEN''\<rparr>"
  by (cases c) (auto simp: half_open_def circuit_validate_def)

lemma half_open_valid: "half_open c = Inr c' \<Longrightarrow> circuit_validate c' = Inr ()"
  by (cases c) (auto simp: half_open_def circuit_validate_def)

lemma default_circuit_valid: "circuit_validate default_circuit = Inr ()"
  by (simp add: default_circuit_def circuit_validate_def)

text \<open>The circuit after a sequence of attempts, and the failures since the last success.\<close>

fun circuit_after :: "circuit \<Rightarrow> attempt_record list \<Rightarrow> circuit res" where
  "circuit_after c [] = Inr c"
| "circuit_after c (a # as) = res_bind (next_circuit_state c a) (\<lambda>c. circuit_after c as)"

definition recent_failures :: "attempt_record list \<Rightarrow> nat" where
  "recent_failures as = length (takeWhile (\<lambda>a. at_outcome a \<noteq> ''SUCCESS'') (rev as))"

lemma circuit_after_append:
  "circuit_after c (as @ bs) = res_bind (circuit_after c as) (\<lambda>c. circuit_after c bs)"
  by (induction as arbitrary: c) (auto simp: res_bind_def split: sum.splits)

lemma circuit_after_eq:
  "list_all (\<lambda>a. attempt_validate a = Inr ()) as \<Longrightarrow>
   circuit_after default_circuit as =
     Inr \<lparr>cb_state = (if 3 \<le> recent_failures as then ''OPEN'' else ''CLOSED''),
          cb_consecutive_failures = int (recent_failures as), cb_failure_threshold = 3\<rparr>"
proof (induction as rule: rev_induct)
  case Nil
  then show ?case by (simp add: default_circuit_def recent_failures_def)
next
  case (snoc a as)
  then have "next_circuit_state \<lparr>cb_state = (if 3 \<le> recent_failures as then ''OPEN'' else ''CLOSED''),
      cb_consecutive_failures = int (recent_failures as), cb_failure_threshold = 3\<rparr> a =
     Inr \<lparr>cb_state = (if 3 \<le> recent_failures (as @ [a]) then ''OPEN'' else ''CLOSED''),
          cb_consecutive_failures = int (recent_failures (as @ [a])), cb_failure_threshold = 3\<rparr>"
    by (auto simp: next_circuit_Inr circuit_validate_def recent_failures_def)
  with snoc show ?case by (simp add: circuit_after_append)
qed

section \<open>Release preview\<close>

record release_plan =
  rp_mission_id :: string
  rp_candidate_fingerprint :: string
  rp_reviewed_fingerprint :: string
  rp_assurance_status :: string
  rp_rollback_ref :: string
  rp_environment :: string
  rp_human_approval_granted :: bool

definition release_validate :: "release_plan \<Rightarrow> unit res" where
  "release_validate p = checks [
     raise_if (\<not> list_all (\<lambda>v. \<not> blank v) [rp_mission_id p, rp_candidate_fingerprint p,
         rp_reviewed_fingerprint p, rp_rollback_ref p, rp_environment p])
       (ValueError ''release preview identity, fingerprints, environment and rollback_ref are required''),
     raise_if (rp_assurance_status p \<noteq> ''PASS'') (ValueError ''release candidate requires assurance PASS''),
     raise_if (rp_candidate_fingerprint p \<noteq> rp_reviewed_fingerprint p)
       (ValueError ''release candidate fingerprint is not the reviewed fingerprint''),
     raise_if (rp_environment p = ''PRODUCTION'' \<and> \<not> rp_human_approval_granted p)
       (ValueError ''production release requires explicit human approval'')]"

definition may_execute :: "release_plan \<Rightarrow> bool res" where
  "may_execute p = res_bind (release_validate p)
     (\<lambda>_. Inr (rp_environment p \<noteq> ''PRODUCTION'' \<or> rp_human_approval_granted p))"

end
