(* ===== verification/Reliability_Store.thy ===== *)
theory Reliability_Store
  imports Reliability_Rules
begin

text \<open>
  The durable journal of operations (factory/reliability/store.py). A table keyed by
  operation id is a map, an autoincrement table a list in insertion order; a JSON column is
  the value it encodes. A method that writes is a transaction: it returns the new database or
  raises and changes nothing. \<open>now\<close> is the clock reading of the call.
\<close>

section \<open>The database\<close>

record operation_row =
  or_spec :: operation_spec
  or_status :: string
  or_latest_attempt :: int
  or_updated_at :: string

datatype rel_payload =
    Attempt attempt_record
  | Decision recovery_decision
  | Circuit circuit
  | Reconciliation string
  | Deadline deadline_observation
  | Compensation compensation_record

record rel_event =
  re_operation_id :: string
  re_payload :: rel_payload
  re_created_at :: string

record rel_store =
  rs_operations :: "string \<rightharpoonup> operation_row"
  rs_events :: "rel_event list"
  rs_circuits :: "string \<rightharpoonup> circuit \<times> string"
  rs_deadlines :: "(string \<times> deadline_observation \<times> string) list"
  rs_compensations :: "string \<rightharpoonup> compensation_plan \<times> compensation_record option \<times> string"
  rs_metrics :: "(reliability_metric \<times> string) list"

definition initialize :: rel_store where
  "initialize = \<lparr>rs_operations = Map.empty, rs_events = [], rs_circuits = Map.empty,
     rs_deadlines = [], rs_compensations = Map.empty, rs_metrics = []\<rparr>"

fun event_type :: "rel_payload \<Rightarrow> string" where
  "event_type (Attempt _) = ''ATTEMPT''"
| "event_type (Decision _) = ''DECISION''"
| "event_type (Circuit _) = ''CIRCUIT''"
| "event_type (Reconciliation _) = ''RECONCILIATION''"
| "event_type (Deadline _) = ''DEADLINE''"
| "event_type (Compensation _) = ''COMPENSATION''"

definition rel_log :: "string \<Rightarrow> string \<Rightarrow> rel_payload list \<Rightarrow> rel_store \<Rightarrow> rel_store" where
  "rel_log now i ps st = st\<lparr>rs_events := rs_events st @
     map (\<lambda>p. \<lparr>re_operation_id = i, re_payload = p, re_created_at = now\<rparr>) ps\<rparr>"

section \<open>Operations\<close>

definition store_register :: "string \<Rightarrow> operation_spec \<Rightarrow> rel_store \<Rightarrow> (rel_store \<times> unit) res" where
  "store_register now op st =
     (let i = op_operation_id op in
     res_bind (operation_validate op) (\<lambda>_.
     res_bind (raise_if (rs_operations st i \<noteq> None \<or> rs_circuits st i \<noteq> None)
       (ValueError (''duplicate reliability operation:'' @ i))) (\<lambda>_.
     Inr (st\<lparr>rs_operations := (rs_operations st)(i \<mapsto>
            \<lparr>or_spec = op, or_status = ''READY'', or_latest_attempt = 0, or_updated_at = now\<rparr>),
          rs_circuits := (rs_circuits st)(i \<mapsto> (default_circuit, now))\<rparr>, ()))))"

definition load_operation :: "string \<Rightarrow> rel_store \<Rightarrow> operation_spec res" where
  "load_operation i st = res_bind (fetch (KeyError [i]) (rs_operations st i)) (\<lambda>row.
     res_bind (operation_validate (or_spec row)) (\<lambda>_. Inr (or_spec row)))"

definition store_state :: "string \<Rightarrow> rel_store \<Rightarrow> operation_row res" where
  "store_state i st = fetch (KeyError [i]) (rs_operations st i)"

definition status_for :: "recovery_decision \<Rightarrow> string res" where
  "status_for d = fetch (KeyError [rd_action d]) (map_of
     [(''COMPLETE'', ''COMPLETED''), (''RETRY'', ''RETRY_READY''),
      (''RECONCILE'', ''RECONCILE_REQUIRED''), (''STOP'', ''STOPPED'')] (rd_action d))"

definition set_status :: "string \<Rightarrow> string \<Rightarrow> string \<Rightarrow> int \<Rightarrow> rel_store \<Rightarrow> rel_store" where
  "set_status now i status n st = st\<lparr>rs_operations := (rs_operations st)(i :=
     map_option (\<lambda>row. row\<lparr>or_status := status, or_latest_attempt := n, or_updated_at := now\<rparr>)
       (rs_operations st i))\<rparr>"

definition append_attempt_and_decision :: "string \<Rightarrow> attempt_record \<Rightarrow> recovery_decision \<Rightarrow>
     circuit option \<Rightarrow> rel_store \<Rightarrow> (rel_store \<times> unit) res" where
  "append_attempt_and_decision now a d c st =
     (let i = at_operation_id a in
     res_bind (checks [attempt_validate a, decision_validate d,
       (case c of None \<Rightarrow> Inr () | Some c \<Rightarrow> circuit_validate c),
       raise_if (at_operation_id a \<noteq> rd_operation_id d) (ValueError ''attempt/decision operation mismatch'')]) (\<lambda>_.
     res_bind (status_for d) (\<lambda>status.
     res_bind (fetch (KeyError [i]) (rs_operations st i)) (\<lambda>row.
     res_bind (checks [
       raise_if (or_status row \<in> {''COMPLETED'', ''STOPPED''})
         (RuntimeError ''terminal reliability operation cannot accept attempts''),
       raise_if (at_attempt a \<noteq> or_latest_attempt row + 1) (ValueError ''attempt sequence mismatch'')]) (\<lambda>_.
     let logged = rel_log now i [Attempt a, Decision d] st in
     res_bind (case c of None \<Rightarrow> Inr logged
       | Some c \<Rightarrow> res_bind (raise_if (rs_circuits st i = None) (KeyError [i, ''circuit''])) (\<lambda>_.
           Inr (rel_log now i [Circuit c] (logged\<lparr>rs_circuits := (rs_circuits st)(i \<mapsto> (c, now))\<rparr>))))
     (\<lambda>st'. Inr (set_status now i status (at_attempt a) st', ())))))))"

definition append_reconciliation_and_decision :: "string \<Rightarrow> string \<Rightarrow> string \<Rightarrow> recovery_decision \<Rightarrow>
     rel_store \<Rightarrow> (rel_store \<times> unit) res" where
  "append_reconciliation_and_decision now i result d st =
     res_bind (checks [decision_validate d,
       raise_if (rd_operation_id d \<noteq> i) (ValueError ''reconciliation/decision operation mismatch''),
       raise_if (result \<notin> reconciliation_results) (ValueError ''invalid reconciliation_result'')]) (\<lambda>_.
     res_bind (status_for d) (\<lambda>status.
     res_bind (fetch (KeyError [i]) (rs_operations st i)) (\<lambda>row.
     res_bind (raise_if (or_status row \<noteq> ''RECONCILE_REQUIRED'')
       (RuntimeError ''reconciliation not currently required'')) (\<lambda>_.
     Inr (set_status now i status (or_latest_attempt row)
       (rel_log now i [Reconciliation result, Decision d] st), ())))))"

definition load_circuit :: "string \<Rightarrow> rel_store \<Rightarrow> circuit res" where
  "load_circuit i st = res_bind (fetch (KeyError [i, ''circuit'']) (rs_circuits st i)) (\<lambda>(c, _).
     res_bind (circuit_validate c) (\<lambda>_. Inr c))"

definition save_circuit :: "string \<Rightarrow> string \<Rightarrow> circuit \<Rightarrow> rel_store \<Rightarrow> (rel_store \<times> unit) res" where
  "save_circuit now i c st =
     res_bind (circuit_validate c) (\<lambda>_.
     res_bind (raise_if (rs_circuits st i = None) (KeyError [i])) (\<lambda>_.
     Inr (rel_log now i [Circuit c] (st\<lparr>rs_circuits := (rs_circuits st)(i \<mapsto> (c, now))\<rparr>), ())))"

definition append_deadline :: "string \<Rightarrow> deadline_observation \<Rightarrow> rel_store \<Rightarrow> (rel_store \<times> unit) res" where
  "append_deadline now ob st =
     (let i = dl_operation_id ob in
     res_bind (deadline_validate ob) (\<lambda>_.
     res_bind (raise_if (rs_operations st i = None) (KeyError [i])) (\<lambda>_.
     Inr (rel_log now i [Deadline ob] (st\<lparr>rs_deadlines := rs_deadlines st @ [(i, ob, now)]\<rparr>), ()))))"

text \<open>\<open>ORDER BY sequence DESC LIMIT 1\<close>\<close>

definition latest :: "('a \<Rightarrow> 'b option) \<Rightarrow> 'a list \<Rightarrow> 'b option" where
  "latest f xs = (case List.map_filter f (rev xs) of [] \<Rightarrow> None | y # _ \<Rightarrow> Some y)"

definition latest_deadline :: "string \<Rightarrow> rel_store \<Rightarrow> deadline_observation res" where
  "latest_deadline i st = res_bind (fetch (KeyError [i, ''deadline''])
       (latest (\<lambda>(j, ob, _). if j = i then Some ob else None) (rs_deadlines st))) (\<lambda>ob.
     res_bind (deadline_validate ob) (\<lambda>_. Inr ob))"

definition store_register_compensation :: "string \<Rightarrow> compensation_plan \<Rightarrow> rel_store \<Rightarrow> (rel_store \<times> unit) res" where
  "store_register_compensation now p st =
     (let i = cp_operation_id p in
     res_bind (plan_validate p) (\<lambda>_.
     res_bind (load_operation i st) (\<lambda>op.
     res_bind (checks [
       raise_if (op_compensation_ref op \<noteq> Some (cp_compensation_ref p))
         (ValueError ''compensation plan does not match operation compensation_ref''),
       raise_if (rs_compensations st i \<noteq> None) (ValueError ''duplicate compensation plan'')]) (\<lambda>_.
     Inr (st\<lparr>rs_compensations := (rs_compensations st)(i \<mapsto> (p, None, now))\<rparr>, ())))))"

definition store_record_compensation :: "string \<Rightarrow> compensation_record \<Rightarrow> rel_store \<Rightarrow> (rel_store \<times> unit) res" where
  "store_record_compensation now r st =
     (let i = cr_operation_id r in
     res_bind (compensation_validate r) (\<lambda>_.
     res_bind (fetch (KeyError [i, ''compensation_plan'']) (rs_compensations st i)) (\<lambda>(p, _, _).
     Inr (rel_log now i [Compensation r]
       (st\<lparr>rs_compensations := (rs_compensations st)(i \<mapsto> (p, Some r, now))\<rparr>), ()))))"

definition compensation_of :: "string \<Rightarrow> rel_store \<Rightarrow> compensation_record option res" where
  "compensation_of i st = res_bind (fetch (KeyError [i, ''compensation_plan'']) (rs_compensations st i))
     (\<lambda>(_, r, _). case r of None \<Rightarrow> Inr None
        | Some r \<Rightarrow> res_bind (compensation_validate r) (\<lambda>_. Inr (Some r)))"

definition append_metric :: "string \<Rightarrow> reliability_metric \<Rightarrow> rel_store \<Rightarrow> (rel_store \<times> unit) res" where
  "append_metric now m st = res_bind (metric_validate m)
     (\<lambda>_. Inr (st\<lparr>rs_metrics := rs_metrics st @ [(m, now)]\<rparr>, ()))"

definition store_metrics :: "string \<Rightarrow> rel_store \<Rightarrow> reliability_metric list res" where
  "store_metrics mission_id st = map_res (\<lambda>(m, _). res_bind (metric_validate m) (\<lambda>_. Inr m))
     [(m, t) \<leftarrow> rs_metrics st. rm_mission_id m = mission_id]"

definition attempt_of :: "string \<Rightarrow> rel_event \<Rightarrow> attempt_record option" where
  "attempt_of i e = (if re_operation_id e = i
     then case re_payload e of Attempt a \<Rightarrow> Some a | _ \<Rightarrow> None else None)"

definition decision_of :: "string \<Rightarrow> rel_event \<Rightarrow> recovery_decision option" where
  "decision_of i e = (if re_operation_id e = i
     then case re_payload e of Decision d \<Rightarrow> Some d | _ \<Rightarrow> None else None)"

definition latest_attempt :: "string \<Rightarrow> rel_store \<Rightarrow> attempt_record res" where
  "latest_attempt i st = res_bind (fetch (KeyError [i, ''attempt'']) (latest (attempt_of i) (rs_events st)))
     (\<lambda>a. res_bind (attempt_validate a) (\<lambda>_. Inr a))"

definition latest_decision :: "string \<Rightarrow> rel_store \<Rightarrow> recovery_decision res" where
  "latest_decision i st = res_bind (fetch (KeyError [i, ''decision'']) (latest (decision_of i) (rs_events st)))
     (\<lambda>d. res_bind (decision_validate d) (\<lambda>_. Inr d))"

definition store_events :: "string \<Rightarrow> rel_store \<Rightarrow> (nat \<times> string \<times> rel_payload \<times> string) list" where
  "store_events i st = [(n, event_type (re_payload e), re_payload e, re_created_at e).
     (n, e) \<leftarrow> enumerate 1 (rs_events st), re_operation_id e = i]"

end
