(* ===== verification/Reliability_Controller.thy ===== *)
theory Reliability_Controller
  imports Reliability_Store Json
begin

text \<open>
  The durable operation controller (factory/reliability/controller.py) and the mission
  recovery coordinator (factory/reliability/recovery.py): the operations callers use, each a
  sequence of store transactions, with what was committed before an exception kept.
\<close>

section \<open>State\<close>

record rel_trace =
  rt_mission_id :: string
  rt_event_name :: string
  rt_payload :: "(string \<times> json) list"

text \<open>\<open>ct_sink\<close> tells whether a trace sink is installed, \<open>ct_traces\<close> the calls it received.\<close>

record rel_controller =
  ct_store :: rel_store
  ct_sink :: bool
  ct_traces :: "rel_trace list"

definition on_store :: "(rel_store \<Rightarrow> (rel_store \<times> 'a) res) \<Rightarrow> (rel_controller, 'a) act" where
  "on_store f = transaction (\<lambda>s. res_bind (f (ct_store s)) (\<lambda>(st, x). Inr (s\<lparr>ct_store := st\<rparr>, x)))"

definition asks :: "(rel_store \<Rightarrow> 'a res) \<Rightarrow> (rel_controller, 'a) act" where
  "asks f = reading (\<lambda>s. f (ct_store s))"

definition ctl_trace :: "string \<Rightarrow> string \<Rightarrow> (string \<times> json) list \<Rightarrow> (rel_controller, unit) act" where
  "ctl_trace mission event payload = transaction (\<lambda>s. Inr (if ct_sink s
     then s\<lparr>ct_traces := ct_traces s @ [\<lparr>rt_mission_id = mission, rt_event_name = event, rt_payload = payload\<rparr>]\<rparr>
     else s, ()))"

definition count_metric :: "operation_spec \<Rightarrow> string \<Rightarrow> string \<Rightarrow> reliability_metric" where
  "count_metric op i name = \<lparr>rm_mission_id = op_mission_id op, rm_name = name, rm_value = 1,
     rm_operation_id = Some i, rm_unit = ''count''\<rparr>"

section \<open>Operations\<close>

definition ctl_register :: "string \<Rightarrow> operation_spec \<Rightarrow> (rel_controller, unit) act" where
  "ctl_register now op = act_bind (on_store (store_register now op)) (\<lambda>_.
     ctl_trace (op_mission_id op) ''reliability.operation_registered''
       [(''operation_id'', JStr (op_operation_id op)), (''effect_class'', JStr (op_effect_class op))])"

definition circuit_stop :: "operation_spec \<Rightarrow> circuit \<Rightarrow> recovery_decision \<Rightarrow> recovery_decision res" where
  "circuit_stop op c d =
     (if cb_state c = ''OPEN'' \<and> rd_action d = ''RETRY''
      then decision op ''STOP'' ''circuit_opened_after_failure_threshold'' else Inr d)"

definition attempt_decision :: "string \<Rightarrow> attempt_record \<Rightarrow> rel_store \<Rightarrow>
     (operation_spec \<times> recovery_decision \<times> circuit) res" where
  "attempt_decision i a st =
     res_bind (load_operation i st) (\<lambda>op.
     res_bind (load_circuit i st) (\<lambda>c.
     res_bind (raise_if (cb_state c = ''OPEN'')
       (RuntimeError ''circuit is OPEN; probe transition required before a new attempt'')) (\<lambda>_.
     res_bind (decide op a (Some c)) (\<lambda>d0.
     res_bind (next_circuit_state c a) (\<lambda>c'.
     res_bind (circuit_stop op c' d0) (\<lambda>d. Inr (op, d, c')))))))"

definition record_attempt :: "string \<Rightarrow> attempt_record \<Rightarrow> (rel_controller, recovery_decision) act" where
  "record_attempt now a = (let i = at_operation_id a in
     act_bind (asks (attempt_decision i a)) (\<lambda>(op, d, c).
     act_bind (on_store (append_attempt_and_decision now a d (Some c))) (\<lambda>_.
     act_bind (on_store (append_metric now (count_metric op (op_operation_id op) ''attempt_total''))) (\<lambda>_.
     act_bind (if at_outcome a \<noteq> ''SUCCESS''
       then on_store (append_metric now (count_metric op (op_operation_id op) ''attempt_failure_total''))
       else act_return ()) (\<lambda>_.
     act_bind (ctl_trace (op_mission_id op) ''reliability.attempt_decided''
       [(''operation_id'', JStr (op_operation_id op)), (''attempt'', JInt (at_attempt a)),
        (''outcome'', JStr (at_outcome a)), (''decision'', JStr (rd_action d)),
        (''reason'', JStr (rd_reason d)), (''circuit_state'', JStr (cb_state c))]) (\<lambda>_.
     act_return d))))))"

definition record_deadline :: "string \<Rightarrow> string \<Rightarrow> int \<Rightarrow> rat \<Rightarrow>
     (rel_controller, deadline_observation) act" where
  "record_deadline now i attempt elapsed =
     act_bind (asks (load_operation i)) (\<lambda>op.
     let ob = \<lparr>dl_operation_id = i, dl_attempt = attempt, dl_elapsed_seconds = elapsed,
               dl_timeout_seconds = op_timeout_seconds op,
               dl_result = deadline_result elapsed (op_timeout_seconds op)\<rparr> in
     act_bind (asks (\<lambda>_. deadline_validate ob)) (\<lambda>_.
     act_bind (on_store (append_deadline now ob)) (\<lambda>_.
     act_bind (on_store (append_metric now (count_metric op i
       (if dl_result ob = ''TIMED_OUT'' then ''timeout_total'' else ''within_deadline_total'')))) (\<lambda>_.
     act_bind (ctl_trace (op_mission_id op) ''reliability.deadline_observed''
       [(''operation_id'', JStr i), (''attempt'', JInt attempt),
        (''timeout_seconds'', JInt (op_timeout_seconds op)), (''result'', JStr (dl_result ob))]) (\<lambda>_.
     act_return ob)))))"

definition open_probe :: "string \<Rightarrow> string \<Rightarrow> (rel_controller, unit) act" where
  "open_probe now i =
     act_bind (asks (load_operation i)) (\<lambda>op.
     act_bind (asks (load_circuit i)) (\<lambda>c.
     act_bind (asks (\<lambda>_. half_open c)) (\<lambda>c'.
     act_bind (on_store (save_circuit now i c')) (\<lambda>_.
     ctl_trace (op_mission_id op) ''reliability.circuit_probe_opened''
       [(''operation_id'', JStr i), (''from'', JStr (cb_state c)), (''to'', JStr (cb_state c'))]))))"

definition reconciled_decision :: "string \<Rightarrow> string \<Rightarrow> rel_store \<Rightarrow> (operation_spec \<times> recovery_decision) res" where
  "reconciled_decision i result st =
     res_bind (load_operation i st) (\<lambda>op.
     res_bind (store_state i st) (\<lambda>row.
     res_bind (raise_if (or_status row \<noteq> ''RECONCILE_REQUIRED'')
       (RuntimeError ''operation is not waiting for reconciliation'')) (\<lambda>_.
     res_bind (latest_attempt i st) (\<lambda>previous.
     res_bind (raise_if (at_outcome previous \<noteq> ''UNKNOWN'')
       (RuntimeError ''latest attempt is not ambiguous'')) (\<lambda>_.
     let reconciled = \<lparr>at_operation_id = at_operation_id previous, at_attempt = at_attempt previous,
           at_outcome = ''UNKNOWN'', at_error_code = at_error_code previous,
           at_reconciliation_result = Some result\<rparr> in
     res_bind (decide op reconciled None) (\<lambda>d. Inr (op, d)))))))"

definition reconcile :: "string \<Rightarrow> string \<Rightarrow> string \<Rightarrow> (rel_controller, recovery_decision) act" where
  "reconcile now i result =
     act_bind (asks (reconciled_decision i result)) (\<lambda>(op, d).
     act_bind (on_store (append_reconciliation_and_decision now i result d)) (\<lambda>_.
     act_bind (on_store (append_metric now (count_metric op i ''reconciliation_total''))) (\<lambda>_.
     act_bind (ctl_trace (op_mission_id op) ''reliability.reconciled''
       [(''operation_id'', JStr i), (''result'', JStr result), (''decision'', JStr (rd_action d))]) (\<lambda>_.
     act_return d))))"

definition register_compensation :: "string \<Rightarrow> compensation_plan \<Rightarrow> (rel_controller, unit) act" where
  "register_compensation now p =
     act_bind (asks (load_operation (cp_operation_id p))) (\<lambda>op.
     act_bind (asks (\<lambda>_. raise_if (op_compensation_ref op = None)
       (ValueError ''operation does not declare compensation''))) (\<lambda>_.
     act_bind (on_store (store_register_compensation now p)) (\<lambda>_.
     ctl_trace (op_mission_id op) ''reliability.compensation_registered''
       [(''operation_id'', JStr (cp_operation_id p)), (''compensation_ref'', JStr (cp_compensation_ref p)),
        (''requires_human_approval'', JBool (cp_requires_human_approval p))])))"

definition record_compensation :: "string \<Rightarrow> compensation_record \<Rightarrow> (rel_controller, unit) act" where
  "record_compensation now r =
     act_bind (asks (load_operation (cr_operation_id r))) (\<lambda>op.
     act_bind (on_store (store_record_compensation now r)) (\<lambda>_.
     act_bind (on_store (append_metric now (count_metric op (cr_operation_id r)
       (if cr_status r = ''SUCCEEDED'' then ''compensation_success_total'' else ''compensation_event_total'')))) (\<lambda>_.
     ctl_trace (op_mission_id op) ''reliability.compensation_recorded''
       [(''operation_id'', JStr (cr_operation_id r)), (''status'', JStr (cr_status r)),
        (''evidence_ref'', JStrOpt (cr_evidence_ref r)), (''error_code'', JStrOpt (cr_error_code r))])))"

definition resume_action :: "string \<Rightarrow> rel_store \<Rightarrow> recovery_decision option res" where
  "resume_action i st = res_bind (store_state i st) (\<lambda>row.
     if or_status row = ''READY'' then Inr None else res_bind (latest_decision i st) (\<lambda>d. Inr (Some d)))"

section \<open>Mission recovery\<close>

record recovery_item =
  ri_operation_id :: string
  ri_action :: string
  ri_reason :: string

definition item_validate :: "recovery_item \<Rightarrow> unit res" where
  "item_validate it = checks [
     raise_if (blank (ri_operation_id it) \<or> blank (ri_reason it))
       (ValueError ''recovery item identity and reason are required''),
     raise_if (ri_action it \<notin> {''READY'', ''RETRY'', ''RECONCILE'', ''COMPLETE'', ''STOP''})
       (ValueError (''unknown mission recovery action:'' @ ri_action it))]"

record recovery_report =
  rr_mission_id :: string
  rr_items :: "recovery_item list"
  rr_safe_to_continue :: bool

definition may_continue :: "recovery_item list \<Rightarrow> bool" where
  "may_continue items = list_all (\<lambda>it. ri_action it \<notin> {''RECONCILE'', ''STOP''}) items"

definition report_validate :: "recovery_report \<Rightarrow> unit res" where
  "report_validate r = checks [
     raise_if (blank (rr_mission_id r) \<or> rr_items r = [])
       (ValueError ''mission recovery report requires mission_id and items''),
     raise_if (\<not> distinct (map ri_operation_id (rr_items r)))
       (ValueError ''duplicate operation in mission recovery report''),
     check_all item_validate (rr_items r),
     raise_if (rr_safe_to_continue r \<noteq> may_continue (rr_items r))
       (ValueError ''safe_to_continue does not match recovery actions'')]"

definition recovery_item_of :: "rel_store \<Rightarrow> string \<Rightarrow> string \<Rightarrow> recovery_item res" where
  "recovery_item_of st mission_id i =
     res_bind (store_state i st) (\<lambda>row.
     res_bind (raise_if (op_mission_id (or_spec row) \<noteq> mission_id)
       (ValueError ''operation belongs to a different mission'')) (\<lambda>_.
     res_bind (let item = (\<lambda>action reason. \<lparr>ri_operation_id = i, ri_action = action, ri_reason = reason\<rparr>) in
       if or_status row = ''READY'' then Inr (item ''READY'' ''operation_not_started'')
       else if or_status row = ''COMPLETED'' then Inr (item ''COMPLETE'' ''operation_already_completed'')
       else if or_status row = ''STOPPED''
         then res_bind (latest_decision i st) (\<lambda>d. Inr (item ''STOP'' (rd_reason d)))
       else res_bind (latest_decision i st) (\<lambda>d. Inr (item (rd_action d) (rd_reason d)))) (\<lambda>it.
     res_bind (item_validate it) (\<lambda>_. Inr it))))"

definition recover :: "rel_store \<Rightarrow> string \<Rightarrow> string list \<Rightarrow> recovery_report res" where
  "recover st mission_id operation_ids =
     res_bind (raise_if (operation_ids = []) (ValueError ''operation_ids are required'')) (\<lambda>_.
     res_bind (map_res (recovery_item_of st mission_id) operation_ids) (\<lambda>items.
     let r = \<lparr>rr_mission_id = mission_id, rr_items = items, rr_safe_to_continue = may_continue items\<rparr> in
     res_bind (report_validate r) (\<lambda>_. Inr r)))"

section \<open>The journal of one operation\<close>

definition attempts_of :: "string \<Rightarrow> rel_store \<Rightarrow> attempt_record list" where
  "attempts_of i st = List.map_filter (attempt_of i) (rs_events st)"

definition decisions_of :: "string \<Rightarrow> rel_store \<Rightarrow> recovery_decision list" where
  "decisions_of i st = List.map_filter (decision_of i) (rs_events st)"

lemma latest_eq: "latest f xs = (let ys = List.map_filter f xs in if ys = [] then None else Some (last ys))"
  by (cases "List.map_filter f xs" rule: rev_cases) (simp_all add: latest_def map_filter_rev)

definition attempts_in :: "rel_payload list \<Rightarrow> attempt_record list" where
  "attempts_in = List.map_filter (\<lambda>p. case p of Attempt a \<Rightarrow> Some a | _ \<Rightarrow> None)"

definition decisions_in :: "rel_payload list \<Rightarrow> recovery_decision list" where
  "decisions_in = List.map_filter (\<lambda>p. case p of Decision d \<Rightarrow> Some d | _ \<Rightarrow> None)"

lemma in_simps [simp]:
  "attempts_in [] = []" "decisions_in [] = []"
  "attempts_in (p # ps) = (case p of Attempt a \<Rightarrow> [a] | _ \<Rightarrow> []) @ attempts_in ps"
  "decisions_in (p # ps) = (case p of Decision d \<Rightarrow> [d] | _ \<Rightarrow> []) @ decisions_in ps"
  by (simp_all add: attempts_in_def decisions_in_def List.map_filter_simps split: rel_payload.split)

lemma of_rel_log [simp]:
  "attempts_of j (rel_log now i ps st) = attempts_of j st @ (if j = i then attempts_in ps else [])"
  "decisions_of j (rel_log now i ps st) = decisions_of j st @ (if j = i then decisions_in ps else [])"
  unfolding rel_log_def attempts_of_def decisions_of_def
  by (induction ps) (auto simp: map_filter_append List.map_filter_simps attempt_of_def decision_of_def
      split: rel_payload.split)

lemma of_frame [simp]:
  "attempts_of j (st\<lparr>rs_operations := x\<rparr>) = attempts_of j st" "decisions_of j (st\<lparr>rs_operations := x\<rparr>) = decisions_of j st"
  "attempts_of j (st\<lparr>rs_circuits := y\<rparr>) = attempts_of j st" "decisions_of j (st\<lparr>rs_circuits := y\<rparr>) = decisions_of j st"
  "attempts_of j (st\<lparr>rs_deadlines := z\<rparr>) = attempts_of j st" "decisions_of j (st\<lparr>rs_deadlines := z\<rparr>) = decisions_of j st"
  "attempts_of j (st\<lparr>rs_compensations := u\<rparr>) = attempts_of j st" "decisions_of j (st\<lparr>rs_compensations := u\<rparr>) = decisions_of j st"
  "attempts_of j (st\<lparr>rs_metrics := w\<rparr>) = attempts_of j st" "decisions_of j (st\<lparr>rs_metrics := w\<rparr>) = decisions_of j st"
  by (simp_all add: attempts_of_def decisions_of_def)

lemma rel_log_frame [simp]:
  "rs_operations (rel_log now i ps st) = rs_operations st" "rs_circuits (rel_log now i ps st) = rs_circuits st"
  "rs_metrics (rel_log now i ps st) = rs_metrics st"
  by (simp_all add: rel_log_def)

lemma set_status_simps [simp]:
  "rs_operations (set_status now i s n st) j = (if j = i
     then map_option (\<lambda>row. row\<lparr>or_status := s, or_latest_attempt := n, or_updated_at := now\<rparr>) (rs_operations st i)
     else rs_operations st j)"
  "rs_circuits (set_status now i s n st) = rs_circuits st"
  "attempts_of j (set_status now i s n st) = attempts_of j st"
  "decisions_of j (set_status now i s n st) = decisions_of j st"
  by (simp_all add: set_status_def)

section \<open>The invariant of the journal\<close>

definition row_ok :: "string \<Rightarrow> operation_row \<Rightarrow> circuit \<Rightarrow> attempt_record list \<Rightarrow> recovery_decision list \<Rightarrow> bool" where
  "row_ok i row c as ds \<longleftrightarrow>
     operation_validate (or_spec row) = Inr () \<and> op_operation_id (or_spec row) = i \<and>
     circuit_validate c = Inr () \<and>
     map at_attempt as = [1 .. or_latest_attempt row] \<and> 0 \<le> or_latest_attempt row \<and>
     or_latest_attempt row \<le> op_max_attempts (or_spec row) \<and>
     list_all (\<lambda>a. attempt_validate a = Inr () \<and> at_operation_id a = i) as \<and>
     (if ds = [] then as = [] \<and> or_status row = ''READY''
      else as \<noteq> [] \<and> decision_validate (last ds) = Inr () \<and> status_for (last ds) = Inr (or_status row)) \<and>
     (or_status row = ''RECONCILE_REQUIRED'' \<longrightarrow>
        op_effect_class (or_spec row) = ''EXTERNAL_WRITE'' \<and> at_outcome (last as) = ''UNKNOWN'') \<and>
     (or_status row = ''RETRY_READY'' \<longrightarrow> or_latest_attempt row < op_max_attempts (or_spec row))"

definition entry_ok :: "string \<Rightarrow> operation_row option \<Rightarrow> (circuit \<times> string) option \<Rightarrow>
     attempt_record list \<Rightarrow> recovery_decision list \<Rightarrow> bool" where
  "entry_ok i row c as ds = (case row of
     None \<Rightarrow> c = None \<and> as = [] \<and> ds = []
   | Some row \<Rightarrow> (case c of None \<Rightarrow> False | Some (c, _) \<Rightarrow> row_ok i row c as ds))"

lemma entry_ok_simps [simp]:
  "entry_ok i None c as ds \<longleftrightarrow> c = None \<and> as = [] \<and> ds = []"
  "entry_ok i (Some row) (Some (c', t)) as ds = row_ok i row c' as ds"
  "\<not> entry_ok i (Some row) None as ds"
  by (simp_all add: entry_ok_def)

lemma entry_okE:
  assumes "entry_ok i (Some row) c as ds"
  obtains c' t where "c = Some (c', t)" "row_ok i row c' as ds"
  using assms by (cases c) auto

definition view_ok :: "string \<Rightarrow> rel_store \<Rightarrow> bool" where
  "view_ok i st = entry_ok i (rs_operations st i) (rs_circuits st i) (attempts_of i st) (decisions_of i st)"

definition store_ok :: "rel_store \<Rightarrow> bool" where
  "store_ok st \<longleftrightarrow> (\<forall>i. view_ok i st)"

lemma store_ok_initialize: "store_ok initialize"
  by (simp add: store_ok_def view_ok_def initialize_def attempts_of_def decisions_of_def List.map_filter_simps)

lemma store_okE:
  assumes "store_ok st" "rs_operations st i = Some row"
  obtains c t where "rs_circuits st i = Some (c, t)" "row_ok i row c (attempts_of i st) (decisions_of i st)"
proof -
  from assms have "entry_ok i (Some row) (rs_circuits st i) (attempts_of i st) (decisions_of i st)"
    by (metis store_ok_def view_ok_def)
  then show thesis using that by (elim entry_okE)
qed

lemma view_ok_cong:
  "rs_operations st' j = rs_operations st j \<and> rs_circuits st' j = rs_circuits st j \<and>
   attempts_of j st' = attempts_of j st \<and> decisions_of j st' = decisions_of j st \<Longrightarrow>
   view_ok j st' = view_ok j st"
  by (simp add: view_ok_def)

lemma store_ok_step:
  assumes "store_ok st" "view_ok i st'"
    and "\<And>j. j \<noteq> i \<Longrightarrow> rs_operations st' j = rs_operations st j \<and> rs_circuits st' j = rs_circuits st j \<and>
           attempts_of j st' = attempts_of j st \<and> decisions_of j st' = decisions_of j st"
  shows "store_ok st'"
  unfolding store_ok_def
proof
  fix j
  show "view_ok j st'"
    using assms(1,2) view_ok_cong [OF assms(3)] by (cases "j = i") (auto simp: store_ok_def)
qed

lemma store_ok_frame:
  assumes "store_ok st" "rs_operations st' = rs_operations st" "rs_circuits st' = rs_circuits st"
    and "\<And>j. attempts_of j st' = attempts_of j st \<and> decisions_of j st' = decisions_of j st"
  shows "store_ok st'"
  using assms view_ok_cong [of st' _ st] by (simp add: store_ok_def)

lemma store_register_Inr:
  "store_register now op st = Inr (st', u) \<longleftrightarrow> (let i = op_operation_id op in
     operation_validate op = Inr () \<and> rs_operations st i = None \<and> rs_circuits st i = None \<and>
     st' = st\<lparr>rs_operations := (rs_operations st)(i \<mapsto>
            \<lparr>or_spec = op, or_status = ''READY'', or_latest_attempt = 0, or_updated_at = now\<rparr>),
          rs_circuits := (rs_circuits st)(i \<mapsto> (default_circuit, now))\<rparr>)"
  by (cases "rs_circuits st (op_operation_id op)") (auto simp: store_register_def Let_def)

lemma operation_max: "operation_validate op = Inr () \<Longrightarrow> 1 \<le> op_max_attempts op"
  by (simp add: operation_validate_def)

lemma register_ok [keeps]:
  assumes "store_ok st" "store_register now op st = Inr (st', u)"
  shows "store_ok st'"
proof (rule store_ok_step [OF assms(1), of "op_operation_id op"])
  let ?i = "op_operation_id op"
  have op: "operation_validate op = Inr ()" "rs_operations st ?i = None"
    and st': "st' = st\<lparr>rs_operations := (rs_operations st)(?i \<mapsto>
            \<lparr>or_spec = op, or_status = ''READY'', or_latest_attempt = 0, or_updated_at = now\<rparr>),
          rs_circuits := (rs_circuits st)(?i \<mapsto> (default_circuit, now))\<rparr>"
    using assms(2) by (simp_all add: store_register_Inr Let_def)
  have "view_ok ?i st" using assms(1) by (simp add: store_ok_def)
  with op have "attempts_of ?i st = []" "decisions_of ?i st = []" by (simp_all add: view_ok_def)
  with op operation_max [OF op(1)] show "view_ok ?i st'"
    unfolding st' by (simp add: view_ok_def row_ok_def default_circuit_valid)
qed (use assms(2) in \<open>auto simp: store_register_Inr Let_def\<close>)

lemma save_circuit_Inr:
  "save_circuit now i c st = Inr (st', u) \<longleftrightarrow> circuit_validate c = Inr () \<and> rs_circuits st i \<noteq> None \<and>
     st' = rel_log now i [Circuit c] (st\<lparr>rs_circuits := (rs_circuits st)(i \<mapsto> (c, now))\<rparr>)"
  by (auto simp: save_circuit_def)

lemma row_ok_circuit:
  "row_ok i row c as ds \<Longrightarrow> circuit_validate c' = Inr () \<Longrightarrow> row_ok i row c' as ds"
  by (simp add: row_ok_def)

lemma save_circuit_ok [keeps]:
  assumes "store_ok st" "save_circuit now i c st = Inr (st', u)"
  shows "store_ok st'"
proof (rule store_ok_step [OF assms(1), of i])
  have c: "circuit_validate c = Inr ()" "rs_circuits st i \<noteq> None"
    and st': "st' = rel_log now i [Circuit c] (st\<lparr>rs_circuits := (rs_circuits st)(i \<mapsto> (c, now))\<rparr>)"
    using assms(2) by (simp_all add: save_circuit_Inr)
  have "entry_ok i (rs_operations st i) (rs_circuits st i) (attempts_of i st) (decisions_of i st)"
    using assms(1) by (simp add: store_ok_def view_ok_def)
  with c show "view_ok i st'"
    unfolding st' view_ok_def by (cases "rs_operations st i") (auto elim!: entry_okE intro: row_ok_circuit)
qed (use assms(2) in \<open>auto simp: save_circuit_Inr\<close>)

section \<open>Committed attempts and reconciliations\<close>

lemma append_attempt_Inr:
  "append_attempt_and_decision now a d (Some c) st = Inr (st', u) \<longleftrightarrow>
     (let i = at_operation_id a in
     attempt_validate a = Inr () \<and> decision_validate d = Inr () \<and> circuit_validate c = Inr () \<and>
     rd_operation_id d = i \<and> rs_circuits st i \<noteq> None \<and>
     (\<exists>status row. status_for d = Inr status \<and> rs_operations st i = Some row \<and>
       or_status row \<notin> {''COMPLETED'', ''STOPPED''} \<and> at_attempt a = or_latest_attempt row + 1 \<and>
       st' = set_status now i status (at_attempt a) (rel_log now i [Circuit c]
         ((rel_log now i [Attempt a, Decision d] st)\<lparr>rs_circuits := (rs_circuits st)(i \<mapsto> (c, now))\<rparr>))))"
  by (auto simp: append_attempt_and_decision_def Let_def)

lemma append_reconciliation_Inr:
  "append_reconciliation_and_decision now i result d st = Inr (st', u) \<longleftrightarrow>
     decision_validate d = Inr () \<and> rd_operation_id d = i \<and> result \<in> reconciliation_results \<and>
     (\<exists>status row. status_for d = Inr status \<and> rs_operations st i = Some row \<and>
       or_status row = ''RECONCILE_REQUIRED'' \<and>
       st' = set_status now i status (or_latest_attempt row)
         (rel_log now i [Reconciliation result, Decision d] st))"
  by (auto simp: append_reconciliation_and_decision_def)

lemma status_for_Inr:
  "status_for d = Inr s \<longleftrightarrow>
     rd_action d = ''COMPLETE'' \<and> s = ''COMPLETED'' \<or> rd_action d = ''RETRY'' \<and> s = ''RETRY_READY'' \<or>
     rd_action d = ''RECONCILE'' \<and> s = ''RECONCILE_REQUIRED'' \<or> rd_action d = ''STOP'' \<and> s = ''STOPPED''"
  by (auto simp: status_for_def)

lemma action_of_RECONCILE:
  "decidable op a c \<Longrightarrow> action_of op a c = ''RECONCILE'' \<Longrightarrow>
     op_effect_class op = ''EXTERNAL_WRITE'' \<and> at_outcome a = ''UNKNOWN'' \<and> at_reconciliation_result a = None"
  by (auto simp: action_of_def Let_def decidable_def operation_validate_def attempt_validate_def
      attempt_outcomes_def split: if_splits)

lemma action_of_RETRY: "action_of op a c = ''RETRY'' \<Longrightarrow> at_attempt a < op_max_attempts op"
  by (auto simp: action_of_def Let_def split: if_splits)

lemma load_operation_Inr:
  "load_operation i st = Inr op \<longleftrightarrow>
     (\<exists>row. rs_operations st i = Some row \<and> or_spec row = op \<and> operation_validate op = Inr ())"
  by (auto simp: load_operation_def)

lemma load_circuit_Inr:
  "load_circuit i st = Inr c \<longleftrightarrow> (\<exists>t. rs_circuits st i = Some (c, t) \<and> circuit_validate c = Inr ())"
  by (auto simp: load_circuit_def)

lemma attempt_decision_Inr:
  "attempt_decision i a st = Inr (op, d, c') \<longleftrightarrow>
     (\<exists>c d0. load_operation i st = Inr op \<and> load_circuit i st = Inr c \<and> cb_state c \<noteq> ''OPEN'' \<and>
        decide op a (Some c) = Inr d0 \<and> next_circuit_state c a = Inr c' \<and> circuit_stop op c' d0 = Inr d)"
  by (auto simp: attempt_decision_def)

lemma circuit_stop_Inr:
  "circuit_stop op c d0 = Inr d \<Longrightarrow> decision_validate d0 = Inr () \<Longrightarrow> rd_operation_id d0 = op_operation_id op \<Longrightarrow>
     decision_validate d = Inr () \<and> rd_operation_id d = op_operation_id op \<and>
     (d = d0 \<or> rd_action d0 = ''RETRY'' \<and> rd_action d = ''STOP'')"
proof (cases "cb_state c = ''OPEN'' \<and> rd_action d0 = ''RETRY''")
  case True
  then show "circuit_stop op c d0 = Inr d \<Longrightarrow> ?thesis"
    by (auto simp: circuit_stop_def decision_Inr decision_validate_def recovery_actions_def)
qed (simp add: circuit_stop_def)

lemma upto_snoc: "1 \<le> n + 1 \<Longrightarrow> [1 .. n] @ [n + 1] = [1 .. n + 1]" for n :: int
  by (simp add: upto_rec2)

lemma attempt_ok [keeps]:
  assumes "store_ok st" "attempt_decision (at_operation_id a) a st = Inr (op, d, c')"
    and "append_attempt_and_decision now a d (Some c') st = Inr (st', u)"
  shows "store_ok st'"
proof (rule store_ok_step [OF assms(1), of "at_operation_id a"])
  let ?i = "at_operation_id a"
  from assms(3) obtain status row where row: "status_for d = Inr status" "rs_operations st ?i = Some row"
      "or_status row \<notin> {''COMPLETED'', ''STOPPED''}" "at_attempt a = or_latest_attempt row + 1"
    and st': "st' = set_status now ?i status (at_attempt a) (rel_log now ?i [Circuit c']
         ((rel_log now ?i [Attempt a, Decision d] st)\<lparr>rs_circuits := (rs_circuits st)(?i \<mapsto> (c', now))\<rparr>))"
    by (auto simp: append_attempt_Inr Let_def)
  from store_okE [OF assms(1) row(2)] obtain c t where c: "rs_circuits st ?i = Some (c, t)"
    and ok: "row_ok ?i row c (attempts_of ?i st) (decisions_of ?i st)" by blast
  from assms(2) row(2) c obtain d0 where op: "op = or_spec row"
    and d0: "decide op a (Some c) = Inr d0" "circuit_stop op c' d0 = Inr d" "next_circuit_state c a = Inr c'"
    by (auto simp: attempt_decision_Inr load_operation_Inr load_circuit_Inr)
  note v = decide_valid [OF d0(1)] and dec = decide_Inr [OF d0(1)]
  from circuit_stop_Inr [OF d0(2) v(1,2)]
  have d: "decision_validate d = Inr ()" "d = d0 \<or> rd_action d0 = ''RETRY'' \<and> rd_action d = ''STOP''" by auto
  have rec: "status = ''RECONCILE_REQUIRED'' \<Longrightarrow> op_effect_class op = ''EXTERNAL_WRITE'' \<and> at_outcome a = ''UNKNOWN''"
    using action_of_RECONCILE [OF dec] d(2) v(3) row(1) by (auto simp: status_for_Inr)
  have retry: "status = ''RETRY_READY'' \<Longrightarrow> at_attempt a < op_max_attempts op"
    using action_of_RETRY [of op a c] d(2) v(3) row(1) by (auto simp: status_for_Inr)
  show "view_ok ?i st'"
    unfolding st' using ok row(1,2,4) d(1) rec retry dec op next_circuit_valid [OF d0(3)]
    by (simp add: view_ok_def row_ok_def decidable_def upto_snoc)
qed (use assms(3) in \<open>auto simp: append_attempt_Inr Let_def\<close>)

lemma decide_None: "decide op a None = decide op a (Some default_circuit)"
  by (simp add: decide_def)

lemma latest_attempt_Inr:
  "latest_attempt i st = Inr a \<longleftrightarrow>
     attempts_of i st \<noteq> [] \<and> a = last (attempts_of i st) \<and> attempt_validate a = Inr ()"
  by (auto simp: latest_attempt_def latest_eq attempts_of_def Let_def)

lemma latest_decision_Inr:
  "latest_decision i st = Inr d \<longleftrightarrow>
     decisions_of i st \<noteq> [] \<and> d = last (decisions_of i st) \<and> decision_validate d = Inr ()"
  by (auto simp: latest_decision_def latest_eq decisions_of_def Let_def)

definition reconciled :: "attempt_record \<Rightarrow> string \<Rightarrow> attempt_record" where
  "reconciled a result = a\<lparr>at_outcome := ''UNKNOWN'', at_reconciliation_result := Some result\<rparr>"

lemma reconciled_decision_Inr:
  "reconciled_decision i result st = Inr (op, d) \<longleftrightarrow>
     (\<exists>row. load_operation i st = Inr op \<and> rs_operations st i = Some row \<and>
        or_status row = ''RECONCILE_REQUIRED'' \<and> attempts_of i st \<noteq> [] \<and>
        attempt_validate (last (attempts_of i st)) = Inr () \<and>
        at_outcome (last (attempts_of i st)) = ''UNKNOWN'' \<and>
        decide op (reconciled (last (attempts_of i st)) result) (Some default_circuit) = Inr d)"
  by (cases "last (attempts_of i st)")
     (auto simp: reconciled_decision_def store_state_def latest_attempt_Inr decide_None reconciled_def Let_def)

lemma last_attempt:
  assumes "row_ok i row c as ds" "as \<noteq> []"
  shows "at_attempt (last as) = or_latest_attempt row" "at_operation_id (last as) = i"
    "attempt_validate (last as) = Inr ()"
proof -
  have "map at_attempt as = [1 .. or_latest_attempt row]" using assms(1) by (simp add: row_ok_def)
  moreover from this assms(2) have "1 \<le> or_latest_attempt row" by (cases "1 \<le> or_latest_attempt row") auto
  ultimately show "at_attempt (last as) = or_latest_attempt row"
    using assms(2) by (metis last_map last_snoc upto_rec2)
  show "at_operation_id (last as) = i" "attempt_validate (last as) = Inr ()"
    using assms by (auto simp: row_ok_def list_all_iff)
qed

lemma reconciliation_ok [keeps]:
  assumes "store_ok st" "reconciled_decision i result st = Inr (op, d)"
    and "append_reconciliation_and_decision now i result d st = Inr (st', u)"
  shows "store_ok st'"
proof (rule store_ok_step [OF assms(1), of i])
  from assms(3) obtain status row where row: "status_for d = Inr status" "rs_operations st i = Some row"
      "or_status row = ''RECONCILE_REQUIRED''" "decision_validate d = Inr ()"
    and st': "st' = set_status now i status (or_latest_attempt row)
         (rel_log now i [Reconciliation result, Decision d] st)"
    by (auto simp: append_reconciliation_Inr)
  let ?a = "last (attempts_of i st)"
  from store_okE [OF assms(1) row(2)] obtain c t where c: "rs_circuits st i = Some (c, t)"
    and ok: "row_ok i row c (attempts_of i st) (decisions_of i st)" by blast
  from assms(2) row(2) have ne: "attempts_of i st \<noteq> []" and op: "op = or_spec row"
    and d: "decide op (reconciled ?a result) (Some default_circuit) = Inr d"
    by (auto simp: reconciled_decision_Inr load_operation_Inr)
  note v = decide_valid [OF d] and dec = decide_Inr [OF d]
  have "status \<noteq> ''RECONCILE_REQUIRED''"
    using action_of_RECONCILE [OF dec] v(3) row(1) by (auto simp: status_for_Inr reconciled_def)
  moreover have "status = ''RETRY_READY'' \<Longrightarrow> or_latest_attempt row < op_max_attempts op"
    using action_of_RETRY [of op "reconciled ?a result" default_circuit] v(3) row(1) last_attempt [OF ok ne]
    by (auto simp: status_for_Inr reconciled_def)
  ultimately show "view_ok i st'"
    unfolding st' view_ok_def using ok row ne op c by (auto simp: row_ok_def)
qed (use assms(3) in \<open>auto simp: append_reconciliation_Inr\<close>)

section \<open>Invariants of the controller\<close>

text \<open>What a predicate on the journal must satisfy to hold throughout a session: it survives the
  four kinds of writes that touch operations, circuits, attempts and decisions, each in the state the
  controller decided in, and every write that touches none of them.\<close>

locale journal_invariant =
  fixes P :: "rel_store \<Rightarrow> bool"
  assumes frame: "P st \<Longrightarrow> rs_operations st' = rs_operations st \<Longrightarrow> rs_circuits st' = rs_circuits st \<Longrightarrow>
      (\<And>j. attempts_of j st' = attempts_of j st \<and> decisions_of j st' = decisions_of j st) \<Longrightarrow> P st'"
    and register: "P st \<Longrightarrow> store_register now op st = Inr (st', ()) \<Longrightarrow> P st'"
    and circuit: "P st \<Longrightarrow> save_circuit now i c st = Inr (st', ()) \<Longrightarrow> P st'"
    and attempt: "P st \<Longrightarrow> attempt_decision (at_operation_id a) a st = Inr (op, d, c') \<Longrightarrow>
      append_attempt_and_decision now a d (Some c') st = Inr (st', ()) \<Longrightarrow> P st'"
    and reconciliation: "P st \<Longrightarrow> reconciled_decision i result st = Inr (op, d) \<Longrightarrow>
      append_reconciliation_and_decision now i result d st = Inr (st', ()) \<Longrightarrow> P st'"
begin

abbreviation ctl_inv :: "rel_controller \<Rightarrow> bool" where
  "ctl_inv s \<equiv> P (ct_store s)"

lemma preserves_on_store:
  "(\<And>st st' x. P st \<Longrightarrow> f st = Inr (st', x) \<Longrightarrow> P st') \<Longrightarrow> preserves ctl_inv (on_store f)"
  unfolding on_store_def by (rule preserves_transaction) auto

lemma preserves_asks [intro, simp]: "preserves ctl_inv (asks f)"
  by (simp add: asks_def)

lemma preserves_trace [intro, simp]: "preserves ctl_inv (ctl_trace m e p)"
  unfolding ctl_trace_def by (rule preserves_transaction) (auto split: if_splits)

lemma preserves_writes [simp]:
  "preserves ctl_inv (on_store (append_metric now m))"
  "preserves ctl_inv (on_store (append_deadline now ob))"
  "preserves ctl_inv (on_store (store_register_compensation now p))"
  "preserves ctl_inv (on_store (store_record_compensation now r))"
  "preserves ctl_inv (on_store (store_register now op))"
  "preserves ctl_inv (on_store (save_circuit now i c))"
proof -
  show "preserves ctl_inv (on_store (append_metric now m))"
    by (rule preserves_on_store, erule frame) (auto simp: append_metric_def)
  show "preserves ctl_inv (on_store (append_deadline now ob))"
    by (rule preserves_on_store, erule frame) (auto simp: append_deadline_def Let_def)
  show "preserves ctl_inv (on_store (store_register_compensation now p))"
    by (rule preserves_on_store, erule frame) (auto simp: store_register_compensation_def Let_def)
  show "preserves ctl_inv (on_store (store_record_compensation now r))"
    by (rule preserves_on_store, erule frame) (auto simp: store_record_compensation_def Let_def)
  show "preserves ctl_inv (on_store (store_register now op))"
    by (rule preserves_on_store, erule register) auto
  show "preserves ctl_inv (on_store (save_circuit now i c))"
    by (rule preserves_on_store, erule circuit) auto
qed

text \<open>A step whose write depends on what was read in the same state.\<close>

lemma preserves_asks_store:
  assumes "\<And>st x st' y. P st \<Longrightarrow> f st = Inr x \<Longrightarrow> g x st = Inr (st', y) \<Longrightarrow> P st'"
    and "\<And>x y. preserves ctl_inv (h x y)"
  shows "preserves ctl_inv (act_bind (asks f) (\<lambda>x. act_bind (on_store (g x)) (h x)))"
  unfolding preserves_def
proof (intro allI impI)
  fix s assume s: "ctl_inv s"
  show "ctl_inv (fst (act_bind (asks f) (\<lambda>x. act_bind (on_store (g x)) (h x)) s))"
  proof (cases "f (ct_store s)")
    case (Inr x)
    show ?thesis
    proof (cases "g x (ct_store s)")
      case (Inr p)
      obtain st' y where p: "p = (st', y)" by (cases p)
      with assms(1) \<open>f (ct_store s) = Inr x\<close> Inr s have "ctl_inv (s\<lparr>ct_store := st'\<rparr>)" by auto
      with assms(2) Inr \<open>f (ct_store s) = Inr x\<close> p show ?thesis
        by (simp add: act_bind_apply asks_def on_store_def transaction_def preserves_def)
    qed (use s Inr in \<open>simp add: act_bind_apply asks_def on_store_def transaction_def\<close>)
  qed (use s in \<open>simp add: act_bind_apply asks_def\<close>)
qed

lemma controller_preserves:
  "preserves ctl_inv (ctl_register now op)"
  "preserves ctl_inv (record_attempt now a)"
  "preserves ctl_inv (record_deadline now i n elapsed)"
  "preserves ctl_inv (open_probe now i)"
  "preserves ctl_inv (reconcile now i result)"
  "preserves ctl_inv (register_compensation now p)"
  "preserves ctl_inv (record_compensation now r)"
proof -
  show "preserves ctl_inv (record_attempt now a)"
    unfolding record_attempt_def Let_def case_prod_beta
    by (rule preserves_asks_store) (auto intro: attempt intro!: preserves_bind)
  show "preserves ctl_inv (reconcile now i result)"
    unfolding reconcile_def case_prod_beta
    by (rule preserves_asks_store) (auto intro: reconciliation intro!: preserves_bind)
qed (auto simp: ctl_register_def record_deadline_def open_probe_def register_compensation_def
    record_compensation_def Let_def intro!: preserves_bind)

end

text \<open>A session with the controller: any sequence of calls, each returning or raising.\<close>

datatype ctl_call =
    Register operation_spec
  | RecordAttempt attempt_record
  | RecordDeadline string int rat
  | OpenProbe string
  | Reconcile string string
  | RegisterCompensation compensation_plan
  | RecordCompensation compensation_record

fun ctl_step :: "string \<Rightarrow> ctl_call \<Rightarrow> rel_controller \<Rightarrow> rel_controller" where
  "ctl_step now (Register op) s = fst (ctl_register now op s)"
| "ctl_step now (RecordAttempt a) s = fst (record_attempt now a s)"
| "ctl_step now (RecordDeadline i n elapsed) s = fst (record_deadline now i n elapsed s)"
| "ctl_step now (OpenProbe i) s = fst (open_probe now i s)"
| "ctl_step now (Reconcile i result) s = fst (reconcile now i result s)"
| "ctl_step now (RegisterCompensation p) s = fst (register_compensation now p s)"
| "ctl_step now (RecordCompensation r) s = fst (record_compensation now r s)"

fun ctl_run :: "(string \<times> ctl_call) list \<Rightarrow> rel_controller \<Rightarrow> rel_controller" where
  "ctl_run [] s = s"
| "ctl_run ((now, c) # cs) s = ctl_run cs (ctl_step now c s)"

definition new_controller :: "bool \<Rightarrow> rel_controller" where
  "new_controller sink = \<lparr>ct_store = initialize, ct_sink = sink, ct_traces = []\<rparr>"

context journal_invariant begin

lemma ctl_step_inv: "ctl_inv s \<Longrightarrow> ctl_inv (ctl_step now c s)"
  using controller_preserves unfolding preserves_def by (cases c) auto

lemma ctl_run_inv: "ctl_inv s \<Longrightarrow> ctl_inv (ctl_run cs s)"
  by (induction cs s rule: ctl_run.induct) (simp_all add: ctl_step_inv)

end

interpretation journal: journal_invariant store_ok
proof unfold_locales
  show "store_ok st \<Longrightarrow> rs_operations st' = rs_operations st \<Longrightarrow> rs_circuits st' = rs_circuits st \<Longrightarrow>
      (\<And>j. attempts_of j st' = attempts_of j st \<and> decisions_of j st' = decisions_of j st) \<Longrightarrow> store_ok st'"
    for st st' by (rule store_ok_frame)
qed (auto intro: keeps)

text \<open>The operation is over and stays so: its row and its attempts are fixed.\<close>

definition finished_as :: "string \<Rightarrow> operation_row \<Rightarrow> attempt_record list \<Rightarrow> rel_store \<Rightarrow> bool" where
  "finished_as i row as st \<longleftrightarrow> or_status row \<in> {''COMPLETED'', ''STOPPED''} \<and>
     rs_operations st i = Some row \<and> attempts_of i st = as"

interpretation finished: journal_invariant "finished_as i row as" for i row as
proof unfold_locales
  fix st st' now a op d c'
  assume *: "finished_as i row as st"
    and "append_attempt_and_decision now a d (Some c') st = Inr (st', ())"
  then show "finished_as i row as st'"
    by (cases "at_operation_id a = i") (auto simp: finished_as_def append_attempt_Inr Let_def)
next
  fix st st' now j result op d
  assume "finished_as i row as st"
    and "append_reconciliation_and_decision now j result d st = Inr (st', ())"
  then show "finished_as i row as st'"
    by (cases "j = i") (auto simp: finished_as_def append_reconciliation_Inr)
next
  fix st st' now op
  assume "finished_as i row as st" "store_register now op st = Inr (st', ())"
  then show "finished_as i row as st'"
    by (cases "op_operation_id op = i") (auto simp: finished_as_def store_register_Inr Let_def)
qed (auto simp: finished_as_def save_circuit_Inr)

lemma new_controller_ok: "store_ok (ct_store (new_controller sink))"
  by (simp add: new_controller_def store_ok_initialize)

lemmas session_ok = journal.ctl_run_inv [OF new_controller_ok]

lemma run_row:
  assumes "rs_operations (ct_store (ctl_run cs (new_controller sink))) i = Some row"
  shows "\<exists>c. row_ok i row c (attempts_of i (ct_store (ctl_run cs (new_controller sink))))
     (decisions_of i (ct_store (ctl_run cs (new_controller sink))))"
  using store_okE [OF session_ok assms] by blast

section \<open>Recovery\<close>

lemma row_status:
  assumes "row_ok i row c as ds"
  shows "or_status row \<in> {''READY'', ''RETRY_READY'', ''RECONCILE_REQUIRED'', ''COMPLETED'', ''STOPPED''}"
    "or_status row = ''READY'' \<longleftrightarrow> ds = []"
    "or_status row \<noteq> ''READY'' \<Longrightarrow> decision_validate (last ds) = Inr () \<and> status_for (last ds) = Inr (or_status row)"
  using assms by (auto simp: row_ok_def status_for_Inr split: if_splits)

definition item_action :: "string \<Rightarrow> string" where
  "item_action status = (if status = ''RETRY_READY'' then ''RETRY''
     else if status = ''RECONCILE_REQUIRED'' then ''RECONCILE''
     else if status = ''COMPLETED'' then ''COMPLETE''
     else if status = ''STOPPED'' then ''STOP'' else ''READY'')"

lemma decision_not_blank: "decision_validate d = Inr () \<Longrightarrow> \<not> blank (rd_reason d) \<and> \<not> blank (rd_operation_id d)"
  by (simp add: decision_validate_def)

lemma operation_not_blank: "operation_validate op = Inr () \<Longrightarrow> \<not> blank (op_operation_id op) \<and> \<not> blank (op_mission_id op)"
  by (simp add: operation_validate_def)

lemma recovery_item_Inr:
  assumes "store_ok st" "rs_operations st i = Some row" "op_mission_id (or_spec row) = m"
  shows "\<exists>reason. recovery_item_of st m i =
     Inr \<lparr>ri_operation_id = i, ri_action = item_action (or_status row), ri_reason = reason\<rparr>"
proof -
  from store_okE [OF assms(1,2)] obtain c where
    ok: "row_ok i row c (attempts_of i st) (decisions_of i st)" by blast
  have i: "\<not> blank i" using ok operation_not_blank by (auto simp: row_ok_def)
  show ?thesis
  proof (cases "or_status row = ''READY''")
    case True
    with i assms show ?thesis
      by (simp add: recovery_item_of_def store_state_def item_validate_def item_action_def is_space_def)
  next
    case False
    with row_status [OF ok] have ne: "decisions_of i st \<noteq> []"
      and d: "decision_validate (last (decisions_of i st)) = Inr ()"
        "status_for (last (decisions_of i st)) = Inr (or_status row)" by auto
    then have "latest_decision i st = Inr (last (decisions_of i st))" by (simp add: latest_decision_Inr)
    with i assms False d decision_not_blank [OF d(1)] show ?thesis
      by (auto simp: recovery_item_of_def store_state_def item_validate_def item_action_def is_space_def
          status_for_Inr)
  qed
qed

lemma recover_Inr:
  assumes "store_ok st" "\<not> blank m" "is \<noteq> []" "distinct is"
    and "\<forall>i \<in> set is. \<exists>row. rs_operations st i = Some row \<and> op_mission_id (or_spec row) = m"
  defines "action i \<equiv> item_action (or_status (the (rs_operations st i)))"
  shows "\<exists>r. recover st m is = Inr r \<and> map ri_operation_id (rr_items r) = is \<and>
     map ri_action (rr_items r) = map action is \<and>
     (rr_safe_to_continue r \<longleftrightarrow> (\<forall>i \<in> set is. action i \<notin> {''RECONCILE'', ''STOP''}))"
proof -
  have item: "\<exists>it. recovery_item_of st m i = Inr it \<and> ri_operation_id it = i \<and> ri_action it = action i"
    if "i \<in> set is" for i
    using recovery_item_Inr [OF assms(1)] assms(5) that by (fastforce simp: action_def)
  have "\<exists>items. map_res (recovery_item_of st m) js = Inr items \<and> map ri_operation_id items = js \<and>
      map ri_action items = map action js \<and> list_all (\<lambda>it. item_validate it = Inr ()) items"
    if "set js \<subseteq> set is" for js
    using that
  proof (induction js)
    case (Cons j js)
    with item obtain it where it: "recovery_item_of st m j = Inr it" "ri_operation_id it = j" "ri_action it = action j"
      by auto
    then have "item_validate it = Inr ()" by (auto simp: recovery_item_of_def)
    with it Cons show ?case by auto
  qed simp
  then obtain items where items: "map_res (recovery_item_of st m) is = Inr items"
    "map ri_operation_id items = is" "map ri_action items = map action is"
    "list_all (\<lambda>it. item_validate it = Inr ()) items" by blast
  have "may_continue items \<longleftrightarrow> list_all (\<lambda>x. x \<notin> {''RECONCILE'', ''STOP''}) (map ri_action items)"
    by (simp add: may_continue_def list_all_iff)
  then have "may_continue items \<longleftrightarrow> (\<forall>i \<in> set is. action i \<notin> {''RECONCILE'', ''STOP''})"
    unfolding items(3) by (simp add: list_all_iff)
  moreover have "items \<noteq> []" using items(2) assms(3) by auto
  ultimately show ?thesis
    using assms(2-4) items by (auto simp: recover_def report_validate_def list_all_iff Let_def)
qed

end
