(* ===== verification/Catalog.thy ===== *)
theory Catalog
  imports Prelude
begin

text \<open>
  The shared runtime catalog (factory/runtime/catalog.py: agents, versioned artifacts, budgets,
  approvals), its mission-bound facade (factory/runtime/mission_scope.py) and workspace leases
  (factory/runtime/adapters.py). Keyed tables are
  maps, the artifact table is the list of its rows; a writing method returns the new database or raises
  and changes nothing. \<open>now\<close> is the clock reading of a call, \<open>sha\<close> the digest.
\<close>

section \<open>The database\<close>

record agent =
  ag_agent_id :: string
  ag_role :: string
  ag_capabilities :: "string list"
  ag_active :: bool
  ag_updated_at :: string

record artifact =
  af_mission_id :: string
  af_artifact_id :: string
  af_version :: nat
  af_media_type :: string
  af_content_hash :: string
  af_content_text :: string
  af_created_by :: string
  af_created_at :: string

record budget =
  bu_limit_units :: int
  bu_consumed_units :: int
  bu_updated_at :: string

record approval =
  ap_proposal_id :: string
  ap_mission_id :: string
  ap_action_type :: string
  ap_target :: string
  ap_protected :: bool
  ap_status :: string
  ap_decided_by :: "string option"
  ap_created_at :: string
  ap_decided_at :: "string option"

record catalog =
  ca_agents :: "string \<rightharpoonup> agent"
  ca_artifacts :: "artifact list"
  ca_budgets :: "string \<rightharpoonup> budget"
  ca_approvals :: "string \<rightharpoonup> approval"

definition empty_catalog :: catalog where
  "empty_catalog = \<lparr>ca_agents = Map.empty, ca_artifacts = [], ca_budgets = Map.empty,
     ca_approvals = Map.empty\<rparr>"

section \<open>Operations\<close>

definition register_agent :: "string \<Rightarrow> string \<Rightarrow> string \<Rightarrow> string list \<Rightarrow> bool \<Rightarrow> catalog \<Rightarrow> (catalog \<times> unit) res" where
  "register_agent now agent_id role capabilities active c =
     res_bind (raise_if (agent_id = [] \<or> role = []) (ValueError ''agent_id and role are required'')) (\<lambda>_.
     Inr (c\<lparr>ca_agents := (ca_agents c)(agent_id \<mapsto> \<lparr>ag_agent_id = agent_id, ag_role = role,
       ag_capabilities = sorted_set capabilities, ag_active = active, ag_updated_at = now\<rparr>)\<rparr>, ()))"

definition get_agent :: "string \<Rightarrow> catalog \<Rightarrow> agent res" where
  "get_agent agent_id c = fetch (KeyError [agent_id]) (ca_agents c agent_id)"

definition versions_of :: "string \<Rightarrow> string \<Rightarrow> catalog \<Rightarrow> artifact list" where
  "versions_of m a c = [r \<leftarrow> ca_artifacts c. af_mission_id r = m \<and> af_artifact_id r = a]"

text \<open>\<open>SELECT MAX(version)\<close>, then the insertion under the next version\<close>

definition next_version :: "artifact list \<Rightarrow> nat" where
  "next_version rows = (if rows = [] then 1 else Max (set (map af_version rows)) + 1)"

definition add_artifact :: "(string \<Rightarrow> string) \<Rightarrow> string \<Rightarrow> string \<Rightarrow> string \<Rightarrow> string \<Rightarrow> string \<Rightarrow> string \<Rightarrow>
     catalog \<Rightarrow> (catalog \<times> artifact) res" where
  "add_artifact sha now mission_id artifact_id content created_by media_type c =
     res_bind (raise_if (mission_id = [] \<or> artifact_id = [] \<or> created_by = [])
       (ValueError ''mission_id, artifact_id and created_by are required'')) (\<lambda>_.
     let row = \<lparr>af_mission_id = mission_id, af_artifact_id = artifact_id,
           af_version = next_version (versions_of mission_id artifact_id c), af_media_type = media_type,
           af_content_hash = sha content, af_content_text = content, af_created_by = created_by,
           af_created_at = now\<rparr>
     in Inr (c\<lparr>ca_artifacts := ca_artifacts c @ [row]\<rparr>, row))"

text \<open>\<open>ORDER BY version DESC LIMIT 1\<close>\<close>

definition latest_artifact :: "string \<Rightarrow> string \<Rightarrow> catalog \<Rightarrow> artifact res" where
  "latest_artifact m a c = (let rows = versions_of m a c in
     fetch (KeyError [m, a]) (find (\<lambda>r. af_version r = Max (set (map af_version rows))) rows))"

definition set_budget :: "string \<Rightarrow> string \<Rightarrow> int \<Rightarrow> catalog \<Rightarrow> (catalog \<times> unit) res" where
  "set_budget now mission_id limit_units c =
     res_bind (raise_if (limit_units < 0) (ValueError ''limit_units must be >= 0'')) (\<lambda>_.
     Inr (c\<lparr>ca_budgets := (ca_budgets c)(mission_id \<mapsto> \<lparr>bu_limit_units = limit_units,
       bu_consumed_units = (case ca_budgets c mission_id of None \<Rightarrow> 0 | Some b \<Rightarrow> bu_consumed_units b),
       bu_updated_at = now\<rparr>)\<rparr>, ()))"

definition consume_budget :: "string \<Rightarrow> string \<Rightarrow> int \<Rightarrow> catalog \<Rightarrow> (catalog \<times> int \<times> int) res" where
  "consume_budget now mission_id units c =
     res_bind (raise_if (units \<le> 0) (ValueError ''units must be > 0'')) (\<lambda>_.
     res_bind (fetch (KeyError [mission_id]) (ca_budgets c mission_id)) (\<lambda>b.
     let new_total = bu_consumed_units b + units in
     res_bind (raise_if (new_total > bu_limit_units b) (RuntimeError ''budget_exhausted'')) (\<lambda>_.
     Inr (c\<lparr>ca_budgets := (ca_budgets c)(mission_id \<mapsto> b\<lparr>bu_consumed_units := new_total,
       bu_updated_at := now\<rparr>)\<rparr>, new_total, bu_limit_units b))))"

definition propose_action :: "string \<Rightarrow> string \<Rightarrow> string \<Rightarrow> string \<Rightarrow> string \<Rightarrow> bool \<Rightarrow> catalog \<Rightarrow> (catalog \<times> unit) res" where
  "propose_action now proposal_id mission_id action_type target protected c =
     res_bind (raise_if (ca_approvals c proposal_id \<noteq> None)
       (ValueError (''duplicate proposal: '' @ proposal_id))) (\<lambda>_.
     Inr (c\<lparr>ca_approvals := (ca_approvals c)(proposal_id \<mapsto> \<lparr>ap_proposal_id = proposal_id,
       ap_mission_id = mission_id, ap_action_type = action_type, ap_target = target,
       ap_protected = protected, ap_status = ''PENDING'', ap_decided_by = None, ap_created_at = now,
       ap_decided_at = None\<rparr>)\<rparr>, ()))"

definition foreign :: "string option \<Rightarrow> approval \<Rightarrow> bool" where
  "foreign mission_id r = (case mission_id of None \<Rightarrow> False | Some m \<Rightarrow> ap_mission_id r \<noteq> m)"

definition approval_record :: "string \<Rightarrow> string option \<Rightarrow> catalog \<Rightarrow> approval res" where
  "approval_record proposal_id mission_id c =
     res_bind (fetch (KeyError [proposal_id]) (ca_approvals c proposal_id)) (\<lambda>r.
     res_bind (raise_if (foreign mission_id r) (PermissionError ''cross_mission_access_denied'')) (\<lambda>_. Inr r))"

definition decide_action :: "string \<Rightarrow> string \<Rightarrow> bool \<Rightarrow> string \<Rightarrow> string option \<Rightarrow> catalog \<Rightarrow> (catalog \<times> string) res" where
  "decide_action now proposal_id approved decided_by mission_id c =
     (let status = (if approved then ''APPROVED'' else ''DENIED'') in
     res_bind (fetch (KeyError [proposal_id]) (ca_approvals c proposal_id)) (\<lambda>r.
     res_bind (checks [
       raise_if (foreign mission_id r) (PermissionError ''cross_mission_access_denied''),
       raise_if (ap_status r \<noteq> ''PENDING'') (RuntimeError ''approval_already_decided'')]) (\<lambda>_.
     Inr (c\<lparr>ca_approvals := (ca_approvals c)(proposal_id \<mapsto> r\<lparr>ap_status := status,
       ap_decided_by := Some decided_by, ap_decided_at := Some now\<rparr>)\<rparr>, status))))"

definition approval_status :: "string \<Rightarrow> string option \<Rightarrow> catalog \<Rightarrow> string res" where
  "approval_status proposal_id mission_id c = map_sum id ap_status (approval_record proposal_id mission_id c)"

section \<open>The mission-bound facade\<close>

text \<open>A facade is its mission id (the catalog is the state): construction checks it is not empty.\<close>

definition new_scope :: "string \<Rightarrow> string res" where
  "new_scope mission_id = res_bind (raise_if (mission_id = []) (ValueError ''mission_id is required''))
     (\<lambda>_. Inr mission_id)"

definition scope_add_artifact :: "(string \<Rightarrow> string) \<Rightarrow> string \<Rightarrow> string \<Rightarrow> string \<Rightarrow> string \<Rightarrow> string \<Rightarrow> string \<Rightarrow>
     catalog \<Rightarrow> (catalog \<times> artifact) res" where
  "scope_add_artifact sha now m artifact_id content created_by media_type =
     add_artifact sha now m artifact_id content created_by media_type"

definition scope_latest_artifact :: "string \<Rightarrow> string \<Rightarrow> catalog \<Rightarrow> artifact res" where
  "scope_latest_artifact m artifact_id = latest_artifact m artifact_id"

definition scope_set_budget :: "string \<Rightarrow> string \<Rightarrow> int \<Rightarrow> catalog \<Rightarrow> (catalog \<times> unit) res" where
  "scope_set_budget now m limit_units = set_budget now m limit_units"

definition scope_consume_budget :: "string \<Rightarrow> string \<Rightarrow> int \<Rightarrow> catalog \<Rightarrow> (catalog \<times> int \<times> int) res" where
  "scope_consume_budget now m units = consume_budget now m units"

definition scope_propose_action :: "string \<Rightarrow> string \<Rightarrow> string \<Rightarrow> string \<Rightarrow> string \<Rightarrow> bool \<Rightarrow> catalog \<Rightarrow> (catalog \<times> unit) res" where
  "scope_propose_action now m proposal_id action_type target protected =
     propose_action now proposal_id m action_type target protected"

definition scope_approval_status :: "string \<Rightarrow> string \<Rightarrow> catalog \<Rightarrow> string res" where
  "scope_approval_status m proposal_id c =
     res_bind (raise_if (proposal_id = []) (ValueError ''proposal_id is required'')) (\<lambda>_.
     approval_status proposal_id (Some m) c)"

definition scope_decide_action :: "string \<Rightarrow> string \<Rightarrow> string \<Rightarrow> bool \<Rightarrow> string \<Rightarrow> catalog \<Rightarrow> (catalog \<times> string) res" where
  "scope_decide_action now m proposal_id approved decided_by c =
     res_bind (raise_if (proposal_id = []) (ValueError ''proposal_id is required'')) (\<lambda>_.
     decide_action now proposal_id approved decided_by (Some m) c)"

section \<open>Invariants\<close>

text \<open>The versions of an artifact are consecutive, digests match contents, every approval is
  stored under its own id, pending exactly while undecided.\<close>

definition versions_ok :: "artifact list \<Rightarrow> bool" where
  "versions_ok rows \<longleftrightarrow> map af_version rows = [1 ..< length rows + 1]"

definition budget_ok :: "budget \<Rightarrow> bool" where
  "budget_ok b \<longleftrightarrow> 0 \<le> bu_limit_units b \<and> 0 \<le> bu_consumed_units b"

definition approval_ok :: "string \<Rightarrow> approval \<Rightarrow> bool" where
  "approval_ok p r \<longleftrightarrow> ap_proposal_id r = p \<and>
     (if ap_decided_by r = None then ap_status r = ''PENDING''
      else ap_status r \<in> {''APPROVED'', ''DENIED''})"

definition catalog_ok :: "(string \<Rightarrow> string) \<Rightarrow> catalog \<Rightarrow> bool" where
  "catalog_ok sha c \<longleftrightarrow> (\<forall>m a. versions_ok (versions_of m a c)) \<and>
     list_all (\<lambda>r. af_content_hash r = sha (af_content_text r)) (ca_artifacts c) \<and>
     (\<forall>m b. ca_budgets c m = Some b \<longrightarrow> budget_ok b) \<and>
     (\<forall>p r. ca_approvals c p = Some r \<longrightarrow> approval_ok p r)"

datatype catalog_call =
    RegisterAgent string string "string list" bool
  | AddArtifact string string string string string
  | SetBudget string int
  | ConsumeBudget string int
  | ProposeAction string string string string bool
  | DecideAction string bool string "string option"

definition after :: "catalog \<Rightarrow> (catalog \<times> 'a) res \<Rightarrow> catalog" where
  "after c r = (case r of Inl _ \<Rightarrow> c | Inr (c', _) \<Rightarrow> c')"

fun catalog_step :: "(string \<Rightarrow> string) \<Rightarrow> string \<Rightarrow> catalog_call \<Rightarrow> catalog \<Rightarrow> catalog" where
  "catalog_step sha now (RegisterAgent i r cs act) c = after c (register_agent now i r cs act c)"
| "catalog_step sha now (AddArtifact m a body author mt) c = after c (add_artifact sha now m a body author mt c)"
| "catalog_step sha now (SetBudget m l) c = after c (set_budget now m l c)"
| "catalog_step sha now (ConsumeBudget m u) c = after c (consume_budget now m u c)"
| "catalog_step sha now (ProposeAction p m ty tg pr) c = after c (propose_action now p m ty tg pr c)"
| "catalog_step sha now (DecideAction p ok who m) c = after c (decide_action now p ok who m c)"

fun catalog_run :: "(string \<Rightarrow> string) \<Rightarrow> (string \<times> catalog_call) list \<Rightarrow> catalog \<Rightarrow> catalog" where
  "catalog_run sha [] c = c"
| "catalog_run sha ((now, op) # ops) c = catalog_run sha ops (catalog_step sha now op c)"

lemma after_cases: "P c \<Longrightarrow> (\<And>c' x. r = Inr (c', x) \<Longrightarrow> P c') \<Longrightarrow> P (after c r)"
  by (auto simp: after_def split: sum.splits)

lemma Max_upt: "0 < n \<Longrightarrow> Max (set [1 ..< n + 1]) = n"
  by (rule Max_eqI) auto

lemma next_version_eq:
  assumes "versions_ok rows"
  shows "next_version rows = length rows + 1"
  unfolding next_version_def assms [unfolded versions_ok_def] using Max_upt [of "length rows"] by simp

lemma versions_of_snoc:
  "versions_of m a (c\<lparr>ca_artifacts := ca_artifacts c @ [r]\<rparr>) =
     versions_of m a c @ (if af_mission_id r = m \<and> af_artifact_id r = a then [r] else [])"
  by (simp add: versions_of_def)

lemma versions_of_frame [simp]:
  "versions_of m a (c\<lparr>ca_agents := x\<rparr>) = versions_of m a c"
  "versions_of m a (c\<lparr>ca_budgets := y\<rparr>) = versions_of m a c"
  "versions_of m a (c\<lparr>ca_approvals := z\<rparr>) = versions_of m a c"
  by (simp_all add: versions_of_def)

lemma add_artifact_Inr:
  "add_artifact sha now m a body author mt c = Inr (c', row) \<longleftrightarrow> m \<noteq> [] \<and> a \<noteq> [] \<and> author \<noteq> [] \<and>
     row = \<lparr>af_mission_id = m, af_artifact_id = a, af_version = next_version (versions_of m a c),
       af_media_type = mt, af_content_hash = sha body, af_content_text = body, af_created_by = author,
       af_created_at = now\<rparr> \<and> c' = c\<lparr>ca_artifacts := ca_artifacts c @ [row]\<rparr>"
  by (auto simp: add_artifact_def Let_def)

lemma add_artifact_ok [keeps]:
  assumes "catalog_ok sha c" "add_artifact sha now m a body author mt c = Inr (c', row)"
  shows "catalog_ok sha c'"
proof -
  from assms(2) have c': "c' = c\<lparr>ca_artifacts := ca_artifacts c @ [row]\<rparr>"
    and row: "af_mission_id row = m" "af_artifact_id row = a" "af_content_hash row = sha (af_content_text row)"
      "af_version row = next_version (versions_of m a c)"
    by (simp_all add: add_artifact_Inr)
  have "af_version row = length (versions_of m a c) + 1"
    unfolding row(4) using assms(1) by (intro next_version_eq) (simp add: catalog_ok_def)
  then have "versions_ok (versions_of m a c @ [row])"
    using assms(1) by (simp add: catalog_ok_def versions_ok_def)
  with assms(1) row(1-3) show ?thesis unfolding c' by (simp add: catalog_ok_def versions_of_snoc)
qed

lemma set_budget_Inr:
  "set_budget now m l c = Inr (c', u) \<longleftrightarrow> 0 \<le> l \<and>
     c' = c\<lparr>ca_budgets := (ca_budgets c)(m \<mapsto> \<lparr>bu_limit_units = l,
       bu_consumed_units = (case ca_budgets c m of None \<Rightarrow> 0 | Some b \<Rightarrow> bu_consumed_units b),
       bu_updated_at = now\<rparr>)\<rparr>"
  by (auto simp: set_budget_def)

lemma consume_budget_Inr:
  "consume_budget now m u c = Inr (c', n, l) \<longleftrightarrow> 0 < u \<and> (\<exists>b. ca_budgets c m = Some b \<and>
     n = bu_consumed_units b + u \<and> l = bu_limit_units b \<and> n \<le> l \<and>
     c' = c\<lparr>ca_budgets := (ca_budgets c)(m \<mapsto> b\<lparr>bu_consumed_units := n, bu_updated_at := now\<rparr>)\<rparr>)"
  by (auto simp: consume_budget_def Let_def)

lemma propose_action_Inr:
  "propose_action now p m ty tg pr c = Inr (c', u) \<longleftrightarrow> ca_approvals c p = None \<and>
     c' = c\<lparr>ca_approvals := (ca_approvals c)(p \<mapsto> \<lparr>ap_proposal_id = p, ap_mission_id = m,
       ap_action_type = ty, ap_target = tg, ap_protected = pr, ap_status = ''PENDING'',
       ap_decided_by = None, ap_created_at = now, ap_decided_at = None\<rparr>)\<rparr>"
  by (auto simp: propose_action_def)

lemma decide_action_Inr:
  "decide_action now p ok who m c = Inr (c', s) \<longleftrightarrow> (\<exists>r. ca_approvals c p = Some r \<and> \<not> foreign m r \<and>
     ap_status r = ''PENDING'' \<and> s = (if ok then ''APPROVED'' else ''DENIED'') \<and>
     c' = c\<lparr>ca_approvals := (ca_approvals c)(p \<mapsto> r\<lparr>ap_status := s, ap_decided_by := Some who,
       ap_decided_at := Some now\<rparr>)\<rparr>)"
  by (auto simp: decide_action_def Let_def)

lemma register_agent_Inr:
  "register_agent now i ro cs act c = Inr (c', u) \<longleftrightarrow> i \<noteq> [] \<and> ro \<noteq> [] \<and>
     c' = c\<lparr>ca_agents := (ca_agents c)(i \<mapsto> \<lparr>ag_agent_id = i, ag_role = ro,
       ag_capabilities = sorted_set cs, ag_active = act, ag_updated_at = now\<rparr>)\<rparr>"
  by (auto simp: register_agent_def)

lemmas catalog_Inr = set_budget_Inr consume_budget_Inr propose_action_Inr decide_action_Inr
  register_agent_Inr add_artifact_Inr

lemma catalog_ok_simps:
  "catalog_ok sha c \<Longrightarrow> budget_ok b \<Longrightarrow> catalog_ok sha (c\<lparr>ca_budgets := (ca_budgets c)(m \<mapsto> b)\<rparr>)"
  "catalog_ok sha c \<Longrightarrow> approval_ok p r \<Longrightarrow> catalog_ok sha (c\<lparr>ca_approvals := (ca_approvals c)(p \<mapsto> r)\<rparr>)"
  "catalog_ok sha c \<Longrightarrow> catalog_ok sha (c\<lparr>ca_agents := x\<rparr>)"
  by (auto simp: catalog_ok_def)

lemma catalog_ok_rows:
  "catalog_ok sha c \<Longrightarrow> ca_budgets c m = Some b \<Longrightarrow> budget_ok b"
  "catalog_ok sha c \<Longrightarrow> ca_approvals c p = Some r \<Longrightarrow> approval_ok p r"
  by (auto simp: catalog_ok_def)

lemma set_budget_ok [keeps]: "catalog_ok sha c \<Longrightarrow> set_budget now m l c = Inr (c', u) \<Longrightarrow> catalog_ok sha c'"
  using catalog_ok_rows(1) [of sha c m]
  by (auto simp: set_budget_Inr budget_ok_def intro!: catalog_ok_simps split: option.splits)

lemma consume_budget_ok [keeps]: "catalog_ok sha c \<Longrightarrow> consume_budget now m u c = Inr (c', nl) \<Longrightarrow> catalog_ok sha c'"
  using catalog_ok_rows(1) [of sha c m]
  by (cases nl) (auto simp: consume_budget_Inr budget_ok_def intro!: catalog_ok_simps)

lemma propose_action_ok [keeps]:
  "catalog_ok sha c \<Longrightarrow> propose_action now p m ty tg pr c = Inr (c', u) \<Longrightarrow> catalog_ok sha c'"
  by (auto simp: propose_action_Inr approval_ok_def intro!: catalog_ok_simps)

lemma decide_action_ok [keeps]:
  "catalog_ok sha c \<Longrightarrow> decide_action now p ok who m c = Inr (c', s) \<Longrightarrow> catalog_ok sha c'"
  using catalog_ok_rows(2) [of sha c p]
  by (auto simp: decide_action_Inr approval_ok_def intro!: catalog_ok_simps)

lemma register_agent_ok [keeps]:
  "catalog_ok sha c \<Longrightarrow> register_agent now i ro cs act c = Inr (c', u) \<Longrightarrow> catalog_ok sha c'"
  by (auto simp: register_agent_Inr intro: catalog_ok_simps)

lemma catalog_step_ok: "catalog_ok sha c \<Longrightarrow> catalog_ok sha (catalog_step sha now op c)"
  by (cases op) (auto intro: after_cases keeps)

lemma catalog_run_ok: "catalog_ok sha c \<Longrightarrow> catalog_ok sha (catalog_run sha ops c)"
  by (induction sha ops c rule: catalog_run.induct) (simp_all add: catalog_step_ok)

lemma empty_catalog_ok: "catalog_ok sha empty_catalog"
  by (simp add: catalog_ok_def empty_catalog_def versions_of_def versions_ok_def)

section \<open>Reading back\<close>

lemma find_snoc: "\<forall>x \<in> set xs. \<not> P x \<Longrightarrow> P y \<Longrightarrow> find P (xs @ [y]) = Some y"
  by (induction xs) auto

lemma latest_added:
  assumes "catalog_ok sha c" "add_artifact sha now m a body author mt c = Inr (c', row)"
  shows "latest_artifact m a c' = Inr row"
proof -
  have "catalog_ok sha c'" using assms by (rule add_artifact_ok)
  then have vs: "versions_ok (versions_of m a c @ [row])"
    using assms(2) unfolding catalog_ok_def by (auto simp: add_artifact_Inr versions_of_snoc dest: spec2 [of _ m a])
  have c': "versions_of m a c' = versions_of m a c @ [row]"
    using assms(2) by (auto simp: add_artifact_Inr versions_of_snoc)
  let ?n = "length (versions_of m a c) + 1"
  have "Max (set (map af_version (versions_of m a c @ [row]))) = ?n"
    unfolding vs [unfolded versions_ok_def] using Max_upt [of ?n] by simp
  moreover have "af_version row = ?n" and "map af_version (versions_of m a c) = [1 ..< ?n]"
    using vs by (simp_all add: versions_ok_def)
  then have "\<forall>r \<in> set (versions_of m a c). af_version r \<noteq> ?n"
    by (metis atLeastLessThan_iff imageI less_irrefl list.set_map set_upt)
  ultimately have "find (\<lambda>r. af_version r = Max (set (map af_version (versions_of m a c @ [row]))))
      (versions_of m a c @ [row]) = Some row"
    using \<open>af_version row = ?n\<close> by (intro find_snoc) (simp_all del: map_append)
  then show ?thesis by (simp add: latest_artifact_def c' Let_def)
qed

section \<open>Approvals are decided once\<close>

definition decided :: "string \<Rightarrow> approval \<Rightarrow> catalog \<Rightarrow> bool" where
  "decided p r c \<longleftrightarrow> ca_approvals c p = Some r \<and> ap_status r \<noteq> ''PENDING''"

lemma catalog_step_decided: "decided p r c \<Longrightarrow> decided p r (catalog_step sha now op c)"
proof (cases op)
  case (DecideAction p' ok who m)
  assume d: "decided p r c"
  have "decided p r c'" if "decide_action now p' ok who m c = Inr (c', x)" for c' x
    using that d by (cases "p = p'") (auto simp: decided_def decide_action_Inr)
  with d show ?thesis by (simp add: DecideAction after_cases)
next
  case (ProposeAction p' m ty tg pr)
  assume d: "decided p r c"
  have "decided p r c'" if "propose_action now p' m ty tg pr c = Inr (c', x)" for c' x
    using that d by (cases "p = p'") (auto simp: decided_def propose_action_Inr)
  with d show ?thesis by (simp add: ProposeAction after_cases)
qed (auto simp: decided_def catalog_Inr after_def split: sum.split prod.split)

lemma catalog_run_decided: "decided p r c \<Longrightarrow> decided p r (catalog_run sha ops c)"
  by (induction sha ops c rule: catalog_run.induct) (simp_all add: catalog_step_decided)

section \<open>Budgets bound consumption\<close>

definition limits_within :: "string \<Rightarrow> int \<Rightarrow> catalog_call \<Rightarrow> bool" where
  "limits_within m l call = (case call of SetBudget m' l' \<Rightarrow> m' = m \<longrightarrow> l' \<le> l | _ \<Rightarrow> True)"

definition consumed_within :: "string \<Rightarrow> int \<Rightarrow> catalog \<Rightarrow> bool" where
  "consumed_within m l c = (case ca_budgets c m of None \<Rightarrow> True
     | Some b \<Rightarrow> bu_limit_units b \<le> l \<and> bu_consumed_units b \<le> l)"

lemma catalog_step_consumed:
  assumes "consumed_within m l c" "limits_within m l call" "0 \<le> l"
  shows "consumed_within m l (catalog_step sha now call c)"
proof (cases call)
  case (SetBudget m' l')
  have "consumed_within m l c'" if "set_budget now m' l' c = Inr (c', u)" for c' u
    using that assms by (cases "m' = m")
      (auto simp: SetBudget consumed_within_def limits_within_def set_budget_Inr split: option.splits)
  with assms(1) show ?thesis by (auto simp: SetBudget after_def split: sum.split)
next
  case (ConsumeBudget m' u)
  have "consumed_within m l c'" if "consume_budget now m' u c = Inr (c', nl)" for c' nl
    using that assms(1) by (cases "m' = m"; cases nl) (auto simp: consumed_within_def consume_budget_Inr)
  with assms(1) show ?thesis by (auto simp: ConsumeBudget after_def split: sum.split)
qed (use assms(1) in \<open>auto simp: consumed_within_def catalog_Inr after_def split: sum.split prod.split\<close>)

lemma catalog_run_consumed:
  "consumed_within m l c \<Longrightarrow> list_all (\<lambda>(now, call). limits_within m l call) calls \<Longrightarrow> 0 \<le> l \<Longrightarrow>
     consumed_within m l (catalog_run sha calls c)"
  by (induction sha calls c rule: catalog_run.induct) (auto simp: catalog_step_consumed)

section \<open>Mission isolation\<close>

text \<open>What a mission can read: its artifacts, its budget, its approvals.\<close>

definition mission_view :: "string \<Rightarrow> catalog \<Rightarrow> artifact list \<times> budget option \<times> (string \<rightharpoonup> approval)" where
  "mission_view m c = ([r \<leftarrow> ca_artifacts c. af_mission_id r = m], ca_budgets c m,
     (\<lambda>p. case ca_approvals c p of None \<Rightarrow> None | Some r \<Rightarrow> if ap_mission_id r = m then Some r else None))"

datatype scope_call =
    ScopeAddArtifact string string string string
  | ScopeSetBudget int
  | ScopeConsumeBudget int
  | ScopeProposeAction string string string bool
  | ScopeDecideAction string bool string

fun scope_step :: "(string \<Rightarrow> string) \<Rightarrow> string \<Rightarrow> string \<Rightarrow> scope_call \<Rightarrow> catalog \<Rightarrow> catalog" where
  "scope_step sha now m (ScopeAddArtifact a body author mt) c =
     after c (scope_add_artifact sha now m a body author mt c)"
| "scope_step sha now m (ScopeSetBudget l) c = after c (scope_set_budget now m l c)"
| "scope_step sha now m (ScopeConsumeBudget u) c = after c (scope_consume_budget now m u c)"
| "scope_step sha now m (ScopeProposeAction p ty tg pr) c = after c (scope_propose_action now m p ty tg pr c)"
| "scope_step sha now m (ScopeDecideAction p ok who) c = after c (scope_decide_action now m p ok who c)"

lemma scope_step_other:
  "m \<noteq> m' \<Longrightarrow> mission_view m' (scope_step sha now m op c) = mission_view m' c"
proof (cases op)
  case (ScopeDecideAction p ok who)
  assume "m \<noteq> m'"
  then have "mission_view m' c' = mission_view m' c"
    if "scope_decide_action now m p ok who c = Inr (c', x)" for c' x
    using that by (auto simp: scope_decide_action_def decide_action_Inr foreign_def mission_view_def)
  then show ?thesis by (simp add: ScopeDecideAction after_def split: sum.split prod.split)
next
  case (ScopeProposeAction p ty tg pr)
  assume "m \<noteq> m'"
  then have "mission_view m' c' = mission_view m' c"
    if "scope_propose_action now m p ty tg pr c = Inr (c', x)" for c' x
    using that by (auto simp: scope_propose_action_def propose_action_Inr mission_view_def)
  then show ?thesis by (simp add: ScopeProposeAction after_def split: sum.split prod.split)
qed (auto simp: mission_view_def scope_add_artifact_def scope_set_budget_def scope_consume_budget_def
    catalog_Inr after_def split: sum.split prod.split)

fun scopes_run :: "(string \<Rightarrow> string) \<Rightarrow> (string \<times> string \<times> scope_call) list \<Rightarrow> catalog \<Rightarrow> catalog" where
  "scopes_run sha [] c = c"
| "scopes_run sha ((now, m, op) # ops) c = scopes_run sha ops (scope_step sha now m op c)"

lemma scopes_run_other:
  "\<forall>(now, m, op) \<in> set ops. m \<noteq> m' \<Longrightarrow> mission_view m' (scopes_run sha ops c) = mission_view m' c"
  by (induction sha ops c rule: scopes_run.induct) (auto simp: scope_step_other)

text \<open>What a mission reads depends on its own view only.\<close>

lemma view_artifacts:
  "mission_view m c = mission_view m d \<Longrightarrow> scope_latest_artifact m a c = scope_latest_artifact m a d"
proof -
  have "versions_of m a c = [r \<leftarrow> fst (mission_view m c). af_artifact_id r = a]" for c
    by (simp add: versions_of_def mission_view_def conj_commute)
  then show "mission_view m c = mission_view m d \<Longrightarrow> ?thesis"
    by (simp add: scope_latest_artifact_def latest_artifact_def Let_def)
qed

lemma view_consume:
  "mission_view m c = mission_view m d \<Longrightarrow>
     map_sum id snd (scope_consume_budget now m u c) = map_sum id snd (scope_consume_budget now m u d)"
  by (cases "ca_budgets d m")
     (auto simp: mission_view_def scope_consume_budget_def consume_budget_def Let_def raise_if_def)

section \<open>Workspace leases\<close>

text \<open>The isolation facade of factory/runtime/adapters.py: a lease names a workspace of a task by a digest.\<close>

record workspace_lease =
  wl_workspace_id :: string
  wl_mission_id :: string
  wl_task_id :: string
  wl_write_scopes :: "string list"

definition lease :: "(string \<Rightarrow> string) \<Rightarrow> string \<Rightarrow> string \<Rightarrow> string list \<Rightarrow> workspace_lease res" where
  "lease sha mission_id task_id scopes =
     res_bind (raise_if (mission_id = [] \<or> task_id = []) (ValueError ''mission_id and task_id are required'')) (\<lambda>_.
     Inr \<lparr>wl_workspace_id = ''ws-'' @ take 12 (sha (mission_id @ '':'' @ task_id)), wl_mission_id = mission_id, wl_task_id = task_id,
       wl_write_scopes = sorted_set (map strip (filter (\<lambda>s. \<not> blank s) scopes))\<rparr>)"

lemma lease_stable:
  "lease sha m t scopes = Inr a \<Longrightarrow> lease sha m t scopes' = Inr b \<Longrightarrow> wl_workspace_id a = wl_workspace_id b"
  by (auto simp: lease_def)

text \<open>The separator may occur in the ids: two tasks of different missions can be given one workspace.\<close>

lemma leases_collide:
  "\<exists>a b. lease sha ''a:b'' ''c'' [] = Inr a \<and> lease sha ''a'' ''b:c'' [] = Inr b \<and> wl_workspace_id a = wl_workspace_id b"
  by (simp add: lease_def)

end
