(* ===== verification/Incidents.thy ===== *)
theory Incidents
  imports Catalog Hash_Chain Json
begin

text \<open>
  Incident response (factory/runtime/incidents.py): the incident state machine, its evidence and
  actions, and the hash-chained history that every mutation extends in the same transaction.
  A table keyed by incident id is a map, the others are the lists of their rows. The payload
  column holds the JSON text, which verification reads back. \<open>now\<close> is the clock reading of
  the call.
\<close>

section \<open>The database\<close>

record incident =
  in_incident_id :: string
  in_mission_id :: string
  in_severity :: string
  in_title :: string
  in_status :: string
  in_declared_by :: string
  in_affected_scope :: "string list"
  in_recovery_verified :: bool
  in_created_at :: string
  in_updated_at :: string

record incident_evidence =
  ie_incident_id :: string
  ie_evidence_id :: string
  ie_kind :: string
  ie_reference :: string
  ie_recorded_by :: string
  ie_created_at :: string

record incident_action =
  ia_incident_id :: string
  ia_action_id :: string
  ia_action_type :: string
  ia_target :: string
  ia_protected :: bool
  ia_proposal_id :: "string option"
  ia_status :: string
  ia_actor_id :: string
  ia_created_at :: string
  ia_executed_at :: "string option"

record incident_event =
  iv_incident_id :: string
  iv_sequence :: nat
  iv_event_type :: string
  iv_actor_id :: string
  iv_payload_json :: string
  iv_created_at :: string
  iv_previous_hash :: string
  iv_event_hash :: string

record incident_db =
  db_incidents :: "string \<rightharpoonup> incident"
  db_evidence :: "incident_evidence list"
  db_actions :: "incident_action list"
  db_events :: "incident_event list"

definition empty_incidents :: incident_db where
  "empty_incidents = \<lparr>db_incidents = Map.empty, db_evidence = [], db_actions = [], db_events = []\<rparr>"

definition incident_statuses :: "string list" where
  "incident_statuses = [''DECLARED'', ''TRIAGED'', ''CONTAINING'', ''CONTAINED'', ''RECOVERING'',
     ''MONITORING'', ''CLOSED'']"

definition incident_severities :: "string list" where
  "incident_severities = [''SEV1'', ''SEV2'', ''SEV3'', ''SEV4'']"

definition allowed_incident :: "string \<Rightarrow> string list" where
  "allowed_incident current =
     (if current = ''DECLARED'' then [''TRIAGED'']
      else if current = ''TRIAGED'' then [''CONTAINING'']
      else if current = ''CONTAINING'' then [''CONTAINED'']
      else if current = ''CONTAINED'' then [''RECOVERING'']
      else if current = ''RECOVERING'' then [''MONITORING'']
      else if current = ''MONITORING'' then [''CLOSED'', ''RECOVERING''] else [])"

section \<open>The event history\<close>

definition incident_unsigned :: "string \<Rightarrow> nat \<Rightarrow> string \<Rightarrow> string \<Rightarrow> json \<Rightarrow> string \<Rightarrow> string \<Rightarrow> json" where
  "incident_unsigned i n ty actor payload created_at previous_hash = JObj [
     (''incident_id'', JStr i), (''sequence'', JInt (int n)), (''event_type'', JStr ty),
     (''actor_id'', JStr actor), (''payload'', payload), (''created_at'', JStr created_at),
     (''previous_hash'', JStr previous_hash)]"

text \<open>\<open>WHERE incident_id=? ORDER BY sequence\<close>\<close>

definition history_of :: "string \<Rightarrow> incident_db \<Rightarrow> incident_event list" where
  "history_of i db = sort_key iv_sequence [e \<leftarrow> db_events db. iv_incident_id e = i]"

definition append_incident_event :: "(string \<Rightarrow> string) \<Rightarrow> string \<Rightarrow> string \<Rightarrow> string \<Rightarrow> json \<Rightarrow> string \<Rightarrow>
     incident_db \<Rightarrow> incident_db res" where
  "append_incident_event sha i ty actor payload created_at db =
     (let past = history_of i db;
          n = (if past = [] then 1 else iv_sequence (last past) + 1);
          p = last_hash iv_event_hash ''GENESIS'' past;
          h = sha (json_dumps (incident_unsigned i n ty actor payload created_at p)) in
     res_bind (raise_if (list_ex (\<lambda>e. iv_sequence e = n \<or> iv_event_hash e = h) past)
       (IntegrityError ''incident_events'')) (\<lambda>_.
     Inr (db\<lparr>db_events := db_events db @ [\<lparr>iv_incident_id = i, iv_sequence = n, iv_event_type = ty,
       iv_actor_id = actor, iv_payload_json = json_dumps payload, iv_created_at = created_at,
       iv_previous_hash = p, iv_event_hash = h\<rparr>]\<rparr>)))"

section \<open>Operations\<close>

definition get_incident :: "string \<Rightarrow> string option \<Rightarrow> incident_db \<Rightarrow> incident res" where
  "get_incident i mission_id db =
     res_bind (fetch (KeyError [i]) (db_incidents db i)) (\<lambda>r.
     res_bind (raise_if (case mission_id of None \<Rightarrow> False | Some m \<Rightarrow> in_mission_id r \<noteq> m)
       (PermissionError ''cross_mission_incident_access_denied'')) (\<lambda>_. Inr r))"

definition declare_incident :: "(string \<Rightarrow> string) \<Rightarrow> string \<Rightarrow> string \<Rightarrow> string \<Rightarrow> string \<Rightarrow> string \<Rightarrow> string \<Rightarrow>
     string list \<Rightarrow> incident_db \<Rightarrow> (incident_db \<times> incident) res" where
  "declare_incident sha now i m severity title declared_by scope db =
     res_bind (checks [
       raise_if (severity \<notin> set incident_severities) (ValueError ''invalid incident severity''),
       raise_if (\<not> list_all (\<lambda>v. \<not> blank v) [i, m, title, declared_by])
         (ValueError ''incident identity, mission, title and declarer are required''),
       raise_if (scope = [] \<or> list_ex blank scope)
         (ValueError ''affected_scope must contain explicit resources''),
       raise_if (db_incidents db i \<noteq> None) (ValueError ''duplicate incident id'')]) (\<lambda>_.
     let row = \<lparr>in_incident_id = i, in_mission_id = m, in_severity = severity, in_title = title,
           in_status = ''DECLARED'', in_declared_by = declared_by, in_affected_scope = scope,
           in_recovery_verified = False, in_created_at = now, in_updated_at = now\<rparr>;
         db1 = db\<lparr>db_incidents := (db_incidents db)(i \<mapsto> row)\<rparr> in
     case append_incident_event sha i ''INCIDENT_DECLARED'' declared_by
         (JObj [(''severity'', JStr severity), (''affected_scope'', JStrs scope)]) now db1 of
       Inl _ \<Rightarrow> Inl (ValueError ''duplicate incident id'')
     | Inr db2 \<Rightarrow> res_bind (get_incident i (Some m) db2) (\<lambda>r. Inr (db2, r)))"

text \<open>The row of the incident, for its own mission only: the start of every mutation.\<close>

definition owned_incident :: "string \<Rightarrow> string \<Rightarrow> incident_db \<Rightarrow> incident res" where
  "owned_incident i m db = get_incident i (Some m) db"

definition transition_incident :: "(string \<Rightarrow> string) \<Rightarrow> string \<Rightarrow> string \<Rightarrow> string \<Rightarrow> string \<Rightarrow> string \<Rightarrow>
     incident_db \<Rightarrow> (incident_db \<times> incident) res" where
  "transition_incident sha now i m actor new_status db =
     res_bind (raise_if (new_status \<notin> set incident_statuses) (ValueError ''invalid incident status'')) (\<lambda>_.
     res_bind (owned_incident i m db) (\<lambda>r.
     res_bind (checks [
       raise_if (new_status \<notin> set (allowed_incident (in_status r)))
         (RuntimeError (''illegal_incident_transition:'' @ in_status r @ ''->'' @ new_status)),
       (if new_status = ''CLOSED'' then checks [
          raise_if (\<not> in_recovery_verified r) (RuntimeError ''incident_recovery_not_verified''),
          raise_if (length [e \<leftarrow> db_evidence db. ie_incident_id e = i] < 1)
            (RuntimeError ''incident_closure_requires_evidence'')]
        else Inr ())]) (\<lambda>_.
     res_bind (append_incident_event sha i ''STATUS_CHANGED'' actor
       (JObj [(''from'', JStr (in_status r)), (''to'', JStr new_status)]) now
       (db\<lparr>db_incidents := (db_incidents db)(i \<mapsto> r\<lparr>in_status := new_status, in_updated_at := now\<rparr>)\<rparr>)) (\<lambda>db'.
     res_bind (get_incident i (Some m) db') (\<lambda>r. Inr (db', r))))))"

definition record_evidence :: "(string \<Rightarrow> string) \<Rightarrow> string \<Rightarrow> string \<Rightarrow> string \<Rightarrow> string \<Rightarrow> string \<Rightarrow> string \<Rightarrow>
     string \<Rightarrow> incident_db \<Rightarrow> (incident_db \<times> unit) res" where
  "record_evidence sha now i m evidence_id kind reference recorded_by db =
     res_bind (owned_incident i m db) (\<lambda>_.
     res_bind (raise_if (list_ex (\<lambda>e. ie_incident_id e = i \<and> ie_evidence_id e = evidence_id) (db_evidence db))
       (IntegrityError ''incident_evidence'')) (\<lambda>_.
     res_bind (append_incident_event sha i ''EVIDENCE_RECORDED'' recorded_by
       (JObj [(''evidence_id'', JStr evidence_id), (''kind'', JStr kind), (''reference'', JStr reference)]) now
       (db\<lparr>db_evidence := db_evidence db @ [\<lparr>ie_incident_id = i, ie_evidence_id = evidence_id, ie_kind = kind,
          ie_reference = reference, ie_recorded_by = recorded_by, ie_created_at = now\<rparr>]\<rparr>))
     (\<lambda>db'. Inr (db', ()))))"

definition falsy :: "string option \<Rightarrow> bool" where
  "falsy s = (case s of None \<Rightarrow> True | Some t \<Rightarrow> t = [])"

definition is_action :: "string \<Rightarrow> string \<Rightarrow> incident_action \<Rightarrow> bool" where
  "is_action i action_id a = (ia_incident_id a = i \<and> ia_action_id a = action_id)"

definition plan_action :: "(string \<Rightarrow> string) \<Rightarrow> string \<Rightarrow> string \<Rightarrow> string \<Rightarrow> string \<Rightarrow> string \<Rightarrow> string \<Rightarrow> bool \<Rightarrow>
     string \<Rightarrow> string option \<Rightarrow> incident_db \<Rightarrow> (incident_db \<times> unit) res" where
  "plan_action sha now i m action_id action_type target protected actor proposal_id db =
     res_bind (raise_if (protected \<and> falsy proposal_id)
       (ValueError ''protected incident action requires approval proposal_id'')) (\<lambda>_.
     res_bind (owned_incident i m db) (\<lambda>_.
     res_bind (raise_if (list_ex (is_action i action_id) (db_actions db)) (IntegrityError ''incident_actions'')) (\<lambda>_.
     res_bind (append_incident_event sha i ''ACTION_PLANNED'' actor
       (JObj [(''action_id'', JStr action_id), (''action_type'', JStr action_type), (''target'', JStr target),
              (''protected'', JBool protected), (''proposal_id'', JStrOpt proposal_id)]) now
       (db\<lparr>db_actions := db_actions db @ [\<lparr>ia_incident_id = i, ia_action_id = action_id,
          ia_action_type = action_type, ia_target = target, ia_protected = protected,
          ia_proposal_id = proposal_id, ia_status = ''PLANNED'', ia_actor_id = actor, ia_created_at = now,
          ia_executed_at = None\<rparr>]\<rparr>))
     (\<lambda>db'. Inr (db', ())))))"

text \<open>The approval a protected action needs: \<open>str(None)\<close> is the text None.\<close>

definition require_approval :: "catalog option \<Rightarrow> string \<Rightarrow> incident_action \<Rightarrow> unit res" where
  "require_approval cat m a =
     (if ia_protected a then
        (case cat of None \<Rightarrow> Inl (RuntimeError ''approval_catalog_required'')
         | Some c \<Rightarrow> res_bind (approval_status (case ia_proposal_id a of None \<Rightarrow> ''None'' | Some p \<Rightarrow> p) (Some m) c)
             (\<lambda>s. raise_if (s \<noteq> ''APPROVED'') (PermissionError ''human_approval_required'')))
      else Inr ())"

definition mark_action_executed :: "(string \<Rightarrow> string) \<Rightarrow> string \<Rightarrow> catalog option \<Rightarrow> string \<Rightarrow> string \<Rightarrow>
     string \<Rightarrow> string \<Rightarrow> incident_db \<Rightarrow> (incident_db \<times> unit) res" where
  "mark_action_executed sha now cat i m action_id actor db =
     res_bind (owned_incident i m db) (\<lambda>_.
     res_bind (fetch (KeyError [action_id]) (find (is_action i action_id) (db_actions db))) (\<lambda>a.
     res_bind (checks [
       raise_if (ia_status a \<noteq> ''PLANNED'') (RuntimeError ''incident_action_already_decided''),
       require_approval cat m a]) (\<lambda>_.
     res_bind (append_incident_event sha i ''ACTION_EXECUTED'' actor (JObj [(''action_id'', JStr action_id)]) now
       (db\<lparr>db_actions := map (\<lambda>a. if is_action i action_id a
          then a\<lparr>ia_status := ''EXECUTED'', ia_executed_at := Some now\<rparr> else a) (db_actions db)\<rparr>))
     (\<lambda>db'. Inr (db', ())))))"

definition verify_recovery :: "(string \<Rightarrow> string) \<Rightarrow> string \<Rightarrow> string \<Rightarrow> string \<Rightarrow> string \<Rightarrow> string \<Rightarrow>
     incident_db \<Rightarrow> (incident_db \<times> unit) res" where
  "verify_recovery sha now i m actor evidence_id db =
     res_bind (owned_incident i m db) (\<lambda>r.
     res_bind (checks [
       raise_if (in_status r \<notin> {''RECOVERING'', ''MONITORING''})
         (RuntimeError ''recovery_verification_not_allowed_in_current_state''),
       raise_if (\<not> list_ex (\<lambda>e. ie_incident_id e = i \<and> ie_evidence_id e = evidence_id) (db_evidence db))
         (RuntimeError ''recovery_verification_requires_recorded_evidence'')]) (\<lambda>_.
     res_bind (append_incident_event sha i ''RECOVERY_VERIFIED'' actor
       (JObj [(''evidence_id'', JStr evidence_id)]) now
       (db\<lparr>db_incidents := (db_incidents db)(i \<mapsto> r\<lparr>in_recovery_verified := True, in_updated_at := now\<rparr>)\<rparr>))
     (\<lambda>db'. Inr (db', ()))))"

text \<open>The row as verification reads it: an unreadable payload raises.\<close>

fun verify_events :: "(string \<Rightarrow> string) \<Rightarrow> string \<Rightarrow> nat \<Rightarrow> string \<Rightarrow> incident_event list \<Rightarrow> unit res" where
  "verify_events sha i n p [] = Inr ()"
| "verify_events sha i n p (e # es) = checks [
     raise_if (iv_sequence e \<noteq> n) (ValueError ''incident event sequence gap''),
     raise_if (iv_previous_hash e \<noteq> p) (ValueError ''incident event chain break''),
     res_bind (fetch (ValueError ''json'') (json_read (iv_payload_json e))) (\<lambda>payload.
       raise_if (sha (json_dumps (incident_unsigned i n (iv_event_type e) (iv_actor_id e) payload
         (iv_created_at e) p)) \<noteq> iv_event_hash e) (ValueError ''incident event mutation detected'')),
     verify_events sha i (n + 1) (iv_event_hash e) es]"

definition verify_history :: "(string \<Rightarrow> string) \<Rightarrow> string \<Rightarrow> string \<Rightarrow> incident_db \<Rightarrow> unit res" where
  "verify_history sha i m db = res_bind (get_incident i (Some m) db)
     (\<lambda>_. verify_events sha i 1 ''GENESIS'' (history_of i db))"

section \<open>The history as a hash chain\<close>

definition payload_of :: "incident_event \<Rightarrow> json" where
  "payload_of e = (case json_read (iv_payload_json e) of None \<Rightarrow> JNull | Some v \<Rightarrow> v)"

definition incident_material :: "incident_event \<Rightarrow> string" where
  "incident_material e = json_dumps (incident_unsigned (iv_incident_id e) (iv_sequence e)
     (iv_event_type e) (iv_actor_id e) (payload_of e) (iv_created_at e) (iv_previous_hash e))"

text \<open>What a digest covers: everything but the digest itself and the layout of the payload text.\<close>

definition incident_content :: "incident_event \<Rightarrow> incident_event \<times> json" where
  "incident_content e = (e\<lparr>iv_payload_json := [], iv_event_hash := []\<rparr>, json_norm (payload_of e))"

lemma incident_material_eq:
  "incident_material e = incident_material e' \<longleftrightarrow> incident_content e = incident_content e'"
  by (cases e; cases e') (auto simp: incident_material_def incident_content_def incident_unsigned_def
      payload_of_def json_dumps_eq_iff sort_literal)

interpretation incident_chain: hash_chain sha incident_material iv_previous_hash iv_event_hash incident_content
  for sha
proof unfold_locales
  show "incident_material e = incident_material e' \<Longrightarrow> incident_content e = incident_content e'" for e e'
    by (simp add: incident_material_eq)
  show "incident_content e = incident_content e' \<Longrightarrow> iv_previous_hash e = iv_previous_hash e'" for e e'
    by (cases e; cases e') (simp add: incident_content_def)
qed

definition readable :: "incident_event \<Rightarrow> bool" where
  "readable e \<longleftrightarrow> json_read (iv_payload_json e) \<noteq> None"

definition chain_ok :: "(string \<Rightarrow> string) \<Rightarrow> incident_event list \<Rightarrow> bool" where
  "chain_ok sha es \<longleftrightarrow> map iv_sequence es = [1 ..< 1 + length es] \<and>
     linked iv_previous_hash iv_event_hash ''GENESIS'' es \<and>
     signed sha incident_material iv_event_hash es \<and> list_all readable es"

lemma verify_events_iff:
  "\<forall>e \<in> set es. iv_incident_id e = i \<Longrightarrow>
   verify_events sha i n p es = Inr () \<longleftrightarrow>
     map iv_sequence es = [n ..< n + length es] \<and> linked iv_previous_hash iv_event_hash p es \<and>
     signed sha incident_material iv_event_hash es \<and> list_all readable es"
proof (induction es arbitrary: n p)
  case (Cons e es)
  have "[n ..< n + length (e # es)] = n # [Suc n ..< Suc n + length es]"
    using upt_conv_Cons [of n "n + length (e # es)"] by (simp del: upt_Suc)
  then have "map iv_sequence (e # es) = [n ..< n + length (e # es)] \<longleftrightarrow>
      iv_sequence e = n \<and> map iv_sequence es = [Suc n ..< Suc n + length es]"
    by (simp del: upt_Suc)
  with Cons.IH [of "Suc n" "iv_event_hash e"] Cons.prems show ?case
    by (auto simp: readable_def incident_material_def payload_of_def simp del: upt_Suc)
qed simp

lemma history_of_incident: "e \<in> set (history_of i db) \<Longrightarrow> iv_incident_id e = i"
  by (simp add: history_of_def)

lemma verify_history_iff:
  "verify_history sha i m db = Inr () \<longleftrightarrow>
     (\<exists>r. db_incidents db i = Some r \<and> in_mission_id r = m) \<and> chain_ok sha (history_of i db)"
  using verify_events_iff [of "history_of i db" i sha 1 "''GENESIS''"] history_of_incident
  by (auto simp: verify_history_def get_incident_def chain_ok_def)

lemma chain_sorted: "chain_ok sha es \<Longrightarrow> sorted (map iv_sequence es)"
  by (simp add: chain_ok_def del: upt_Suc)

section \<open>Appending to the history\<close>

lemma incident_unsigned_norm [simp]:
  "json_dumps (incident_unsigned i n ty actor (json_norm payload) t p) =
     json_dumps (incident_unsigned i n ty actor payload t p)"
  by (simp add: json_dumps_eq_iff incident_unsigned_def sort_literal)

text \<open>Between two operations the rows of an incident are in sequence order.\<close>

definition log_ok :: "(string \<Rightarrow> string) \<Rightarrow> string \<Rightarrow> incident_db \<Rightarrow> bool" where
  "log_ok sha i db \<longleftrightarrow> chain_ok sha [e \<leftarrow> db_events db. iv_incident_id e = i]"

lemma log_ok_history:
  "log_ok sha i db \<Longrightarrow> history_of i db = [e \<leftarrow> db_events db. iv_incident_id e = i]"
  unfolding history_of_def log_ok_def by (rule sort_key_id_if_sorted) (rule chain_sorted)

lemma append_incident_event_Inr:
  assumes "append_incident_event sha i ty actor payload t db = Inr db'" "log_ok sha i db"
  obtains e where "db' = db\<lparr>db_events := db_events db @ [e]\<rparr>" "log_ok sha i db'"
    "history_of i db' = history_of i db @ [e]" "iv_event_type e = ty" "payload_of e = json_norm payload"
    "iv_incident_id e = i" "iv_actor_id e = actor" "iv_created_at e = t"
proof -
  let ?past = "history_of i db"
  let ?n = "if ?past = [] then 1 else iv_sequence (last ?past) + 1"
  let ?p = "last_hash iv_event_hash ''GENESIS'' ?past"
  let ?h = "sha (json_dumps (incident_unsigned i ?n ty actor payload t ?p))"
  let ?e = "\<lparr>iv_incident_id = i, iv_sequence = ?n, iv_event_type = ty,
       iv_actor_id = actor, iv_payload_json = json_dumps payload, iv_created_at = t,
       iv_previous_hash = ?p, iv_event_hash = ?h\<rparr>"
  have db': "db' = db\<lparr>db_events := db_events db @ [?e]\<rparr>"
    using assms(1) by (auto simp: append_incident_event_def Let_def)
  have chain: "chain_ok sha ?past" using assms(2) log_ok_history [OF assms(2)] by (simp add: log_ok_def)
  then have seq: "map iv_sequence ?past = [1 ..< 1 + length ?past]" by (simp add: chain_ok_def)
  have n: "?n = 1 + length ?past"
  proof (cases "?past = []")
    case False
    with seq have "iv_sequence (last ?past) = last [1 ..< 1 + length ?past]" by (metis last_map)
    with False show ?thesis by (cases "length ?past") simp_all
  qed simp
  have payload: "payload_of ?e = json_norm payload" by (simp add: payload_of_def json_read_dumps)
  have "?h = sha (incident_material ?e)"
    by (simp add: incident_material_def payload_of_def json_read_dumps)
  then have "chain_ok sha (?past @ [?e])"
    using incident_chain.append_verified [of "''GENESIS''" ?past sha ?e] chain n seq
    by (simp add: chain_ok_def readable_def json_read_dumps)
  then have log: "log_ok sha i db'"
    by (simp add: log_ok_def db' log_ok_history [OF assms(2)])
  then have "history_of i db' = ?past @ [?e]"
    using log_ok_history [OF log] log_ok_history [OF assms(2)] by (simp add: db')
  then show thesis by (rule that [OF db' log _ _ payload]) simp_all
qed

section \<open>The state a history records\<close>

definition new_status_of :: "json \<Rightarrow> string" where
  "new_status_of payload = (case payload of
     JObj kvs \<Rightarrow> (case map_of kvs ''to'' of Some (JStr s) \<Rightarrow> s | _ \<Rightarrow> []) | _ \<Rightarrow> [])"

definition history_step :: "string \<times> bool \<Rightarrow> incident_event \<Rightarrow> string \<times> bool" where
  "history_step sv e =
     (if iv_event_type e = ''INCIDENT_DECLARED'' then (''DECLARED'', False)
      else if iv_event_type e = ''STATUS_CHANGED'' then (new_status_of (payload_of e), snd sv)
      else if iv_event_type e = ''RECOVERY_VERIFIED'' then (fst sv, True) else sv)"

definition history_state :: "incident_event list \<Rightarrow> string \<times> bool" where
  "history_state es = foldl history_step ([], False) es"

lemma history_state_snoc [simp]: "history_state (es @ [e]) = history_step (history_state es) e"
  by (simp add: history_state_def)

lemma new_status_of_change [simp]:
  "new_status_of (json_norm (JObj [(''from'', JStr s), (''to'', JStr t)])) = t"
  by (simp add: new_status_of_def sort_literal)

definition has_evidence :: "string \<Rightarrow> incident_db \<Rightarrow> bool" where
  "has_evidence i db \<longleftrightarrow> list_ex (\<lambda>e. ie_incident_id e = i) (db_evidence db)"

definition incident_ok :: "(string \<Rightarrow> string) \<Rightarrow> string \<Rightarrow> incident_db \<Rightarrow> bool" where
  "incident_ok sha i db \<longleftrightarrow> log_ok sha i db \<and> (case db_incidents db i of
     None \<Rightarrow> history_of i db = []
   | Some r \<Rightarrow> in_incident_id r = i \<and> in_status r \<in> set incident_statuses \<and>
       history_state (history_of i db) = (in_status r, in_recovery_verified r) \<and>
       (in_recovery_verified r \<longrightarrow> has_evidence i db) \<and>
       (in_status r = ''CLOSED'' \<longrightarrow> in_recovery_verified r))"

definition incidents_ok :: "(string \<Rightarrow> string) \<Rightarrow> incident_db \<Rightarrow> bool" where
  "incidents_ok sha db \<longleftrightarrow> (\<forall>i. incident_ok sha i db)"

lemma get_incident_Inr:
  "get_incident i m db = Inr r \<longleftrightarrow> db_incidents db i = Some r \<and>
     (case m of None \<Rightarrow> True | Some m \<Rightarrow> in_mission_id r = m)"
  by (auto simp: get_incident_def split: option.splits)

text \<open>An operation that extends the history of one incident, and changes at most its row and adds evidence.\<close>

lemma incidents_ok_step:
  assumes "incidents_ok sha db" "append_incident_event sha i ty actor payload t db1 = Inr db'"
    and "db_events db1 = db_events db"
    and "\<And>j. j \<noteq> i \<Longrightarrow> db_incidents db1 j = db_incidents db j"
    and "set (db_evidence db) \<subseteq> set (db_evidence db1)"
    and "\<And>e. iv_event_type e = ty \<Longrightarrow> payload_of e = json_norm payload \<Longrightarrow>
      log_ok sha i db' \<Longrightarrow> history_of i db' = history_of i db @ [e] \<Longrightarrow>
      db_incidents db' = db_incidents db1 \<Longrightarrow> db_evidence db' = db_evidence db1 \<Longrightarrow> incident_ok sha i db'"
  shows "incidents_ok sha db'"
  unfolding incidents_ok_def
proof
  fix j
  have hist: "history_of k db1 = history_of k db" "log_ok sha k db1 = log_ok sha k db" for k
    using assms(3) by (simp_all add: history_of_def log_ok_def)
  have "log_ok sha i db1" using assms(1) hist by (simp add: incidents_ok_def incident_ok_def)
  from append_incident_event_Inr [OF assms(2) this] obtain e
    where e: "db' = db1\<lparr>db_events := db_events db1 @ [e]\<rparr>" "log_ok sha i db'"
      "history_of i db' = history_of i db @ [e]" "iv_event_type e = ty" "payload_of e = json_norm payload"
      "iv_incident_id e = i" unfolding hist by blast
  have ev: "db_incidents db' = db_incidents db1" "db_evidence db' = db_evidence db1" using e(1) by simp_all
  show "incident_ok sha j db'"
  proof (cases "j = i")
    case True
    with assms(6) [OF e(4,5,2,3) ev] show ?thesis by simp
  next
    case False
    then have "history_of j db' = history_of j db" "log_ok sha j db' = log_ok sha j db"
      using e(1,6) assms(3) by (simp_all add: history_of_def log_ok_def)
    moreover have "has_evidence j db \<Longrightarrow> has_evidence j db'"
      using assms(5) ev by (auto simp: has_evidence_def list_ex_iff)
    moreover have "incident_ok sha j db" using assms(1) by (simp add: incidents_ok_def)
    moreover have "db_incidents db' j = db_incidents db j" using ev(1) assms(4) False by simp
    ultimately show ?thesis by (auto simp: incident_ok_def split: option.splits)
  qed
qed

lemma declare_incident_ok [keeps]:
  assumes "incidents_ok sha db" "declare_incident sha now i m sev title who scope db = Inr (db', r)"
  shows "incidents_ok sha db'"
proof -
  let ?row = "\<lparr>in_incident_id = i, in_mission_id = m, in_severity = sev, in_title = title,
           in_status = ''DECLARED'', in_declared_by = who, in_affected_scope = scope,
           in_recovery_verified = False, in_created_at = now, in_updated_at = now\<rparr>"
  let ?db = "db\<lparr>db_incidents := (db_incidents db)(i \<mapsto> ?row)\<rparr>"
  from assms(2) have fresh: "db_incidents db i = None"
    and app: "append_incident_event sha i ''INCIDENT_DECLARED'' who
         (JObj [(''severity'', JStr sev), (''affected_scope'', JStrs scope)]) now ?db = Inr db'"
    by (auto simp: declare_incident_def Let_def split: sum.splits)
  have "incident_ok sha i db" using assms(1) by (simp add: incidents_ok_def)
  with fresh have "history_of i db = []" by (simp add: incident_ok_def)
  then show ?thesis
    by (intro incidents_ok_step [OF assms(1) app])
       (auto simp: incident_ok_def history_state_def history_step_def incident_statuses_def)
qed

lemma incident_row:
  assumes "incidents_ok sha db" "db_incidents db i = Some r"
  shows "in_incident_id r = i" "history_state (history_of i db) = (in_status r, in_recovery_verified r)"
    "in_status r \<in> set incident_statuses" "in_recovery_verified r \<Longrightarrow> has_evidence i db"
    "in_status r = ''CLOSED'' \<Longrightarrow> in_recovery_verified r"
  using assms unfolding incidents_ok_def incident_ok_def by (auto split: option.splits dest: spec [of _ i])

lemma transition_incident_Inr:
  "transition_incident sha now i m actor st db = Inr (db', r') \<longleftrightarrow>
     st \<in> set incident_statuses \<and> (\<exists>r. db_incidents db i = Some r \<and> in_mission_id r = m \<and>
       st \<in> set (allowed_incident (in_status r)) \<and>
       (st = ''CLOSED'' \<longrightarrow> in_recovery_verified r \<and> has_evidence i db) \<and>
       append_incident_event sha i ''STATUS_CHANGED'' actor
         (JObj [(''from'', JStr (in_status r)), (''to'', JStr st)]) now
         (db\<lparr>db_incidents := (db_incidents db)(i \<mapsto> r\<lparr>in_status := st, in_updated_at := now\<rparr>)\<rparr>) = Inr db' \<and>
       get_incident i (Some m) db' = Inr r')"
proof -
  have "length [e \<leftarrow> es. P e] < 1 \<longleftrightarrow> \<not> list_ex P es" for P and es :: "incident_evidence list"
    by (induction es) auto
  then show ?thesis
    by (auto simp: transition_incident_def owned_incident_def get_incident_Inr has_evidence_def)
qed

lemma transition_incident_ok [keeps]:
  assumes "incidents_ok sha db" "transition_incident sha now i m actor st db = Inr (db', r')"
  shows "incidents_ok sha db'"
proof -
  from assms(2) obtain r where r: "st \<in> set incident_statuses" "db_incidents db i = Some r"
      "st = ''CLOSED'' \<longrightarrow> in_recovery_verified r"
    and app: "append_incident_event sha i ''STATUS_CHANGED'' actor
         (JObj [(''from'', JStr (in_status r)), (''to'', JStr st)]) now
         (db\<lparr>db_incidents := (db_incidents db)(i \<mapsto> r\<lparr>in_status := st, in_updated_at := now\<rparr>)\<rparr>) = Inr db'"
    unfolding transition_incident_Inr by blast
  note row = incident_row [OF assms(1) r(2)]
  show ?thesis
    by (rule incidents_ok_step [OF assms(1) app])
       (use r(1,3) row in \<open>auto simp: incident_ok_def history_step_def has_evidence_def simp del: json_norm.simps\<close>)
qed

lemma record_evidence_Inr:
  "record_evidence sha now i m ev kind ref who db = Inr (db', u) \<longleftrightarrow>
     (\<exists>r. db_incidents db i = Some r \<and> in_mission_id r = m) \<and>
     \<not> list_ex (\<lambda>e. ie_incident_id e = i \<and> ie_evidence_id e = ev) (db_evidence db) \<and>
     append_incident_event sha i ''EVIDENCE_RECORDED'' who
       (JObj [(''evidence_id'', JStr ev), (''kind'', JStr kind), (''reference'', JStr ref)]) now
       (db\<lparr>db_evidence := db_evidence db @ [\<lparr>ie_incident_id = i, ie_evidence_id = ev, ie_kind = kind,
          ie_reference = ref, ie_recorded_by = who, ie_created_at = now\<rparr>]\<rparr>) = Inr db'"
  by (auto simp: record_evidence_def owned_incident_def get_incident_Inr)

lemma same_row_ok:
  assumes "incidents_ok sha db" "db_incidents db i = Some r" "log_ok sha i db'"
    and "history_of i db' = history_of i db @ [e]" "db_incidents db' = db_incidents db"
    and "set (db_evidence db) \<subseteq> set (db_evidence db')"
    and "iv_event_type e \<notin> {''INCIDENT_DECLARED'', ''STATUS_CHANGED'', ''RECOVERY_VERIFIED''}"
  shows "incident_ok sha i db'"
  using assms(2-7) incident_row [OF assms(1,2)]
  by (auto simp: incident_ok_def history_step_def has_evidence_def list_ex_iff)

lemma record_evidence_ok [keeps]:
  assumes "incidents_ok sha db" "record_evidence sha now i m ev kind ref who db = Inr (db', u)"
  shows "incidents_ok sha db'"
proof -
  let ?db = "db\<lparr>db_evidence := db_evidence db @ [\<lparr>ie_incident_id = i, ie_evidence_id = ev, ie_kind = kind,
          ie_reference = ref, ie_recorded_by = who, ie_created_at = now\<rparr>]\<rparr>"
  from assms(2) obtain r where r: "db_incidents db i = Some r"
    and app: "append_incident_event sha i ''EVIDENCE_RECORDED'' who
       (JObj [(''evidence_id'', JStr ev), (''kind'', JStr kind), (''reference'', JStr ref)]) now ?db = Inr db'"
    unfolding record_evidence_Inr by blast
  show ?thesis
    by (rule incidents_ok_step [OF assms(1) app]) (auto intro!: same_row_ok [OF assms(1) r])
qed

lemma actions_only_ok:
  assumes "incidents_ok sha db" "db_incidents db i = Some r"
    and "append_incident_event sha i ty who p now (db\<lparr>db_actions := acts\<rparr>) = Inr db'"
    and "ty \<notin> {''INCIDENT_DECLARED'', ''STATUS_CHANGED'', ''RECOVERY_VERIFIED''}"
  shows "incidents_ok sha db'"
  by (rule incidents_ok_step [OF assms(1,3)]) (use assms(4) in \<open>auto intro!: same_row_ok [OF assms(1,2)]\<close>)

lemma plan_action_Inr:
  "plan_action sha now i m act ty tg prot who prop db = Inr (db', u) \<longleftrightarrow>
     (prot \<longrightarrow> \<not> falsy prop) \<and> (\<exists>r. db_incidents db i = Some r \<and> in_mission_id r = m) \<and>
     \<not> list_ex (is_action i act) (db_actions db) \<and>
     append_incident_event sha i ''ACTION_PLANNED'' who
       (JObj [(''action_id'', JStr act), (''action_type'', JStr ty), (''target'', JStr tg),
              (''protected'', JBool prot), (''proposal_id'', JStrOpt prop)]) now
       (db\<lparr>db_actions := db_actions db @ [\<lparr>ia_incident_id = i, ia_action_id = act,
          ia_action_type = ty, ia_target = tg, ia_protected = prot,
          ia_proposal_id = prop, ia_status = ''PLANNED'', ia_actor_id = who, ia_created_at = now,
          ia_executed_at = None\<rparr>]\<rparr>) = Inr db'"
  by (auto simp: plan_action_def owned_incident_def get_incident_Inr)

lemma plan_action_ok [keeps]:
  assumes "incidents_ok sha db" "plan_action sha now i m act ty tg prot who prop db = Inr (db', u)"
  shows "incidents_ok sha db'"
proof -
  from assms(2) obtain r acts p where "db_incidents db i = Some r"
    "append_incident_event sha i ''ACTION_PLANNED'' who p now (db\<lparr>db_actions := acts\<rparr>) = Inr db'"
    unfolding plan_action_Inr by blast
  with assms(1) show ?thesis by (rule actions_only_ok) simp
qed

lemma mark_action_executed_Inr:
  "mark_action_executed sha now cat i m act who db = Inr (db', u) \<longleftrightarrow>
     (\<exists>r a. db_incidents db i = Some r \<and> in_mission_id r = m \<and>
       find (is_action i act) (db_actions db) = Some a \<and> ia_status a = ''PLANNED'' \<and>
       require_approval cat m a = Inr () \<and>
       append_incident_event sha i ''ACTION_EXECUTED'' who (JObj [(''action_id'', JStr act)]) now
       (db\<lparr>db_actions := map (\<lambda>a. if is_action i act a
          then a\<lparr>ia_status := ''EXECUTED'', ia_executed_at := Some now\<rparr> else a) (db_actions db)\<rparr>) = Inr db')"
  by (auto simp: mark_action_executed_def owned_incident_def get_incident_Inr)

lemma mark_action_executed_ok [keeps]:
  assumes "incidents_ok sha db" "mark_action_executed sha now cat i m act who db = Inr (db', u)"
  shows "incidents_ok sha db'"
proof -
  from assms(2) obtain r acts p where "db_incidents db i = Some r"
    "append_incident_event sha i ''ACTION_EXECUTED'' who p now (db\<lparr>db_actions := acts\<rparr>) = Inr db'"
    unfolding mark_action_executed_Inr by blast
  with assms(1) show ?thesis by (rule actions_only_ok) simp
qed

lemma verify_recovery_Inr:
  "verify_recovery sha now i m who ev db = Inr (db', u) \<longleftrightarrow>
     (\<exists>r. db_incidents db i = Some r \<and> in_mission_id r = m \<and>
       in_status r \<in> {''RECOVERING'', ''MONITORING''} \<and>
       list_ex (\<lambda>e. ie_incident_id e = i \<and> ie_evidence_id e = ev) (db_evidence db) \<and>
       append_incident_event sha i ''RECOVERY_VERIFIED'' who (JObj [(''evidence_id'', JStr ev)]) now
       (db\<lparr>db_incidents := (db_incidents db)(i \<mapsto> r\<lparr>in_recovery_verified := True, in_updated_at := now\<rparr>)\<rparr>)
         = Inr db')"
  by (auto simp: verify_recovery_def owned_incident_def get_incident_Inr)

lemma verify_recovery_ok [keeps]:
  assumes "incidents_ok sha db" "verify_recovery sha now i m who ev db = Inr (db', u)"
  shows "incidents_ok sha db'"
proof -
  from assms(2) obtain r where r: "db_incidents db i = Some r"
    "list_ex (\<lambda>e. ie_incident_id e = i \<and> ie_evidence_id e = ev) (db_evidence db)"
    and app: "append_incident_event sha i ''RECOVERY_VERIFIED'' who (JObj [(''evidence_id'', JStr ev)]) now
       (db\<lparr>db_incidents := (db_incidents db)(i \<mapsto> r\<lparr>in_recovery_verified := True, in_updated_at := now\<rparr>)\<rparr>)
         = Inr db'"
    unfolding verify_recovery_Inr by blast
  have "has_evidence i db" using r(2) by (auto simp: has_evidence_def list_ex_iff)
  with incident_row [OF assms(1) r(1)] show ?thesis
    by (intro incidents_ok_step [OF assms(1) app]) (auto simp: incident_ok_def history_step_def has_evidence_def)
qed

section \<open>Sessions\<close>

datatype incident_call =
    Declare string string string string string "string list"
  | Transition string string string string
  | RecordEvidence string string string string string string
  | PlanAction string string string string string bool string "string option"
  | MarkExecuted string string string string
  | VerifyRecovery string string string string

definition outcome :: "'s \<Rightarrow> ('s \<times> 'a) res \<Rightarrow> 's" where
  "outcome s r = (case r of Inl _ \<Rightarrow> s | Inr (s', _) \<Rightarrow> s')"

lemma outcome_cases: "P s \<Longrightarrow> (\<And>s' x. r = Inr (s', x) \<Longrightarrow> P s') \<Longrightarrow> P (outcome s r)"
  by (auto simp: outcome_def split: sum.splits)

fun incident_apply :: "(string \<Rightarrow> string) \<Rightarrow> string \<Rightarrow> catalog option \<Rightarrow> incident_call \<Rightarrow> incident_db \<Rightarrow> incident_db" where
  "incident_apply sha now cat (Declare i m sev title who scope) db =
     outcome db (declare_incident sha now i m sev title who scope db)"
| "incident_apply sha now cat (Transition i m actor st) db =
     outcome db (transition_incident sha now i m actor st db)"
| "incident_apply sha now cat (RecordEvidence i m ev kind ref who) db =
     outcome db (record_evidence sha now i m ev kind ref who db)"
| "incident_apply sha now cat (PlanAction i m act ty tg prot who prop) db =
     outcome db (plan_action sha now i m act ty tg prot who prop db)"
| "incident_apply sha now cat (MarkExecuted i m act who) db =
     outcome db (mark_action_executed sha now cat i m act who db)"
| "incident_apply sha now cat (VerifyRecovery i m who ev) db =
     outcome db (verify_recovery sha now i m who ev db)"

lemma incident_apply_ok: "incidents_ok sha db \<Longrightarrow> incidents_ok sha (incident_apply sha now cat c db)"
  by (cases c) (auto intro: outcome_cases keeps)

text \<open>Incident calls interleaved with calls on the runtime catalog that holds the approvals.\<close>

datatype response_call = OnIncidents incident_call | OnCatalog catalog_call

fun response_run :: "(string \<Rightarrow> string) \<Rightarrow> (string \<times> response_call) list \<Rightarrow> incident_db \<times> catalog \<Rightarrow>
     incident_db \<times> catalog" where
  "response_run sha [] s = s"
| "response_run sha ((now, OnIncidents c) # cs) s =
     response_run sha cs (incident_apply sha now (Some (snd s)) c (fst s), snd s)"
| "response_run sha ((now, OnCatalog c) # cs) s = response_run sha cs (fst s, catalog_step sha now c (snd s))"

lemma response_run_ok: "incidents_ok sha (fst s) \<Longrightarrow> incidents_ok sha (fst (response_run sha cs s))"
  by (induction sha cs s rule: response_run.induct) (simp_all add: incident_apply_ok)

lemma empty_incidents_ok: "incidents_ok sha empty_incidents"
  by (simp add: incidents_ok_def incident_ok_def empty_incidents_def log_ok_def chain_ok_def history_of_def)

text \<open>Every executed protected action has an approval, given for the incident's mission, in the catalog.\<close>

definition authorised :: "catalog \<Rightarrow> (string \<rightharpoonup> incident) \<Rightarrow> incident_action \<Rightarrow> bool" where
  "authorised c rows a \<longleftrightarrow> (ia_status a = ''EXECUTED'' \<longrightarrow> ia_protected a \<longrightarrow>
     (\<exists>p r inc. ia_proposal_id a = Some p \<and> ca_approvals c p = Some r \<and> ap_status r = ''APPROVED'' \<and>
        rows (ia_incident_id a) = Some inc \<and> ap_mission_id r = in_mission_id inc))"

definition action_key :: "incident_action \<Rightarrow> string \<times> string" where
  "action_key a = (ia_incident_id a, ia_action_id a)"

definition all_authorised :: "incident_db \<times> catalog \<Rightarrow> bool" where
  "all_authorised s \<longleftrightarrow> list_all (\<lambda>a. authorised (snd s) (db_incidents (fst s)) a \<and>
     (ia_protected a \<longrightarrow> ia_proposal_id a \<noteq> None) \<and>
     db_incidents (fst s) (ia_incident_id a) \<noteq> None) (db_actions (fst s)) \<and>
     distinct (map action_key (db_actions (fst s)))"

lemma append_frame:
  "append_incident_event sha i ty actor payload t db = Inr db' \<Longrightarrow>
     db_incidents db' = db_incidents db \<and> db_actions db' = db_actions db \<and> db_evidence db' = db_evidence db"
  by (auto simp: append_incident_event_def Let_def)

lemma authorised_catalog_step: "authorised c rows a \<Longrightarrow> authorised (catalog_step sha now op c) rows a"
proof -
  have "ca_approvals c p = Some r \<Longrightarrow> ap_status r = ''APPROVED'' \<Longrightarrow>
      ca_approvals (catalog_step sha now op c) p = Some r" for p r
    using catalog_step_decided [of p r c sha now op] by (simp add: decided_def)
  then show "authorised c rows a \<Longrightarrow> ?thesis" unfolding authorised_def by blast
qed

lemma all_authorised_catalog: "all_authorised (db, c) \<Longrightarrow> all_authorised (db, catalog_step sha now op c)"
  by (auto simp: all_authorised_def list_all_iff intro: authorised_catalog_step)

text \<open>Rows keep their mission.\<close>

definition rows_extend :: "(string \<rightharpoonup> incident) \<Rightarrow> (string \<rightharpoonup> incident) \<Rightarrow> bool" where
  "rows_extend f g \<longleftrightarrow> (\<forall>i r. f i = Some r \<longrightarrow> (\<exists>r'. g i = Some r' \<and> in_mission_id r' = in_mission_id r))"

lemma authorised_rows: "rows_extend f g \<Longrightarrow> authorised c f a \<Longrightarrow> authorised c g a"
  unfolding rows_extend_def authorised_def by metis

lemma all_authorised_rows:
  "all_authorised (db, c) \<Longrightarrow> rows_extend (db_incidents db) (db_incidents db') \<Longrightarrow> db_actions db' = db_actions db \<Longrightarrow>
     all_authorised (db', c)"
  unfolding all_authorised_def list_all_iff by (auto intro: authorised_rows) (force simp: rows_extend_def)

lemma rows_extend_refl [simp]: "rows_extend f f"
  by (simp add: rows_extend_def)

lemma rows_extend_upd:
  "f i = None \<or> (\<exists>r. f i = Some r \<and> in_mission_id r' = in_mission_id r) \<Longrightarrow> rows_extend f (f(i \<mapsto> r'))"
  by (auto simp: rows_extend_def)

lemma declare_authorised:
  assumes "all_authorised (db, c)" "declare_incident sha now i m sev title who scope db = Inr (db', r)"
  shows "all_authorised (db', c)"
proof -
  from assms(2) obtain row where fresh: "db_incidents db i = None"
    and app: "\<exists>p. append_incident_event sha i ''INCIDENT_DECLARED'' who p now
       (db\<lparr>db_incidents := (db_incidents db)(i \<mapsto> row)\<rparr>) = Inr db'"
    by (auto simp: declare_incident_def Let_def split: sum.splits)
  then show ?thesis
    by (intro all_authorised_rows [OF assms(1)]) (auto dest!: append_frame intro!: rows_extend_upd)
qed

lemma transition_authorised:
  assumes "all_authorised (db, c)" "transition_incident sha now i m actor st db = Inr (db', r)"
  shows "all_authorised (db', c)"
  using assms(2) unfolding transition_incident_Inr
  by (intro all_authorised_rows [OF assms(1)]) (auto dest!: append_frame intro!: rows_extend_upd)

lemma verify_recovery_authorised:
  assumes "all_authorised (db, c)" "verify_recovery sha now i m who ev db = Inr (db', u)"
  shows "all_authorised (db', c)"
  using assms(2) unfolding verify_recovery_Inr
  by (intro all_authorised_rows [OF assms(1)]) (auto dest!: append_frame intro!: rows_extend_upd)

lemma record_evidence_authorised:
  assumes "all_authorised (db, c)" "record_evidence sha now i m ev kind ref who db = Inr (db', u)"
  shows "all_authorised (db', c)"
  using assms(2) unfolding record_evidence_Inr
  by (intro all_authorised_rows [OF assms(1)]) (auto dest!: append_frame)

lemma plan_authorised:
  assumes "all_authorised (db, c)" "plan_action sha now i m act ty tg prot who prop db = Inr (db', u)"
  shows "all_authorised (db', c)"
  using assms unfolding plan_action_Inr
  by (cases "prop") (auto dest!: append_frame simp: all_authorised_def authorised_def falsy_def list_all_iff
      list_ex_iff is_action_def action_key_def)

lemma mark_authorised:
  assumes "all_authorised (db, c)" "mark_action_executed sha now (Some c) i m act who db = Inr (db', u)"
  shows "all_authorised (db', c)"
proof -
  from assms(2) obtain r a where r: "db_incidents db i = Some r" "in_mission_id r = m"
    and a: "find (is_action i act) (db_actions db) = Some a" "require_approval (Some c) m a = Inr ()"
    and app: "append_incident_event sha i ''ACTION_EXECUTED'' who (JObj [(''action_id'', JStr act)]) now
       (db\<lparr>db_actions := map (\<lambda>a. if is_action i act a
          then a\<lparr>ia_status := ''EXECUTED'', ia_executed_at := Some now\<rparr> else a) (db_actions db)\<rparr>) = Inr db'"
    unfolding mark_action_executed_Inr by blast
  have key: "is_action i act b \<longleftrightarrow> action_key b = (i, act)" for b
    by (simp add: is_action_def action_key_def)
  have a': "a \<in> set (db_actions db)" "is_action i act a" using a(1) by (auto simp: find_Some_iff)
  have unique: "b = a" if "b \<in> set (db_actions db)" "is_action i act b" for b
  proof -
    have "inj_on action_key (set (db_actions db))"
      using assms(1) by (simp add: all_authorised_def distinct_map)
    then show ?thesis using that a' key by (metis inj_onD)
  qed
  have approved: "authorised c (db_incidents db) (a\<lparr>ia_status := ''EXECUTED'', ia_executed_at := Some now\<rparr>)"
  proof (cases "ia_protected a")
    case True
    then obtain p where p: "ia_proposal_id a = Some p"
      using assms(1) a'(1) by (auto simp: all_authorised_def list_all_iff)
    with True a(2) obtain s where "approval_status p (Some m) c = Inr s" "s = ''APPROVED''"
      by (auto simp: require_approval_def)
    then obtain rec where "ca_approvals c p = Some rec" "ap_status rec = ''APPROVED''" "ap_mission_id rec = m"
      by (cases "approval_record p (Some m) c") (auto simp: approval_status_def approval_record_def foreign_def)
    with p r a'(2) show ?thesis by (auto simp: authorised_def is_action_def)
  qed (simp add: authorised_def)
  let ?f = "\<lambda>a. if is_action i act a then a\<lparr>ia_status := ''EXECUTED'', ia_executed_at := Some now\<rparr> else a"
  have db': "db_actions db' = map ?f (db_actions db)" "db_incidents db' = db_incidents db"
    using append_frame [OF app] by simp_all
  have "map action_key (map ?f (db_actions db)) = map action_key (db_actions db)"
    by (simp add: action_key_def)
  then have "distinct (map action_key (db_actions db'))"
    using assms(1) unfolding db'(1) by (simp only: all_authorised_def fst_conv)
  moreover have "authorised c (db_incidents db) (b\<lparr>ia_status := ''EXECUTED'', ia_executed_at := Some now\<rparr>)"
    if "b \<in> set (db_actions db)" "is_action i act b" for b
    using approved unique [OF that] by simp
  ultimately show ?thesis
    using assms(1) by (auto simp: all_authorised_def list_all_iff db')
qed

lemma incident_apply_authorised:
  "all_authorised (db, c) \<Longrightarrow> all_authorised (incident_apply sha now (Some c) op db, c)"
  by (cases op) (auto simp: outcome_def split: sum.split intro: declare_authorised transition_authorised
      record_evidence_authorised plan_authorised mark_authorised verify_recovery_authorised)

lemma response_run_authorised: "all_authorised s \<Longrightarrow> all_authorised (response_run sha cs s)"
proof (induction sha cs s rule: response_run.induct)
  case (2 sha now c cs s)
  then show ?case using incident_apply_authorised [of "fst s" "snd s"] by simp
next
  case (3 sha now c cs s)
  then show ?case using all_authorised_catalog [of "fst s" "snd s"] by simp
qed simp

end
