(* ===== verification/Memory.thy ===== *)
theory Memory
  imports Json Hash_Chain
begin

text \<open>
  Organizational memory: the contracts of candidates, decisions and entries
  (factory/memory/contracts.py), the promotion gate (factory/memory/promotion.py) and the
  append-audited store with scopes, supersession and the hash-chained journal
  (factory/memory/store.py). A JSON column of an entry is the entry it encodes; the payload of
  an event is kept as its JSON text, which the status of a memory is read from. The invariant of the
  store gives what a recalled memory is worth over a whole session of calls (C21).
\<close>

section \<open>Contracts\<close>

definition memory_categories :: "string list" where
  "memory_categories = [''LESSON'', ''PATTERN'', ''FAILURE'', ''DECISION'']"

definition source_trust_levels :: "string list" where
  "source_trust_levels = [''CANONICAL'', ''VALIDATED_EXTERNAL'', ''UNTRUSTED_EXTERNAL'']"

record candidate =
  mc_candidate_id :: string
  mc_mission_id :: string
  mc_proposed_by :: string
  mc_category :: string
  mc_statement :: string
  mc_evidence_refs :: "string list"
  mc_source_ref :: string
  mc_source_hash :: string
  mc_source_trust :: string

definition candidate_validate :: "candidate \<Rightarrow> unit res" where
  "candidate_validate c = checks [
     raise_if (\<not> list_all (\<lambda>v. \<not> blank v) [mc_candidate_id c, mc_mission_id c, mc_proposed_by c,
         mc_statement c, mc_source_ref c, mc_source_hash c])
       (ValueError ''memory candidate identity, statement and source provenance are required''),
     raise_if (mc_category c \<notin> set memory_categories) (ValueError (''unknown memory category:'' @ mc_category c)),
     raise_if (mc_source_trust c \<notin> set source_trust_levels)
       (ValueError (''unknown source trust:'' @ mc_source_trust c)),
     raise_if (mc_evidence_refs c = [] \<or> list_ex blank (mc_evidence_refs c))
       (ValueError ''memory candidate requires evidence_refs''),
     raise_if (\<not> distinct (mc_evidence_refs c))
       (ValueError ''duplicate memory evidence_refs are not allowed'')]"

abbreviation newline :: string where "newline \<equiv> [CHR 0x0A]"

definition fingerprint_material :: "candidate \<Rightarrow> string" where
  "fingerprint_material c = join newline ([mc_mission_id c, mc_category c, mc_statement c,
     mc_source_ref c, mc_source_hash c] @ sort (mc_evidence_refs c))"

definition fingerprint :: "(string \<Rightarrow> string) \<Rightarrow> candidate \<Rightarrow> string res" where
  "fingerprint sha c = res_bind (candidate_validate c)
     (\<lambda>_. Inr (''sha256:'' @ sha (fingerprint_material c)))"

record promotion_decision =
  md_candidate_id :: string
  md_reviewer_id :: string
  md_status :: string
  md_reason :: string
  md_verified_evidence_refs :: "string list"

definition promotion_validate :: "promotion_decision \<Rightarrow> unit res" where
  "promotion_validate d = checks [
     raise_if (\<not> list_all (\<lambda>v. \<not> blank v) [md_candidate_id d, md_reviewer_id d, md_reason d])
       (ValueError ''promotion decision identity, reviewer and reason are required''),
     raise_if (md_status d \<notin> {''APPROVED'', ''REJECTED''})
       (ValueError (''unknown promotion status:'' @ md_status d)),
     raise_if (md_status d = ''APPROVED'' \<and> md_verified_evidence_refs d = [])
       (ValueError ''approved memory promotion requires verified evidence''),
     raise_if (\<not> distinct (md_verified_evidence_refs d))
       (ValueError ''duplicate verified evidence refs are not allowed'')]"

record memory_entry =
  me_memory_id :: string
  me_candidate_id :: string
  me_mission_id :: string
  me_category :: string
  me_statement :: string
  me_evidence_refs :: "string list"
  me_source_ref :: string
  me_source_hash :: string
  me_promoted_by :: string
  me_fingerprint :: string

definition entry_validate :: "memory_entry \<Rightarrow> unit res" where
  "entry_validate e = checks [
     raise_if (\<not> list_all (\<lambda>v. \<not> blank v) [me_memory_id e, me_candidate_id e, me_mission_id e, me_statement e,
         me_source_ref e, me_source_hash e, me_promoted_by e, me_fingerprint e])
       (ValueError ''organizational memory identity and provenance are required''),
     raise_if (me_category e \<notin> set memory_categories) (ValueError (''unknown memory category:'' @ me_category e)),
     raise_if (me_evidence_refs e = []) (ValueError ''organizational memory requires evidence_refs''),
     raise_if (\<not> prefixed ''sha256:'' (me_fingerprint e))
       (ValueError ''organizational memory fingerprint must be sha256'')]"

section \<open>The promotion gate\<close>

definition gate_promote :: "(string \<Rightarrow> string) \<Rightarrow> candidate \<Rightarrow> promotion_decision \<Rightarrow> string \<Rightarrow> memory_entry res" where
  "gate_promote sha c d memory_id =
     res_bind (checks [
       candidate_validate c, promotion_validate d,
       raise_if (md_candidate_id d \<noteq> mc_candidate_id c)
         (ValueError ''promotion decision targets a different candidate''),
       raise_if (md_reviewer_id d = mc_proposed_by c)
         (ValueError ''memory promotion requires an independent reviewer''),
       raise_if (md_status d \<noteq> ''APPROVED'') (RuntimeError ''rejected memory candidate cannot be promoted''),
       raise_if (mc_source_trust c = ''UNTRUSTED_EXTERNAL'')
         (RuntimeError ''untrusted external source cannot be promoted directly''),
       raise_if (\<not> set (mc_evidence_refs c) \<subseteq> set (md_verified_evidence_refs d))
         (ValueError ''reviewer did not verify all candidate evidence'')]) (\<lambda>_.
     res_bind (fingerprint sha c) (\<lambda>fp.
     let e = \<lparr>me_memory_id = memory_id, me_candidate_id = mc_candidate_id c, me_mission_id = mc_mission_id c,
           me_category = mc_category c, me_statement = mc_statement c, me_evidence_refs = mc_evidence_refs c,
           me_source_ref = mc_source_ref c, me_source_hash = mc_source_hash c,
           me_promoted_by = md_reviewer_id d, me_fingerprint = fp\<rparr> in
     res_bind (entry_validate e) (\<lambda>_. Inr e)))"

section \<open>The store\<close>

record memory_record =
  mr_entry :: memory_entry
  mr_scope :: string
  mr_scope_mission_id :: "string option"
  mr_status :: string
  mr_superseded_by :: "string option"

definition record_validate :: "memory_record \<Rightarrow> unit res" where
  "record_validate r = checks [
     entry_validate (mr_entry r),
     raise_if (mr_scope r \<notin> {''MISSION'', ''GLOBAL''}) (ValueError (''unknown memory scope:'' @ mr_scope r)),
     raise_if (mr_status r \<notin> {''ACTIVE'', ''SUPERSEDED'', ''DEPRECATED''})
       (ValueError (''unknown memory status:'' @ mr_status r)),
     raise_if (mr_scope r = ''MISSION'' \<and> mr_scope_mission_id r \<noteq> Some (me_mission_id (mr_entry r)))
       (ValueError ''mission-scoped memory must be bound to its source mission''),
     raise_if (mr_scope r = ''GLOBAL'' \<and> mr_scope_mission_id r \<noteq> None)
       (ValueError ''global memory cannot carry a mission visibility binding''),
     raise_if (mr_status r = ''SUPERSEDED'' \<and> mr_superseded_by r \<in> {None, Some []})
       (ValueError ''superseded memory requires replacement id''),
     raise_if (mr_superseded_by r = Some (me_memory_id (mr_entry r)))
       (ValueError ''memory cannot supersede itself'')]"

record memory_row =
  mw_entry :: memory_entry
  mw_scope :: string
  mw_scope_mission_id :: "string option"

record memory_event =
  mv_memory_id :: string
  mv_event_type :: string
  mv_payload :: string
  mv_prev_hash :: string
  mv_event_hash :: string

record memory_store =
  ms_entries :: "string \<rightharpoonup> memory_row"
  ms_events :: "memory_event list"

definition empty_memory :: memory_store where
  "empty_memory = \<lparr>ms_entries = Map.empty, ms_events = []\<rparr>"

definition memory_material :: "memory_event \<Rightarrow> string" where
  "memory_material e = join newline [mv_prev_hash e, mv_memory_id e, mv_event_type e, mv_payload e]"

definition append_memory_event :: "(string \<Rightarrow> string) \<Rightarrow> string \<Rightarrow> string \<Rightarrow> json \<Rightarrow> memory_store \<Rightarrow> memory_store res" where
  "append_memory_event sha memory_id ty payload st =
     (let unsigned = \<lparr>mv_memory_id = memory_id, mv_event_type = ty, mv_payload = json_dumps payload,
            mv_prev_hash = last_hash mv_event_hash ''GENESIS'' (ms_events st), mv_event_hash = []\<rparr>;
          e = unsigned\<lparr>mv_event_hash := ''sha256:'' @ sha (memory_material unsigned)\<rparr> in
     res_bind (raise_if (list_ex (\<lambda>f. mv_event_hash f = mv_event_hash e) (ms_events st))
       (IntegrityError ''memory_events'')) (\<lambda>_.
     Inr (st\<lparr>ms_events := ms_events st @ [e]\<rparr>)))"

definition store_promote :: "(string \<Rightarrow> string) \<Rightarrow> memory_entry \<Rightarrow> string \<Rightarrow> string \<Rightarrow> memory_store \<Rightarrow>
     (memory_store \<times> memory_record) res" where
  "store_promote sha e scope observed st =
     (let r = \<lparr>mr_entry = e, mr_scope = scope,
          mr_scope_mission_id = (if scope = ''MISSION'' then Some (me_mission_id e) else None),
          mr_status = ''ACTIVE'', mr_superseded_by = None\<rparr> in
     res_bind (checks [
       entry_validate e,
       raise_if (observed \<noteq> me_source_hash e)
         (RuntimeError ''source hash changed since review; memory promotion rejected''),
       record_validate r,
       raise_if (ms_entries st (me_memory_id e) \<noteq> None) (IntegrityError ''memory_entries'')]) (\<lambda>_.
     res_bind (append_memory_event sha (me_memory_id e) ''PROMOTED'' (JObj [(''scope'', JStr scope)])
       (st\<lparr>ms_entries := (ms_entries st)(me_memory_id e \<mapsto>
          \<lparr>mw_entry = e, mw_scope = scope, mw_scope_mission_id = mr_scope_mission_id r\<rparr>)\<rparr>)) (\<lambda>st'.
     Inr (st', r))))"

definition replacement_in :: "json \<Rightarrow> string res" where
  "replacement_in payload = (case payload of
     JObj kvs \<Rightarrow> (case map_of kvs ''replacement_id'' of
        None \<Rightarrow> Inl (KeyError [''replacement_id'']) | Some (JStr s) \<Rightarrow> Inr s | Some _ \<Rightarrow> Inl (TypeError ''str''))
   | _ \<Rightarrow> Inl (TypeError ''payload''))"

fun status_from :: "string \<times> string option \<Rightarrow> memory_event list \<Rightarrow> (string \<times> string option) res" where
  "status_from s [] = Inr s"
| "status_from s (e # es) =
     res_bind (fetch (ValueError ''json'') (json_read (mv_payload e))) (\<lambda>payload.
     if mv_event_type e = ''DEPRECATED'' then status_from (''DEPRECATED'', None) es
     else if mv_event_type e = ''SUPERSEDED''
       then res_bind (replacement_in payload) (\<lambda>r. status_from (''SUPERSEDED'', Some r) es)
     else status_from s es)"

definition events_for :: "string \<Rightarrow> memory_store \<Rightarrow> memory_event list" where
  "events_for memory_id st = [e \<leftarrow> ms_events st. mv_memory_id e = memory_id]"

definition memory_status :: "string \<Rightarrow> memory_store \<Rightarrow> (string \<times> string option) res" where
  "memory_status memory_id st =
     res_bind (raise_if (events_for memory_id st = []) (KeyError [memory_id]))
       (\<lambda>_. status_from (''ACTIVE'', None) (events_for memory_id st))"

definition recall :: "string \<Rightarrow> string option \<Rightarrow> (string \<rightharpoonup> string) \<Rightarrow> memory_store \<Rightarrow> memory_record res" where
  "recall memory_id mission_id observed st =
     res_bind (fetch (KeyError [memory_id]) (ms_entries st memory_id)) (\<lambda>row.
     res_bind (entry_validate (mw_entry row)) (\<lambda>_.
     res_bind (checks [
       raise_if (observed (me_source_ref (mw_entry row)) \<noteq> Some (me_source_hash (mw_entry row)))
         (RuntimeError ''memory source integrity could not be verified''),
       raise_if (mw_scope row = ''MISSION'' \<and> mission_id \<noteq> mw_scope_mission_id row)
         (PermissionError ''mission-scoped memory is not visible to this mission'')]) (\<lambda>_.
     res_bind (memory_status memory_id st) (\<lambda>(status, replacement).
     Inr \<lparr>mr_entry = mw_entry row, mr_scope = mw_scope row, mr_scope_mission_id = mw_scope_mission_id row,
          mr_status = status, mr_superseded_by = replacement\<rparr>))))"

definition supersede :: "(string \<Rightarrow> string) \<Rightarrow> string \<Rightarrow> string \<Rightarrow> memory_store \<Rightarrow> (memory_store \<times> unit) res" where
  "supersede sha memory_id replacement_id st =
     res_bind (checks [
       raise_if (memory_id = replacement_id) (ValueError ''memory cannot supersede itself''),
       raise_if (ms_entries st replacement_id = None) (KeyError [replacement_id])]) (\<lambda>_.
     res_bind (memory_status memory_id st) (\<lambda>(status, _).
     res_bind (raise_if (status \<noteq> ''ACTIVE'') (RuntimeError ''only active memory can be superseded'')) (\<lambda>_.
     res_bind (append_memory_event sha memory_id ''SUPERSEDED''
       (JObj [(''replacement_id'', JStr replacement_id)]) st) (\<lambda>st'. Inr (st', ())))))"

definition deprecate :: "(string \<Rightarrow> string) \<Rightarrow> string \<Rightarrow> string \<Rightarrow> memory_store \<Rightarrow> (memory_store \<times> unit) res" where
  "deprecate sha memory_id reason st =
     res_bind (raise_if (blank reason) (ValueError ''deprecation reason is required'')) (\<lambda>_.
     res_bind (memory_status memory_id st) (\<lambda>(status, _).
     res_bind (raise_if (status \<noteq> ''ACTIVE'') (RuntimeError ''only active memory can be deprecated'')) (\<lambda>_.
     res_bind (append_memory_event sha memory_id ''DEPRECATED'' (JObj [(''reason'', JStr reason)]) st)
       (\<lambda>st'. Inr (st', ())))))"

fun chain_from :: "(string \<Rightarrow> string) \<Rightarrow> string \<Rightarrow> memory_event list \<Rightarrow> bool" where
  "chain_from sha p [] = True"
| "chain_from sha p (e # es) = (if mv_prev_hash e \<noteq> p then False
     else if ''sha256:'' @ sha (memory_material e) \<noteq> mv_event_hash e then False
     else chain_from sha (mv_event_hash e) es)"

definition verify_audit_chain :: "(string \<Rightarrow> string) \<Rightarrow> memory_store \<Rightarrow> bool" where
  "verify_audit_chain sha st = chain_from sha ''GENESIS'' (ms_events st)"

section \<open>The promotion gate admits only reviewed evidence\<close>

lemma gate_promote_Inr:
  "gate_promote sha c d i = Inr e \<longleftrightarrow>
     candidate_validate c = Inr () \<and> promotion_validate d = Inr () \<and>
     md_candidate_id d = mc_candidate_id c \<and> md_reviewer_id d \<noteq> mc_proposed_by c \<and>
     md_status d = ''APPROVED'' \<and> mc_source_trust c \<noteq> ''UNTRUSTED_EXTERNAL'' \<and>
     set (mc_evidence_refs c) \<subseteq> set (md_verified_evidence_refs d) \<and> \<not> blank i \<and>
     e = \<lparr>me_memory_id = i, me_candidate_id = mc_candidate_id c, me_mission_id = mc_mission_id c,
          me_category = mc_category c, me_statement = mc_statement c, me_evidence_refs = mc_evidence_refs c,
          me_source_ref = mc_source_ref c, me_source_hash = mc_source_hash c,
          me_promoted_by = md_reviewer_id d, me_fingerprint = ''sha256:'' @ sha (fingerprint_material c)\<rparr>"
proof -
  have "candidate_validate c = Inr () \<Longrightarrow> promotion_validate d = Inr () \<Longrightarrow>
      \<not> blank (mc_candidate_id c) \<and> \<not> blank (mc_mission_id c) \<and> \<not> blank (mc_statement c) \<and>
      \<not> blank (mc_source_ref c) \<and> \<not> blank (mc_source_hash c) \<and> \<not> blank (md_reviewer_id d) \<and>
      mc_category c \<in> set memory_categories \<and> mc_evidence_refs c \<noteq> []"
    by (simp add: candidate_validate_def promotion_validate_def)
  then show ?thesis
    by (auto simp: gate_promote_def fingerprint_def entry_validate_def prefixed_def is_space_def Let_def)
qed

section \<open>The invariant of the store\<close>

definition terminal_event :: "memory_store \<Rightarrow> string \<Rightarrow> memory_event \<Rightarrow> string \<times> string option \<Rightarrow> bool" where
  "terminal_event st i e s \<longleftrightarrow>
     (mv_event_type e = ''DEPRECATED'' \<and> json_read (mv_payload e) \<noteq> None \<and> s = (''DEPRECATED'', None)) \<or>
     (mv_event_type e = ''SUPERSEDED'' \<and> (\<exists>r. json_read (mv_payload e) = Some (JObj [(''replacement_id'', JStr r)]) \<and>
        r \<noteq> i \<and> ms_entries st r \<noteq> None \<and> s = (''SUPERSEDED'', Some r)))"

definition promoted_event :: "memory_event \<Rightarrow> bool" where
  "promoted_event e \<longleftrightarrow> mv_event_type e = ''PROMOTED'' \<and> json_read (mv_payload e) \<noteq> None"

text \<open>A memory is promoted once, then at most once superseded or deprecated.\<close>

definition life :: "memory_store \<Rightarrow> string \<Rightarrow> string \<times> string option \<Rightarrow> bool" where
  "life st i s \<longleftrightarrow> (\<exists>p. promoted_event p \<and>
     (events_for i st = [p] \<and> s = (''ACTIVE'', None) \<or>
      (\<exists>t. events_for i st = [p, t] \<and> terminal_event st i t s)))"

definition memory_ok :: "(string \<Rightarrow> string) \<Rightarrow> memory_store \<Rightarrow> bool" where
  "memory_ok sha st \<longleftrightarrow>
     verify_audit_chain sha st \<and>
     (\<forall>i. if ms_entries st i = None then events_for i st = [] else \<exists>s. life st i s) \<and>
     (\<forall>i row. ms_entries st i = Some row \<longrightarrow> entry_validate (mw_entry row) = Inr () \<and>
        me_memory_id (mw_entry row) = i \<and>
        (mw_scope row = ''MISSION'' \<and> mw_scope_mission_id row = Some (me_mission_id (mw_entry row)) \<or>
         mw_scope row = ''GLOBAL'' \<and> mw_scope_mission_id row = None))"

lemma life_status: "life st i s \<Longrightarrow> memory_status i st = Inr s"
  by (auto simp: life_def memory_status_def promoted_event_def terminal_event_def replacement_in_def)

lemma chain_from_append:
  "chain_from sha p (es @ fs) \<longleftrightarrow> chain_from sha p es \<and> chain_from sha (last_hash mv_event_hash p es) fs"
  by (induction es arbitrary: p) (auto simp: last_hash_Cons)

lemma append_memory_event_Inr:
  assumes "append_memory_event sha i ty payload st = Inr st'"
  obtains e where "st' = st\<lparr>ms_events := ms_events st @ [e]\<rparr>" "mv_memory_id e = i" "mv_event_type e = ty"
    "json_read (mv_payload e) = Some (json_norm payload)"
    "verify_audit_chain sha st \<Longrightarrow> verify_audit_chain sha st'"
proof -
  let ?u = "\<lparr>mv_memory_id = i, mv_event_type = ty, mv_payload = json_dumps payload,
     mv_prev_hash = last_hash mv_event_hash ''GENESIS'' (ms_events st), mv_event_hash = []\<rparr>"
  let ?e = "?u\<lparr>mv_event_hash := ''sha256:'' @ sha (memory_material ?u)\<rparr>"
  have st': "st' = st\<lparr>ms_events := ms_events st @ [?e]\<rparr>"
    using assms by (auto simp: append_memory_event_def Let_def)
  have "memory_material ?e = memory_material ?u" by (simp add: memory_material_def)
  then have "verify_audit_chain sha st \<Longrightarrow> verify_audit_chain sha st'"
    unfolding st' by (simp add: verify_audit_chain_def chain_from_append)
  then show thesis by (intro that [of ?e] st') (simp_all add: json_read_dumps)
qed

lemma events_for_snoc:
  "events_for j (st\<lparr>ms_events := ms_events st @ [e]\<rparr>) = events_for j st @ (if mv_memory_id e = j then [e] else [])"
  by (simp add: events_for_def)

lemma life_kept:
  assumes "life st j s" "events_for j st' = events_for j st"
    and "\<And>r. ms_entries st r \<noteq> None \<Longrightarrow> ms_entries st' r \<noteq> None"
  shows "life st' j s"
  using assms unfolding life_def terminal_event_def by fastforce

text \<open>Ending the life of an active memory.\<close>

lemma terminal_ok:
  assumes "memory_ok sha st" "memory_status i st = Inr (''ACTIVE'', x)"
    and "append_memory_event sha i ty payload st = Inr st'"
    and "\<And>e. mv_event_type e = ty \<Longrightarrow> json_read (mv_payload e) = Some (json_norm payload) \<Longrightarrow>
      terminal_event st i e s"
  shows "memory_ok sha st'" "memory_status i st' = Inr s"
proof -
  from append_memory_event_Inr [OF assms(3)] obtain e where e: "st' = st\<lparr>ms_events := ms_events st @ [e]\<rparr>"
    "mv_memory_id e = i" "mv_event_type e = ty" "json_read (mv_payload e) = Some (json_norm payload)"
    "verify_audit_chain sha st \<Longrightarrow> verify_audit_chain sha st'" by blast
  have "events_for i st \<noteq> []" using assms(2) by (auto simp: memory_status_def)
  then obtain s0 where s0: "life st i s0" "ms_entries st i \<noteq> None"
    using assms(1) by (auto simp: memory_ok_def split: if_splits dest!: spec [of _ i])
  with life_status [OF s0(1)] assms(2) have "s0 = (''ACTIVE'', x)" by simp
  with s0(1) obtain p where "promoted_event p" "events_for i st = [p]"
    by (auto simp: life_def terminal_event_def)
  moreover have "terminal_event st' i e s"
    using assms(4) [OF e(3,4)] unfolding terminal_event_def e(1) by simp
  ultimately have l: "life st' i s" unfolding life_def e(1) by (simp add: events_for_snoc e(2))
  then show "memory_status i st' = Inr s" by (rule life_status)
  have "if ms_entries st' j = None then events_for j st' = [] else \<exists>s. life st' j s" for j
  proof (cases "j = i")
    case False
    then have "events_for j st' = events_for j st" "ms_entries st' = ms_entries st"
      using e by (simp_all add: events_for_snoc)
    with assms(1) life_kept [of st j _ st'] show ?thesis unfolding memory_ok_def by (metis (full_types))
  next
    case True
    have "ms_entries st' i \<noteq> None" using s0 e(1) by simp
    with l show ?thesis unfolding True by (subst if_not_P) blast+
  qed
  then have lives: "\<forall>j. if ms_entries st' j = None then events_for j st' = [] else \<exists>s. life st' j s"
    by (rule allI)
  have same: "ms_entries st' = ms_entries st" "verify_audit_chain sha st'"
    using assms(1) e(1,5) by (simp_all add: memory_ok_def)
  from assms(1) show "memory_ok sha st'"
    unfolding memory_ok_def [of sha st'] memory_ok_def [of sha st] same(1) [symmetric]
    by (intro conjI lives same(2)) (elim conjE)
qed

lemma supersede_Inr:
  "supersede sha i r st = Inr (st', u) \<longleftrightarrow> i \<noteq> r \<and> ms_entries st r \<noteq> None \<and>
     (\<exists>x. memory_status i st = Inr (''ACTIVE'', x)) \<and>
     append_memory_event sha i ''SUPERSEDED'' (JObj [(''replacement_id'', JStr r)]) st = Inr st'"
  by (cases "ms_entries st r") (auto simp: supersede_def)

lemma deprecate_Inr:
  "deprecate sha i reason st = Inr (st', u) \<longleftrightarrow> \<not> blank reason \<and>
     (\<exists>x. memory_status i st = Inr (''ACTIVE'', x)) \<and>
     append_memory_event sha i ''DEPRECATED'' (JObj [(''reason'', JStr reason)]) st = Inr st'"
  by (auto simp: deprecate_def)

lemma supersede_ok:
  assumes "memory_ok sha st" "supersede sha i r st = Inr (st', u)"
  shows "memory_ok sha st'" "memory_status i st' = Inr (''SUPERSEDED'', Some r)"
proof -
  from assms(2) obtain x where x: "i \<noteq> r" "ms_entries st r \<noteq> None" "memory_status i st = Inr (''ACTIVE'', x)"
    "append_memory_event sha i ''SUPERSEDED'' (JObj [(''replacement_id'', JStr r)]) st = Inr st'"
    unfolding supersede_Inr by blast
  have t: "mv_event_type e = ''SUPERSEDED'' \<Longrightarrow>
      json_read (mv_payload e) = Some (json_norm (JObj [(''replacement_id'', JStr r)])) \<Longrightarrow>
      terminal_event st i e (''SUPERSEDED'', Some r)" for e
    using x(1,2) by (auto simp: terminal_event_def sort_literal)
  show "memory_ok sha st'" by (rule terminal_ok(1) [OF assms(1) x(3,4) t])
  show "memory_status i st' = Inr (''SUPERSEDED'', Some r)" by (rule terminal_ok(2) [OF assms(1) x(3,4) t])
qed

lemma deprecate_ok:
  assumes "memory_ok sha st" "deprecate sha i reason st = Inr (st', u)"
  shows "memory_ok sha st'" "memory_status i st' = Inr (''DEPRECATED'', None)"
proof -
  from assms(2) obtain x where x: "memory_status i st = Inr (''ACTIVE'', x)"
    "append_memory_event sha i ''DEPRECATED'' (JObj [(''reason'', JStr reason)]) st = Inr st'"
    unfolding deprecate_Inr by blast
  have t: "mv_event_type e = ''DEPRECATED'' \<Longrightarrow> json_read (mv_payload e) = Some p \<Longrightarrow>
      terminal_event st i e (''DEPRECATED'', None)" for e p
    by (auto simp: terminal_event_def)
  show "memory_ok sha st'" by (rule terminal_ok(1) [OF assms(1) x t])
  show "memory_status i st' = Inr (''DEPRECATED'', None)" by (rule terminal_ok(2) [OF assms(1) x t])
qed

lemma store_promote_Inr:
  "store_promote sha e scope observed st = Inr (st', r) \<longleftrightarrow>
     entry_validate e = Inr () \<and> observed = me_source_hash e \<and> ms_entries st (me_memory_id e) = None \<and>
     scope \<in> {''MISSION'', ''GLOBAL''} \<and>
     r = \<lparr>mr_entry = e, mr_scope = scope,
          mr_scope_mission_id = (if scope = ''MISSION'' then Some (me_mission_id e) else None),
          mr_status = ''ACTIVE'', mr_superseded_by = None\<rparr> \<and>
     append_memory_event sha (me_memory_id e) ''PROMOTED'' (JObj [(''scope'', JStr scope)])
       (st\<lparr>ms_entries := (ms_entries st)(me_memory_id e \<mapsto>
          \<lparr>mw_entry = e, mw_scope = scope, mw_scope_mission_id = mr_scope_mission_id r\<rparr>)\<rparr>) = Inr st'"
  by (cases "ms_entries st (me_memory_id e)") (auto simp: store_promote_def record_validate_def Let_def)

lemma store_promote_ok:
  assumes "memory_ok sha st" "store_promote sha e scope observed st = Inr (st', r)"
  shows "memory_ok sha st'" "life st' (me_memory_id e) (''ACTIVE'', None)"
    "ms_entries st' (me_memory_id e) = Some \<lparr>mw_entry = e, mw_scope = scope,
       mw_scope_mission_id = mr_scope_mission_id r\<rparr>"
proof -
  let ?i = "me_memory_id e"
  let ?row = "\<lparr>mw_entry = e, mw_scope = scope, mw_scope_mission_id = mr_scope_mission_id r\<rparr>"
  let ?st = "st\<lparr>ms_entries := (ms_entries st)(?i \<mapsto> ?row)\<rparr>"
  from assms(2) have e: "entry_validate e = Inr ()" "ms_entries st ?i = None"
    and scope: "scope = ''MISSION'' \<and> mr_scope_mission_id r = Some (me_mission_id e) \<or>
        scope = ''GLOBAL'' \<and> mr_scope_mission_id r = None"
    and app: "append_memory_event sha ?i ''PROMOTED'' (JObj [(''scope'', JStr scope)]) ?st = Inr st'"
    unfolding store_promote_Inr by auto
  from append_memory_event_Inr [OF app] obtain v where v: "st' = ?st\<lparr>ms_events := ms_events ?st @ [v]\<rparr>"
    "mv_memory_id v = ?i" "mv_event_type v = ''PROMOTED''" "json_read (mv_payload v) \<noteq> None"
    "verify_audit_chain sha ?st \<Longrightarrow> verify_audit_chain sha st'" by (metis option.distinct(1))
  show row: "ms_entries st' ?i = Some ?row" unfolding v(1) by simp
  have "events_for ?i st = []" using assms(1) e(2) by (simp add: memory_ok_def)
  then have "events_for ?i st' = [v]" unfolding v(1) by (simp add: events_for_def v(2))
  then show l: "life st' ?i (''ACTIVE'', None)" using v(3,4) by (simp add: life_def promoted_event_def)
  have "if ms_entries st' j = None then events_for j st' = [] else \<exists>s. life st' j s" for j
  proof (cases "j = ?i")
    case False
    then have j: "events_for j st' = events_for j st" "ms_entries st' j = ms_entries st j"
      unfolding v(1) by (simp_all add: events_for_def v(2))
    have "ms_entries st k \<noteq> None \<Longrightarrow> ms_entries st' k \<noteq> None" for k unfolding v(1) by simp
    with assms(1) j life_kept [of st j _ st'] show ?thesis unfolding memory_ok_def by (metis (full_types))
  next
    case True
    have "ms_entries st' ?i \<noteq> None" using row by simp
    with l show ?thesis unfolding True by (subst if_not_P) blast+
  qed
  moreover have "verify_audit_chain sha st'"
    using assms(1) by (intro v(5)) (simp add: memory_ok_def verify_audit_chain_def)
  moreover have "\<forall>i row. ms_entries st' i = Some row \<longrightarrow> entry_validate (mw_entry row) = Inr () \<and>
        me_memory_id (mw_entry row) = i \<and>
        (mw_scope row = ''MISSION'' \<and> mw_scope_mission_id row = Some (me_mission_id (mw_entry row)) \<or>
         mw_scope row = ''GLOBAL'' \<and> mw_scope_mission_id row = None)"
    using assms(1) e(1) scope unfolding memory_ok_def v(1) by simp
  ultimately show "memory_ok sha st'" unfolding memory_ok_def by blast
qed

lemma recall_Inr:
  "recall i m observed st = Inr r \<longleftrightarrow> (\<exists>row s. ms_entries st i = Some row \<and>
     entry_validate (mw_entry row) = Inr () \<and>
     observed (me_source_ref (mw_entry row)) = Some (me_source_hash (mw_entry row)) \<and>
     (mw_scope row = ''MISSION'' \<longrightarrow> m = mw_scope_mission_id row) \<and> memory_status i st = Inr s \<and>
     r = \<lparr>mr_entry = mw_entry row, mr_scope = mw_scope row, mr_scope_mission_id = mw_scope_mission_id row,
          mr_status = fst s, mr_superseded_by = snd s\<rparr>)"
  by (auto simp: recall_def)

section \<open>Sessions\<close>

datatype memory_call =
    Promote memory_entry string string
  | Supersede string string
  | Deprecate string string

definition memory_outcome :: "memory_store \<Rightarrow> (memory_store \<times> 'a) res \<Rightarrow> memory_store" where
  "memory_outcome st r = (case r of Inl _ \<Rightarrow> st | Inr (st', _) \<Rightarrow> st')"

fun memory_step :: "(string \<Rightarrow> string) \<Rightarrow> memory_call \<Rightarrow> memory_store \<Rightarrow> memory_store" where
  "memory_step sha (Promote e scope observed) st = memory_outcome st (store_promote sha e scope observed st)"
| "memory_step sha (Supersede i r) st = memory_outcome st (supersede sha i r st)"
| "memory_step sha (Deprecate i reason) st = memory_outcome st (deprecate sha i reason st)"

fun memory_run :: "(string \<Rightarrow> string) \<Rightarrow> memory_call list \<Rightarrow> memory_store \<Rightarrow> memory_store" where
  "memory_run sha [] st = st"
| "memory_run sha (c # cs) st = memory_run sha cs (memory_step sha c st)"

lemmas memory_keeps [keeps] = store_promote_ok(1) supersede_ok(1) deprecate_ok(1)

lemma memory_step_ok: "memory_ok sha st \<Longrightarrow> memory_ok sha (memory_step sha c st)"
  by (cases c) (auto simp: memory_outcome_def split: sum.split intro: keeps)

lemma memory_run_ok: "memory_ok sha st \<Longrightarrow> memory_ok sha (memory_run sha cs st)"
  by (induction cs arbitrary: st) (simp_all add: memory_step_ok)

lemma empty_memory_ok: "memory_ok sha empty_memory"
  by (simp add: memory_ok_def empty_memory_def verify_audit_chain_def events_for_def)

text \<open>A stored memory keeps its content, and a finished one its status.\<close>

definition remembers :: "string \<Rightarrow> memory_row \<Rightarrow> memory_store \<Rightarrow> bool" where
  "remembers i row st \<longleftrightarrow> ms_entries st i = Some row"

lemma append_entries: "append_memory_event sha i ty p st = Inr st' \<Longrightarrow> ms_entries st' = ms_entries st"
  by (auto simp: append_memory_event_def Let_def)

lemma memory_step_remembers: "remembers i row st \<Longrightarrow> remembers i row (memory_step sha c st)"
proof (cases c)
  case (Promote e scope observed)
  assume "remembers i row st"
  then have "remembers i row st'" if "store_promote sha e scope observed st = Inr (st', r)" for st' r
    using that unfolding store_promote_Inr remembers_def by (auto dest!: append_entries)
  with \<open>remembers i row st\<close> show ?thesis
    by (auto simp: Promote memory_outcome_def split: sum.split)
qed (auto simp: remembers_def memory_outcome_def supersede_Inr deprecate_Inr dest!: append_entries split: sum.split)

lemma memory_run_remembers: "remembers i row st \<Longrightarrow> remembers i row (memory_run sha cs st)"
  by (induction cs arbitrary: st) (simp_all add: memory_step_remembers)

lemma memory_run_append: "memory_run sha (cs @ ds) st = memory_run sha ds (memory_run sha cs st)"
  by (induction cs arbitrary: st) simp_all

text \<open>The status of a superseded or deprecated memory never changes again.\<close>

lemma append_other_status:
  assumes "append_memory_event sha j ty p st = Inr st'" "j \<noteq> i"
  shows "memory_status i st' = memory_status i st"
proof -
  have "events_for i st' = events_for i st"
    using assms by (auto simp: append_memory_event_def events_for_def Let_def)
  then show ?thesis by (simp add: memory_status_def)
qed

lemma active_other:
  "memory_status i st = Inr s \<Longrightarrow> fst s \<noteq> ''ACTIVE'' \<Longrightarrow> memory_status j st = Inr (''ACTIVE'', x) \<Longrightarrow> j \<noteq> i"
  by auto

lemma promote_other_status:
  assumes "store_promote sha e scope observed st = Inr (st', r)" "ms_entries st i \<noteq> None"
  shows "memory_status i st' = memory_status i st"
proof -
  let ?st = "st\<lparr>ms_entries := (ms_entries st)(me_memory_id e \<mapsto>
     \<lparr>mw_entry = e, mw_scope = scope, mw_scope_mission_id = mr_scope_mission_id r\<rparr>)\<rparr>"
  note promoted = assms(1) [unfolded store_promote_Inr]
  then have "ms_entries st (me_memory_id e) = None" by (elim conjE)
  with assms(2) have "me_memory_id e \<noteq> i" by metis
  moreover from promoted have app: "append_memory_event sha (me_memory_id e) ''PROMOTED''
      (JObj [(''scope'', JStr scope)]) ?st = Inr st'" by (elim conjE)
  moreover have "memory_status i ?st = memory_status i st" by (simp add: memory_status_def events_for_def)
  ultimately show ?thesis using append_other_status [OF app] by simp
qed

lemma memory_step_final:
  assumes "memory_ok sha st" "memory_status i st = Inr s" "fst s \<noteq> ''ACTIVE''"
  shows "memory_status i (memory_step sha c st) = Inr s"
proof (cases c)
  case (Promote e scope observed)
  have "if ms_entries st i = None then events_for i st = [] else \<exists>s. life st i s"
    using assms(1) unfolding memory_ok_def by blast
  moreover have "events_for i st \<noteq> []" using assms(2) by (auto simp: memory_status_def)
  ultimately have "ms_entries st i \<noteq> None" by (simp split: if_splits)
  then have "memory_status i st' = Inr s" if "store_promote sha e scope observed st = Inr (st', r)" for st' r
    using promote_other_status [OF that] assms(2) by simp
  then show ?thesis using assms(2) by (auto simp: Promote memory_outcome_def split: sum.split)
next
  case (Supersede j r)
  have "memory_status i st' = Inr s" if "supersede sha j r st = Inr (st', u)" for st' u
    using that append_other_status [OF _ active_other [OF assms(2,3)]] assms(2) unfolding supersede_Inr by metis
  then show ?thesis using assms(2) by (auto simp: Supersede memory_outcome_def split: sum.split)
next
  case (Deprecate j reason)
  have "memory_status i st' = Inr s" if "deprecate sha j reason st = Inr (st', u)" for st' u
    using that append_other_status [OF _ active_other [OF assms(2,3)]] assms(2) unfolding deprecate_Inr by metis
  then show ?thesis using assms(2) by (auto simp: Deprecate memory_outcome_def split: sum.split)
qed

lemma memory_run_final:
  "memory_ok sha st \<Longrightarrow> memory_status i st = Inr s \<Longrightarrow> fst s \<noteq> ''ACTIVE'' \<Longrightarrow>
     memory_status i (memory_run sha cs st) = Inr s"
  by (induction cs arbitrary: st) (simp_all add: memory_step_ok memory_step_final)

text \<open>What a stored memory looks like: a row with its events, whose status is one of the three.\<close>

lemma memory_row:
  assumes "memory_ok sha st" "ms_entries st i = Some row"
  shows "me_memory_id (mw_entry row) = i" "entry_validate (mw_entry row) = Inr ()"
    "mw_scope row = ''MISSION'' \<and> mw_scope_mission_id row = Some (me_mission_id (mw_entry row)) \<or>
     mw_scope row = ''GLOBAL'' \<and> mw_scope_mission_id row = None"
    "\<exists>s. memory_status i st = Inr s \<and> (s = (''ACTIVE'', None) \<or> s = (''DEPRECATED'', None) \<or>
       (\<exists>r. s = (''SUPERSEDED'', Some r) \<and> r \<noteq> i \<and> ms_entries st r \<noteq> None))"
proof -
  from assms show "me_memory_id (mw_entry row) = i" "entry_validate (mw_entry row) = Inr ()"
    "mw_scope row = ''MISSION'' \<and> mw_scope_mission_id row = Some (me_mission_id (mw_entry row)) \<or>
     mw_scope row = ''GLOBAL'' \<and> mw_scope_mission_id row = None"
    by (simp_all add: memory_ok_def)
  have "if ms_entries st i = None then events_for i st = [] else \<exists>s. life st i s"
    using assms(1) unfolding memory_ok_def by blast
  with assms(2) obtain s where s: "life st i s" by auto
  then have "s = (''ACTIVE'', None) \<or> s = (''DEPRECATED'', None) \<or>
       (\<exists>r. s = (''SUPERSEDED'', Some r) \<and> r \<noteq> i \<and> ms_entries st r \<noteq> None)"
    by (auto simp: life_def terminal_event_def)
  with life_status [OF s] show "\<exists>s. memory_status i st = Inr s \<and> (s = (''ACTIVE'', None) \<or> s = (''DEPRECATED'', None) \<or>
       (\<exists>r. s = (''SUPERSEDED'', Some r) \<and> r \<noteq> i \<and> ms_entries st r \<noteq> None))" by blast
qed

lemma recalled_record_valid:
  assumes ok: "memory_ok sha st" and r: "recall i m observed st = Inr r"
  shows "record_validate r = Inr ()" "me_memory_id (mr_entry r) = i"
    "mr_scope r = ''MISSION'' \<Longrightarrow> m = Some (me_mission_id (mr_entry r))"
    "\<And>j. mr_superseded_by r = Some j \<Longrightarrow> ms_entries st j \<noteq> None"
proof -
  from r obtain row s where row: "ms_entries st i = Some row"
    and vis: "mw_scope row = ''MISSION'' \<longrightarrow> m = mw_scope_mission_id row" and s: "memory_status i st = Inr s"
    and r': "r = \<lparr>mr_entry = mw_entry row, mr_scope = mw_scope row, mr_scope_mission_id = mw_scope_mission_id row,
          mr_status = fst s, mr_superseded_by = snd s\<rparr>"
    unfolding recall_Inr by blast
  note stored = memory_row [OF ok row]
  show "me_memory_id (mr_entry r) = i" using stored(1) by (simp add: r')
  show "mr_scope r = ''MISSION'' \<Longrightarrow> m = Some (me_mission_id (mr_entry r))" using stored(3) vis by (auto simp: r')
  from stored(4) s consider "s = (''ACTIVE'', None)" | "s = (''DEPRECATED'', None)"
    | j where "s = (''SUPERSEDED'', Some j)" "j \<noteq> i" "ms_entries st j \<noteq> None" by auto
  note cases = this
  show "mr_superseded_by r = Some j \<Longrightarrow> ms_entries st j \<noteq> None" for j by (cases rule: cases) (simp_all add: r')
  have "snd s \<noteq> Some []"
  proof
    assume e: "snd s = Some []"
    then have "ms_entries st [] \<noteq> None" by (cases rule: cases) simp_all
    then obtain row' where "ms_entries st [] = Some row'" by auto
    from memory_row(1,2) [OF ok this] show False by (simp add: entry_validate_def)
  qed
  with stored(1,2,3) show "record_validate r = Inr ()"
    by (cases rule: cases) (auto simp: record_validate_def r')
qed

text \<open>C21. A memory that can be recalled after any calls is a valid record of the asked id, visible to the
  mission, with an unchanged source and a stored replacement if it is superseded. Whatever is called
  afterwards, the journal verifies and the same content is recalled; a status that is no longer ACTIVE
  is final.\<close>

theorem recalled_memory_is_faithful:
  fixes sha cs ds
  defines "st \<equiv> memory_run sha cs empty_memory" and "later \<equiv> memory_run sha (cs @ ds) empty_memory"
  assumes "recall i m observed st = Inr r"
  shows "record_validate r = Inr () \<and> me_memory_id (mr_entry r) = i \<and>
     observed (me_source_ref (mr_entry r)) = Some (me_source_hash (mr_entry r)) \<and>
     (mr_scope r = ''MISSION'' \<longrightarrow> m = Some (me_mission_id (mr_entry r))) \<and>
     (\<forall>j. mr_superseded_by r = Some j \<longrightarrow> ms_entries st j \<noteq> None) \<and>
     verify_audit_chain sha later \<and>
     (\<exists>r'. recall i m observed later = Inr r' \<and> mr_entry r' = mr_entry r \<and> mr_scope r' = mr_scope r \<and>
        (mr_status r \<noteq> ''ACTIVE'' \<longrightarrow> r' = r))"
proof -
  have later: "later = memory_run sha ds st" by (simp add: later_def st_def memory_run_append)
  have ok: "memory_ok sha st" unfolding st_def by (rule memory_run_ok [OF empty_memory_ok])
  then have ok': "memory_ok sha later" unfolding later by (rule memory_run_ok)
  from assms(3) obtain row s where row: "ms_entries st i = Some row" "entry_validate (mw_entry row) = Inr ()"
    "observed (me_source_ref (mw_entry row)) = Some (me_source_hash (mw_entry row))"
    "mw_scope row = ''MISSION'' \<longrightarrow> m = mw_scope_mission_id row" "memory_status i st = Inr s"
    and r: "r = \<lparr>mr_entry = mw_entry row, mr_scope = mw_scope row, mr_scope_mission_id = mw_scope_mission_id row,
          mr_status = fst s, mr_superseded_by = snd s\<rparr>"
    unfolding recall_Inr by blast
  have row': "ms_entries later i = Some row"
    using memory_run_remembers [of i row st sha ds] row(1) by (simp add: later remembers_def)
  obtain s' where s': "memory_status i later = Inr s'" using memory_row(4) [OF ok' row'] by blast
  have final: "fst s \<noteq> ''ACTIVE'' \<longrightarrow> s' = s" using memory_run_final [OF ok row(5), of ds] s' by (simp add: later)
  have "recall i m observed later = Inr \<lparr>mr_entry = mw_entry row, mr_scope = mw_scope row,
      mr_scope_mission_id = mw_scope_mission_id row, mr_status = fst s', mr_superseded_by = snd s'\<rparr>"
    unfolding recall_Inr using row row' s' by blast
  then have "\<exists>r'. recall i m observed later = Inr r' \<and> mr_entry r' = mr_entry r \<and> mr_scope r' = mr_scope r \<and>
        (mr_status r \<noteq> ''ACTIVE'' \<longrightarrow> r' = r)" using final by (auto simp: r)
  moreover have "verify_audit_chain sha later" using ok' by (simp add: memory_ok_def)
  moreover have "observed (me_source_ref (mr_entry r)) = Some (me_source_hash (mr_entry r))"
    using row(3) by (simp add: r)
  ultimately show ?thesis using recalled_record_valid [OF ok assms(3)] by blast
qed

text \<open>A memory that is superseded and then deprecated: the second call is refused.\<close>

definition example_entry :: "string \<Rightarrow> memory_entry" where
  "example_entry i = \<lparr>me_memory_id = i, me_candidate_id = ''C'', me_mission_id = ''M'', me_category = ''LESSON'',
     me_statement = ''s'', me_evidence_refs = [''e''], me_source_ref = ''doc'', me_source_hash = ''h'',
     me_promoted_by = ''rev'', me_fingerprint = ''sha256:f''\<rparr>"

definition superseding_calls :: "memory_call list" where
  "superseding_calls = [Promote (example_entry ''A'') ''MISSION'' ''h'', Promote (example_entry ''B'') ''GLOBAL'' ''h'',
     Supersede ''A'' ''B'']"

definition superseded_record :: memory_record where
  "superseded_record = \<lparr>mr_entry = example_entry ''A'', mr_scope = ''MISSION'', mr_scope_mission_id = Some ''M'',
     mr_status = ''SUPERSEDED'', mr_superseded_by = Some ''B''\<rparr>"

theorem recalled_memory_is_faithful_witness:
  "recall ''A'' (Some ''M'') (Map.empty(''doc'' \<mapsto> ''h''))
     (memory_run (\<lambda>s. s) (superseding_calls @ [Deprecate ''A'' ''old'']) empty_memory) = Inr superseded_record"
proof -
  have "recall ''A'' (Some ''M'') (Map.empty(''doc'' \<mapsto> ''h'')) (memory_run (\<lambda>s. s) superseding_calls empty_memory) =
      Inr superseded_record"
    by (simp add: superseding_calls_def superseded_record_def example_entry_def empty_memory_def memory_outcome_def
        store_promote_def supersede_def append_memory_event_def memory_status_def events_for_def recall_def
        entry_validate_def record_validate_def memory_categories_def memory_material_def last_hash_def prefixed_def
        is_space_def json_read_dumps replacement_in_def sort_literal Let_def)
  from recalled_memory_is_faithful [OF this, of "[Deprecate ''A'' ''old'']"] obtain r where
    r: "recall ''A'' (Some ''M'') (Map.empty(''doc'' \<mapsto> ''h''))
         (memory_run (\<lambda>s. s) (superseding_calls @ [Deprecate ''A'' ''old'']) empty_memory) = Inr r"
      "mr_status superseded_record \<noteq> ''ACTIVE'' \<longrightarrow> r = superseded_record" by blast
  have "mr_status superseded_record \<noteq> ''ACTIVE''" by (simp add: superseded_record_def)
  with r show ?thesis by blast
qed

end
