(* ===== verification/Governance.thy ===== *)
theory Governance
  imports Prelude
begin

text \<open>
  The small deterministic authorities: evidence, objection and review records
  (factory/control_plane/contracts.py), the agent registry (factory/control_plane/registry.py),
  capability grants and budgets (factory/control_plane/policy.py), the runtime authorization
  boundary (factory/runtime/policy.py) and mission intake (factory/runtime/intake.py).
\<close>

section \<open>Evidence, objections, reviews\<close>

datatype evidence_kind = TEST | STATIC_ANALYSIS | DIFF | LOG | ARTIFACT | MANUAL_CHECK

datatype objection_severity = INFO | WARNING | BLOCKING

record evidence_record =
  er_evidence_id :: string
  er_mission_id :: string
  er_task_id :: string
  er_producer_id :: string
  er_kind :: evidence_kind
  er_summary :: string
  er_artifact_refs :: "string list"

definition evidence_validate :: "evidence_record \<Rightarrow> unit res" where
  "evidence_validate e = raise_if (\<not> list_all (\<lambda>v. v \<noteq> []) [er_evidence_id e, er_mission_id e, er_task_id e,
       er_producer_id e, er_summary e]) (ValueError ''evidence required fields missing'')"

record objection_record =
  ob_objection_id :: string
  ob_mission_id :: string
  ob_task_id :: string
  ob_raised_by :: string
  ob_severity :: objection_severity
  ob_reason :: string

definition objection_validate :: "objection_record \<Rightarrow> unit res" where
  "objection_validate o1 = raise_if (\<not> list_all (\<lambda>v. v \<noteq> []) [ob_objection_id o1, ob_mission_id o1, ob_task_id o1,
       ob_raised_by o1, ob_reason o1]) (ValueError ''objection required fields missing'')"

record review_record =
  rv_review_id :: string
  rv_mission_id :: string
  rv_task_id :: string
  rv_reviewer_id :: string
  rv_evidence_ids :: "string list"
  rv_verdict :: string
  rv_notes :: string

definition review_validate :: "string list \<Rightarrow> review_record \<Rightarrow> unit res" where
  "review_validate worker_ids r = checks [
     raise_if (rv_verdict r \<notin> {''APPROVE'', ''CHANGES_REQUESTED'', ''REJECT''}) (ValueError ''invalid review verdict''),
     raise_if (rv_evidence_ids r = []) (ValueError ''review requires evidence''),
     raise_if (rv_reviewer_id r \<in> set worker_ids) (ValueError ''reviewer cannot review own task work'')]"

section \<open>The agent registry\<close>

record agent_record =
  gr_agent_id :: string
  gr_role :: string
  gr_capabilities :: "string list"
  gr_write_scopes :: "string list"
  gr_enabled :: bool

text \<open>The dictionary by agent id, in insertion order.\<close>

type_synonym registry = "(string \<times> agent_record) list"

definition new_registry :: "agent_record list \<Rightarrow> registry" where
  "new_registry agents = fold (\<lambda>a r. if gr_agent_id a \<in> set (map fst r)
     then map (\<lambda>(k, b). (k, if k = gr_agent_id a then a else b)) r else r @ [(gr_agent_id a, a)]) agents []"

definition registry_register :: "agent_record \<Rightarrow> registry \<Rightarrow> registry res" where
  "registry_register a r =
     (if gr_agent_id a \<in> set (map fst r) then Inl (ValueError (''duplicate agent: '' @ gr_agent_id a))
      else Inr (r @ [(gr_agent_id a, a)]))"

definition registry_get :: "string \<Rightarrow> registry \<Rightarrow> agent_record res" where
  "registry_get i r = fetch (KeyError [''unknown agent: '' @ i]) (map_of r i)"

definition candidates :: "string \<Rightarrow> registry \<Rightarrow> agent_record list" where
  "candidates capability r = sort_key gr_agent_id
     [a \<leftarrow> map snd r. gr_enabled a \<and> capability \<in> set (gr_capabilities a)]"

section \<open>Capability grants and budgets\<close>

definition protected_capabilities :: "string list" where
  "protected_capabilities = [''production.deploy'', ''billing.modify'', ''finance.transact'',
     ''secrets.rotate'', ''identity.act_as_owner'', ''legal.accept'', ''data.production_destructive'']"

record grant =
  cg_agent_id :: string
  cg_capabilities :: "string list"

definition authorize :: "grant \<Rightarrow> string \<Rightarrow> bool \<Rightarrow> bool" where
  "authorize g capability human_approval =
     (if capability \<notin> set (cg_capabilities g) then False
      else if capability \<in> set protected_capabilities \<and> \<not> human_approval then False else True)"

record task_budget =
  tb_max_tokens :: int
  tb_max_tool_calls :: int
  tb_max_retries :: int
  tb_max_parallel_tasks :: int

definition budget_validate :: "task_budget \<Rightarrow> unit res" where
  "budget_validate b = raise_if
     (min (min (tb_max_tokens b) (tb_max_tool_calls b)) (min (tb_max_retries b) (tb_max_parallel_tasks b)) < 0)
     (ValueError ''budget values must be non-negative'')"

section \<open>The runtime authorization boundary\<close>

record policy_decision =
  pd_allowed :: bool
  pd_reason :: string

definition engine_authorize :: "string \<Rightarrow> string list \<Rightarrow> bool \<Rightarrow> string option \<Rightarrow> bool \<Rightarrow> policy_decision" where
  "engine_authorize required capabilities protected approval_status budget_available =
     (if required \<notin> set capabilities then \<lparr>pd_allowed = False, pd_reason = ''missing_capability''\<rparr>
      else if \<not> budget_available then \<lparr>pd_allowed = False, pd_reason = ''budget_exhausted''\<rparr>
      else if protected \<and> approval_status \<noteq> Some ''APPROVED''
        then \<lparr>pd_allowed = False, pd_reason = ''human_approval_required''\<rparr>
      else \<lparr>pd_allowed = True, pd_reason = ''allowed''\<rparr>)"

section \<open>Mission intake\<close>

text \<open>\<open>str.upper\<close> on code points below 256. The two whose upper case lies outside
  (micro sign, y with diaeresis) stay as they are: no value compared with contains them.\<close>

definition upper_char :: "char \<Rightarrow> string" where
  "upper_char c = (let n = (of_char c :: nat) in
     if 97 \<le> n \<and> n \<le> 122 \<or> 224 \<le> n \<and> n \<le> 254 \<and> n \<noteq> 247 then [char_of (n - 32)]
     else if n = 223 then ''SS'' else [c])"

definition upper :: "string \<Rightarrow> string" where
  "upper s = concat (map upper_char s)"

record mission_intake =
  mi_mission_id :: string
  mi_objective :: string
  mi_quality_profile :: string
  mi_constraints :: "string list"
  mi_non_goals :: "string list"

definition strip_items :: "string list \<Rightarrow> string list" where
  "strip_items items = [strip i. i \<leftarrow> items, strip i \<noteq> []]"

definition prepare_intake :: "string \<Rightarrow> string \<Rightarrow> string \<Rightarrow> string list \<Rightarrow> string list \<Rightarrow> mission_intake res" where
  "prepare_intake mission_id objective quality constraints non_goals =
     (let m = strip mission_id; obj = strip objective; q = strip (upper quality) in
     res_bind (checks [
       raise_if (m = [] \<or> obj = []) (ValueError ''mission_id and objective are required''),
       raise_if (q \<notin> {''MVP'', ''PRODUCTION'', ''CRITICAL''})
         (ValueError (''unsupported quality_profile: '' @ q))]) (\<lambda>_.
     Inr \<lparr>mi_mission_id = m, mi_objective = obj, mi_quality_profile = q,
       mi_constraints = strip_items constraints, mi_non_goals = strip_items non_goals\<rparr>))"

section \<open>Properties\<close>

lemma dropWhile_rev_keeps_head:
  "xs \<noteq> [] \<Longrightarrow> \<not> P (hd xs) \<Longrightarrow> hd (rev (dropWhile P (rev xs))) = hd xs \<and> rev (dropWhile P (rev xs)) \<noteq> []"
  by (induction xs rule: rev_induct) (auto simp: hd_append)

lemma strip_strip [simp]: "strip (strip s) = strip s"
proof (cases "strip s = []")
  case False
  let ?u = "dropWhile is_space s"
  have "?u \<noteq> []"
  proof
    assume "?u = []"
    with False show False by (simp only: strip_def) simp
  qed
  then have "\<not> is_space (hd ?u)" by (rule hd_dropWhile)
  from dropWhile_rev_keeps_head [where P = is_space, OF \<open>?u \<noteq> []\<close> this] have "\<not> is_space (hd (strip s))" "strip s \<noteq> []"
    using \<open>\<not> is_space (hd ?u)\<close> by (simp_all add: strip_def)
  then have "dropWhile is_space (strip s) = strip s" by (cases "strip s") auto
  then show ?thesis by (subst strip_def) (simp add: strip_def)
next
  case True
  have "strip [] = []" by (simp add: strip_def)
  with True show ?thesis by simp
qed

lemma strip_items_idem: "strip_items (strip_items xs) = strip_items xs"
  by (induction xs) (auto simp: strip_items_def)

lemma prepare_Inr:
  "prepare_intake m obj q cs ns = Inr r \<longleftrightarrow> \<not> blank m \<and> \<not> blank obj \<and>
     strip (upper q) \<in> {''MVP'', ''PRODUCTION'', ''CRITICAL''} \<and>
     r = \<lparr>mi_mission_id = strip m, mi_objective = strip obj, mi_quality_profile = strip (upper q),
          mi_constraints = strip_items cs, mi_non_goals = strip_items ns\<rparr>"
  by (auto simp: prepare_intake_def strip_eq_Nil Let_def)

lemma upper_fixed:
  "strip (upper ''MVP'') = ''MVP''" "strip (upper ''PRODUCTION'') = ''PRODUCTION''"
  "strip (upper ''CRITICAL'') = ''CRITICAL''"
  by code_simp+

lemma prepare_again:
  assumes "prepare_intake m obj q cs ns = Inr r"
  shows "prepare_intake (mi_mission_id r) (mi_objective r) (mi_quality_profile r) (mi_constraints r)
     (mi_non_goals r) = Inr r"
proof -
  have "\<not> blank (strip s)" if "\<not> blank s" for s using that by (metis strip_eq_Nil strip_strip)
  moreover have "strip (upper (strip (upper q))) = strip (upper q)"
    using assms upper_fixed by (auto simp: prepare_Inr)
  ultimately show ?thesis using assms by (simp add: prepare_Inr strip_items_idem del: insert_iff)
qed

end
