(* ===== verification/Interoperability.thy ===== *)
theory Interoperability
  imports Governance Reliability_Controller
begin

text \<open>
  Bounded interoperability with external tools and agents (factory/interoperability/): the
  contracts, the MCP and A2A boundary translators, the policy guard, the gateway that runs a
  call through them, the in-memory transport and the bridge into reliability. A Python dict is
  an association list; a transport is its \<open>discover\<close> result and its \<open>invoke\<close> function,
  which are arguments. The gateway is an action on its trace and on the requests it sent;
  over a session of calls it sends only what their callers are entitled to (C22).
\<close>

section \<open>Contracts\<close>

type_synonym dict = "(string \<times> json) list"

record provenance =
  pv_protocol :: string
  pv_protocol_version :: string
  pv_endpoint_id :: string
  pv_trust_level :: string

definition provenance_validate :: "provenance \<Rightarrow> unit res" where
  "provenance_validate p = checks [
     raise_if (blank (pv_protocol p) \<or> blank (pv_protocol_version p) \<or> blank (pv_endpoint_id p))
       (ValueError ''protocol, protocol_version and endpoint_id are required''),
     raise_if (pv_trust_level p \<notin> {''UNTRUSTED_EXTERNAL'', ''VALIDATED_EXTERNAL''})
       (ValueError (''unknown trust level:'' @ pv_trust_level p))]"

record capability =
  xc_capability_id :: string
  xc_name :: string
  xc_effect_class :: string
  xc_required_factory_capability :: string
  xc_provenance :: provenance

definition capability_validate :: "capability \<Rightarrow> unit res" where
  "capability_validate c = checks [
     raise_if (blank (xc_capability_id c) \<or> blank (xc_name c) \<or> blank (xc_required_factory_capability c))
       (ValueError ''capability identity and required_factory_capability are required''),
     raise_if (xc_effect_class c \<notin> {''READ_ONLY'', ''LOCAL_WRITE'', ''EXTERNAL_WRITE''})
       (ValueError (''unknown effect_class:'' @ xc_effect_class c)),
     provenance_validate (xc_provenance c)]"

record task_request =
  xr_request_id :: string
  xr_correlation_id :: string
  xr_mission_id :: string
  xr_kind :: string
  xr_capability_id :: string
  xr_payload :: dict
  xr_idempotency_key :: "string option"
  xr_provenance :: provenance

definition request_validate :: "task_request \<Rightarrow> unit res" where
  "request_validate r = checks [
     raise_if (\<not> list_all (\<lambda>v. \<not> blank v) [xr_request_id r, xr_correlation_id r, xr_mission_id r, xr_capability_id r])
       (ValueError ''request identity, mission and capability are required''),
     raise_if (xr_kind r \<notin> {''TOOL_CALL'', ''AGENT_TASK''}) (ValueError (''unknown request kind:'' @ xr_kind r)),
     provenance_validate (xr_provenance r)]"

record external_result =
  xs_request_id :: string
  xs_correlation_id :: string
  xs_status :: string
  xs_payload :: dict
  xs_provenance :: provenance

definition result_validate :: "external_result \<Rightarrow> unit res" where
  "result_validate r = checks [
     raise_if (blank (xs_request_id r) \<or> blank (xs_correlation_id r))
       (ValueError ''result request_id and correlation_id are required''),
     raise_if (xs_status r \<notin> {''SUCCEEDED'', ''FAILED'', ''INPUT_REQUIRED'', ''UNKNOWN''})
       (ValueError (''unknown result status:'' @ xs_status r)),
     provenance_validate (xs_provenance r)]"

record capability_decision =
  xd_allowed :: bool
  xd_reason :: string
  xd_capability_id :: string

definition capability_decision_validate :: "capability_decision \<Rightarrow> unit res" where
  "capability_decision_validate d = raise_if (blank (xd_reason d) \<or> blank (xd_capability_id d))
     (ValueError ''capability decision reason and capability_id are required'')"

section \<open>The adapters\<close>

text \<open>An adapter object: its protocol constant, endpoint and version.\<close>

record adapter =
  xa_protocol :: string
  xa_endpoint_id :: string
  xa_protocol_version :: string

definition new_mcp :: "string \<Rightarrow> string \<Rightarrow> adapter res" where
  "new_mcp endpoint version = res_bind (checks [
     raise_if (version \<noteq> ''2026-07-28'') (ValueError (''unsupported MCP version:'' @ version)),
     raise_if (blank endpoint) (ValueError ''endpoint_id is required'')])
     (\<lambda>_. Inr \<lparr>xa_protocol = ''MCP'', xa_endpoint_id = endpoint, xa_protocol_version = version\<rparr>)"

definition new_a2a :: "string \<Rightarrow> string \<Rightarrow> adapter res" where
  "new_a2a endpoint version = res_bind (checks [
     raise_if (version \<noteq> ''1.0.0'') (ValueError (''unsupported A2A version:'' @ version)),
     raise_if (blank endpoint) (ValueError ''endpoint_id is required'')])
     (\<lambda>_. Inr \<lparr>xa_protocol = ''A2A'', xa_endpoint_id = endpoint, xa_protocol_version = version\<rparr>)"

definition adapter_provenance :: "adapter \<Rightarrow> provenance" where
  "adapter_provenance a = \<lparr>pv_protocol = xa_protocol a, pv_protocol_version = xa_protocol_version a,
     pv_endpoint_id = xa_endpoint_id a, pv_trust_level = ''UNTRUSTED_EXTERNAL''\<rparr>"

text \<open>A dict entry that must be a non-blank string.\<close>

definition required_str :: "dict \<Rightarrow> string \<Rightarrow> pyexc \<Rightarrow> string res" where
  "required_str d k e = (case map_of d k of Some (JStr s) \<Rightarrow> (if blank s then Inl e else Inr s) | _ \<Rightarrow> Inl e)"

text \<open>\<open>str(v)\<close> of a descriptor value; of a list or dict only that it is no effect class matters.\<close>

fun py_str :: "json \<Rightarrow> string" where
  "py_str JNull = ''None''"
| "py_str (JBool b) = (if b then ''True'' else ''False'')"
| "py_str (JInt i) = show_int i"
| "py_str (JStr s) = s"
| "py_str (JList vs) = ''[]''"
| "py_str (JObj kvs) = ''{}''"

definition effect_class_of :: "dict \<Rightarrow> string" where
  "effect_class_of d = (case map_of d ''effect_class'' of None \<Rightarrow> ''READ_ONLY'' | Some v \<Rightarrow> py_str v)"

definition discover_tool :: "adapter \<Rightarrow> dict \<Rightarrow> capability res" where
  "discover_tool a d =
     res_bind (required_str d ''name'' (ValueError ''MCP tool name is required'')) (\<lambda>name.
     res_bind (required_str d ''required_factory_capability''
       (ValueError ''MCP tool must declare required_factory_capability'')) (\<lambda>required.
     let c = \<lparr>xc_capability_id = ''mcp:'' @ xa_endpoint_id a @ '':'' @ name, xc_name = name,
           xc_effect_class = effect_class_of d, xc_required_factory_capability = required,
           xc_provenance = adapter_provenance a\<rparr> in
     res_bind (capability_validate c) (\<lambda>_. Inr c)))"

definition discover_skill :: "adapter \<Rightarrow> dict \<Rightarrow> capability res" where
  "discover_skill a d =
     res_bind (required_str d ''id'' (ValueError ''A2A skill id is required'')) (\<lambda>skill_id.
     res_bind (required_str d ''name'' (ValueError ''A2A skill name is required'')) (\<lambda>name.
     res_bind (required_str d ''required_factory_capability''
       (ValueError ''A2A skill must declare required_factory_capability'')) (\<lambda>required.
     let c = \<lparr>xc_capability_id = ''a2a:'' @ xa_endpoint_id a @ '':'' @ skill_id, xc_name = name,
           xc_effect_class = effect_class_of d, xc_required_factory_capability = required,
           xc_provenance = adapter_provenance a\<rparr> in
     res_bind (capability_validate c) (\<lambda>_. Inr c))))"

definition authorize_capability :: "adapter \<Rightarrow> capability \<Rightarrow> string list \<Rightarrow> capability_decision res" where
  "authorize_capability a c factory_capabilities =
     res_bind (capability_validate c) (\<lambda>_.
     let d = (if pv_protocol (xc_provenance c) \<noteq> xa_protocol a \<or> pv_endpoint_id (xc_provenance c) \<noteq> xa_endpoint_id a
              then \<lparr>xd_allowed = False, xd_reason = ''capability_provenance_mismatch'', xd_capability_id = xc_capability_id c\<rparr>
              else if xc_required_factory_capability c \<notin> set factory_capabilities
              then \<lparr>xd_allowed = False, xd_reason = ''factory_capability_missing'', xd_capability_id = xc_capability_id c\<rparr>
              else \<lparr>xd_allowed = True, xd_reason = ''capability_intersection_allowed'', xd_capability_id = xc_capability_id c\<rparr>)
     in res_bind (capability_decision_validate d) (\<lambda>_. Inr d))"

text \<open>The identifiers of a call.\<close>

record call_ids =
  ci_request_id :: string
  ci_correlation_id :: string
  ci_mission_id :: string

definition build_request :: "string \<Rightarrow> string \<Rightarrow> string \<Rightarrow> string \<Rightarrow> adapter \<Rightarrow> call_ids \<Rightarrow> capability \<Rightarrow>
     dict \<Rightarrow> string list \<Rightarrow> string option \<Rightarrow> task_request res" where
  "build_request kind name_key body_key idempotency_error a i c body factory_capabilities key =
     res_bind (authorize_capability a c factory_capabilities) (\<lambda>d.
     res_bind (raise_if (\<not> xd_allowed d) (PermissionError (xd_reason d))) (\<lambda>_.
     res_bind (raise_if (xc_effect_class c = ''EXTERNAL_WRITE'' \<and> blank_opt key) (ValueError idempotency_error)) (\<lambda>_.
     let r = \<lparr>xr_request_id = ci_request_id i, xr_correlation_id = ci_correlation_id i,
           xr_mission_id = ci_mission_id i, xr_kind = kind, xr_capability_id = xc_capability_id c,
           xr_payload = [(name_key, JStr (xc_name c)), (body_key, JObj body)],
           xr_idempotency_key = key, xr_provenance = adapter_provenance a\<rparr> in
     res_bind (request_validate r) (\<lambda>_. Inr r))))"

definition build_tool_call :: "adapter \<Rightarrow> call_ids \<Rightarrow> capability \<Rightarrow> dict \<Rightarrow> string list \<Rightarrow> string option \<Rightarrow> task_request res" where
  "build_tool_call = build_request ''TOOL_CALL'' ''tool_name'' ''arguments''
     ''external-write MCP tool call requires idempotency_key''"

definition build_task :: "adapter \<Rightarrow> call_ids \<Rightarrow> capability \<Rightarrow> dict \<Rightarrow> string list \<Rightarrow> string option \<Rightarrow> task_request res" where
  "build_task = build_request ''AGENT_TASK'' ''skill_name'' ''message''
     ''external-write A2A task requires idempotency_key''"

definition translate_with :: "(string \<times> string) list \<Rightarrow> string \<Rightarrow> adapter \<Rightarrow> task_request \<Rightarrow> string \<Rightarrow> dict \<Rightarrow>
     external_result res" where
  "translate_with status_map complaint a r state payload =
     res_bind (fetch (ValueError (complaint @ state)) (map_of status_map state)) (\<lambda>status.
     let s = \<lparr>xs_request_id = xr_request_id r, xs_correlation_id = xr_correlation_id r, xs_status = status,
           xs_payload = payload, xs_provenance = adapter_provenance a\<rparr> in
     res_bind (result_validate s) (\<lambda>_. Inr s))"

definition translate_tool_result :: "adapter \<Rightarrow> task_request \<Rightarrow> string \<Rightarrow> dict \<Rightarrow> external_result res" where
  "translate_tool_result = translate_with [(''success'', ''SUCCEEDED''), (''error'', ''FAILED''),
     (''input_required'', ''INPUT_REQUIRED''), (''unknown'', ''UNKNOWN'')] ''unsupported MCP result_type:''"

definition translate_task_result :: "adapter \<Rightarrow> task_request \<Rightarrow> string \<Rightarrow> dict \<Rightarrow> external_result res" where
  "translate_task_result = translate_with [(''completed'', ''SUCCEEDED''), (''failed'', ''FAILED''),
     (''input-required'', ''INPUT_REQUIRED''), (''unknown'', ''UNKNOWN'')] ''unsupported A2A task state:''"

section \<open>The policy guard\<close>

definition guard_authorize :: "capability \<Rightarrow> string list \<Rightarrow> bool \<Rightarrow> string option \<Rightarrow> bool \<Rightarrow> capability_decision res" where
  "guard_authorize c factory_capabilities protected approval_status budget_available =
     res_bind (capability_validate c) (\<lambda>_.
     let p = engine_authorize (xc_required_factory_capability c) factory_capabilities protected
               approval_status budget_available;
         d = \<lparr>xd_allowed = pd_allowed p, xd_reason = pd_reason p, xd_capability_id = xc_capability_id c\<rparr> in
     res_bind (raise_if (blank (xd_reason d) \<or> blank (xd_capability_id d))
       (ValueError ''interop policy decision reason and capability_id are required'')) (\<lambda>_. Inr d))"

section \<open>The gateway\<close>

record gateway =
  gw_sink :: bool
  gw_traces :: "(string \<times> string \<times> dict) list"
  gw_sent :: "task_request list"

definition gw_trace :: "string \<Rightarrow> string \<Rightarrow> dict \<Rightarrow> (gateway, unit) act" where
  "gw_trace mission event payload = transaction (\<lambda>g. Inr (if gw_sink g
     then g\<lparr>gw_traces := gw_traces g @ [(mission, event, payload)]\<rparr> else g, ()))"

text \<open>A transport: its id and what it answers to a request.\<close>

record transport =
  tp_transport_id :: string
  tp_discover :: "dict list"
  tp_invoke :: "task_request \<Rightarrow> dict res"

text \<open>\<open>gw_sent\<close> records the requests the transport was invoked with.\<close>

definition gw_invoke :: "transport \<Rightarrow> task_request \<Rightarrow> (gateway, dict) act" where
  "gw_invoke tp r = (\<lambda>g. (g\<lparr>gw_sent := gw_sent g @ [r]\<rparr>, tp_invoke tp r))"

definition unique_capabilities :: "capability list \<Rightarrow> capability list res" where
  "unique_capabilities cs = res_bind (raise_if (\<not> distinct (map xc_capability_id cs))
     (ValueError ''duplicate external capability IDs discovered'')) (\<lambda>_. Inr cs)"

definition discover_mcp :: "adapter \<Rightarrow> transport \<Rightarrow> capability list res" where
  "discover_mcp a tp = res_bind (map_res (discover_tool a) (tp_discover tp)) unique_capabilities"

definition discover_a2a :: "adapter \<Rightarrow> transport \<Rightarrow> capability list res" where
  "discover_a2a a tp = res_bind (map_res (discover_skill a) (tp_discover tp)) unique_capabilities"

text \<open>What a caller states of its authority.\<close>

record authority =
  au_factory_capabilities :: "string list"
  au_protected :: bool
  au_approval_status :: "string option"
  au_budget_available :: bool

definition dispatch_trace :: "string \<Rightarrow> adapter \<Rightarrow> transport \<Rightarrow> call_ids \<Rightarrow> capability \<Rightarrow> task_request \<Rightarrow> dict" where
  "dispatch_trace protocol a tp i c r = [(''protocol'', JStr protocol),
     (''protocol_version'', JStr (xa_protocol_version a)), (''endpoint_id'', JStr (xa_endpoint_id a)),
     (''transport_id'', JStr (tp_transport_id tp)), (''request_id'', JStr (ci_request_id i)),
     (''correlation_id'', JStr (ci_correlation_id i)), (''capability_id'', JStr (xc_capability_id c)),
     (''trust_level'', JStr (pv_trust_level (xr_provenance r)))]"

definition result_trace :: "string \<Rightarrow> external_result \<Rightarrow> dict" where
  "result_trace protocol s = [(''protocol'', JStr protocol), (''request_id'', JStr (xs_request_id s)),
     (''correlation_id'', JStr (xs_correlation_id s)), (''status'', JStr (xs_status s)),
     (''trust_level'', JStr (pv_trust_level (xs_provenance s)))]"

definition raw_result :: "string \<Rightarrow> string \<Rightarrow> dict \<Rightarrow> (string \<times> dict) res" where
  "raw_result state_key complaint raw = (case (map_of raw state_key, map_of raw ''payload'') of
     (Some (JStr s), Some (JObj p)) \<Rightarrow> Inr (s, p) | _ \<Rightarrow> Inl (ValueError complaint))"

text \<open>The prepared call: the capability and the request, or why there is none.\<close>

definition admitted :: "(adapter \<Rightarrow> dict \<Rightarrow> capability res) \<Rightarrow>
     (adapter \<Rightarrow> call_ids \<Rightarrow> capability \<Rightarrow> dict \<Rightarrow> string list \<Rightarrow> string option \<Rightarrow> task_request res) \<Rightarrow>
     adapter \<Rightarrow> dict \<Rightarrow> call_ids \<Rightarrow> dict \<Rightarrow> authority \<Rightarrow> string option \<Rightarrow> (capability \<times> task_request) res" where
  "admitted discover build a descriptor i body au key =
     res_bind (discover a descriptor) (\<lambda>c.
     res_bind (guard_authorize c (au_factory_capabilities au) (au_protected au) (au_approval_status au)
       (au_budget_available au)) (\<lambda>d.
     res_bind (raise_if (\<not> xd_allowed d) (PermissionError (xd_reason d))) (\<lambda>_.
     res_bind (build a i c body (au_factory_capabilities au) key) (\<lambda>r. Inr (c, r)))))"

definition call_mcp :: "adapter \<Rightarrow> transport \<Rightarrow> dict \<Rightarrow> call_ids \<Rightarrow> dict \<Rightarrow> authority \<Rightarrow> string option \<Rightarrow>
     (gateway, capability \<times> external_result) act" where
  "call_mcp a tp descriptor i arguments au key =
     act_bind (reading (\<lambda>_. admitted discover_tool build_tool_call a descriptor i arguments au key)) (\<lambda>(c, r).
     act_bind (gw_trace (ci_mission_id i) ''interop.request_dispatched'' (dispatch_trace ''MCP'' a tp i c r)) (\<lambda>_.
     act_bind (gw_invoke tp r) (\<lambda>raw.
     act_bind (reading (\<lambda>_. raw_result ''result_type'' ''malformed MCP transport result'' raw)) (\<lambda>(state, payload).
     act_bind (reading (\<lambda>_. translate_tool_result a r state payload)) (\<lambda>s.
     act_bind (gw_trace (ci_mission_id i) ''interop.result_received'' (result_trace ''MCP'' s)) (\<lambda>_.
     act_return (c, s)))))))"

definition delegate_a2a :: "adapter \<Rightarrow> transport \<Rightarrow> dict \<Rightarrow> call_ids \<Rightarrow> dict \<Rightarrow> authority \<Rightarrow> string option \<Rightarrow>
     (gateway, capability \<times> external_result) act" where
  "delegate_a2a a tp descriptor i message au key =
     act_bind (reading (\<lambda>_. admitted discover_skill build_task a descriptor i message au key)) (\<lambda>(c, r).
     act_bind (gw_trace (ci_mission_id i) ''interop.request_dispatched'' (dispatch_trace ''A2A'' a tp i c r)) (\<lambda>_.
     act_bind (gw_invoke tp r) (\<lambda>raw.
     act_bind (reading (\<lambda>_. raw_result ''task_state'' ''malformed A2A transport result'' raw)) (\<lambda>(state, payload).
     act_bind (reading (\<lambda>_. translate_task_result a r state payload)) (\<lambda>s.
     act_bind (gw_trace (ci_mission_id i) ''interop.result_received'' (result_trace ''A2A'' s)) (\<lambda>_.
     act_return (c, s)))))))"

text \<open>The in-memory transport of the qualification fixtures.\<close>

definition in_memory_transport :: "string \<Rightarrow> dict list \<Rightarrow> (string \<times> dict) list \<Rightarrow> transport res" where
  "in_memory_transport i descriptors results =
     res_bind (raise_if (blank i) (ValueError ''transport_id is required'')) (\<lambda>_.
     Inr \<lparr>tp_transport_id = i, tp_discover = descriptors, tp_invoke = (\<lambda>r.
       res_bind (request_validate r) (\<lambda>_.
       fetch (KeyError [''no fixture result for capability:'' @ xr_capability_id r])
         (map_of results (xr_capability_id r))))\<rparr>)"

section \<open>The bridge into reliability\<close>

definition attempt_from_result :: "operation_spec \<Rightarrow> capability \<Rightarrow> external_result \<Rightarrow> int \<Rightarrow> bool \<Rightarrow> attempt_record res" where
  "attempt_from_result op c s n retryable =
     res_bind (checks [
       operation_validate op, capability_validate c, result_validate s,
       raise_if (xc_effect_class c \<noteq> op_effect_class op)
         (ValueError ''external capability effect_class does not match operation''),
       raise_if (xs_status s = ''INPUT_REQUIRED'')
         (RuntimeError ''input-required result is not an execution attempt outcome'')]) (\<lambda>_.
     res_bind (fetch (KeyError [xs_status s]) (map_of [(''SUCCEEDED'', ''SUCCESS''),
         (''FAILED'', if retryable then ''RETRYABLE_FAILURE'' else ''TERMINAL_FAILURE''),
         (''UNKNOWN'', ''UNKNOWN'')] (xs_status s))) (\<lambda>outcome.
     let a = \<lparr>at_operation_id = op_operation_id op, at_attempt = n, at_outcome = outcome,
           at_error_code = (if xs_status s = ''FAILED'' then Some ''EXTERNAL_PROTOCOL_FAILURE'' else None),
           at_reconciliation_result = None\<rparr> in
     res_bind (attempt_validate a) (\<lambda>_. Inr a)))"

definition bridge_decide :: "operation_spec \<Rightarrow> capability \<Rightarrow> external_result \<Rightarrow> int \<Rightarrow> bool \<Rightarrow> recovery_decision res" where
  "bridge_decide op c s n retryable =
     res_bind (attempt_from_result op c s n retryable) (\<lambda>a. decide op a None)"

section \<open>The contract of a boundary translator\<close>

text \<open>What a caller must hold for a capability.\<close>

definition entitled :: "capability \<Rightarrow> authority \<Rightarrow> string option \<Rightarrow> bool" where
  "entitled c au key \<longleftrightarrow> xc_required_factory_capability c \<in> set (au_factory_capabilities au) \<and>
     au_budget_available au \<and> (au_protected au \<longrightarrow> au_approval_status au = Some ''APPROVED'') \<and>
     (xc_effect_class c = ''EXTERNAL_WRITE'' \<longrightarrow> \<not> blank_opt key)"

locale boundary =
  fixes discover :: "adapter \<Rightarrow> dict \<Rightarrow> capability res"
    and build :: "adapter \<Rightarrow> call_ids \<Rightarrow> capability \<Rightarrow> dict \<Rightarrow> string list \<Rightarrow> string option \<Rightarrow> task_request res"
  assumes discover_own: "discover a d = Inr c \<Longrightarrow>
      capability_validate c = Inr () \<and> xc_provenance c = adapter_provenance a"
    and build_bounded: "build a i c body caps key = Inr r \<Longrightarrow>
      xc_required_factory_capability c \<in> set caps \<and>
      (xc_effect_class c = ''EXTERNAL_WRITE'' \<longrightarrow> \<not> blank_opt key) \<and>
      request_validate r = Inr () \<and> xr_capability_id r = xc_capability_id c \<and>
      xr_request_id r = ci_request_id i \<and> xr_correlation_id r = ci_correlation_id i \<and>
      xr_mission_id r = ci_mission_id i \<and> xr_provenance r = adapter_provenance a"
begin

lemma admitted_entitled:
  assumes "admitted discover build a d i body au key = Inr (c, r)"
  shows "discover a d = Inr c" "entitled c au key" "request_validate r = Inr ()"
    "xr_capability_id r = xc_capability_id c" "xr_request_id r = ci_request_id i"
    "xr_correlation_id r = ci_correlation_id i" "xr_mission_id r = ci_mission_id i"
    "pv_trust_level (xr_provenance r) = ''UNTRUSTED_EXTERNAL''"
proof -
  from assms obtain dec where dec: "discover a d = Inr c"
    "guard_authorize c (au_factory_capabilities au) (au_protected au) (au_approval_status au)
       (au_budget_available au) = Inr dec" "xd_allowed dec"
    "build a i c body (au_factory_capabilities au) key = Inr r"
    by (auto simp: admitted_def)
  from dec(2,3) have "au_budget_available au" "au_protected au \<longrightarrow> au_approval_status au = Some ''APPROVED''"
    by (auto simp: guard_authorize_def engine_authorize_def Let_def split: if_splits)
  with dec(1) build_bounded [OF dec(4)]
  show "discover a d = Inr c" "entitled c au key" "request_validate r = Inr ()"
    "xr_capability_id r = xc_capability_id c" "xr_request_id r = ci_request_id i"
    "xr_correlation_id r = ci_correlation_id i" "xr_mission_id r = ci_mission_id i"
    "pv_trust_level (xr_provenance r) = ''UNTRUSTED_EXTERNAL''"
    by (simp_all add: entitled_def adapter_provenance_def)
qed

end

lemma build_request_bounded:
  assumes "build_request kind name_key body_key err a i c body caps key = Inr r"
  shows "xc_required_factory_capability c \<in> set caps \<and>
      (xc_effect_class c = ''EXTERNAL_WRITE'' \<longrightarrow> \<not> blank_opt key) \<and>
      request_validate r = Inr () \<and> xr_capability_id r = xc_capability_id c \<and>
      xr_request_id r = ci_request_id i \<and> xr_correlation_id r = ci_correlation_id i \<and>
      xr_mission_id r = ci_mission_id i \<and> xr_provenance r = adapter_provenance a"
proof -
  from assms obtain d where d: "authorize_capability a c caps = Inr d" "xd_allowed d"
    and rest: "xc_effect_class c = ''EXTERNAL_WRITE'' \<longrightarrow> \<not> blank_opt key" "request_validate r = Inr ()"
      "r = \<lparr>xr_request_id = ci_request_id i, xr_correlation_id = ci_correlation_id i,
           xr_mission_id = ci_mission_id i, xr_kind = kind, xr_capability_id = xc_capability_id c,
           xr_payload = [(name_key, JStr (xc_name c)), (body_key, JObj body)],
           xr_idempotency_key = key, xr_provenance = adapter_provenance a\<rparr>"
    by (auto simp: build_request_def Let_def)
  from d have "xc_required_factory_capability c \<in> set caps"
    by (auto simp: authorize_capability_def Let_def split: if_splits)
  with rest show ?thesis by simp
qed

interpretation mcp: boundary discover_tool build_tool_call
proof unfold_locales
  show "discover_tool a d = Inr c \<Longrightarrow> capability_validate c = Inr () \<and> xc_provenance c = adapter_provenance a"
    for a d c by (auto simp: discover_tool_def Let_def)
qed (auto simp: build_tool_call_def dest!: build_request_bounded)

interpretation a2a: boundary discover_skill build_task
proof unfold_locales
  show "discover_skill a d = Inr c \<Longrightarrow> capability_validate c = Inr () \<and> xc_provenance c = adapter_provenance a"
    for a d c by (auto simp: discover_skill_def Let_def)
qed (auto simp: build_task_def dest!: build_request_bounded)

section \<open>Gateway calls\<close>

definition dispatched :: "gateway \<Rightarrow> string \<Rightarrow> dict \<Rightarrow> gateway" where
  "dispatched g m payload = (if gw_sink g
     then g\<lparr>gw_traces := gw_traces g @ [(m, ''interop.request_dispatched'', payload)]\<rparr> else g)"

lemma gw_trace_apply: "gw_trace m e p g = ((if gw_sink g
     then g\<lparr>gw_traces := gw_traces g @ [(m, e, p)]\<rparr> else g), Inr ())"
  by (simp add: gw_trace_def transaction_def)

text \<open>Either nothing happened, or exactly the one admitted request was sent, traced first.\<close>

lemma call_mcp_sent:
  "gw_sent (fst (call_mcp a tp d i args au key g)) =
     (case admitted discover_tool build_tool_call a d i args au key of
        Inl _ \<Rightarrow> gw_sent g | Inr (c, r) \<Rightarrow> gw_sent g @ [r])"
  by (auto simp: call_mcp_def act_bind_apply gw_trace_apply gw_invoke_def
      split: sum.splits prod.splits)

lemma delegate_a2a_sent:
  "gw_sent (fst (delegate_a2a a tp d i msg au key g)) =
     (case admitted discover_skill build_task a d i msg au key of
        Inl _ \<Rightarrow> gw_sent g | Inr (c, r) \<Rightarrow> gw_sent g @ [r])"
  by (auto simp: delegate_a2a_def act_bind_apply gw_trace_apply gw_invoke_def
      split: sum.splits prod.splits)

lemma call_mcp_denied:
  "admitted discover_tool build_tool_call a d i args au key = Inl e \<Longrightarrow> call_mcp a tp d i args au key g = (g, Inl e)"
  by (simp add: call_mcp_def act_bind_apply)

lemma delegate_a2a_denied:
  "admitted discover_skill build_task a d i msg au key = Inl e \<Longrightarrow> delegate_a2a a tp d i msg au key g = (g, Inl e)"
  by (simp add: delegate_a2a_def act_bind_apply)

lemma translate_with_Inr:
  "translate_with sm cp a r state payload = Inr s \<Longrightarrow>
     xs_request_id s = xr_request_id r \<and> xs_correlation_id s = xr_correlation_id r \<and>
     map_of sm state = Some (xs_status s) \<and> xs_payload s = payload \<and> xs_provenance s = adapter_provenance a \<and>
     result_validate s = Inr ()"
  by (auto simp: translate_with_def Let_def)

lemma call_mcp_Inr:
  assumes "call_mcp a tp d i args au key g = (g', Inr (c, s))"
  shows "discover_tool a d = Inr c \<and> entitled c au key \<and> xs_request_id s = ci_request_id i \<and>
     xs_correlation_id s = ci_correlation_id i \<and>
     pv_trust_level (xs_provenance s) = ''UNTRUSTED_EXTERNAL'' \<and> result_validate s = Inr ()"
proof -
  from assms obtain r state payload where adm: "admitted discover_tool build_tool_call a d i args au key = Inr (c, r)"
    and s: "translate_tool_result a r state payload = Inr s"
    by (auto simp: call_mcp_def act_bind_Inr gw_invoke_def)
  from s have "translate_with [(''success'', ''SUCCEEDED''), (''error'', ''FAILED''),
     (''input_required'', ''INPUT_REQUIRED''), (''unknown'', ''UNKNOWN'')] ''unsupported MCP result_type:'' a r state payload = Inr s"
    by (simp add: translate_tool_result_def)
  with mcp.admitted_entitled [OF adm] translate_with_Inr [OF this] show ?thesis
    by (simp add: adapter_provenance_def)
qed

lemma delegate_a2a_Inr:
  assumes "delegate_a2a a tp d i msg au key g = (g', Inr (c, s))"
  shows "discover_skill a d = Inr c \<and> entitled c au key \<and> xs_request_id s = ci_request_id i \<and>
     xs_correlation_id s = ci_correlation_id i \<and>
     pv_trust_level (xs_provenance s) = ''UNTRUSTED_EXTERNAL'' \<and> result_validate s = Inr ()"
proof -
  from assms obtain r state payload where adm: "admitted discover_skill build_task a d i msg au key = Inr (c, r)"
    and s: "translate_task_result a r state payload = Inr s"
    by (auto simp: delegate_a2a_def act_bind_Inr gw_invoke_def)
  from s have "translate_with [(''completed'', ''SUCCEEDED''), (''failed'', ''FAILED''),
     (''input-required'', ''INPUT_REQUIRED''), (''unknown'', ''UNKNOWN'')] ''unsupported A2A task state:'' a r state payload = Inr s"
    by (simp add: translate_task_result_def)
  with a2a.admitted_entitled [OF adm] translate_with_Inr [OF this] show ?thesis
    by (simp add: adapter_provenance_def)
qed

section \<open>Sessions of gateway calls\<close>

text \<open>A call of the gateway with everything its caller passes.\<close>

datatype gateway_call =
    CallMcp adapter transport dict call_ids dict authority "string option"
  | DelegateA2a adapter transport dict call_ids dict authority "string option"

fun gateway_step :: "gateway_call \<Rightarrow> gateway \<Rightarrow> gateway" where
  "gateway_step (CallMcp a tp d i args au key) g = fst (call_mcp a tp d i args au key g)"
| "gateway_step (DelegateA2a a tp d i msg au key) g = fst (delegate_a2a a tp d i msg au key g)"

fun gateway_run :: "gateway_call list \<Rightarrow> gateway \<Rightarrow> gateway" where
  "gateway_run [] g = g"
| "gateway_run (c # cs) g = gateway_run cs (gateway_step c g)"

text \<open>The request a call may send: its capability was discovered from the descriptor of the call, its
  caller is entitled to it, and it carries the identifiers of the call.\<close>

definition request_of :: "capability \<Rightarrow> call_ids \<Rightarrow> authority \<Rightarrow> string option \<Rightarrow> task_request \<Rightarrow> bool" where
  "request_of c i au key r \<longleftrightarrow> entitled c au key \<and> request_validate r = Inr () \<and>
     xr_capability_id r = xc_capability_id c \<and> xr_request_id r = ci_request_id i \<and>
     xr_correlation_id r = ci_correlation_id i \<and> xr_mission_id r = ci_mission_id i \<and>
     pv_trust_level (xr_provenance r) = ''UNTRUSTED_EXTERNAL''"

fun justifies :: "gateway_call \<Rightarrow> task_request \<Rightarrow> bool" where
  "justifies (CallMcp a tp d i args au key) r = (\<exists>c. discover_tool a d = Inr c \<and> request_of c i au key r)"
| "justifies (DelegateA2a a tp d i msg au key) r = (\<exists>c. discover_skill a d = Inr c \<and> request_of c i au key r)"

text \<open>The identifiers of the requests the trace shows as dispatched.\<close>

definition traced_requests :: "gateway \<Rightarrow> (string \<times> json option) list" where
  "traced_requests g = [(m, map_of p ''request_id''). (m, e, p) \<leftarrow> gw_traces g, e = ''interop.request_dispatched'']"

definition sent_requests :: "gateway \<Rightarrow> (string \<times> json option) list" where
  "sent_requests g = map (\<lambda>r. (xr_mission_id r, Some (JStr (xr_request_id r)))) (gw_sent g)"

definition gateway_grows :: "gateway_call \<Rightarrow> gateway \<Rightarrow> gateway \<Rightarrow> bool" where
  "gateway_grows call g g' \<longleftrightarrow> gw_sink g' = gw_sink g \<and>
     (gw_sent g' = gw_sent g \<and> gw_traces g' = gw_traces g \<or>
      (\<exists>r. justifies call r \<and> gw_sent g' = gw_sent g @ [r] \<and>
         (gw_sink g \<longrightarrow> traced_requests g' = traced_requests g @ [(xr_mission_id r, Some (JStr (xr_request_id r)))])))"

lemma call_mcp_grows: "gateway_grows (CallMcp a tp d i args au key) g (fst (call_mcp a tp d i args au key g))"
proof (cases "admitted discover_tool build_tool_call a d i args au key")
  case (Inl e)
  then show ?thesis by (simp add: gateway_grows_def call_mcp_denied)
next
  case (Inr cr)
  obtain c r where cr: "cr = (c, r)" by (cases cr)
  note adm = mcp.admitted_entitled [OF Inr [unfolded cr]]
  have "justifies (CallMcp a tp d i args au key) r" using adm by (simp add: request_of_def)
  moreover have "gw_sent (fst (call_mcp a tp d i args au key g)) = gw_sent g @ [r]"
    by (simp add: call_mcp_sent Inr cr)
  moreover have "gw_sink (fst (call_mcp a tp d i args au key g)) = gw_sink g \<and>
      (gw_sink g \<longrightarrow> traced_requests (fst (call_mcp a tp d i args au key g)) =
         traced_requests g @ [(ci_mission_id i, Some (JStr (ci_request_id i)))])"
    by (auto simp: call_mcp_def act_bind_apply gw_trace_apply gw_invoke_def Inr cr traced_requests_def dispatch_trace_def
        split: sum.splits prod.splits)
  ultimately show ?thesis unfolding gateway_grows_def using adm(5,7) by metis
qed

lemma delegate_a2a_grows:
  "gateway_grows (DelegateA2a a tp d i msg au key) g (fst (delegate_a2a a tp d i msg au key g))"
proof (cases "admitted discover_skill build_task a d i msg au key")
  case (Inl e)
  then show ?thesis by (simp add: gateway_grows_def delegate_a2a_denied)
next
  case (Inr cr)
  obtain c r where cr: "cr = (c, r)" by (cases cr)
  note adm = a2a.admitted_entitled [OF Inr [unfolded cr]]
  have "justifies (DelegateA2a a tp d i msg au key) r" using adm by (simp add: request_of_def)
  moreover have "gw_sent (fst (delegate_a2a a tp d i msg au key g)) = gw_sent g @ [r]"
    by (simp add: delegate_a2a_sent Inr cr)
  moreover have "gw_sink (fst (delegate_a2a a tp d i msg au key g)) = gw_sink g \<and>
      (gw_sink g \<longrightarrow> traced_requests (fst (delegate_a2a a tp d i msg au key g)) =
         traced_requests g @ [(ci_mission_id i, Some (JStr (ci_request_id i)))])"
    by (auto simp: delegate_a2a_def act_bind_apply gw_trace_apply gw_invoke_def Inr cr traced_requests_def dispatch_trace_def
        split: sum.splits prod.splits)
  ultimately show ?thesis unfolding gateway_grows_def using adm(5,7) by metis
qed

lemma gateway_step_grows: "gateway_grows call g (gateway_step call g)"
  by (cases call) (simp_all only: gateway_step.simps call_mcp_grows delegate_a2a_grows)

definition gateway_ok :: "gateway_call list \<Rightarrow> gateway \<Rightarrow> bool" where
  "gateway_ok calls g \<longleftrightarrow> (\<forall>r \<in> set (gw_sent g). \<exists>call \<in> set calls. justifies call r) \<and>
     (gw_sink g \<longrightarrow> traced_requests g = sent_requests g)"

lemma gateway_grows_ok: "gateway_grows call g g' \<Longrightarrow> gateway_ok calls g \<Longrightarrow> gateway_ok (calls @ [call]) g'"
  unfolding gateway_grows_def by (elim conjE disjE exE) (auto simp: gateway_ok_def sent_requests_def traced_requests_def)

lemma gateway_run_ok: "gateway_ok before g \<Longrightarrow> gateway_ok (before @ calls) (gateway_run calls g)"
proof (induction calls arbitrary: before g)
  case (Cons call calls)
  from Cons.IH [OF gateway_grows_ok [OF gateway_step_grows Cons.prems]] show ?case by simp
qed simp

text \<open>C22. In any session of MCP and A2A calls the gateway sends a transport only requests that one of the
  calls justifies: the capability is the one discovered from the descriptor of the call, the caller holds
  the required capability, budget, approval and idempotency key, and the request is valid, carries the
  identifiers of the call and is marked as untrusted. With a trace sink every request is traced as
  dispatched, in the order sent.\<close>

theorem sent_requests_are_entitled:
  fixes calls sink
  defines "g \<equiv> gateway_run calls \<lparr>gw_sink = sink, gw_traces = [], gw_sent = []\<rparr>"
  shows "(\<forall>r \<in> set (gw_sent g). \<exists>call \<in> set calls. justifies call r) \<and>
     (gw_sink g \<longrightarrow> traced_requests g = sent_requests g)"
proof -
  have "gateway_ok [] \<lparr>gw_sink = sink, gw_traces = [], gw_sent = []\<rparr>"
    by (simp add: gateway_ok_def traced_requests_def sent_requests_def)
  from gateway_run_ok [OF this, of calls] show ?thesis by (simp add: g_def gateway_ok_def)
qed

definition example_adapter :: adapter where
  "example_adapter = \<lparr>xa_protocol = ''MCP'', xa_endpoint_id = ''E'', xa_protocol_version = ''2026-07-28''\<rparr>"

definition example_tool :: dict where
  "example_tool = [(''name'', JStr ''mail''), (''required_factory_capability'', JStr ''send''),
     (''effect_class'', JStr ''EXTERNAL_WRITE'')]"

definition example_transport :: transport where
  "example_transport = \<lparr>tp_transport_id = ''T'', tp_discover = [example_tool],
     tp_invoke = (\<lambda>_. Inr [(''result_type'', JStr ''success''), (''payload'', JObj [])])\<rparr>"

definition example_ids :: "string \<Rightarrow> call_ids" where
  "example_ids r = \<lparr>ci_request_id = r, ci_correlation_id = ''C'', ci_mission_id = ''M''\<rparr>"

definition example_authority :: "string list \<Rightarrow> authority" where
  "example_authority caps = \<lparr>au_factory_capabilities = caps, au_protected = True,
     au_approval_status = Some ''APPROVED'', au_budget_available = True\<rparr>"

text \<open>One entitled call, one without a key and one without the capability.\<close>

definition gateway_session :: "gateway_call list" where
  "gateway_session = [
     CallMcp example_adapter example_transport example_tool (example_ids ''R1'') [] (example_authority [''send'']) (Some ''k''),
     CallMcp example_adapter example_transport example_tool (example_ids ''R2'') [] (example_authority [''send'']) None,
     CallMcp example_adapter example_transport example_tool (example_ids ''R3'') [] (example_authority []) (Some ''k'')]"

lemmas gateway_eval = call_mcp_sent admitted_def discover_tool_def
  required_str_def effect_class_of_def capability_validate_def provenance_validate_def adapter_provenance_def
  guard_authorize_def engine_authorize_def build_tool_call_def build_request_def authorize_capability_def
  capability_decision_validate_def request_validate_def blank_opt_def is_space_def Let_def

theorem sent_requests_are_entitled_witness:
  "\<exists>r. gw_sent (gateway_run gateway_session \<lparr>gw_sink = True, gw_traces = [], gw_sent = []\<rparr>) = [r] \<and>
     xr_request_id r = ''R1'' \<and> (\<exists>call \<in> set gateway_session. justifies call r)"
proof -
  have "\<exists>r. gw_sent (gateway_run gateway_session \<lparr>gw_sink = True, gw_traces = [], gw_sent = []\<rparr>) = [r] \<and>
     xr_request_id r = ''R1''"
    by (simp add: gateway_session_def example_adapter_def example_transport_def example_tool_def example_ids_def
        example_authority_def gateway_eval)
  with sent_requests_are_entitled [of gateway_session True] show ?thesis by force
qed

section \<open>The bridge\<close>

lemma attempt_from_result_Inr:
  "attempt_from_result op c s n retryable = Inr a \<Longrightarrow>
     operation_validate op = Inr () \<and> attempt_validate a = Inr () \<and> at_operation_id a = op_operation_id op \<and>
     at_attempt a = n \<and> at_reconciliation_result a = None \<and>
     (at_outcome a = ''SUCCESS'' \<longleftrightarrow> xs_status s = ''SUCCEEDED'') \<and>
     (at_outcome a = ''UNKNOWN'' \<longleftrightarrow> xs_status s = ''UNKNOWN'') \<and>
     (at_outcome a = ''RETRYABLE_FAILURE'' \<longleftrightarrow> xs_status s = ''FAILED'' \<and> retryable)"
  by (auto simp: attempt_from_result_def Let_def split: if_splits)

lemma bridge_unknown_write:
  assumes "bridge_decide op c s n retryable = Inr d" "xs_status s = ''UNKNOWN''"
    "xc_effect_class c = ''EXTERNAL_WRITE''"
  shows "rd_action d = ''RECONCILE''"
proof -
  from assms obtain a where a: "attempt_from_result op c s n retryable = Inr a" "decide op a (Some default_circuit) = Inr d"
    by (auto simp: bridge_decide_def decide_None)
  then have "op_effect_class op = ''EXTERNAL_WRITE''"
    using assms(3) by (auto simp: attempt_from_result_def)
  with attempt_from_result_Inr [OF a(1)] decide_valid(3) [OF a(2)] assms(2) show ?thesis
    by (simp add: action_of_def default_circuit_def)
qed

end
