(* ===== verification/Pods.thy ===== *)
theory Pods
  imports Catalog Json
begin

text \<open>
  What the worker pods share (factory/design_pod, factory/engineering_pod, factory/assurance_pod):
  findings, calls of workers, publication of an artifact in the catalog. Workers are not part of
  the repository: they are actions on a world of any type \<open>'w\<close>, so they may keep state, answer
  differently each time and raise. The clock is read from the same world. A pod works on the
  world and on its catalog, which is \<open>None\<close> when the coordinator was built without one.
\<close>

section \<open>Findings\<close>

record finding =
  fd_code :: string
  fd_severity :: string
  fd_message :: string
  fd_subject_id :: "string option"

definition blocking_finding :: "string \<Rightarrow> string \<Rightarrow> string option \<Rightarrow> finding" where
  "blocking_finding code message subject = \<lparr>fd_code = code, fd_severity = ''BLOCKING'', fd_message = message,
     fd_subject_id = subject\<rparr>"

definition is_blocking :: "finding \<Rightarrow> bool" where
  "is_blocking f = (fd_severity f = ''BLOCKING'')"

lemma is_blocking_simps [simp]:
  "is_blocking (blocking_finding code message subject)"
  "fd_code (blocking_finding code message subject) = code"
  by (simp_all add: is_blocking_def blocking_finding_def)

definition blocking :: "finding list \<Rightarrow> finding list" where
  "blocking fs = filter is_blocking fs"

lemma blocking_append [simp]: "blocking (xs @ ys) = blocking xs @ blocking ys"
  by (simp add: blocking_def)

lemma blocking_all: "list_all is_blocking fs \<Longrightarrow> blocking fs = fs"
  by (simp add: blocking_def list_all_iff)

lemma blocking_concat [simp]: "blocking (concat fss) = concat (map blocking fss)"
  unfolding blocking_def by (induction fss) simp_all

text \<open>One finding per offending item of a list, in the order of the list.\<close>

definition report_each :: "('a \<Rightarrow> bool) \<Rightarrow> ('a \<Rightarrow> finding) \<Rightarrow> 'a list \<Rightarrow> finding list" where
  "report_each bad describe xs = map describe (filter bad xs)"

lemma report_each_Nil [simp]: "report_each bad describe [] = []"
  by (simp add: report_each_def)

lemma report_each_Cons [simp]:
  "report_each bad describe (x # xs) = (if bad x then [describe x] else []) @ report_each bad describe xs"
  by (simp add: report_each_def)

lemma report_each_eq_Nil [simp]: "report_each bad describe xs = [] \<longleftrightarrow> (\<forall>x \<in> set xs. \<not> bad x)"
  by (auto simp: report_each_def filter_empty_conv)

lemma report_each_blocking [simp]:
  "(\<And>x. is_blocking (describe x)) \<Longrightarrow> list_all is_blocking (report_each bad describe xs)"
  by (induction xs) simp_all

definition report_if :: "bool \<Rightarrow> finding \<Rightarrow> finding list" where
  "report_if b f = (if b then [f] else [])"

lemma report_if_eq_Nil [simp]: "report_if b f = [] \<longleftrightarrow> \<not> b"
  by (simp add: report_if_def)

lemma report_if_blocking [simp]: "is_blocking f \<Longrightarrow> list_all is_blocking (report_if b f)"
  by (simp add: report_if_def)

lemma list_all_True [simp]: "list_all (\<lambda>_. True) xs"
  by (simp add: list_all_iff)

lemma list_all_concat [simp]: "list_all P (concat xss) \<longleftrightarrow> list_all (list_all P) xss"
  by (induction xss) simp_all

lemma set_blocking: "set (blocking fs) = {f \<in> set fs. is_blocking f}"
  by (simp add: blocking_def)

text \<open>The codes of findings, as an exception message lists them.\<close>

definition codes_of :: "finding list \<Rightarrow> string" where
  "codes_of fs = join '','' (map fd_code fs)"

text \<open>\<open>dict.fromkeys\<close>: the first occurrence of each item.\<close>

definition first_occurrences :: "'a list \<Rightarrow> 'a list" where
  "first_occurrences xs = rev (remdups (rev xs))"

lemma set_first_occurrences [simp]: "set (first_occurrences xs) = set xs"
  by (simp add: first_occurrences_def)

section \<open>Workers, the world and the catalog\<close>

type_synonym 'w pod_state = "'w \<times> catalog option"

definition act_res :: "'a res \<Rightarrow> ('s, 'a) act" where
  "act_res r = reading (\<lambda>_. r)"

lemma act_res_apply [simp]: "act_res r s = (s, r)"
  by (simp add: act_res_def)

definition ask :: "('w, 'a) act \<Rightarrow> ('w pod_state, 'a) act" where
  "ask m = (\<lambda>(w, c). case m w of (w', r) \<Rightarrow> ((w', c), r))"

definition publish :: "(string \<Rightarrow> string) \<Rightarrow> ('w \<Rightarrow> 'w \<times> string) \<Rightarrow> string \<Rightarrow> string \<Rightarrow> string \<Rightarrow> string \<Rightarrow> string \<Rightarrow>
     ('w pod_state, unit) act" where
  "publish sha clock mission_id artifact_id content created_by media_type = (\<lambda>(w, c). case c of
     None \<Rightarrow> ((w, None), Inr ())
   | Some k \<Rightarrow> (case clock w of (w', now) \<Rightarrow>
       (case add_artifact sha now mission_id artifact_id content created_by media_type k of
          Inl e \<Rightarrow> ((w', Some k), Inl e)
        | Inr (k', row) \<Rightarrow> ((w', Some k'), Inr ()))))"

text \<open>What a successful publication does to a catalog: one more version, holding the content.\<close>

definition published :: "(string \<Rightarrow> string) \<Rightarrow> string \<Rightarrow> string \<Rightarrow> string \<Rightarrow> catalog \<Rightarrow> catalog \<Rightarrow> bool" where
  "published sha m a content k k' \<longleftrightarrow> (\<exists>now author mt row.
     add_artifact sha now m a content author mt k = Inr (k', row))"

definition published_opt :: "(string \<Rightarrow> string) \<Rightarrow> string \<Rightarrow> string \<Rightarrow> string \<Rightarrow> catalog option \<Rightarrow> catalog option \<Rightarrow> bool" where
  "published_opt sha m a content c c' = (case c of None \<Rightarrow> c' = None
     | Some k \<Rightarrow> (\<exists>k'. c' = Some k' \<and> published sha m a content k k'))"

lemma ask_Inr: "ask m s = (s', Inr x) \<longleftrightarrow> m (fst s) = (fst s', Inr x) \<and> snd s' = snd s"
  by (cases s; cases s') (auto simp: ask_def split: prod.splits)

lemma ask_catalog [simp]: "snd (fst (ask m s)) = snd s"
  by (cases s) (simp add: ask_def split: prod.splits)

lemma publish_Inr:
  "publish sha clock m a content author mt s = (s', Inr u) \<Longrightarrow> published_opt sha m a content (snd s) (snd s')"
  by (cases s) (fastforce simp: publish_def published_opt_def published_def split: option.splits prod.splits sum.splits)

lemma publish_Inl: "publish sha clock m a content author mt s = (s', Inl e) \<Longrightarrow> snd s' = snd s"
  by (cases s) (auto simp: publish_def split: option.splits prod.splits sum.splits)

text \<open>Actions that leave the catalog alone.\<close>

definition keeps_catalog :: "('w pod_state, 'a) act \<Rightarrow> bool" where
  "keeps_catalog m \<longleftrightarrow> (\<forall>s. snd (fst (m s)) = snd s)"

lemma keeps_catalogD: "keeps_catalog m \<Longrightarrow> m s = (s', r) \<Longrightarrow> snd s' = snd s"
  by (metis fst_conv keeps_catalog_def)

lemma keeps_catalog_basic [intro, simp]:
  "keeps_catalog (ask m)" "keeps_catalog (act_res r)" "keeps_catalog (act_return x)"
  by (simp_all add: keeps_catalog_def)

lemma keeps_catalog_bind [intro]:
  "keeps_catalog m \<Longrightarrow> (\<And>x. keeps_catalog (f x)) \<Longrightarrow> keeps_catalog (act_bind m f)"
  by (auto simp: keeps_catalog_def act_bind_apply simp del: split_paired_All split: sum.splits)

text \<open>What a published artifact reads back as.\<close>

lemma published_ok: "published sha m a content k k' \<Longrightarrow> catalog_ok sha k \<Longrightarrow> catalog_ok sha k'"
  unfolding published_def by (blast intro: add_artifact_ok)

lemma published_latest:
  assumes "published sha m a content k k'" "catalog_ok sha k"
  shows "\<exists>row. latest_artifact m a k' = Inr row \<and> af_content_text row = content \<and> af_content_hash row = sha content"
proof -
  obtain now author mt row where add: "add_artifact sha now m a content author mt k = Inr (k', row)"
    using assms(1) by (auto simp: published_def)
  have "latest_artifact m a k' = Inr row" using latest_added [OF assms(2) add] by blast
  with add show ?thesis by (auto simp: add_artifact_Inr)
qed

text \<open>The catalog invariant through a run of a pod.\<close>

definition catalog_sound :: "(string \<Rightarrow> string) \<Rightarrow> 'w pod_state \<Rightarrow> bool" where
  "catalog_sound sha s = (case snd s of None \<Rightarrow> True | Some k \<Rightarrow> catalog_ok sha k)"

lemma keeps_catalog_sound: "keeps_catalog m \<Longrightarrow> preserves (catalog_sound sha) m"
  by (simp add: preserves_def keeps_catalog_def catalog_sound_def)

lemma preserves_publish [intro, simp]: "preserves (catalog_sound sha) (publish sha clock m a content author mt)"
  unfolding preserves_def catalog_sound_def publish_def
  by (auto split: option.splits prod.splits sum.splits intro: add_artifact_ok)

lemma publish_latest:
  assumes "publish sha clock m a content author mt s = (s', Inr u)" "catalog_sound sha s" "snd s = Some k"
  shows "\<exists>k' row. snd s' = Some k' \<and> latest_artifact m a k' = Inr row \<and> af_content_text row = content"
  using publish_Inr [OF assms(1)] assms(2,3) published_latest
  by (fastforce simp: published_opt_def catalog_sound_def)

end
