(* ===== verification/Design_Pod.thy ===== *)
theory Design_Pod
  imports Pods
begin

text \<open>
  The design pod (factory/design_pod/): the design bundle and its contracts, the deterministic
  validator of cross-role output, and the coordinator that lets three workers propose and revise
  the bundle until the validator finds nothing blocking or the revision budget is spent.
\<close>

section \<open>Contracts\<close>

record requirement =
  rq_requirement_id :: string
  rq_statement :: string
  rq_priority :: string
  rq_source :: string

definition requirement_validate :: "requirement \<Rightarrow> unit res" where
  "requirement_validate r = checks [
     raise_if (rq_requirement_id r = [] \<or> rq_statement r = [])
       (ValueError ''requirement_id and statement are required''),
     raise_if (rq_priority r \<notin> {''MUST'', ''SHOULD'', ''COULD'', ''WONT''})
       (ValueError ''invalid requirement priority'')]"

record criterion =
  cr_criterion_id :: string
  cr_requirement_id :: string
  cr_statement :: string
  cr_verification_method :: string

definition criterion_validate :: "criterion \<Rightarrow> unit res" where
  "criterion_validate c = raise_if
     (\<not> list_all (\<lambda>v. v \<noteq> []) [cr_criterion_id c, cr_requirement_id c, cr_statement c, cr_verification_method c])
     (ValueError ''acceptance criterion required fields missing'')"

record arch_decision =
  ad_decision_id :: string
  ad_title :: string
  ad_decision :: string
  ad_rationale :: string
  ad_requirement_ids :: "string list"

definition arch_decision_validate :: "arch_decision \<Rightarrow> unit res" where
  "arch_decision_validate d = raise_if
     (\<not> list_all (\<lambda>v. v \<noteq> []) [ad_decision_id d, ad_title d, ad_decision d, ad_rationale d])
     (ValueError ''architecture decision required fields missing'')"

record ux_flow =
  uf_flow_id :: string
  uf_title :: string
  uf_actor :: string
  uf_steps :: "string list"
  uf_requirement_ids :: "string list"

definition ux_flow_validate :: "ux_flow \<Rightarrow> unit res" where
  "ux_flow_validate f = checks [
     raise_if (\<not> list_all (\<lambda>v. v \<noteq> []) [uf_flow_id f, uf_title f, uf_actor f])
       (ValueError ''ux flow required fields missing''),
     raise_if (uf_steps f = []) (ValueError ''ux flow requires at least one step'')]"

record design_bundle =
  dg_mission_id :: string
  dg_product_summary :: string
  dg_non_goals :: "string list"
  dg_requirements :: "requirement list"
  dg_acceptance_criteria :: "criterion list"
  dg_architecture_decisions :: "arch_decision list"
  dg_ux_flows :: "ux_flow list"
  dg_assumptions :: "string list"
  dg_risks :: "string list"

definition bundle_validate :: "design_bundle \<Rightarrow> unit res" where
  "bundle_validate b = checks [
     raise_if (dg_mission_id b = [] \<or> dg_product_summary b = [])
       (ValueError ''mission_id and product_summary are required''),
     raise_if (dg_requirements b = []) (ValueError ''design bundle requires at least one requirement''),
     check_all requirement_validate (dg_requirements b),
     check_all criterion_validate (dg_acceptance_criteria b),
     check_all arch_decision_validate (dg_architecture_decisions b),
     check_all ux_flow_validate (dg_ux_flows b)]"

section \<open>The validator\<close>

definition requirement_ids :: "design_bundle \<Rightarrow> string list" where
  "requirement_ids b = map rq_requirement_id (dg_requirements b)"

definition must_ids :: "design_bundle \<Rightarrow> string list" where
  "must_ids b = [rq_requirement_id r. r \<leftarrow> dg_requirements b, rq_priority r = ''MUST'']"

definition covered_by_acceptance :: "design_bundle \<Rightarrow> string list" where
  "covered_by_acceptance b =
     [cr_requirement_id c. c \<leftarrow> dg_acceptance_criteria b, cr_requirement_id c \<in> set (requirement_ids b)]"

definition design_covered :: "design_bundle \<Rightarrow> string list" where
  "design_covered b =
     concat (map ad_requirement_ids (dg_architecture_decisions b)) @ concat (map uf_requirement_ids (dg_ux_flows b))"

text \<open>The loops of the validator, one definition each.\<close>

definition product_findings :: "design_bundle \<Rightarrow> finding list" where
  "product_findings b =
     report_if (\<not> distinct (requirement_ids b))
       (blocking_finding ''DUPLICATE_REQUIREMENT_ID'' ''requirement IDs must be unique'' None) @
     report_if (\<not> distinct (map cr_criterion_id (dg_acceptance_criteria b)))
       (blocking_finding ''DUPLICATE_CRITERION_ID'' ''acceptance criterion IDs must be unique'' None) @
     report_each (\<lambda>c. cr_requirement_id c \<notin> set (requirement_ids b))
       (\<lambda>c. blocking_finding ''ORPHAN_ACCEPTANCE_CRITERION''
          (''criterion references unknown requirement '' @ cr_requirement_id c) (Some (cr_criterion_id c)))
       (dg_acceptance_criteria b) @
     report_each (\<lambda>r. rq_priority r = ''MUST'' \<and> rq_requirement_id r \<notin> set (covered_by_acceptance b))
       (\<lambda>r. blocking_finding ''MUST_WITHOUT_ACCEPTANCE_CRITERION''
          ''MUST requirement has no executable acceptance criterion'' (Some (rq_requirement_id r)))
       (dg_requirements b)"

definition architecture_findings :: "design_bundle \<Rightarrow> finding list" where
  "architecture_findings b = concat (map (\<lambda>d. report_each (\<lambda>i. i \<notin> set (requirement_ids b))
     (\<lambda>i. blocking_finding ''ARCHITECTURE_UNKNOWN_REQUIREMENT''
        (''architecture decision references unknown requirement '' @ i) (Some (ad_decision_id d)))
     (ad_requirement_ids d)) (dg_architecture_decisions b))"

definition ux_findings :: "design_bundle \<Rightarrow> finding list" where
  "ux_findings b = concat (map (\<lambda>f. report_each (\<lambda>i. i \<notin> set (requirement_ids b))
     (\<lambda>i. blocking_finding ''UX_UNKNOWN_REQUIREMENT''
        (''UX flow references unknown requirement '' @ i) (Some (uf_flow_id f)))
     (uf_requirement_ids f)) (dg_ux_flows b))"

definition coverage_findings :: "design_bundle \<Rightarrow> finding list" where
  "coverage_findings b = report_each (\<lambda>i. i \<notin> set (design_covered b))
     (\<lambda>i. blocking_finding ''MUST_WITHOUT_DESIGN_COVERAGE''
        ''MUST requirement is not covered by architecture or UX'' (Some i))
     (sorted_set (must_ids b))"

definition risk_findings :: "design_bundle \<Rightarrow> finding list" where
  "risk_findings b = report_if (dg_risks b = []) \<lparr>fd_code = ''NO_RISKS_RECORDED'', fd_severity = ''WARNING'',
     fd_message = ''design bundle records no material risks'', fd_subject_id = None\<rparr>"

definition design_validate :: "design_bundle \<Rightarrow> finding list res" where
  "design_validate b = res_bind (bundle_validate b) (\<lambda>_.
     Inr (product_findings b @ architecture_findings b @ ux_findings b @ coverage_findings b @ risk_findings b))"

definition is_build_ready :: "design_bundle \<Rightarrow> bool res" where
  "is_build_ready b = res_bind (design_validate b) (\<lambda>fs. Inr (\<not> list_ex is_blocking fs))"

text \<open>What the validator is for: traceability, stated without findings.\<close>

definition traceable :: "design_bundle \<Rightarrow> bool" where
  "traceable b \<longleftrightarrow>
     distinct (requirement_ids b) \<and> distinct (map cr_criterion_id (dg_acceptance_criteria b)) \<and>
     list_all (\<lambda>c. cr_requirement_id c \<in> set (requirement_ids b)) (dg_acceptance_criteria b) \<and>
     list_all (\<lambda>i. i \<in> set (requirement_ids b)) (design_covered b) \<and>
     list_all (\<lambda>i. i \<in> cr_requirement_id ` set (dg_acceptance_criteria b) \<and> i \<in> set (design_covered b)) (must_ids b)"

lemma all_findings_block:
  "list_all is_blocking (product_findings b @ architecture_findings b @ ux_findings b @ coverage_findings b)"
  by (simp add: product_findings_def architecture_findings_def ux_findings_def coverage_findings_def list.pred_map comp_def
      list_all_iff [of "\<lambda>_. True"])

lemma risk_findings_warn: "blocking (risk_findings b) = []"
  by (simp add: risk_findings_def report_if_def is_blocking_def blocking_def)

lemma design_validate_blocking:
  "design_validate b = Inr fs \<Longrightarrow>
     blocking fs = product_findings b @ architecture_findings b @ ux_findings b @ coverage_findings b"
  using blocking_all [OF all_findings_block, of b] by (auto simp: design_validate_def risk_findings_warn)

lemma must_covered_iff:
  "(\<forall>r \<in> set (dg_requirements b). rq_priority r = ''MUST'' \<longrightarrow> rq_requirement_id r \<in> X) \<longleftrightarrow> set (must_ids b) \<subseteq> X"
  by (auto simp: must_ids_def)

lemma no_findings_iff_traceable:
  "product_findings b @ architecture_findings b @ ux_findings b @ coverage_findings b = [] \<longleftrightarrow> traceable b"
proof -
  have must: "set (must_ids b) \<subseteq> set (requirement_ids b)" by (auto simp: must_ids_def requirement_ids_def)
  have cov: "set (covered_by_acceptance b) = cr_requirement_id ` set (dg_acceptance_criteria b) \<inter> set (requirement_ids b)"
    by (auto simp: covered_by_acceptance_def)
  have "product_findings b = [] \<longleftrightarrow> distinct (requirement_ids b) \<and>
     distinct (map cr_criterion_id (dg_acceptance_criteria b)) \<and>
     cr_requirement_id ` set (dg_acceptance_criteria b) \<subseteq> set (requirement_ids b) \<and>
     set (must_ids b) \<subseteq> set (covered_by_acceptance b)"
    by (auto simp: product_findings_def must_covered_iff [symmetric])
  moreover have "architecture_findings b @ ux_findings b = [] \<longleftrightarrow> set (design_covered b) \<subseteq> set (requirement_ids b)"
    by (auto simp: architecture_findings_def ux_findings_def design_covered_def)
  moreover have "coverage_findings b = [] \<longleftrightarrow> set (must_ids b) \<subseteq> set (design_covered b)"
    by (auto simp: coverage_findings_def)
  ultimately show ?thesis using must cov by (auto simp: traceable_def list_all_iff)
qed

lemma design_validate_Inr:
  "design_validate b = Inr fs \<Longrightarrow> bundle_validate b = Inr () \<and> (blocking fs = [] \<longleftrightarrow> traceable b)"
  using no_findings_iff_traceable [of b] design_validate_blocking [of b fs] by (auto simp: design_validate_def)

lemma is_build_ready_iff: "is_build_ready b = Inr True \<longleftrightarrow> bundle_validate b = Inr () \<and> traceable b"
proof -
  have "\<not> list_ex is_blocking fs \<longleftrightarrow> blocking fs = []" for fs
    by (auto simp: blocking_def list_ex_iff filter_empty_conv)
  moreover have "bundle_validate b = Inr () \<Longrightarrow> \<exists>fs. design_validate b = Inr fs" by (simp add: design_validate_def)
  ultimately show ?thesis using design_validate_Inr [of b] by (auto simp: is_build_ready_def)
qed

section \<open>The coordinator\<close>

record product_output =
  po_product_summary :: string
  po_non_goals :: "string list"
  po_requirements :: "requirement list"
  po_acceptance_criteria :: "criterion list"
  po_assumptions :: "string list"
  po_risks :: "string list"

record arch_output =
  ao_decisions :: "arch_decision list"
  ao_risks :: "string list"

record ux_output =
  uo_flows :: "ux_flow list"
  uo_risks :: "string list"

record revision_request =
  rv_round_number :: int
  rv_findings :: "finding list"

text \<open>The three workers. A worker that cannot revise has no revision method (\<open>None\<close>).\<close>

record 'w design_workers =
  dw_design_product :: "string \<Rightarrow> string \<Rightarrow> ('w, product_output) act"
  dw_revise_product :: "(string \<Rightarrow> string \<Rightarrow> product_output \<Rightarrow> revision_request \<Rightarrow> ('w, product_output) act) option"
  dw_design_architecture :: "string \<Rightarrow> string \<Rightarrow> product_output \<Rightarrow> ('w, arch_output) act"
  dw_revise_architecture :: "(string \<Rightarrow> string \<Rightarrow> product_output \<Rightarrow> arch_output \<Rightarrow> revision_request \<Rightarrow> ('w, arch_output) act) option"
  dw_design_ux :: "string \<Rightarrow> string \<Rightarrow> product_output \<Rightarrow> ('w, ux_output) act"
  dw_revise_ux :: "(string \<Rightarrow> string \<Rightarrow> product_output \<Rightarrow> ux_output \<Rightarrow> revision_request \<Rightarrow> ('w, ux_output) act) option"

record 'w design_pod =
  dp_workers :: "'w design_workers"
  dp_max_revision_rounds :: int

definition new_design_pod :: "'w design_workers \<Rightarrow> int \<Rightarrow> 'w design_pod res" where
  "new_design_pod W max_revision_rounds =
     res_bind (raise_if (max_revision_rounds < 0) (ValueError ''max_revision_rounds must be >= 0'')) (\<lambda>_.
     Inr \<lparr>dp_workers = W, dp_max_revision_rounds = max_revision_rounds\<rparr>)"

definition bundle_of :: "string \<Rightarrow> product_output \<Rightarrow> arch_output \<Rightarrow> ux_output \<Rightarrow> design_bundle" where
  "bundle_of mission_id product architecture ux = \<lparr>dg_mission_id = mission_id,
     dg_product_summary = po_product_summary product, dg_non_goals = po_non_goals product,
     dg_requirements = po_requirements product, dg_acceptance_criteria = po_acceptance_criteria product,
     dg_architecture_decisions = ao_decisions architecture, dg_ux_flows = uo_flows ux,
     dg_assumptions = po_assumptions product,
     dg_risks = first_occurrences (po_risks product @ ao_risks architecture @ uo_risks ux)\<rparr>"

text \<open>\<open>json.dumps(asdict(bundle), ...)\<close>\<close>

definition requirement_json :: "requirement \<Rightarrow> json" where
  "requirement_json r = JObj [(''requirement_id'', JStr (rq_requirement_id r)), (''statement'', JStr (rq_statement r)),
     (''priority'', JStr (rq_priority r)), (''source'', JStr (rq_source r))]"

definition criterion_json :: "criterion \<Rightarrow> json" where
  "criterion_json c = JObj [(''criterion_id'', JStr (cr_criterion_id c)), (''requirement_id'', JStr (cr_requirement_id c)),
     (''statement'', JStr (cr_statement c)), (''verification_method'', JStr (cr_verification_method c))]"

definition arch_decision_json :: "arch_decision \<Rightarrow> json" where
  "arch_decision_json d = JObj [(''decision_id'', JStr (ad_decision_id d)), (''title'', JStr (ad_title d)),
     (''decision'', JStr (ad_decision d)), (''rationale'', JStr (ad_rationale d)),
     (''requirement_ids'', JStrs (ad_requirement_ids d))]"

definition ux_flow_json :: "ux_flow \<Rightarrow> json" where
  "ux_flow_json f = JObj [(''flow_id'', JStr (uf_flow_id f)), (''title'', JStr (uf_title f)),
     (''actor'', JStr (uf_actor f)), (''steps'', JStrs (uf_steps f)), (''requirement_ids'', JStrs (uf_requirement_ids f))]"

definition bundle_json :: "design_bundle \<Rightarrow> json" where
  "bundle_json b = JObj [(''mission_id'', JStr (dg_mission_id b)), (''product_summary'', JStr (dg_product_summary b)),
     (''non_goals'', JStrs (dg_non_goals b)), (''requirements'', JList (map requirement_json (dg_requirements b))),
     (''acceptance_criteria'', JList (map criterion_json (dg_acceptance_criteria b))),
     (''architecture_decisions'', JList (map arch_decision_json (dg_architecture_decisions b))),
     (''ux_flows'', JList (map ux_flow_json (dg_ux_flows b))),
     (''assumptions'', JStrs (dg_assumptions b)), (''risks'', JStrs (dg_risks b))]"

definition bundle_text :: "design_bundle \<Rightarrow> string" where
  "bundle_text b = json_dumps (bundle_json b)"

definition product_codes :: "string list" where
  "product_codes = [''DUPLICATE_REQUIREMENT_ID'', ''DUPLICATE_CRITERION_ID'', ''ORPHAN_ACCEPTANCE_CRITERION'',
     ''MUST_WITHOUT_ACCEPTANCE_CRITERION'']"

definition architecture_codes :: "string list" where
  "architecture_codes = [''ARCHITECTURE_UNKNOWN_REQUIREMENT'']"

definition ux_codes :: "string list" where
  "ux_codes = [''UX_UNKNOWN_REQUIREMENT'']"

definition shared_design_codes :: "string list" where
  "shared_design_codes = [''MUST_WITHOUT_DESIGN_COVERAGE'']"

definition select_findings :: "finding list \<Rightarrow> string list \<Rightarrow> finding list" where
  "select_findings fs codes = filter (\<lambda>f. fd_code f \<in> set codes) fs"

definition unroutable :: "finding list \<Rightarrow> string list" where
  "unroutable blockers = sorted_set (filter
     (\<lambda>c. c \<notin> set (product_codes @ architecture_codes @ ux_codes @ shared_design_codes)) (map fd_code blockers))"

text \<open>A worker is asked to revise when it has findings; without a revision method the run ends.\<close>

definition revised :: "string \<Rightarrow> ('a \<Rightarrow> revision_request \<Rightarrow> ('w, 'a) act) option \<Rightarrow> int \<Rightarrow> finding list \<Rightarrow> 'a \<Rightarrow>
     ('w pod_state, 'a) act" where
  "revised agent revise_method n fs output = (if fs = [] then act_return output else
     (case revise_method of
        None \<Rightarrow> act_res (Inl (RuntimeError (''design_revision_unsupported:'' @ agent)))
      | Some f \<Rightarrow> ask (f output \<lparr>rv_round_number = n, rv_findings = fs\<rparr>)))"

definition revise_design :: "'w design_workers \<Rightarrow> string \<Rightarrow> string \<Rightarrow> int \<Rightarrow> finding list \<Rightarrow>
     product_output \<Rightarrow> arch_output \<Rightarrow> ux_output \<Rightarrow> ('w pod_state, product_output \<times> arch_output \<times> ux_output) act" where
  "revise_design W m objective n blockers product architecture ux =
     (if unroutable blockers \<noteq> []
      then act_res (Inl (RuntimeError (''design_revision_unroutable:'' @ join '','' (unroutable blockers))))
      else let product_fs = select_findings blockers product_codes;
               architecture_fs = select_findings blockers (architecture_codes @ shared_design_codes);
               ux_fs = select_findings blockers (ux_codes @ shared_design_codes)
      in if product_fs \<noteq> [] then
           act_bind (revised ''A02-PRODUCT'' (map_option (\<lambda>f. f m objective) (dw_revise_product W)) n product_fs product)
             (\<lambda>product'. act_bind (ask (dw_design_architecture W m objective product'))
             (\<lambda>architecture'. act_bind (ask (dw_design_ux W m objective product'))
             (\<lambda>ux'. act_return (product', architecture', ux'))))
         else
           act_bind (revised ''A03-ARCH'' (map_option (\<lambda>f. f m objective product) (dw_revise_architecture W)) n
               architecture_fs architecture)
             (\<lambda>architecture'. act_bind (revised ''A04-UX'' (map_option (\<lambda>f. f m objective product) (dw_revise_ux W)) n ux_fs ux)
             (\<lambda>ux'. act_return (product, architecture', ux'))))"

text \<open>One pass of the loop: a bundle without blocking findings is published and returned. The loop
  runs on the number of revisions that are left; \<open>n\<close> is the number of the round.\<close>

definition design_pass :: "(string \<Rightarrow> string) \<Rightarrow> ('w \<Rightarrow> 'w \<times> string) \<Rightarrow> string \<Rightarrow> design_bundle \<Rightarrow>
     (finding list \<Rightarrow> ('w pod_state, design_bundle) act) \<Rightarrow> ('w pod_state, design_bundle) act" where
  "design_pass sha clock author b otherwise =
     act_bind (act_res (design_validate b)) (\<lambda>fs.
     if blocking fs = [] then
       act_bind (publish sha clock (dg_mission_id b) ''design-bundle'' (bundle_text b) author
         ''application/vnd.ai-factory.design-bundle+json'') (\<lambda>_. act_return b)
     else otherwise (blocking fs))"

fun design_rounds :: "(string \<Rightarrow> string) \<Rightarrow> ('w \<Rightarrow> 'w \<times> string) \<Rightarrow> 'w design_workers \<Rightarrow> string \<Rightarrow> string \<Rightarrow> string \<Rightarrow>
     nat \<Rightarrow> int \<Rightarrow> product_output \<Rightarrow> arch_output \<Rightarrow> ux_output \<Rightarrow> ('w pod_state, design_bundle) act" where
  "design_rounds sha clock W m objective author 0 n product architecture ux =
     design_pass sha clock author (bundle_of m product architecture ux) (\<lambda>blockers.
       act_res (Inl (RuntimeError (''design_revision_exhausted:'' @ codes_of blockers))))"
| "design_rounds sha clock W m objective author (Suc k) n product architecture ux =
     design_pass sha clock author (bundle_of m product architecture ux) (\<lambda>blockers.
       act_bind (revise_design W m objective (n + 1) blockers product architecture ux)
         (\<lambda>(product', architecture', ux').
           if bundle_text (bundle_of m product' architecture' ux') = bundle_text (bundle_of m product architecture ux)
           then act_res (Inl (RuntimeError (''design_revision_no_progress:'' @ codes_of blockers)))
           else design_rounds sha clock W m objective author k (n + 1) product' architecture' ux'))"

definition design_run :: "(string \<Rightarrow> string) \<Rightarrow> ('w \<Rightarrow> 'w \<times> string) \<Rightarrow> 'w design_pod \<Rightarrow> string \<Rightarrow> string \<Rightarrow> string \<Rightarrow>
     ('w pod_state, design_bundle) act" where
  "design_run sha clock pod m objective author =
     act_bind (act_res (raise_if (m = [] \<or> blank objective) (ValueError ''mission_id and objective are required''))) (\<lambda>_.
     act_bind (ask (dw_design_product (dp_workers pod) m objective)) (\<lambda>product.
     act_bind (ask (dw_design_architecture (dp_workers pod) m objective product)) (\<lambda>architecture.
     act_bind (ask (dw_design_ux (dp_workers pod) m objective product)) (\<lambda>ux.
     design_rounds sha clock (dp_workers pod) m objective author (nat (dp_max_revision_rounds pod)) 0
       product architecture ux))))"

section \<open>What a run promises\<close>

text \<open>Fingerprints: two bundles with the same text are the same bundle, so \<open>no_progress\<close> is raised
  exactly when a revision changed nothing.\<close>

lemma record_json_norm:
  "json_norm (requirement_json r) = json_norm (requirement_json r') \<longleftrightarrow> r = r'"
  "json_norm (criterion_json c) = json_norm (criterion_json c') \<longleftrightarrow> c = c'"
  "json_norm (arch_decision_json d) = json_norm (arch_decision_json d') \<longleftrightarrow> d = d'"
  "json_norm (ux_flow_json f) = json_norm (ux_flow_json f') \<longleftrightarrow> f = f'"
  by (auto simp: requirement_json_def criterion_json_def arch_decision_json_def ux_flow_json_def sort_literal)

lemma bundle_text_inject [simp]: "bundle_text b = bundle_text b' \<longleftrightarrow> b = b'"
proof -
  have "json_norm (bundle_json b) = json_norm (bundle_json b') \<longleftrightarrow> b = b'"
    by (cases b; cases b') (auto simp: bundle_json_def sort_literal map_norm_eq record_json_norm)
  then show ?thesis by (simp add: bundle_text_def json_dumps_eq_iff)
qed

lemma routed: "design_validate b = Inr fs \<Longrightarrow> unroutable (blocking fs) = []"
  by (auto simp: design_validate_blocking unroutable_def product_findings_def architecture_findings_def ux_findings_def
      coverage_findings_def report_if_def report_each_def product_codes_def architecture_codes_def ux_codes_def
      shared_design_codes_def sorted_set_def filter_empty_conv)

text \<open>The promise of a run: a returned bundle is ready to build, belongs to the mission and is
  published; a run that raises leaves the catalog as it was.\<close>

definition publishes_ready :: "(string \<Rightarrow> string) \<Rightarrow> string \<Rightarrow> 'w pod_state \<Rightarrow> 'w pod_state \<times> design_bundle res \<Rightarrow> bool" where
  "publishes_ready sha m s r \<longleftrightarrow> (case r of (s', Inl e) \<Rightarrow> snd s' = snd s
    | (s', Inr b) \<Rightarrow> is_build_ready b = Inr True \<and>
        dg_mission_id b = m \<and> published_opt sha m ''design-bundle'' (bundle_text b) (snd s) (snd s'))"

lemma publishes_ready_Inl: "snd s' = snd s \<Longrightarrow> publishes_ready sha m s (s', Inl e)"
  by (simp add: publishes_ready_def)


lemma revised_keeps [intro, simp]: "keeps_catalog (revised agent f n fs out)"
  by (auto simp: revised_def split: option.splits)

lemma revise_keeps [intro, simp]: "keeps_catalog (revise_design W m obj n bs p a u)"
  by (auto simp: revise_design_def Let_def intro!: keeps_catalog_bind)

lemma design_pass_result:
  assumes "\<And>fs. design_validate b = Inr fs \<Longrightarrow> blocking fs \<noteq> [] \<Longrightarrow> publishes_ready sha (dg_mission_id b) s (otherwise (blocking fs) s)"
  shows "publishes_ready sha (dg_mission_id b) s (design_pass sha clock author b otherwise s)"
proof (cases "design_validate b")
  case (Inl e)
  then show ?thesis by (simp add: design_pass_def act_bind_apply publishes_ready_def)
next
  case (Inr fs)
  then have ready: "blocking fs = [] \<Longrightarrow> is_build_ready b = Inr True"
    using design_validate_Inr [OF Inr] by (simp add: is_build_ready_iff)
  show ?thesis
  proof (cases "blocking fs = []")
    case True
    obtain s' r where p: "publish sha clock (dg_mission_id b) ''design-bundle'' (bundle_text b) author
         ''application/vnd.ai-factory.design-bundle+json'' s = (s', r)" by fastforce
    with True Inr ready show ?thesis
      by (cases r) (auto simp: design_pass_def act_bind_apply publishes_ready_def dest: publish_Inl publish_Inr)
  next
    case False
    with Inr assms [OF Inr False] show ?thesis by (simp add: design_pass_def act_bind_apply)
  qed
qed
lemma publishes_ready_bind:
  assumes "keeps_catalog f" "\<And>x s'. f s = (s', Inr x) \<Longrightarrow> publishes_ready sha m s' (g x s')"
  shows "publishes_ready sha m s (act_bind f g s)"
proof -
  obtain s' r where f: "f s = (s', r)" by fastforce
  then have "snd s' = snd s" using assms(1) keeps_catalogD by metis
  with f assms(2) [of s'] show ?thesis
    by (cases r) (auto simp: act_bind_apply publishes_ready_def split: prod.splits sum.splits)
qed

lemma design_rounds_result: "publishes_ready sha m s (design_rounds sha clock W m obj author k n p a u s)"
proof (induction k arbitrary: n p a u s)
  case 0
  show ?case using design_pass_result [of "bundle_of m p a u" sha s]
    by (simp add: bundle_of_def publishes_ready_Inl)
next
  case (Suc k)
  have "publishes_ready sha (dg_mission_id (bundle_of m p a u)) s (design_rounds sha clock W m obj author (Suc k) n p a u s)"
    unfolding design_rounds.simps
    by (rule design_pass_result, rule publishes_ready_bind)
      (auto simp: bundle_of_def publishes_ready_Inl split: prod.splits intro: Suc)
  then show ?case by (simp add: bundle_of_def)
qed

lemma design_run_result: "publishes_ready sha m s (design_run sha clock pod m obj author s)"
  unfolding design_run_def by (intro publishes_ready_bind design_rounds_result keeps_catalog_basic)
end
