(* ===== verification/Write_Scopes.thy ===== *)
theory Write_Scopes
  imports Pods
begin

text \<open>
  Write scopes of work packages (factory/engineering_pod/validator.py, \<open>_normalize_scope\<close>, \<open>_path_in_scope\<close>
  and \<open>_scopes_overlap\<close>): the operations on the texts of scopes, and what they decide, stated on the lists of
  components that scopes denote. The operations work on prefixes of texts; the statements do not.
\<close>

section \<open>The operations\<close>

text \<open>\<open>s.strip(chars)\<close>, \<open>s.replace(c, d)\<close> for characters, \<open>sub in s\<close>\<close>

definition strip_chars :: "string \<Rightarrow> string \<Rightarrow> string" where
  "strip_chars cs s = rev (dropWhile (\<lambda>c. c \<in> set cs) (rev (dropWhile (\<lambda>c. c \<in> set cs) s)))"

definition replace_char :: "char \<Rightarrow> char \<Rightarrow> string \<Rightarrow> string" where
  "replace_char a b s = map (\<lambda>c. if c = a then b else c) s"

fun occurs_in :: "string \<Rightarrow> string \<Rightarrow> bool" where
  "occurs_in sub [] \<longleftrightarrow> sub = []"
| "occurs_in sub (c # s) \<longleftrightarrow> prefixed sub (c # s) \<or> occurs_in sub s"

definition normalize_scope :: "string \<Rightarrow> string res" where
  "normalize_scope scope = (let value = strip_chars ''/'' (replace_char bslash CHR ''/'' (strip scope)) in
     if value = [] \<or> prefixed ''..'' value \<or> occurs_in ''/../'' (''/'' @ value @ ''/'')
     then Inl (ValueError (''invalid write scope: '' @ scope)) else Inr value)"

definition within_scope :: "string \<Rightarrow> string \<Rightarrow> bool" where
  "within_scope path scope = (path = scope \<or> prefixed (scope @ ''/'') path)"

definition path_in_scope :: "string \<Rightarrow> string \<Rightarrow> bool res" where
  "path_in_scope path scope = res_bind (normalize_scope path) (\<lambda>p.
     res_bind (normalize_scope scope) (\<lambda>s. Inr (within_scope p s)))"

definition scopes_overlap :: "string list \<Rightarrow> string list \<Rightarrow> bool" where
  "scopes_overlap left right = list_ex (\<lambda>l. list_ex (\<lambda>r. case (normalize_scope l, normalize_scope r) of
       (Inr a, Inr b) \<Rightarrow> within_scope a b \<or> within_scope b a
     | _ \<Rightarrow> False) right) left"

section \<open>Components\<close>

text \<open>The parts of a text between separators, which are slashes and backslashes.\<close>

abbreviation separator :: "char \<Rightarrow> bool" where
  "separator c \<equiv> c = CHR ''/'' \<or> c = bslash"

fun components :: "string \<Rightarrow> string list" where
  "components [] = [[]]"
| "components (c # s) = (if separator c then [] # components s
     else (c # hd (components s)) # tl (components s))"

text \<open>A text denotes a path when, without the white space around it and the separators at its ends, it has these
  components; the first one does not start with two dots, and none is the parent directory.\<close>

definition denotes :: "string \<Rightarrow> string list \<Rightarrow> bool" where
  "denotes s cs \<longleftrightarrow> (\<exists>a t b m n. s = a @ t @ b \<and> list_all is_space a \<and> list_all is_space b \<and>
     (t \<noteq> [] \<longrightarrow> \<not> is_space (hd t) \<and> \<not> is_space (last t)) \<and>
     components t = replicate m [] @ cs @ replicate n []) \<and>
     cs \<noteq> [] \<and> hd cs \<noteq> [] \<and> last cs \<noteq> [] \<and> (\<nexists>rest. hd cs = ''..'' @ rest) \<and> ''..'' \<notin> set cs"

text \<open>One path is the other or lies beneath it.\<close>

definition beneath :: "string list \<Rightarrow> string list \<Rightarrow> bool" where
  "beneath cs ds \<longleftrightarrow> (\<exists>rest. cs = ds @ rest)"

lemma components_not_Nil [simp]: "components s \<noteq> []"
  by (cases s) simp_all

lemma components_append: "separator c \<Longrightarrow> components (a @ c # b) = components a @ components b"
  by (induction a) auto

lemma components_replace: "components (replace_char bslash CHR ''/'' s) = components s"
  by (induction s) (simp_all add: replace_char_def)

lemma no_bslash: "bslash \<notin> set (replace_char bslash CHR ''/'' s)"
  by (auto simp: replace_char_def)

lemma components_slashes_left:
  "components s = replicate (length (takeWhile (\<lambda>c. c = CHR ''/'') s)) [] @ components (dropWhile (\<lambda>c. c = CHR ''/'') s)"
  by (induction s) auto

lemma components_slashes_right: "components (s @ replicate n (CHR ''/'')) = components s @ replicate n []"
proof (induction n)
  case (Suc n)
  have "components (s @ replicate (Suc n) (CHR ''/'')) = components ((s @ replicate n (CHR ''/'')) @ CHR ''/'' # [])"
    by (simp add: replicate_append_same)
  also have "\<dots> = components s @ replicate n [] @ [[]]"
    unfolding components_append [of "CHR ''/''", simplified] using Suc by simp
  finally show ?case by (simp add: replicate_append_same)
qed simp

lemma takeWhile_replicate: "takeWhile (\<lambda>c. c = x) s = replicate (length (takeWhile (\<lambda>c. c = x) s)) x"
  by (induction s) auto

lemma dropWhile_rev_split:
  "s = rev (dropWhile (\<lambda>c. c = x) (rev s)) @ replicate (length (takeWhile (\<lambda>c. c = x) (rev s))) x"
  using arg_cong [OF takeWhile_dropWhile_id [of "\<lambda>c. c = x" "rev s"], of rev] takeWhile_replicate [of x "rev s"]
  by (metis rev_append rev_replicate rev_rev_ident)

lemma strip_chars_components:
  "\<exists>m n. components s = replicate m [] @ components (strip_chars ''/'' s) @ replicate n []"
proof -
  let ?t = "dropWhile (\<lambda>c. c = CHR ''/'') s"
  have "strip_chars ''/'' s = rev (dropWhile (\<lambda>c. c = CHR ''/'') (rev ?t))" by (simp add: strip_chars_def)
  moreover have "components ?t = components (rev (dropWhile (\<lambda>c. c = CHR ''/'') (rev ?t))) @
      replicate (length (takeWhile (\<lambda>c. c = CHR ''/'') (rev ?t))) []"
    by (subst dropWhile_rev_split [of ?t "CHR ''/''"], subst components_slashes_right) (rule refl)
  ultimately show ?thesis using components_slashes_left [of s] by auto
qed

lemma strip_chars_ends:
  assumes "strip_chars ''/'' s \<noteq> []"
  shows "hd (strip_chars ''/'' s) \<noteq> CHR ''/''" "last (strip_chars ''/'' s) \<noteq> CHR ''/''"
proof -
  let ?P = "\<lambda>c. c = CHR ''/''"
  let ?t = "dropWhile ?P s" and ?u = "dropWhile ?P (rev (dropWhile ?P s))"
  have v: "strip_chars ''/'' s = rev ?u" by (simp add: strip_chars_def)
  have "?u \<noteq> []" using assms v by simp
  from hd_dropWhile [OF this] show "last (strip_chars ''/'' s) \<noteq> CHR ''/''" unfolding v last_rev .
  have "?t \<noteq> []" using \<open>?u \<noteq> []\<close> by (metis dropWhile.simps(1) rev.simps(1))
  from hd_dropWhile [OF this] have "hd ?t \<noteq> CHR ''/''" .
  moreover have "?t = rev ?u @ replicate (length (takeWhile ?P (rev ?t))) (CHR ''/'')" by (rule dropWhile_rev_split)
  then have "hd ?t = hd (rev ?u)" using \<open>?u \<noteq> []\<close> by (metis hd_append2 rev_is_Nil_conv)
  ultimately show "hd (strip_chars ''/'' s) \<noteq> CHR ''/''" by (simp add: v)
qed

lemma hd_components: "bslash \<notin> set s \<Longrightarrow> s \<noteq> [] \<Longrightarrow> hd s \<noteq> CHR ''/'' \<Longrightarrow> hd (components s) \<noteq> []"
  by (cases s) auto

lemma last_components: "bslash \<notin> set s \<Longrightarrow> s \<noteq> [] \<Longrightarrow> last s \<noteq> CHR ''/'' \<Longrightarrow> last (components s) \<noteq> []"
proof (induction s)
  case (Cons c s)
  show ?case
  proof (cases "s = []")
    case True
    with Cons.prems show ?thesis by auto
  next
    case False
    with Cons have l: "last (components s) \<noteq> []" by auto
    show ?thesis
    proof (cases "tl (components s) = []")
      case True
      then have "last (components s) = hd (components s)"
        by (metis components_not_Nil last_ConsL list.collapse)
      with l True show ?thesis by auto
    next
      case False
      then have "last (components s) = last (tl (components s))" by (simp add: last_tl)
      with l False show ?thesis by auto
    qed
  qed
qed simp

text \<open>Stripping empty components is unique.\<close>

lemma stripped_unique:
  assumes "replicate m [] @ cs @ replicate n [] = replicate m' [] @ ds @ replicate n' []"
    "cs \<noteq> []" "hd cs \<noteq> []" "last cs \<noteq> []" "ds \<noteq> []" "hd ds \<noteq> []" "last ds \<noteq> []"
  shows "cs = (ds :: string list)"
proof -
  have drop: "dropWhile ((=) []) (replicate k [] @ xs) = xs" if "xs \<noteq> []" "hd xs \<noteq> []" for k and xs :: "string list"
    using that by (induction k) (cases xs; simp)+
  have "rev (dropWhile ((=) []) (rev (dropWhile ((=) []) (replicate k [] @ xs @ replicate l [])))) = xs"
    if "xs \<noteq> []" "hd xs \<noteq> []" "last xs \<noteq> []" for k l and xs :: "string list"
    using that drop [of "xs @ replicate l []" k] drop [of "rev xs" l] by (simp add: hd_rev)
  with assms show ?thesis by metis
qed

lemma stripped_empty: "set (replicate m [] @ cs @ replicate n []) \<subseteq> {[]} \<Longrightarrow> cs \<noteq> [] \<Longrightarrow> hd cs = []"
  by (cases cs) auto

text \<open>The same for the white space around a text.\<close>

lemma strip_left_spaces: "list_all is_space a \<Longrightarrow> (t \<noteq> [] \<longrightarrow> \<not> is_space (hd t)) \<Longrightarrow> t \<noteq> [] \<Longrightarrow>
     dropWhile is_space (a @ t) = t"
  by (induction a) (cases t; simp)+

lemma strip_unique:
  assumes "list_all is_space a" "list_all is_space b" "t \<noteq> [] \<longrightarrow> \<not> is_space (hd t) \<and> \<not> is_space (last t)"
  shows "strip (a @ t @ b) = t"
proof (cases "t = []")
  case True
  have "blank (a @ b)" using assms by (simp add: blank_def)
  with True show ?thesis by (simp add: strip_eq_Nil)
next
  case False
  have "dropWhile is_space (a @ t @ b) = t @ b" using assms False by (intro strip_left_spaces) auto
  moreover have "dropWhile is_space (rev b @ rev t) = rev t"
    using assms False by (intro strip_left_spaces) (auto simp: hd_rev list_all_iff)
  ultimately show ?thesis by (simp add: strip_def)
qed

lemma strip_split:
  "\<exists>a b. s = a @ strip s @ b \<and> list_all is_space a \<and> list_all is_space b \<and>
     (strip s \<noteq> [] \<longrightarrow> \<not> is_space (hd (strip s)) \<and> \<not> is_space (last (strip s)))"
proof -
  let ?t = "dropWhile is_space s" and ?u = "dropWhile is_space (rev (dropWhile is_space s))"
  let ?a = "takeWhile is_space s" and ?b = "rev (takeWhile is_space (rev ?t))"
  have "?t = strip s @ ?b"
    unfolding strip_def by (metis rev_append rev_rev_ident takeWhile_dropWhile_id)
  then have s: "s = ?a @ strip s @ ?b" by (metis takeWhile_dropWhile_id)
  have "\<not> is_space (hd (strip s)) \<and> \<not> is_space (last (strip s))" if "strip s \<noteq> []"
  proof
    have u: "strip s = rev ?u" by (simp add: strip_def)
    then have "?u \<noteq> []" using that by simp
    from hd_dropWhile [OF this] show "\<not> is_space (last (strip s))" by (simp add: u last_rev)
    have "?t \<noteq> []" using \<open>?u \<noteq> []\<close> by (metis dropWhile.simps(1) rev.simps(1))
    from hd_dropWhile [OF this] \<open>?t = strip s @ ?b\<close> that show "\<not> is_space (hd (strip s))" by (metis hd_append2)
  qed
  moreover have "list_all is_space ?a" "list_all is_space ?b"
    unfolding list_all_iff set_rev by (blast dest: set_takeWhileD)+
  ultimately show ?thesis using s by blast
qed

section \<open>What the operations decide\<close>

lemma components_text: "bslash \<notin> set s \<Longrightarrow> concat (map ((#) (CHR ''/'')) (components s)) = CHR ''/'' # s"
proof (induction s)
  case (Cons c s)
  then have "concat (map ((#) (CHR ''/'')) (components s)) = CHR ''/'' # s" by auto
  moreover obtain d ds where "components s = d # ds" by (cases "components s") simp_all
  ultimately show ?case using Cons.prems by auto
qed simp

lemma occurs_in_iff: "occurs_in sub s \<longleftrightarrow> (\<exists>a b. s = a @ sub @ b)"
proof (induction s)
  case (Cons c s)
  show ?case
  proof
    assume "occurs_in sub (c # s)"
    with Cons show "\<exists>a b. c # s = a @ sub @ b"
      by (metis append_Cons append_Nil occurs_in.simps(2) prefixed_iff)
  next
    assume "\<exists>a b. c # s = a @ sub @ b"
    then obtain a b where ab: "c # s = a @ sub @ b" by blast
    show "occurs_in sub (c # s)"
    proof (cases a)
      case Nil
      with ab have "prefixed sub (c # s)" by (auto simp: prefixed_iff)
      then show ?thesis by simp
    next
      case (Cons x xs)
      with ab have "s = xs @ sub @ b" by simp
      with \<open>occurs_in sub s \<longleftrightarrow> (\<exists>a b. s = a @ sub @ b)\<close> show ?thesis by auto
    qed
  qed
qed simp

lemma parent_component:
  assumes "bslash \<notin> set v"
  shows "occurs_in ''/../'' (''/'' @ v @ ''/'') \<longleftrightarrow> ''..'' \<in> set (components v)"
proof
  assume "occurs_in ''/../'' (''/'' @ v @ ''/'')"
  then obtain a b where ab: "CHR ''/'' # v @ ''/'' = a @ ''/../'' @ b" unfolding occurs_in_iff by auto
  have "components (CHR ''/'' # v @ ''/'') = [] # components v @ [[]]"
    using components_append [of "CHR ''/''" v "[]"] by simp
  moreover have "components (a @ ''/../'' @ b) = components a @ ''..'' # components b"
    using components_append [of "CHR ''/''" a "''../'' @ b"] components_append [of "CHR ''/''" "''..''" b] by simp
  ultimately have "''..'' \<in> set ([] # components v @ [[]])" unfolding ab by simp
  then show "''..'' \<in> set (components v)" by simp
next
  assume "''..'' \<in> set (components v)"
  then obtain xs ys where c: "components v = xs @ ''..'' # ys" by (meson split_list)
  let ?f = "\<lambda>cs. concat (map ((#) (CHR ''/'')) cs)"
  have "CHR ''/'' # v = ?f xs @ ''/..'' @ ?f ys" using components_text [OF assms] c by simp
  then have v: "''/'' @ v @ ''/'' = ?f xs @ ''/..'' @ ?f ys @ ''/''"
    by (metis append.assoc append_Cons append_Nil)
  obtain r where "?f ys @ ''/'' = CHR ''/'' # r" by (cases ys) auto
  with v have "''/'' @ v @ ''/'' = ?f xs @ ''/../'' @ r" by simp
  then show "occurs_in ''/../'' (''/'' @ v @ ''/'')" unfolding occurs_in_iff by blast
qed

lemma dotted_component: "prefixed ''..'' v \<longleftrightarrow> (\<exists>rest. hd (components v) = ''..'' @ rest)"
proof (cases v)
  case (Cons c s)
  then show ?thesis by (cases s) auto
qed simp

lemma prefix_components: "bslash \<notin> set v \<Longrightarrow> bslash \<notin> set w \<Longrightarrow> within_scope v w \<longleftrightarrow> beneath (components v) (components w)"
proof
  assume "within_scope v w"
  then consider "v = w" | t where "v = w @ CHR ''/'' # t" unfolding within_scope_def prefixed_iff by auto
  then show "beneath (components v) (components w)"
    by cases (auto simp: beneath_def components_append)
next
  assume b: "bslash \<notin> set v" "bslash \<notin> set w" "beneath (components v) (components w)"
  let ?f = "\<lambda>cs. concat (map ((#) (CHR ''/'')) cs)"
  from b(3) obtain rest where "components v = components w @ rest" by (auto simp: beneath_def)
  then have "CHR ''/'' # v = CHR ''/'' # w @ ?f rest"
    using components_text [OF b(1)] components_text [OF b(2)] by simp
  then have "v = w @ ?f rest" by simp
  then show "within_scope v w" by (cases rest) (auto simp: within_scope_def prefixed_iff)
qed

lemma normalize_scope_Inr:
  assumes "normalize_scope s = Inr v"
  shows "denotes s (components v)" "bslash \<notin> set v"
proof -
  let ?t = "replace_char bslash CHR ''/'' (strip s)"
  have v: "v = strip_chars ''/'' ?t" "v \<noteq> []" "\<not> prefixed ''..'' v" "\<not> occurs_in ''/../'' (''/'' @ v @ ''/'')"
    using assms by (auto simp: normalize_scope_def Let_def split: if_splits)
  have "set v \<subseteq> set ?t" unfolding v(1) strip_chars_def by (auto dest!: set_dropWhileD)
  then show b: "bslash \<notin> set v" using no_bslash by blast
  obtain m n where c: "components (strip s) = replicate m [] @ components v @ replicate n []"
    using strip_chars_components [of ?t] by (auto simp: components_replace v(1))
  from strip_split [of s] obtain a b where "s = a @ strip s @ b" "list_all is_space a" "list_all is_space b"
    "strip s \<noteq> [] \<longrightarrow> \<not> is_space (hd (strip s)) \<and> \<not> is_space (last (strip s))" by blast
  with c have "\<exists>a t b m n. s = a @ t @ b \<and> list_all is_space a \<and> list_all is_space b \<and>
     (t \<noteq> [] \<longrightarrow> \<not> is_space (hd t) \<and> \<not> is_space (last t)) \<and>
     components t = replicate m [] @ components v @ replicate n []" by blast
  then show "denotes s (components v)"
    using v(2-4) strip_chars_ends [of ?t] hd_components [OF b] last_components [OF b]
      parent_component [OF b] dotted_component [of v]
    by (simp add: denotes_def v(1))
qed

lemma denotes_normalize:
  assumes "denotes s cs"
  shows "\<exists>v. normalize_scope s = Inr v \<and> components v = cs"
proof -
  from assms obtain a t b m n where s: "s = a @ t @ b" "list_all is_space a" "list_all is_space b"
      "t \<noteq> [] \<longrightarrow> \<not> is_space (hd t) \<and> \<not> is_space (last t)"
    and c: "components t = replicate m [] @ cs @ replicate n []"
    and cs: "cs \<noteq> []" "hd cs \<noteq> []" "last cs \<noteq> []" "\<nexists>rest. hd cs = ''..'' @ rest" "''..'' \<notin> set cs"
    unfolding denotes_def by blast
  have t: "strip s = t" unfolding s(1) using s(2-4) by (rule strip_unique)
  let ?v = "strip_chars ''/'' (replace_char bslash CHR ''/'' t)"
  obtain k l where v: "replicate m [] @ cs @ replicate n [] = replicate k [] @ components ?v @ replicate l []"
    using strip_chars_components [of "replace_char bslash CHR ''/'' t"] c by (auto simp: components_replace)
  have "set ?v \<subseteq> set (replace_char bslash CHR ''/'' t)" unfolding strip_chars_def by (auto dest!: set_dropWhileD)
  then have b: "bslash \<notin> set ?v" using no_bslash by blast
  have "?v \<noteq> []"
  proof
    assume "?v = []"
    with v have "set (replicate m [] @ cs @ replicate n []) \<subseteq> {[]}" by auto
    with cs stripped_empty show False by metis
  qed
  then have "hd (components ?v) \<noteq> []" "last (components ?v) \<noteq> []"
    using strip_chars_ends hd_components [OF b] last_components [OF b] by auto
  with v cs have "components ?v = cs" by (metis components_not_Nil stripped_unique)
  moreover have "normalize_scope s = Inr ?v"
    using \<open>components ?v = cs\<close> cs(4,5) \<open>?v \<noteq> []\<close> parent_component [OF b] dotted_component [of ?v]
    by (simp add: normalize_scope_def t Let_def)
  ultimately show ?thesis by blast
qed

lemma valid_scope_iff: "is_ok (normalize_scope s) \<longleftrightarrow> (\<exists>cs. denotes s cs)"
  using normalize_scope_Inr(1) denotes_normalize by (fastforce simp: is_ok_iff)

lemma denotes_unique: "denotes s cs \<Longrightarrow> denotes s ds \<Longrightarrow> cs = ds"
  by (drule denotes_normalize, drule denotes_normalize) auto

lemma within_scope_iff:
  "(\<exists>v. normalize_scope p = Inr v \<and> (\<exists>w. normalize_scope s = Inr w \<and> within_scope v w)) \<longleftrightarrow>
     (\<exists>cs ds. denotes p cs \<and> denotes s ds \<and> beneath cs ds)"
proof
  assume "\<exists>v. normalize_scope p = Inr v \<and> (\<exists>w. normalize_scope s = Inr w \<and> within_scope v w)"
  then obtain v w where "normalize_scope p = Inr v" "normalize_scope s = Inr w" "within_scope v w" by blast
  moreover from this(1,2) have "within_scope v w \<longleftrightarrow> beneath (components v) (components w)"
    by (intro prefix_components normalize_scope_Inr(2))
  ultimately show "\<exists>cs ds. denotes p cs \<and> denotes s ds \<and> beneath cs ds" by (blast dest: normalize_scope_Inr(1))
next
  assume "\<exists>cs ds. denotes p cs \<and> denotes s ds \<and> beneath cs ds"
  then obtain v w where v: "normalize_scope p = Inr v" "normalize_scope s = Inr w" "beneath (components v) (components w)"
    by (blast dest: denotes_normalize)
  from v(1,2) have "within_scope v w \<longleftrightarrow> beneath (components v) (components w)"
    by (intro prefix_components normalize_scope_Inr(2))
  with v show "\<exists>v. normalize_scope p = Inr v \<and> (\<exists>w. normalize_scope s = Inr w \<and> within_scope v w)" by blast
qed

text \<open>Scopes overlap when a path of the one is or lies beneath a path of the other.\<close>

definition overlapping :: "string list \<Rightarrow> string list \<Rightarrow> bool" where
  "overlapping left right \<longleftrightarrow> (\<exists>l \<in> set left. \<exists>r \<in> set right. \<exists>cs ds.
     denotes l cs \<and> denotes r ds \<and> (beneath cs ds \<or> beneath ds cs))"

lemma scopes_overlap_iff: "scopes_overlap left right \<longleftrightarrow> overlapping left right"
proof -
  have "(case (normalize_scope l, normalize_scope r) of (Inr a, Inr b) \<Rightarrow> within_scope a b \<or> within_scope b a | _ \<Rightarrow> False) \<longleftrightarrow>
      (\<exists>a. normalize_scope l = Inr a \<and> (\<exists>b. normalize_scope r = Inr b \<and> within_scope a b)) \<or>
      (\<exists>b. normalize_scope r = Inr b \<and> (\<exists>a. normalize_scope l = Inr a \<and> within_scope b a))" for l r
    by (auto split: sum.splits)
  then show ?thesis unfolding scopes_overlap_def overlapping_def within_scope_iff list_ex_iff by blast
qed

lemma overlapping_sym: "overlapping l r \<longleftrightarrow> overlapping r l"
  unfolding overlapping_def by blast

end
