(* ===== verification/Engineering_Plan.thy ===== *)
theory Engineering_Plan
  imports Design_Pod Task_Graph Write_Scopes
begin

text \<open>
  Engineering plans and evidence (factory/engineering_pod/contracts.py, validator.py): work packages,
  the deterministic validator of plans (traceability, dependency graph, write conflicts) and of the
  evidence a package delivers. The rules \<open>plan_ok\<close> and \<open>evidence_ok\<close> that accepted plans and evidence obey
  are stated over the data alone, without the operations of the validator.
\<close>

section \<open>Contracts\<close>

record package =
  pk_package_id :: string
  pk_mission_id :: string
  pk_owner_agent :: string
  pk_discipline :: string
  pk_objective :: string
  pk_requirement_ids :: "string list"
  pk_depends_on :: "string list"
  pk_write_scopes :: "string list"
  pk_expected_artifacts :: "string list"
  pk_verification_methods :: "string list"

definition discipline_owner :: "string \<Rightarrow> string option" where
  "discipline_owner = map_of [(''FRONTEND'', ''A05-FRONTEND''), (''BACKEND'', ''A06-BACKEND''),
     (''DATABASE'', ''A07-DATABASE''), (''AI_AUTOMATION'', ''A08-AI-AUTOMATION'')]"

definition engineering_disciplines :: "string list" where
  "engineering_disciplines = [''FRONTEND'', ''BACKEND'', ''DATABASE'', ''AI_AUTOMATION'']"

definition package_validate :: "package \<Rightarrow> unit res" where
  "package_validate p = checks [
     raise_if (pk_package_id p = [] \<or> pk_mission_id p = [] \<or> blank (pk_objective p))
       (ValueError ''package_id, mission_id and objective are required''),
     raise_if (pk_discipline p \<notin> set engineering_disciplines)
       (ValueError (''unknown engineering discipline: '' @ pk_discipline p)),
     raise_if (Some (pk_owner_agent p) \<noteq> discipline_owner (pk_discipline p))
       (ValueError ''owner_agent does not match engineering discipline''),
     raise_if (pk_requirement_ids p = []) (ValueError ''at least one requirement_id is required''),
     raise_if (pk_write_scopes p = []) (ValueError ''at least one write_scope is required''),
     raise_if (pk_expected_artifacts p = []) (ValueError ''at least one expected_artifact is required''),
     raise_if (pk_verification_methods p = []) (ValueError ''at least one verification_method is required''),
     raise_if (pk_package_id p \<in> set (pk_depends_on p)) (ValueError ''work package cannot depend on itself''),
     raise_if (\<not> distinct (pk_depends_on p)) (ValueError ''duplicate package dependencies are not allowed''),
     raise_if (\<not> distinct (pk_write_scopes p)) (ValueError ''duplicate write scopes are not allowed'')]"

record verification_result =
  vr_verification_id :: string
  vr_method :: string
  vr_status :: string
  vr_evidence_ref :: string

definition verification_validate :: "verification_result \<Rightarrow> unit res" where
  "verification_validate r = checks [
     raise_if (vr_verification_id r = [] \<or> blank (vr_method r) \<or> blank (vr_evidence_ref r))
       (ValueError ''verification_id, method and evidence_ref are required''),
     raise_if (vr_status r \<notin> {''PASS'', ''FAIL''}) (ValueError ''verification status must be PASS or FAIL'')]"

record manifest =
  mf_package_id :: string
  mf_changed_paths :: "string list"
  mf_produced_artifacts :: "string list"
  mf_verification_results :: "verification_result list"

definition manifest_validate :: "manifest \<Rightarrow> unit res" where
  "manifest_validate e = checks [
     raise_if (mf_package_id e = []) (ValueError ''package_id is required''),
     raise_if (mf_changed_paths e = []) (ValueError ''changed_paths cannot be empty''),
     raise_if (mf_produced_artifacts e = []) (ValueError ''produced_artifacts cannot be empty''),
     raise_if (mf_verification_results e = []) (ValueError ''verification_results cannot be empty''),
     check_all verification_validate (mf_verification_results e)]"

section \<open>The dependency graph\<close>

type_synonym graph = "(string \<times> string list) list"

definition package_graph :: "package list \<Rightarrow> graph" where
  "package_graph ps = dict_by pk_package_id pk_depends_on ps"

text \<open>\<open>graph.get(node, set())\<close>\<close>

definition successors :: "graph \<Rightarrow> string \<Rightarrow> string list" where
  "successors g t = (case map_of g t of None \<Rightarrow> [] | Some ds \<Rightarrow> ds)"

definition edges :: "graph \<Rightarrow> (string \<times> string) set" where
  "edges g = {(t, d). d \<in> set (successors g t)}"

text \<open>The depth-first search of \<open>_has_cycle\<close>: \<open>None\<close> when a cycle was found, the visited nodes otherwise.\<close>

function cycle_visit :: "graph \<Rightarrow> string list \<Rightarrow> string list \<Rightarrow> string \<Rightarrow> string list option"
  and cycle_visit_all :: "graph \<Rightarrow> string list \<Rightarrow> string list \<Rightarrow> string list \<Rightarrow> string list option" where
  "cycle_visit g visiting visited t =
     (if t \<in> set visiting then None
      else if t \<in> set visited then Some visited
      else if t \<notin> fst ` set g then Some (t # visited)
      else map_option ((#) t) (cycle_visit_all g (t # visiting) visited (successors g t)))"
| "cycle_visit_all g visiting visited [] = Some visited"
| "cycle_visit_all g visiting visited (d # ds) =
     (case (if d \<in> fst ` set g then cycle_visit g visiting visited d else Some visited) of
        None \<Rightarrow> None
      | Some visited' \<Rightarrow> cycle_visit_all g visiting visited' ds)"
  by pat_completeness auto
termination
proof (relation "measures [case_sum (\<lambda>(g, path, seen, t). card (fst ` set g - set path))
                                    (\<lambda>(g, path, seen, ds). card (fst ` set g - set path)),
                           case_sum (\<lambda>_. 0) (\<lambda>(g, path, seen, ds). length ds)]", goal_cases)
  case (2 g path seen t)
  then have "card (fst ` set g - set (t # path)) < card (fst ` set g - set path)"
    by (intro psubset_card_mono) auto
  then show ?case by simp
qed auto

declare cycle_visit.simps [simp del]

definition has_cycle :: "graph \<Rightarrow> bool" where
  "has_cycle g = (cycle_visit_all g [] [] (map fst g) = None)"

text \<open>The search of \<open>_ordered\<close>, on an explicit stack whose top is the head of the list.\<close>

function reaches :: "graph \<Rightarrow> string \<Rightarrow> string list \<Rightarrow> string list \<Rightarrow> bool" where
  "reaches g b [] seen = False"
| "reaches g b (c # stack) seen =
     (if c = b then True
      else if c \<in> set seen then reaches g b stack seen
      else reaches g b (rev (successors g c) @ stack) (c # seen))"
  by pat_completeness auto
termination
proof (relation "measures [\<lambda>(g, b, stack, seen). card (fst ` set g - set seen), \<lambda>(g, b, stack, seen). length stack]", goal_cases)
  case (3 g b c stack seen)
  show ?case
  proof (cases "c \<in> fst ` set g")
    case True
    with 3 have "card (fst ` set g - set (c # seen)) < card (fst ` set g - set seen)"
      by (intro psubset_card_mono) auto
    then show ?thesis by simp
  next
    case False
    then have "successors g c = []" "fst ` set g - set (c # seen) = fst ` set g - set seen"
      by (auto simp: successors_def map_of_eq_None_iff [THEN iffD2])
    then show ?thesis by simp
  qed
qed auto

definition ordered_before :: "graph \<Rightarrow> string \<Rightarrow> string \<Rightarrow> bool" where
  "ordered_before g b a = reaches g b (rev (successors g a)) []"

section \<open>Cycles and order\<close>

definition key_edges :: "graph \<Rightarrow> (string \<times> string) set" where
  "key_edges g = {(t, d). (t, d) \<in> edges g \<and> d \<in> fst ` set g}"

text \<open>The search is the one of the task graph, on the dependencies that are packages.\<close>

definition nodes_of_graph :: "graph \<Rightarrow> task_node list" where
  "nodes_of_graph g = map (\<lambda>(t, ds). \<lparr>task_id = t, dependencies = filter (\<lambda>d. d \<in> fst ` set g) ds,
     write_scopes = []\<rparr>) g"

lemma find_map_of: "find (\<lambda>p. fst p = t) g = map_option (Pair t) (map_of g t)"
  by (induction g) auto

lemma node_of_graph: "node_of (nodes_of_graph g) t = map_option (\<lambda>ds. \<lparr>task_id = t,
     dependencies = filter (\<lambda>d. d \<in> fst ` set g) ds, write_scopes = []\<rparr>) (map_of g t)"
proof -
  have "find (\<lambda>n. task_id n = t) (map (\<lambda>(t, ds). \<lparr>task_id = t, dependencies = f ds, write_scopes = []\<rparr>) xs) =
     map_option (\<lambda>ds. \<lparr>task_id = t, dependencies = f ds, write_scopes = []\<rparr>) (map_of xs t)" for f and xs :: graph
    by (induction xs) auto
  then show ?thesis by (simp add: node_of_def nodes_of_graph_def)
qed

lemma depends_graph: "depends (nodes_of_graph g) = key_edges g"
proof (intro set_eqI, clarify)
  fix t d
  show "(t, d) \<in> depends (nodes_of_graph g) \<longleftrightarrow> (t, d) \<in> key_edges g"
    by (cases "map_of g t") (auto simp: depends_iff node_of_graph key_edges_def edges_def successors_def)
qed

lemma ids_graph: "set (ids (nodes_of_graph g)) = fst ` set g"
  by (force simp: ids_def nodes_of_graph_def)

lemma cycle_visit_is_visit:
  "set visiting \<inter> set visited = {} \<Longrightarrow> t \<in> fst ` set g \<Longrightarrow>
     (case visit (nodes_of_graph g) visiting visited t of
        Inl e \<Rightarrow> cycle_visit g visiting visited t = None
      | Inr seen \<Rightarrow> cycle_visit g visiting visited t = Some seen \<and> set visiting \<inter> set seen = {})"
  "set visiting \<inter> set visited = {} \<Longrightarrow>
     (case visit_all (nodes_of_graph g) visiting visited (filter (\<lambda>d. d \<in> fst ` set g) ds) of
        Inl e \<Rightarrow> cycle_visit_all g visiting visited ds = None
      | Inr seen \<Rightarrow> cycle_visit_all g visiting visited ds = Some seen \<and> set visiting \<inter> set seen = {})"
proof (induction g visiting visited t and g visiting visited ds rule: cycle_visit_cycle_visit_all.induct)
  case (1 g visiting visited t)
  from "1.prems"(2) obtain ds where ds: "map_of g t = Some ds"
    by (metis map_of_eq_None_iff option.exhaust)
  show ?case
  proof (cases "t \<in> set visiting \<or> t \<in> set visited")
    case True
    with "1.prems" show ?thesis
      by (auto simp: visit.simps [of _ visiting] cycle_visit.simps [of _ visiting])
  next
    case False
    with 1 ds show ?thesis
      by (auto simp: visit.simps [of _ visiting] cycle_visit.simps [of _ visiting] node_of_graph successors_def
          res_bind_def split: sum.splits)
  qed
next
  case (3 g visiting visited d ds)
  then show ?case by (cases "d \<in> fst ` set g") (auto simp: res_bind_def split: sum.splits)
qed simp

lemma has_cycle_iff: "has_cycle g \<longleftrightarrow> \<not> acyclic (key_edges g)"
proof -
  let ?ns = "nodes_of_graph g"
  have "filter (\<lambda>d. d \<in> fst ` set g) (map fst g) = ids ?ns"
    by (simp add: ids_def nodes_of_graph_def filter_id_conv comp_def case_prod_beta' del: filter_map)
  with cycle_visit_is_visit(2) [of "[]" "[]" g "map fst g"]
  have v: "has_cycle g \<longleftrightarrow> \<not> is_ok (visit_all ?ns [] [] (ids ?ns))"
    by (auto simp: has_cycle_def is_ok_def split: sum.splits)
  have "Range (depends ?ns) \<subseteq> set (ids ?ns)" by (auto simp: depends_graph ids_graph key_edges_def)
  then have "acyclic (depends ?ns) \<Longrightarrow> is_ok (visit_all ?ns [] [] (ids ?ns))"
    using visit_succeeds(2) [of ?ns "ids ?ns" "[]" "[]"] by (auto simp: is_ok_iff)
  moreover have "is_ok (visit_all ?ns [] [] (ids ?ns)) \<Longrightarrow> acyclic (depends ?ns)"
    using visit_topo(2) [of ?ns "[]" "[]" "ids ?ns"] topo_acyclic depends_ids
    by (fastforce simp: is_ok_iff acyclic_def)
  ultimately show ?thesis using v by (auto simp: depends_graph)
qed

lemma successors_edges: "y \<in> set (successors g x) \<longleftrightarrow> (x, y) \<in> edges g"
  by (simp add: edges_def)

lemma reaches_sound: "reaches g b stack seen \<Longrightarrow> \<exists>x \<in> set stack. (x, b) \<in> (edges g)\<^sup>*"
proof (induction g b stack seen rule: reaches.induct)
  case (2 g b c stack seen)
  then show ?case
    by (auto simp: successors_edges split: if_splits intro: converse_rtrancl_into_rtrancl)
qed simp

text \<open>When the search fails, what it has seen is closed under the edges up to what is still on the stack.\<close>

lemma reaches_complete:
  "\<not> reaches g b stack seen \<Longrightarrow> b \<notin> set seen \<Longrightarrow> edges g `` set seen \<subseteq> set seen \<union> set stack \<Longrightarrow>
     \<exists>S. set stack \<union> set seen \<subseteq> S \<and> b \<notin> S \<and> edges g `` S \<subseteq> S"
proof (induction g b stack seen rule: reaches.induct)
  case (2 g b c stack seen)
  then have c: "c \<noteq> b" by auto
  show ?case
  proof (cases "c \<in> set seen")
    case True
    with 2 c show ?thesis by (auto simp: insert_absorb)
  next
    case False
    then have "\<not> reaches g b (rev (successors g c) @ stack) (c # seen)" using 2 c by simp
    moreover have "edges g `` set (c # seen) \<subseteq> set (c # seen) \<union> set (rev (successors g c) @ stack)"
      using "2.prems"(3) by (auto simp: successors_edges)
    ultimately show ?thesis using "2.IH"(2) [OF c False] "2.prems"(2) c by auto
  qed
qed auto

lemma ordered_before_iff: "ordered_before g b a \<longleftrightarrow> (a, b) \<in> (edges g)\<^sup>+"
proof
  assume "ordered_before g b a"
  then obtain x where "(a, x) \<in> edges g" "(x, b) \<in> (edges g)\<^sup>*"
    using reaches_sound [of g b "rev (successors g a)" "[]"] by (auto simp: ordered_before_def successors_edges)
  then show "(a, b) \<in> (edges g)\<^sup>+" by (rule rtrancl_into_trancl2)
next
  assume ab: "(a, b) \<in> (edges g)\<^sup>+"
  show "ordered_before g b a"
  proof (rule ccontr)
    assume "\<not> ordered_before g b a"
    then obtain S where S: "set (successors g a) \<subseteq> S" "b \<notin> S" "edges g `` S \<subseteq> S"
      using reaches_complete [of g b "rev (successors g a)" "[]"] by (auto simp: ordered_before_def)
    from ab have "b \<in> S"
      by (induction rule: trancl_induct) (use S in \<open>auto simp: successors_edges\<close>)
    with S(2) show False ..
  qed
qed

section \<open>The plan validator\<close>

text \<open>A validation that fails raises a \<open>ValueError\<close>; the validator turns its text into a finding.\<close>

definition message_of :: "pyexc \<Rightarrow> string" where
  "message_of e = (case e of ValueError s \<Rightarrow> s | _ \<Rightarrow> [])"

definition report_error :: "'a res \<Rightarrow> (string \<Rightarrow> finding) \<Rightarrow> finding list" where
  "report_error m describe = (case m of Inl e \<Rightarrow> [describe (message_of e)] | Inr _ \<Rightarrow> [])"

lemma report_error_eq_Nil [simp]: "report_error m describe = [] \<longleftrightarrow> is_ok m"
  by (simp add: report_error_def is_ok_def split: sum.splits)

lemma report_error_blocking [simp]:
  "(\<And>s. is_blocking (describe s)) \<Longrightarrow> list_all is_blocking (report_error m describe)"
  by (simp add: report_error_def split: sum.splits)

definition package_findings :: "string list \<Rightarrow> string list \<Rightarrow> package \<Rightarrow> finding list" where
  "package_findings known_requirements known_packages p = (case package_validate p of
     Inl e \<Rightarrow> [blocking_finding ''INVALID_PACKAGE_CONTRACT'' (message_of e) (Some (pk_package_id p))]
   | Inr _ \<Rightarrow>
       report_each (\<lambda>i. i \<notin> set known_requirements)
         (\<lambda>i. blocking_finding ''PACKAGE_UNKNOWN_REQUIREMENT'' (''package references unknown requirement '' @ i)
            (Some (pk_package_id p))) (pk_requirement_ids p) @
       report_each (\<lambda>d. d \<notin> set known_packages)
         (\<lambda>d. blocking_finding ''PACKAGE_UNKNOWN_DEPENDENCY'' (''package depends on unknown package '' @ d)
            (Some (pk_package_id p))) (pk_depends_on p) @
       concat (map (\<lambda>w. report_error (normalize_scope w)
         (\<lambda>text. blocking_finding ''INVALID_WRITE_SCOPE'' text (Some (pk_package_id p)))) (pk_write_scopes p)))"

definition ownership_findings :: "design_bundle \<Rightarrow> package list \<Rightarrow> finding list" where
  "ownership_findings design ps = report_each (\<lambda>i. i \<notin> set (concat (map pk_requirement_ids ps)))
     (\<lambda>i. blocking_finding ''MUST_WITHOUT_ENGINEERING_OWNER''
        ''MUST requirement is not assigned to an engineering work package'' (Some i))
     (sorted_set (must_ids design))"

text \<open>Every pair of packages, each with the later ones.\<close>

fun later_pairs :: "'a list \<Rightarrow> ('a \<times> 'a) list" where
  "later_pairs [] = []"
| "later_pairs (x # xs) = map (Pair x) xs @ later_pairs xs"

definition conflicting :: "graph \<Rightarrow> package \<Rightarrow> package \<Rightarrow> bool" where
  "conflicting g left right \<longleftrightarrow> scopes_overlap (pk_write_scopes left) (pk_write_scopes right) \<and>
     \<not> (ordered_before g (pk_package_id left) (pk_package_id right) \<or>
        ordered_before g (pk_package_id right) (pk_package_id left))"

definition conflict_findings :: "package list \<Rightarrow> finding list" where
  "conflict_findings ps = report_each (\<lambda>(l, r). conflicting (package_graph ps) l r)
     (\<lambda>(l, r). blocking_finding ''UNORDERED_WRITE_SCOPE_CONFLICT''
        (pk_package_id l @ '' and '' @ pk_package_id r @ '' overlap write scopes without dependency ordering'') None)
     (later_pairs ps)"

definition eng_plan_validate :: "design_bundle \<Rightarrow> package list \<Rightarrow> finding list res" where
  "eng_plan_validate design ps = res_bind (bundle_validate design) (\<lambda>_. Inr (
     report_if (\<not> distinct (map pk_package_id ps))
       (blocking_finding ''DUPLICATE_PACKAGE_ID'' ''package IDs must be unique'' None) @
     concat (map (package_findings (requirement_ids design) (map pk_package_id ps)) ps) @
     report_if (has_cycle (package_graph ps))
       (blocking_finding ''PACKAGE_DEPENDENCY_CYCLE'' ''package dependency graph contains a cycle'' None) @
     ownership_findings design ps @ conflict_findings ps))"

text \<open>The rules of a plan, over its packages and the requirements of the design: a package is complete and has the
  owner of its discipline, references exist, every scope denotes a path, dependencies are acyclic, every MUST requirement
  has an owner, and packages whose scopes overlap are ordered by dependencies.\<close>

definition package_depends :: "package list \<Rightarrow> (string \<times> string) set" where
  "package_depends ps = {(pk_package_id p, d) | p d. p \<in> set ps \<and> d \<in> set (pk_depends_on p)}"

definition package_sound :: "package \<Rightarrow> bool" where
  "package_sound p \<longleftrightarrow> pk_package_id p \<noteq> [] \<and> pk_mission_id p \<noteq> [] \<and> (\<exists>c \<in> set (pk_objective p). \<not> is_space c) \<and>
     (pk_discipline p, pk_owner_agent p) \<in> {(''FRONTEND'', ''A05-FRONTEND''), (''BACKEND'', ''A06-BACKEND''),
       (''DATABASE'', ''A07-DATABASE''), (''AI_AUTOMATION'', ''A08-AI-AUTOMATION'')} \<and>
     pk_requirement_ids p \<noteq> [] \<and> pk_write_scopes p \<noteq> [] \<and> pk_expected_artifacts p \<noteq> [] \<and>
     pk_verification_methods p \<noteq> [] \<and> pk_package_id p \<notin> set (pk_depends_on p) \<and>
     distinct (pk_depends_on p) \<and> distinct (pk_write_scopes p)"

definition plan_ok :: "design_bundle \<Rightarrow> package list \<Rightarrow> bool" where
  "plan_ok design ps \<longleftrightarrow> distinct (map pk_package_id ps) \<and>
     (\<forall>p \<in> set ps. package_sound p \<and>
       (\<forall>i \<in> set (pk_requirement_ids p). \<exists>r \<in> set (dg_requirements design). rq_requirement_id r = i) \<and>
       (\<forall>d \<in> set (pk_depends_on p). \<exists>q \<in> set ps. pk_package_id q = d) \<and>
       (\<forall>w \<in> set (pk_write_scopes p). \<exists>cs. denotes w cs)) \<and>
     acyclic (package_depends ps) \<and>
     (\<forall>r \<in> set (dg_requirements design). rq_priority r = ''MUST'' \<longrightarrow>
       (\<exists>p \<in> set ps. rq_requirement_id r \<in> set (pk_requirement_ids p))) \<and>
     (\<forall>p \<in> set ps. \<forall>q \<in> set ps. p \<noteq> q \<and> overlapping (pk_write_scopes p) (pk_write_scopes q) \<longrightarrow>
       (pk_package_id p, pk_package_id q) \<in> (package_depends ps)\<^sup>+ \<or>
       (pk_package_id q, pk_package_id p) \<in> (package_depends ps)\<^sup>+)"

text \<open>The same in the words of the validator, as its proofs use it.\<close>

definition plan_passes :: "design_bundle \<Rightarrow> package list \<Rightarrow> bool" where
  "plan_passes design ps \<longleftrightarrow> distinct (map pk_package_id ps) \<and>
     list_all (\<lambda>p. package_validate p = Inr () \<and> set (pk_requirement_ids p) \<subseteq> set (requirement_ids design) \<and>
       set (pk_depends_on p) \<subseteq> set (map pk_package_id ps) \<and>
       list_all (\<lambda>w. is_ok (normalize_scope w)) (pk_write_scopes p)) ps \<and>
     acyclic (package_depends ps) \<and>
     set (must_ids design) \<subseteq> set (concat (map pk_requirement_ids ps)) \<and>
     (\<forall>(l, r) \<in> set (later_pairs ps). scopes_overlap (pk_write_scopes l) (pk_write_scopes r) \<longrightarrow>
        (pk_package_id l, pk_package_id r) \<in> (package_depends ps)\<^sup>+ \<or>
        (pk_package_id r, pk_package_id l) \<in> (package_depends ps)\<^sup>+)"

lemma not_blank_iff: "\<not> blank s \<longleftrightarrow> (\<exists>c \<in> set s. \<not> is_space c)"
  by (auto simp: blank_def list_all_iff)

lemma package_validate_iff: "package_validate p = Inr () \<longleftrightarrow> package_sound p"
  unfolding package_validate_def package_sound_def not_blank_iff [symmetric]
  by (auto simp: engineering_disciplines_def discipline_owner_def split: if_splits)

lemma later_pairs_all:
  assumes "distinct xs" "\<And>x y. P x y \<Longrightarrow> P y x"
  shows "(\<forall>(x, y) \<in> set (later_pairs xs). P x y) \<longleftrightarrow> (\<forall>x \<in> set xs. \<forall>y \<in> set xs. x \<noteq> y \<longrightarrow> P x y)"
  using assms(1)
proof (induction xs)
  case (Cons x xs)
  have "(\<forall>(x', y) \<in> set (later_pairs (x # xs)). P x' y) \<longleftrightarrow>
      (\<forall>y \<in> set xs. P x y) \<and> (\<forall>(x', y) \<in> set (later_pairs xs). P x' y)" by auto
  also have "\<dots> \<longleftrightarrow> (\<forall>y \<in> set xs. P x y) \<and> (\<forall>x \<in> set xs. \<forall>y \<in> set xs. x \<noteq> y \<longrightarrow> P x y)"
    using Cons by simp
  also have "\<dots> \<longleftrightarrow> (\<forall>x' \<in> set (x # xs). \<forall>y \<in> set (x # xs). x' \<noteq> y \<longrightarrow> P x' y)"
    using Cons.prems assms(2) by auto
  finally show ?case .
qed simp

lemma plan_ok_passes: "plan_ok design ps \<longleftrightarrow> plan_passes design ps"
proof (cases "distinct (map pk_package_id ps)")
  case True
  have must: "(\<forall>r \<in> set (dg_requirements design). rq_priority r = ''MUST'' \<longrightarrow>
      (\<exists>p \<in> set ps. rq_requirement_id r \<in> set (pk_requirement_ids p))) \<longleftrightarrow>
      set (must_ids design) \<subseteq> set (concat (map pk_requirement_ids ps))"
    by (auto simp: must_ids_def)
  let ?P = "\<lambda>p q. overlapping (pk_write_scopes p) (pk_write_scopes q) \<longrightarrow>
     (pk_package_id p, pk_package_id q) \<in> (package_depends ps)\<^sup>+ \<or>
     (pk_package_id q, pk_package_id p) \<in> (package_depends ps)\<^sup>+"
  have pairs: "(\<forall>(p, q) \<in> set (later_pairs ps). ?P p q) \<longleftrightarrow> (\<forall>p \<in> set ps. \<forall>q \<in> set ps. p \<noteq> q \<longrightarrow> ?P p q)"
    using True overlapping_sym by (intro later_pairs_all) (auto simp: distinct_map)
  have one: "package_sound p \<and>
       (\<forall>i \<in> set (pk_requirement_ids p). \<exists>r \<in> set (dg_requirements design). rq_requirement_id r = i) \<and>
       (\<forall>d \<in> set (pk_depends_on p). \<exists>q \<in> set ps. pk_package_id q = d) \<and>
       (\<forall>w \<in> set (pk_write_scopes p). \<exists>cs. denotes w cs) \<longleftrightarrow>
     package_validate p = Inr () \<and> set (pk_requirement_ids p) \<subseteq> set (requirement_ids design) \<and>
       set (pk_depends_on p) \<subseteq> set (map pk_package_id ps) \<and>
       list_all (\<lambda>w. is_ok (normalize_scope w)) (pk_write_scopes p)" for p
    unfolding package_validate_iff valid_scope_iff list_all_iff by (auto simp: requirement_ids_def)
  show ?thesis
    unfolding plan_ok_def plan_passes_def one must scopes_overlap_iff pairs list_all_iff by blast
qed (simp add: plan_ok_def plan_passes_def)

lemma edges_iff: "(t, d) \<in> edges g \<longleftrightarrow> (\<exists>ds. map_of g t = Some ds \<and> d \<in> set ds)"
  by (cases "map_of g t") (simp_all add: edges_def successors_def)

lemma package_edges:
  assumes "distinct (map pk_package_id ps)"
  shows "edges (package_graph ps) = package_depends ps"
proof (intro set_eqI, clarify)
  fix t d
  show "(t, d) \<in> edges (package_graph ps) \<longleftrightarrow> (t, d) \<in> package_depends ps"
    unfolding edges_iff package_graph_def dict_by_distinct [OF assms] map_of_by_iff [OF assms] package_depends_def
    by blast
qed

lemma package_graph_cycle:
  assumes "distinct (map pk_package_id ps)" "\<forall>p \<in> set ps. set (pk_depends_on p) \<subseteq> set (map pk_package_id ps)"
  shows "has_cycle (package_graph ps) \<longleftrightarrow> \<not> acyclic (package_depends ps)"
proof -
  have "key_edges (package_graph ps) = package_depends ps"
    using assms(2) unfolding key_edges_def package_edges [OF assms(1)]
    by (auto simp: package_graph_def dict_by_keys package_depends_def)
  then show ?thesis by (simp add: has_cycle_iff)
qed

lemma package_findings_eq_Nil:
  "package_findings rs is p = [] \<longleftrightarrow> package_validate p = Inr () \<and> set (pk_requirement_ids p) \<subseteq> set rs \<and>
     set (pk_depends_on p) \<subseteq> set is \<and> list_all (\<lambda>w. is_ok (normalize_scope w)) (pk_write_scopes p)"
  by (cases "package_validate p") (auto simp: package_findings_def list_all_iff)

lemma conflict_findings_eq_Nil:
  assumes "distinct (map pk_package_id ps)"
  shows "conflict_findings ps = [] \<longleftrightarrow>
     (\<forall>(l, r) \<in> set (later_pairs ps). scopes_overlap (pk_write_scopes l) (pk_write_scopes r) \<longrightarrow>
        (pk_package_id l, pk_package_id r) \<in> (package_depends ps)\<^sup>+ \<or>
        (pk_package_id r, pk_package_id l) \<in> (package_depends ps)\<^sup>+)"
  by (auto simp: conflict_findings_def conflicting_def ordered_before_iff package_edges [OF assms])

lemma plan_findings_iff:
  assumes "eng_plan_validate design ps = Inr fs"
  shows "fs = [] \<longleftrightarrow> plan_ok design ps"
proof -
  let ?A = "distinct (map pk_package_id ps)"
    and ?B = "\<forall>p \<in> set ps. package_findings (requirement_ids design) (map pk_package_id ps) p = []"
    and ?O = "set (must_ids design) \<subseteq> set (concat (map pk_requirement_ids ps))"
  have o: "ownership_findings design ps = [] \<longleftrightarrow> ?O" by (auto simp: ownership_findings_def)
  have "fs = [] \<longleftrightarrow> ?A \<and> ?B \<and> \<not> has_cycle (package_graph ps) \<and> ?O \<and> conflict_findings ps = []"
    using assms o by (auto simp: eng_plan_validate_def)
  moreover have "?A \<Longrightarrow> ?B \<Longrightarrow> has_cycle (package_graph ps) \<longleftrightarrow> \<not> acyclic (package_depends ps)"
    by (rule package_graph_cycle) (auto simp: package_findings_eq_Nil)
  moreover note conflict_findings_eq_Nil [of ps]
  ultimately have "fs = [] \<longleftrightarrow> ?A \<and> ?B \<and> acyclic (package_depends ps) \<and> ?O \<and>
     (\<forall>(l, r) \<in> set (later_pairs ps). scopes_overlap (pk_write_scopes l) (pk_write_scopes r) \<longrightarrow>
        (pk_package_id l, pk_package_id r) \<in> (package_depends ps)\<^sup>+ \<or>
        (pk_package_id r, pk_package_id l) \<in> (package_depends ps)\<^sup>+)"
    by blast
  then show ?thesis by (simp only: plan_ok_passes plan_passes_def package_findings_eq_Nil list_all_iff)
qed

lemma package_findings_block: "list_all is_blocking (package_findings rs is p)"
  by (cases "package_validate p") (simp_all add: package_findings_def list.pred_map comp_def)

lemma conflict_findings_block: "list_all is_blocking (conflict_findings ps)"
  unfolding conflict_findings_def by (rule report_each_blocking) (simp split: prod.splits)

lemma plan_findings_block: "eng_plan_validate design ps = Inr fs \<Longrightarrow> list_all is_blocking fs"
  by (auto simp: eng_plan_validate_def ownership_findings_def conflict_findings_block package_findings_block list.pred_map
      comp_def)

lemma plan_accepted: "eng_plan_validate design ps = Inr fs \<Longrightarrow> blocking fs = [] \<longleftrightarrow> plan_ok design ps"
  using plan_findings_iff plan_findings_block blocking_all by metis

section \<open>The evidence validator\<close>

text \<open>\<open>any(f(x) for x in xs)\<close> where \<open>f\<close> may raise\<close>

fun any_res :: "('a \<Rightarrow> bool res) \<Rightarrow> 'a list \<Rightarrow> bool res" where
  "any_res f [] = Inr False"
| "any_res f (x # xs) = res_bind (f x) (\<lambda>b. if b then Inr True else any_res f xs)"

definition path_findings :: "string list \<Rightarrow> string \<Rightarrow> finding list" where
  "path_findings scopes path = (case any_res (path_in_scope path) scopes of
     Inl e \<Rightarrow> [blocking_finding ''INVALID_CHANGED_PATH'' (message_of e) (Some path)]
   | Inr allowed \<Rightarrow> report_if (\<not> allowed) (blocking_finding ''CHANGE_OUTSIDE_WRITE_SCOPE''
       (''changed path '' @ path @ '' is outside declared package scopes'') (Some path)))"

definition executed_methods :: "manifest \<Rightarrow> string list" where
  "executed_methods e = map vr_method (filter (\<lambda>r. vr_status r = ''PASS'') (mf_verification_results e))"

definition evidence_findings :: "package \<Rightarrow> manifest \<Rightarrow> finding list" where
  "evidence_findings p e =
     report_if (mf_package_id e \<noteq> pk_package_id p)
       (blocking_finding ''EVIDENCE_PACKAGE_MISMATCH'' ''evidence belongs to another package'' None) @
     concat (map (path_findings (pk_write_scopes p)) (mf_changed_paths e)) @
     report_each (\<lambda>a. a \<notin> set (mf_produced_artifacts e))
       (\<lambda>a. blocking_finding ''EXPECTED_ARTIFACT_MISSING'' (''expected artifact was not produced: '' @ a) (Some a))
       (sorted_set (pk_expected_artifacts p)) @
     report_each (\<lambda>r. vr_status r \<noteq> ''PASS'')
       (\<lambda>r. blocking_finding ''VERIFICATION_FAILED'' (''verification failed: '' @ vr_method r) (Some (vr_verification_id r)))
       (mf_verification_results e) @
     report_each (\<lambda>m. m \<notin> set (executed_methods e))
       (\<lambda>m. blocking_finding ''REQUIRED_VERIFICATION_MISSING'' (''required verification did not pass: '' @ m)
          (Some (pk_package_id p)))
       (pk_verification_methods p)"

definition check_evidence :: "package \<Rightarrow> manifest \<Rightarrow> finding list res" where
  "check_evidence p e = res_bind (package_validate p) (\<lambda>_. Inr (case manifest_validate e of
       Inl err \<Rightarrow> [blocking_finding ''INVALID_EVIDENCE_CONTRACT'' (message_of err) (Some (mf_package_id e))]
     | Inr _ \<Rightarrow> evidence_findings p e))"

text \<open>What accepted evidence shows: every changed path inside a declared scope, everything expected
  was produced, every verification passed and every required one was run.\<close>

definition path_allowed :: "string list \<Rightarrow> string \<Rightarrow> bool" where
  "path_allowed scopes path \<longleftrightarrow> (\<exists>s \<in> set scopes. \<exists>cs ds. denotes path cs \<and> denotes s ds \<and> beneath cs ds)"

definition evidence_ok :: "package \<Rightarrow> manifest \<Rightarrow> bool" where
  "evidence_ok p e \<longleftrightarrow> pk_package_id p \<noteq> [] \<and> mf_package_id e = pk_package_id p \<and>
     mf_changed_paths e \<noteq> [] \<and> mf_produced_artifacts e \<noteq> [] \<and> mf_verification_results e \<noteq> [] \<and>
     (\<forall>r \<in> set (mf_verification_results e). vr_status r = ''PASS'' \<and> vr_verification_id r \<noteq> [] \<and>
       (\<exists>c \<in> set (vr_method r). \<not> is_space c) \<and> (\<exists>c \<in> set (vr_evidence_ref r). \<not> is_space c)) \<and>
     (\<forall>path \<in> set (mf_changed_paths e). path_allowed (pk_write_scopes p) path) \<and>
     set (pk_expected_artifacts p) \<subseteq> set (mf_produced_artifacts e) \<and>
     (\<forall>m \<in> set (pk_verification_methods p). \<exists>r \<in> set (mf_verification_results e). vr_method r = m)"

lemma path_allowed_iff: "path_allowed scopes path \<longleftrightarrow> (\<exists>v. normalize_scope path = Inr v \<and>
     (\<exists>s \<in> set scopes. \<exists>w. normalize_scope s = Inr w \<and> within_scope v w))"
  unfolding path_allowed_def within_scope_iff [symmetric] by blast

text \<open>The same in the words of the validator.\<close>

definition evidence_passes :: "package \<Rightarrow> manifest \<Rightarrow> bool" where
  "evidence_passes p e \<longleftrightarrow> manifest_validate e = Inr () \<and> mf_package_id e = pk_package_id p \<and>
     list_all (path_allowed (pk_write_scopes p)) (mf_changed_paths e) \<and>
     set (pk_expected_artifacts p) \<subseteq> set (mf_produced_artifacts e) \<and>
     list_all (\<lambda>r. vr_status r = ''PASS'') (mf_verification_results e) \<and>
     set (pk_verification_methods p) \<subseteq> set (map vr_method (mf_verification_results e))"

lemma evidence_ok_passes: "evidence_ok p e \<longleftrightarrow> evidence_passes p e"
  unfolding evidence_ok_def evidence_passes_def manifest_validate_def not_blank_iff [symmetric]
  by (auto simp: verification_validate_def list_all_iff)

lemma any_path_allowed: "any_res (path_in_scope path) scopes = Inr True \<Longrightarrow> path_allowed scopes path"
  by (induction scopes) (auto simp: path_in_scope_def path_allowed_iff split: if_splits)

lemma any_path_allowed_iff:
  "list_all (\<lambda>w. is_ok (normalize_scope w)) scopes \<Longrightarrow>
     any_res (path_in_scope path) scopes = Inr True \<longleftrightarrow> path_allowed scopes path"
proof (induction scopes)
  case (Cons s scopes)
  then obtain w where w: "normalize_scope s = Inr w" by (auto simp: is_ok_iff)
  with Cons show ?case
    by (cases "normalize_scope path") (auto simp: path_in_scope_def path_allowed_iff)
qed (simp add: path_allowed_iff)

lemma path_findings_eq_Nil: "path_findings scopes path = [] \<longleftrightarrow> any_res (path_in_scope path) scopes = Inr True"
  by (simp add: path_findings_def split: sum.splits)

lemma path_findings_block: "list_all is_blocking (path_findings scopes path)"
  by (simp add: path_findings_def split: sum.splits)

lemma evidence_findings_block: "check_evidence p e = Inr fs \<Longrightarrow> list_all is_blocking fs"
  by (auto simp: check_evidence_def evidence_findings_def path_findings_block list.pred_map comp_def split: sum.splits)

lemma evidence_findings_eq_Nil:
  "evidence_findings p e = [] \<longleftrightarrow> mf_package_id e = pk_package_id p \<and>
     (\<forall>path \<in> set (mf_changed_paths e). any_res (path_in_scope path) (pk_write_scopes p) = Inr True) \<and>
     set (pk_expected_artifacts p) \<subseteq> set (mf_produced_artifacts e) \<and>
     (\<forall>r \<in> set (mf_verification_results e). vr_status r = ''PASS'') \<and>
     set (pk_verification_methods p) \<subseteq> set (executed_methods e)"
  by (auto simp: evidence_findings_def path_findings_eq_Nil)

lemma executed_all:
  "\<forall>r \<in> set (mf_verification_results e). vr_status r = ''PASS'' \<Longrightarrow>
     executed_methods e = map vr_method (mf_verification_results e)"
  by (simp add: executed_methods_def filter_True)

lemma evidence_accepted:
  assumes "check_evidence p e = Inr fs" "blocking fs = []"
  shows "evidence_ok p e"
proof -
  have "fs = []" using evidence_findings_block [OF assms(1)] assms(2) blocking_all by metis
  with assms(1) show ?thesis
    by (auto simp: check_evidence_def evidence_findings_eq_Nil evidence_ok_passes evidence_passes_def executed_all list_all_iff
        any_path_allowed split: sum.splits)
qed

lemma evidence_accepted_iff:
  assumes "check_evidence p e = Inr fs" "list_all (\<lambda>w. is_ok (normalize_scope w)) (pk_write_scopes p)"
  shows "blocking fs = [] \<longleftrightarrow> evidence_ok p e"
proof
  assume ok: "evidence_ok p e"
  then have "\<forall>r \<in> set (mf_verification_results e). vr_status r = ''PASS''" by (simp add: evidence_ok_passes evidence_passes_def list_all_iff)
  with ok assms have "fs = []"
    by (auto simp: check_evidence_def evidence_findings_eq_Nil evidence_ok_passes evidence_passes_def executed_all list_all_iff
        any_path_allowed_iff split: sum.splits)
  then show "blocking fs = []" by (simp add: blocking_def)
qed (rule evidence_accepted [OF assms(1)])

end
