(* ===== verification/Engineering_Integration.thy ===== *)
theory Engineering_Integration
  imports Engineering_Plan
begin

text \<open>
  Integration of package evidence (factory/engineering_pod/integration.py) and workspace
  allocation (workspace.py). The integration loop keeps who owns each artifact and path, the changed
  paths and the verification ids seen so far; the manifest it returns is validated at the end. The
  lists that one error message prints are left out of it.
\<close>

section \<open>Integration\<close>

record integration =
  ig_mission_id :: string
  ig_package_order :: "string list"
  ig_artifacts :: "(string \<times> string) list"
  ig_changed_paths :: "string list"
  ig_verification_ids :: "string list"

definition integration_validate :: "integration \<Rightarrow> unit res" where
  "integration_validate g = checks [
     raise_if (ig_mission_id g = []) (ValueError ''mission_id is required''),
     raise_if (ig_package_order g = []) (ValueError ''package_order cannot be empty''),
     raise_if (\<not> distinct (ig_package_order g)) (ValueError ''package_order cannot contain duplicates''),
     raise_if (\<not> distinct (ig_changed_paths g)) (ValueError ''integrated changed_paths cannot contain duplicates''),
     raise_if (\<not> distinct (ig_verification_ids g)) (ValueError ''verification_ids cannot contain duplicates''),
     raise_if (\<not> distinct (map fst (ig_artifacts g))) (ValueError ''integrated artifacts require unique names''),
     raise_if (list_ex (\<lambda>(name, owner). name = [] \<or> owner = []) (ig_artifacts g))
       (ValueError ''integrated artifact name and owner are required'')]"

text \<open>The evidence of each package, refused when a package has two.\<close>

fun evidence_map :: "(string \<times> manifest) list \<Rightarrow> manifest list \<Rightarrow> (string \<times> manifest) list res" where
  "evidence_map d [] = Inr d"
| "evidence_map d (e # es) =
     (if mf_package_id e \<in> fst ` set d
      then Inl (ValueError (''duplicate evidence for package '' @ mf_package_id e))
      else evidence_map (AList.update (mf_package_id e) e d) es)"

definition position_in :: "'a list \<Rightarrow> 'a \<Rightarrow> nat" where
  "position_in xs x = length (takeWhile (\<lambda>y. y \<noteq> x) xs)"

definition check_dependency :: "string list \<Rightarrow> package \<Rightarrow> string \<Rightarrow> unit res" where
  "check_dependency order p d = checks [
     raise_if (d \<notin> set order) (ValueError (''unknown dependency in integration: '' @ d)),
     raise_if (position_in order (pk_package_id p) \<le> position_in order d)
       (ValueError (''dependency '' @ d @ '' must integrate before '' @ pk_package_id p))]"

text \<open>Recording who owns an item: an item of another package is refused.\<close>

fun claim_items :: "(string \<Rightarrow> string \<Rightarrow> string) \<Rightarrow> string \<Rightarrow> (string \<times> string) list \<Rightarrow> string list \<Rightarrow>
     (string \<times> string) list res" where
  "claim_items message pid owners [] = Inr owners"
| "claim_items message pid owners (x # xs) =
     (case map_of owners x of
        Some previous \<Rightarrow> if previous \<noteq> pid then Inl (ValueError (message x previous))
          else claim_items message pid (AList.update x pid owners) xs
      | None \<Rightarrow> claim_items message pid (AList.update x pid owners) xs)"

fun claim_verifications :: "string list \<Rightarrow> string list \<Rightarrow> string list res" where
  "claim_verifications seen [] = Inr seen"
| "claim_verifications seen (v # vs) =
     (if v \<in> set seen then Inl (ValueError (''duplicate verification ID:'' @ v))
      else claim_verifications (seen @ [v]) vs)"

record integrating =
  in_artifact_owner :: "(string \<times> string) list"
  in_path_owner :: "(string \<times> string) list"
  in_verifications :: "string list"
  in_changed :: "string list"

definition integrate_package :: "(string \<times> package) list \<Rightarrow> (string \<times> manifest) list \<Rightarrow> string \<Rightarrow> integrating \<Rightarrow>
     integrating res" where
  "integrate_package packages evidence pid st =
     res_bind (fetch (KeyError [pid]) (map_of packages pid)) (\<lambda>p.
     res_bind (fetch (KeyError [pid]) (map_of evidence pid)) (\<lambda>e.
     res_bind (check_evidence p e) (\<lambda>fs.
     res_bind (raise_if (blocking fs \<noteq> [])
       (ValueError (''package evidence cannot integrate:'' @ pid @ '':'' @ codes_of (blocking fs)))) (\<lambda>_.
     res_bind (claim_items (\<lambda>a prev. ''ambiguous artifact ownership:'' @ a @ '':'' @ prev @ '':'' @ pid) pid
       (in_artifact_owner st) (mf_produced_artifacts e)) (\<lambda>artifact_owner.
     res_bind (claim_items (\<lambda>a prev. ''same path changed by multiple packages:'' @ a @ '':'' @ prev @ '':'' @ pid) pid
       (in_path_owner st) (mf_changed_paths e)) (\<lambda>path_owner.
     res_bind (claim_verifications (in_verifications st) (map vr_verification_id (mf_verification_results e)))
       (\<lambda>verifications.
     Inr \<lparr>in_artifact_owner = artifact_owner, in_path_owner = path_owner, in_verifications = verifications,
       in_changed = in_changed st @ mf_changed_paths e\<rparr>)))))))"

fun integrate_packages :: "(string \<times> package) list \<Rightarrow> (string \<times> manifest) list \<Rightarrow> string list \<Rightarrow> integrating \<Rightarrow>
     integrating res" where
  "integrate_packages packages evidence [] st = Inr st"
| "integrate_packages packages evidence (pid # pids) st =
     res_bind (integrate_package packages evidence pid st) (integrate_packages packages evidence pids)"

definition integrate :: "string \<Rightarrow> package list \<Rightarrow> manifest list \<Rightarrow> string list \<Rightarrow> integration res" where
  "integrate mission_id ps es order =
     (let package_map = dict_by pk_package_id id ps in
     res_bind (checks [
       raise_if (mission_id = []) (ValueError ''mission_id is required''),
       raise_if (length package_map \<noteq> length ps) (ValueError ''duplicate package IDs cannot be integrated''),
       raise_if (list_ex (\<lambda>p. pk_mission_id p \<noteq> mission_id) ps)
         (ValueError ''all work packages must belong to the integration mission''),
       raise_if (\<not> distinct order \<or> set order \<noteq> fst ` set package_map)
         (ValueError ''package_order must contain every work package exactly once'')]) (\<lambda>_.
     res_bind (evidence_map [] es) (\<lambda>evidence.
     res_bind (raise_if (fst ` set evidence \<noteq> fst ` set package_map)
       (ValueError ''integration evidence mismatch'')) (\<lambda>_.
     res_bind (check_all (\<lambda>p. check_all (check_dependency order p) (pk_depends_on p)) ps) (\<lambda>_.
     res_bind (integrate_packages package_map evidence order
       \<lparr>in_artifact_owner = [], in_path_owner = [], in_verifications = [], in_changed = []\<rparr>) (\<lambda>st.
     let integrated = \<lparr>ig_mission_id = mission_id, ig_package_order = order,
           ig_artifacts = sort_key fst (in_artifact_owner st), ig_changed_paths = in_changed st,
           ig_verification_ids = in_verifications st\<rparr>
     in res_bind (integration_validate integrated) (\<lambda>_. Inr integrated)))))))"

section \<open>Workspaces\<close>

definition slug_char :: "char \<Rightarrow> bool" where
  "slug_char c = (let n = (of_char c :: nat) in
     97 \<le> n \<and> n \<le> 122 \<or> 48 \<le> n \<and> n \<le> 57 \<or> c \<in> {CHR ''.'', CHR ''_'', CHR ''-''})"

text \<open>\<open>_SAFE.sub("-", s)\<close>: each maximal run of unsafe characters becomes one dash.\<close>

fun dash_runs :: "string \<Rightarrow> string" where
  "dash_runs [] = []"
| "dash_runs [c] = (if slug_char c then [c] else ''-'')"
| "dash_runs (c # d # s) = (if slug_char c then c # dash_runs (d # s)
     else if slug_char d then CHR ''-'' # dash_runs (d # s) else dash_runs (d # s))"

definition slug :: "string \<Rightarrow> string res" where
  "slug value = (let result = strip_chars ''-.'' (dash_runs (lower (strip value))) in
     if result = [] then Inl (ValueError ''workspace identifier component cannot be empty'') else Inr result)"

record workspace =
  ws_workspace_id :: string
  ws_mission_id :: string
  ws_package_id :: string
  ws_owner_agent :: string
  ws_branch_name :: string
  ws_write_scopes :: "string list"

definition workspace_validate_for :: "workspace \<Rightarrow> package \<Rightarrow> unit res" where
  "workspace_validate_for w p = checks [
     package_validate p,
     raise_if (ws_mission_id w \<noteq> pk_mission_id p) (ValueError ''workspace mission_id mismatch''),
     raise_if (ws_package_id w \<noteq> pk_package_id p) (ValueError ''workspace package_id mismatch''),
     raise_if (ws_owner_agent w \<noteq> pk_owner_agent p) (ValueError ''workspace owner_agent mismatch''),
     raise_if (ws_write_scopes w \<noteq> pk_write_scopes p) (ValueError ''workspace scopes must match package scopes''),
     raise_if (blank (ws_workspace_id w) \<or> blank (ws_branch_name w))
       (ValueError ''workspace_id and branch_name are required''),
     raise_if (ws_workspace_id w \<noteq> pk_mission_id p @ '':'' @ pk_package_id p)
       (ValueError ''workspace_id must preserve canonical mission/package identity''),
     raise_if (prefixed ''/'' (ws_branch_name w) \<or> prefixed ''/'' (rev (ws_branch_name w)) \<or>
         occurs_in ''..'' (ws_branch_name w)) (ValueError ''unsafe branch name'')]"

definition branch_prefix :: string where
  "branch_prefix = ''factory''"

definition allocate :: "package \<Rightarrow> workspace res" where
  "allocate p = res_bind (package_validate p) (\<lambda>_.
     res_bind (slug (pk_mission_id p)) (\<lambda>mission_slug.
     res_bind (slug (pk_package_id p)) (\<lambda>package_slug.
     let assignment = \<lparr>ws_workspace_id = pk_mission_id p @ '':'' @ pk_package_id p, ws_mission_id = pk_mission_id p,
           ws_package_id = pk_package_id p, ws_owner_agent = pk_owner_agent p,
           ws_branch_name = branch_prefix @ ''/'' @ mission_slug @ ''/'' @ package_slug,
           ws_write_scopes = pk_write_scopes p\<rparr>
     in res_bind (workspace_validate_for assignment p) (\<lambda>_. Inr assignment))))"

section \<open>What integration shows\<close>

lemma claim_items_Inr:
  "claim_items msg pid owners xs = Inr owners' \<Longrightarrow>
     (\<forall>x \<in> set xs. map_of owners x \<in> {None, Some pid}) \<and>
     map_of owners' = (\<lambda>x. if x \<in> set xs then Some pid else map_of owners x) \<and>
     (distinct (map fst owners) \<longrightarrow> distinct (map fst owners'))"
proof (induction xs arbitrary: owners)
  case (Cons x xs)
  then have x: "map_of owners x \<in> {None, Some pid}"
    and rec: "claim_items msg pid (AList.update x pid owners) xs = Inr owners'"
    by (auto split: option.splits if_splits)
  from Cons.IH [OF rec] x show ?case
    by (auto simp: AList.update_conv' distinct_update fun_eq_iff split: if_splits)
qed simp

lemma claim_verifications_Inr:
  "claim_verifications seen vs = Inr seen' \<Longrightarrow> seen' = seen @ vs \<and> (distinct seen \<longrightarrow> distinct (seen @ vs))"
proof (induction vs arbitrary: seen)
  case (Cons v vs)
  then have v: "v \<notin> set seen" and rec: "claim_verifications (seen @ [v]) vs = Inr seen'"
    by (simp_all split: if_splits)
  from Cons.IH [OF rec] v show ?case by auto
qed simp

text \<open>\<open>ev\<close> is the evidence by package id.\<close>

definition packages_integrated :: "(string \<times> package) list \<Rightarrow> (string \<times> manifest) list \<Rightarrow> string list \<Rightarrow> integrating \<Rightarrow> bool" where
  "packages_integrated packages evidence past st \<longleftrightarrow>
     (\<forall>pid \<in> set past. \<exists>p e. map_of packages pid = Some p \<and> map_of evidence pid = Some e \<and> evidence_ok p e) \<and>
     in_changed st = concat (map (\<lambda>pid. mf_changed_paths (the (map_of evidence pid))) past) \<and>
     in_verifications st = concat (map (\<lambda>pid. map vr_verification_id (mf_verification_results (the (map_of evidence pid)))) past) \<and>
     distinct (in_verifications st) \<and> distinct (map fst (in_artifact_owner st)) \<and>
     (\<forall>a pid. map_of (in_artifact_owner st) a = Some pid \<longleftrightarrow>
        pid \<in> set past \<and> a \<in> set (mf_produced_artifacts (the (map_of evidence pid))))"

lemma integrate_package_step:
  assumes "integrate_package packages evidence pid st = Inr st'" "packages_integrated packages evidence past st"
    and "pid \<notin> set past"
  shows "packages_integrated packages evidence (past @ [pid]) st'"
proof -
  from assms(1) obtain p e fs ao po vs where p: "map_of packages pid = Some p" "map_of evidence pid = Some e"
    and fs: "check_evidence p e = Inr fs" "blocking fs = []"
    and ao: "claim_items (\<lambda>a prev. ''ambiguous artifact ownership:'' @ a @ '':'' @ prev @ '':'' @ pid) pid
       (in_artifact_owner st) (mf_produced_artifacts e) = Inr ao"
    and vs: "claim_verifications (in_verifications st) (map vr_verification_id (mf_verification_results e)) = Inr vs"
    and st': "st' = \<lparr>in_artifact_owner = ao, in_path_owner = po, in_verifications = vs,
       in_changed = in_changed st @ mf_changed_paths e\<rparr>"
    unfolding integrate_package_def by force
  have owner: "map_of ao a = Some q \<longleftrightarrow> q \<in> set (past @ [pid]) \<and> a \<in> set (mf_produced_artifacts (the (map_of evidence q)))" for a q
  proof (cases "a \<in> set (mf_produced_artifacts e)")
    case True
    have "q \<notin> set past \<or> a \<notin> set (mf_produced_artifacts (the (map_of evidence q)))"
    proof (rule ccontr)
      assume "\<not> ?thesis"
      then have "map_of (in_artifact_owner st) a = Some q" using assms(2) by (simp add: packages_integrated_def)
      with True claim_items_Inr [OF ao] have "q = pid" by auto
      with \<open>\<not> ?thesis\<close> assms(3) show False by simp
    qed
    with True claim_items_Inr [OF ao] p show ?thesis by auto
  next
    case False
    then have "map_of ao a = map_of (in_artifact_owner st) a" using claim_items_Inr [OF ao] by simp
    with False p assms(2) show ?thesis by (auto simp: packages_integrated_def)
  qed
  show ?thesis
    using assms(2) p evidence_accepted [OF fs] claim_verifications_Inr [OF vs] claim_items_Inr [OF ao] owner
    unfolding packages_integrated_def st' by auto
qed

lemma integrate_packages_all:
  "integrate_packages packages evidence pids st = Inr st' \<Longrightarrow> packages_integrated packages evidence past st \<Longrightarrow>
     distinct (past @ pids) \<Longrightarrow> packages_integrated packages evidence (past @ pids) st'"
proof (induction pids arbitrary: past st)
  case (Cons pid pids)
  from Cons.prems(1) obtain st1 where st1: "integrate_package packages evidence pid st = Inr st1"
    "integrate_packages packages evidence pids st1 = Inr st'" by auto
  have "packages_integrated packages evidence (past @ [pid]) st1"
    using integrate_package_step [OF st1(1) Cons.prems(2)] Cons.prems(3) by simp
  from Cons.IH [OF st1(2) this] Cons.prems(3) show ?case by simp
qed simp

lemma evidence_map_Inr:
  "evidence_map d es = Inr d' \<Longrightarrow> d' = d @ map (\<lambda>e. (mf_package_id e, e)) es"
proof (induction es arbitrary: d)
  case (Cons e es)
  then have e: "mf_package_id e \<notin> fst ` set d" by (auto split: if_splits)
  with Cons.prems have "evidence_map (d @ [(mf_package_id e, e)]) es = Inr d'" by (simp add: update_new)
  from Cons.IH [OF this] show ?case by simp
qed simp

text \<open>The promise of integration.\<close>

definition integrates :: "string \<Rightarrow> package list \<Rightarrow> (string \<Rightarrow> manifest) \<Rightarrow> string list \<Rightarrow> integration \<Rightarrow> bool" where
  "integrates m ps ev order g \<longleftrightarrow>
     ig_mission_id g = m \<and> ig_package_order g = order \<and> distinct order \<and> set order = pk_package_id ` set ps \<and>
     (\<forall>p \<in> set ps. pk_mission_id p = m \<and> evidence_ok p (ev (pk_package_id p)) \<and>
        (\<forall>d \<in> set (pk_depends_on p). d \<in> set order \<and> position_in order d < position_in order (pk_package_id p))) \<and>
     ig_changed_paths g = concat (map (mf_changed_paths \<circ> ev) order) \<and> distinct (ig_changed_paths g) \<and>
     ig_verification_ids g = concat (map (map vr_verification_id \<circ> mf_verification_results \<circ> ev) order) \<and>
     distinct (ig_verification_ids g) \<and>
     set (ig_artifacts g) = {(a, pid). pid \<in> set order \<and> a \<in> set (mf_produced_artifacts (ev pid))} \<and>
     distinct (map fst (ig_artifacts g)) \<and> sorted (map fst (ig_artifacts g))"

lemma length_dict_by: "length (dict_by key val xs) = length xs \<Longrightarrow> distinct (map key xs)"
proof -
  assume len: "length (dict_by key val xs) = length xs"
  have "card (key ` set xs) = length (dict_by key val xs)"
    using distinct_card [OF distinct_dict_by [of key val xs]] by (simp add: dict_by_keys [of key val, symmetric])
  with len show ?thesis by (intro card_distinct) simp
qed

lemma integrate_Inr:
  assumes "integrate m ps es order = Inr g"
  shows "\<exists>ev. integrates m ps ev order g \<and> (\<forall>p \<in> set ps. ev (pk_package_id p) \<in> set es)"
proof -
  let ?pm = "dict_by pk_package_id id ps"
  from assms obtain evidence st where
    len: "length ?pm = length ps" and m: "\<forall>p \<in> set ps. pk_mission_id p = m"
    and order: "distinct order" "set order = fst ` set ?pm"
    and ev: "evidence_map [] es = Inr evidence" "fst ` set evidence = fst ` set ?pm"
    and deps: "\<forall>p \<in> set ps. \<forall>d \<in> set (pk_depends_on p). check_dependency order p d = Inr ()"
    and st: "integrate_packages ?pm evidence order
       \<lparr>in_artifact_owner = [], in_path_owner = [], in_verifications = [], in_changed = []\<rparr> = Inr st"
    and g: "g = \<lparr>ig_mission_id = m, ig_package_order = order, ig_artifacts = sort_key fst (in_artifact_owner st),
       ig_changed_paths = in_changed st, ig_verification_ids = in_verifications st\<rparr>" "integration_validate g = Inr ()"
    unfolding integrate_def Let_def by (auto simp: list_ex_iff)
  define f where "f = (\<lambda>i. the (map_of evidence i))"
  have dist: "distinct (map pk_package_id ps)" by (rule length_dict_by [OF len])
  have pm: "map_of ?pm (pk_package_id p) = Some p" if "p \<in> set ps" for p
    using that map_of_by_iff [OF dist, of id] by (simp add: dict_by_distinct [OF dist])
  have past: "packages_integrated ?pm evidence order st"
  proof -
    have "packages_integrated ?pm evidence [] \<lparr>in_artifact_owner = [], in_path_owner = [], in_verifications = [], in_changed = []\<rparr>"
      by (simp add: packages_integrated_def)
    from integrate_packages_all [OF st this] order(1) show ?thesis by simp
  qed
  have e: "evidence = map (\<lambda>e. (mf_package_id e, e)) es" using evidence_map_Inr [OF ev(1)] by simp
  have pk: "evidence_ok p (f (pk_package_id p)) \<and> f (pk_package_id p) \<in> set es" if p: "p \<in> set ps" for p
  proof -
    have "pk_package_id p \<in> set order" using p order(2) by (simp add: dict_by_keys)
    then obtain e' where e': "map_of evidence (pk_package_id p) = Some e'" "evidence_ok p e'"
      using past pm [OF p] by (auto simp: packages_integrated_def)
    then have "e' \<in> set es" by (auto simp: e dest: map_of_SomeD)
    with e' show ?thesis by (simp add: f_def)
  qed
  have arts: "set (in_artifact_owner st) = {(a, pid). pid \<in> set order \<and> a \<in> set (mf_produced_artifacts (f pid))}"
    using past map_of_eq_Some_iff [of "in_artifact_owner st"] by (auto simp: packages_integrated_def f_def)
  have distart: "distinct (map fst (sort_key fst (in_artifact_owner st)))"
    using g by (simp add: integration_validate_def)
  have verified: "ig_verification_ids g = concat (map (map vr_verification_id \<circ> mf_verification_results \<circ> f) order)"
    using past by (simp add: packages_integrated_def f_def comp_def g(1))
  have changed: "ig_changed_paths g = concat (map (mf_changed_paths \<circ> f) order)"
    using past by (simp add: packages_integrated_def f_def comp_def g(1))
  have "distinct (ig_changed_paths g)" "distinct (ig_verification_ids g)"
    using g(2) by (simp_all add: integration_validate_def)
  moreover have "d \<in> set order \<and> position_in order d < position_in order (pk_package_id p)"
    if "p \<in> set ps" "d \<in> set (pk_depends_on p)" for p d
    using deps that by (auto simp: check_dependency_def not_le)
  moreover have "ig_mission_id g = m" "ig_package_order g = order" "ig_artifacts g = sort_key fst (in_artifact_owner st)"
    by (simp_all add: g(1))
  ultimately have "integrates m ps f order g"
    using m order(1) order(2) pk arts distart verified changed
    by (simp add: integrates_def dict_by_keys)
  with pk show ?thesis by blast
qed

lemma allocate_Inr: "allocate p = Inr w \<Longrightarrow> workspace_validate_for w p = Inr () \<and> package_validate p = Inr ()"
  by (auto simp: allocate_def Let_def)

end
