(* ===== verification/Engineering_Pod.thy ===== *)
theory Engineering_Pod
  imports Engineering_Integration "HOL-Library.Multiset"
begin

text \<open>
  The engineering pod coordinator (factory/engineering_pod/coordinator.py): plan, order, dispatch of
  each package to the worker of its discipline, bounded revision, integration. The state is the pod
  state of Pods, whose world also holds the workspace assignments the coordinator remembers.
\<close>

section \<open>Workers and the coordinator\<close>

type_synonym engineering_plan = "package list"

record 'w planner =
  pl_plan_engineering :: "design_bundle \<Rightarrow> ('w, engineering_plan) act"
  pl_revise :: "(design_bundle \<Rightarrow> engineering_plan \<Rightarrow> revision_request \<Rightarrow> ('w, engineering_plan) act) option"

record 'w eng_worker =
  ew_agent_id :: string
  ew_discipline :: string
  ew_implement :: "design_bundle \<Rightarrow> package \<Rightarrow> string \<Rightarrow> ('w, manifest) act"
  ew_revise :: "(design_bundle \<Rightarrow> package \<Rightarrow> string \<Rightarrow> manifest \<Rightarrow> revision_request \<Rightarrow> ('w, manifest) act) option"

record 'w engineering_pod =
  ep_planner :: "'w planner"
  ep_workers :: "(string \<times> 'w eng_worker) list"
  ep_max_plan_rounds :: int
  ep_max_implementation_rounds :: int

definition new_engineering_pod :: "'w planner \<Rightarrow> 'w eng_worker list \<Rightarrow> int \<Rightarrow> int \<Rightarrow> 'w engineering_pod res" where
  "new_engineering_pod pl workers max_plan max_implementation =
     res_bind (raise_if (max_plan < 0 \<or> max_implementation < 0) (ValueError ''revision limits must be >= 0'')) (\<lambda>_.
     Inr \<lparr>ep_planner = pl, ep_workers = dict_by ew_agent_id id workers, ep_max_plan_rounds = max_plan,
       ep_max_implementation_rounds = max_implementation\<rparr>)"

type_synonym 'w eng_state = "('w \<times> (string \<times> workspace) list) pod_state"

definition ask_worker :: "('w, 'a) act \<Rightarrow> ('w eng_state, 'a) act" where
  "ask_worker m = ask (\<lambda>(w, a). case m w of (w', r) \<Rightarrow> ((w', a), r))"

definition assign_workspace :: "string \<Rightarrow> workspace \<Rightarrow> ('w eng_state, unit) act" where
  "assign_workspace pid ws = ask (\<lambda>(w, a). ((w, AList.update pid ws a), Inr ()))"

definition reset_workspaces :: "('w eng_state, unit) act" where
  "reset_workspaces = ask (\<lambda>(w, a). ((w, []), Inr ()))"

definition eng_clock :: "('w \<Rightarrow> 'w \<times> string) \<Rightarrow> 'w \<times> 'x \<Rightarrow> ('w \<times> 'x) \<times> string" where
  "eng_clock clock = (\<lambda>(w, a). case clock w of (w', t) \<Rightarrow> ((w', a), t))"

section \<open>Canonical texts\<close>

definition package_json :: "package \<Rightarrow> json" where
  "package_json p = JObj [(''package_id'', JStr (pk_package_id p)), (''mission_id'', JStr (pk_mission_id p)),
     (''owner_agent'', JStr (pk_owner_agent p)), (''discipline'', JStr (pk_discipline p)),
     (''objective'', JStr (pk_objective p)), (''requirement_ids'', JStrs (pk_requirement_ids p)),
     (''depends_on'', JStrs (pk_depends_on p)), (''write_scopes'', JStrs (pk_write_scopes p)),
     (''expected_artifacts'', JStrs (pk_expected_artifacts p)),
     (''verification_methods'', JStrs (pk_verification_methods p))]"

definition plan_text :: "engineering_plan \<Rightarrow> string" where
  "plan_text ps = json_dumps (JObj [(''packages'', JList (map package_json ps))])"

definition verification_json :: "verification_result \<Rightarrow> json" where
  "verification_json r = JObj [(''verification_id'', JStr (vr_verification_id r)), (''method'', JStr (vr_method r)),
     (''status'', JStr (vr_status r)), (''evidence_ref'', JStr (vr_evidence_ref r))]"

definition manifest_text :: "manifest \<Rightarrow> string" where
  "manifest_text e = json_dumps (JObj [(''package_id'', JStr (mf_package_id e)),
     (''changed_paths'', JStrs (mf_changed_paths e)), (''produced_artifacts'', JStrs (mf_produced_artifacts e)),
     (''verification_results'', JList (map verification_json (mf_verification_results e)))])"

definition integration_text :: "integration \<Rightarrow> string" where
  "integration_text g = json_dumps (JObj [(''mission_id'', JStr (ig_mission_id g)),
     (''package_order'', JStrs (ig_package_order g)),
     (''artifacts'', JList (map (\<lambda>(n, p). JObj [(''artifact_name'', JStr n), (''owner_package_id'', JStr p)]) (ig_artifacts g))),
     (''changed_paths'', JStrs (ig_changed_paths g)), (''verification_ids'', JStrs (ig_verification_ids g))])"

section \<open>Planning\<close>

text \<open>The loop runs on the number of revisions left; \<open>n\<close> is the number of the round.\<close>

definition plan_pass :: "design_bundle \<Rightarrow> engineering_plan \<Rightarrow> (finding list \<Rightarrow> ('w eng_state, engineering_plan) act) \<Rightarrow>
     ('w eng_state, engineering_plan) act" where
  "plan_pass design plan otherwise = act_bind (act_res (eng_plan_validate design plan)) (\<lambda>fs.
     if blocking fs = [] then act_return plan else otherwise (blocking fs))"

fun plan_rounds :: "'w planner \<Rightarrow> design_bundle \<Rightarrow> nat \<Rightarrow> int \<Rightarrow> engineering_plan \<Rightarrow> ('w eng_state, engineering_plan) act" where
  "plan_rounds pl design 0 n plan = plan_pass design plan (\<lambda>blockers.
     act_res (Inl (RuntimeError (''engineering_plan_revision_exhausted:'' @ codes_of blockers))))"
| "plan_rounds pl design (Suc k) n plan = plan_pass design plan (\<lambda>blockers.
     case pl_revise pl of
       None \<Rightarrow> act_res (Inl (RuntimeError ''engineering_plan_revision_unsupported''))
     | Some revise \<Rightarrow>
         act_bind (ask_worker (revise design plan \<lparr>rv_round_number = n + 1, rv_findings = blockers\<rparr>)) (\<lambda>plan'.
         if plan_text plan' = plan_text plan
         then act_res (Inl (RuntimeError ''engineering_plan_revision_no_progress''))
         else plan_rounds pl design k (n + 1) plan'))"

definition validated_plan :: "'w engineering_pod \<Rightarrow> design_bundle \<Rightarrow> ('w eng_state, engineering_plan) act" where
  "validated_plan pod design =
     act_bind (ask_worker (pl_plan_engineering (ep_planner pod) design)) (\<lambda>plan.
     plan_rounds (ep_planner pod) design (nat (ep_max_plan_rounds pod)) 0 plan)"

section \<open>Execution order\<close>

function execution_loop :: "package list \<Rightarrow> string list \<Rightarrow> package list res" where
  "execution_loop remaining completed = (if remaining = [] then Inr [] else
     let ready = sort_key pk_package_id (filter (\<lambda>p. list_all (\<lambda>d. d \<in> set completed) (pk_depends_on p)) remaining)
     in if ready = [] then Inl (RuntimeError ''engineering_dependency_deadlock'')
        else res_bind (execution_loop (filter (\<lambda>p. pk_package_id p \<notin> set (map pk_package_id ready)) remaining)
               (completed @ map pk_package_id ready)) (\<lambda>rest. Inr (ready @ rest)))"
  by pat_completeness auto
termination
proof (relation "measure (\<lambda>(remaining, completed). length remaining)", goal_cases)
  case (2 remaining completed ready)
  then obtain p where "p \<in> set ready" by (metis list.set_intros(1) neq_Nil_conv)
  with 2 have "p \<in> set remaining" "pk_package_id p \<in> set (map pk_package_id ready)" by auto
  then show ?case by (auto intro!: length_filter_less)
qed simp

declare execution_loop.simps [simp del]

definition execution_order :: "package list \<Rightarrow> package list res" where
  "execution_order ps = execution_loop (map snd (dict_by pk_package_id id ps)) []"

section \<open>Execution\<close>

definition evidence_pass :: "package \<Rightarrow> manifest \<Rightarrow> (finding list \<Rightarrow> ('w eng_state, manifest) act) \<Rightarrow> ('w eng_state, manifest) act" where
  "evidence_pass p e otherwise = act_bind (act_res (check_evidence p e)) (\<lambda>fs.
     if blocking fs = [] then act_return e else otherwise (blocking fs))"

fun evidence_rounds :: "'w eng_worker \<Rightarrow> design_bundle \<Rightarrow> package \<Rightarrow> string \<Rightarrow> nat \<Rightarrow> int \<Rightarrow> manifest \<Rightarrow> ('w eng_state, manifest) act" where
  "evidence_rounds wk design p wid 0 n e = evidence_pass p e (\<lambda>blockers.
     act_res (Inl (RuntimeError (''engineering_implementation_revision_exhausted:'' @ pk_package_id p @ '':'' @ codes_of blockers))))"
| "evidence_rounds wk design p wid (Suc k) n e = evidence_pass p e (\<lambda>blockers.
     case ew_revise wk of
       None \<Rightarrow> act_res (Inl (RuntimeError (''engineering_implementation_revision_unsupported:'' @ pk_package_id p)))
     | Some revise \<Rightarrow>
         act_bind (ask_worker (revise design p wid e \<lparr>rv_round_number = n + 1, rv_findings = blockers\<rparr>)) (\<lambda>e'.
         if e' = e then act_res (Inl (RuntimeError (''engineering_implementation_revision_no_progress:'' @ pk_package_id p)))
         else evidence_rounds wk design p wid k (n + 1) e'))"

definition worker_for :: "'w engineering_pod \<Rightarrow> package \<Rightarrow> 'w eng_worker res" where
  "worker_for pod p =
     res_bind (fetch (KeyError [pk_discipline p]) (discipline_owner (pk_discipline p))) (\<lambda>expected_owner.
     res_bind (fetch (RuntimeError (''engineering_worker_missing:'' @ expected_owner))
       (map_of (ep_workers pod) expected_owner)) (\<lambda>wk.
     res_bind (raise_if (ew_agent_id wk \<noteq> pk_owner_agent p \<or> ew_discipline wk \<noteq> pk_discipline p)
       (RuntimeError (''engineering_worker_identity_mismatch:'' @ pk_package_id p))) (\<lambda>_. Inr wk)))"

definition run_package :: "'w engineering_pod \<Rightarrow> design_bundle \<Rightarrow> package \<Rightarrow> ('w eng_state, manifest) act" where
  "run_package pod design p =
     act_bind (act_res (worker_for pod p)) (\<lambda>wk.
     act_bind (act_res (allocate p)) (\<lambda>ws.
     act_bind (act_res (workspace_validate_for ws p)) (\<lambda>_.
     act_bind (assign_workspace (pk_package_id p) ws) (\<lambda>_.
     act_bind (ask_worker (ew_implement wk design p (ws_workspace_id ws))) (\<lambda>e.
     evidence_rounds wk design p (ws_workspace_id ws) (nat (ep_max_implementation_rounds pod)) 0 e)))))"

fun run_packages :: "(string \<Rightarrow> string) \<Rightarrow> ('w \<Rightarrow> 'w \<times> string) \<Rightarrow> 'w engineering_pod \<Rightarrow> design_bundle \<Rightarrow> string \<Rightarrow>
     package list \<Rightarrow> ('w eng_state, manifest list) act" where
  "run_packages sha clock pod design author [] = act_return []"
| "run_packages sha clock pod design author (p # ps) =
     act_bind (run_package pod design p) (\<lambda>e.
     act_bind (publish sha (eng_clock clock) (dg_mission_id design) (''engineering-evidence-'' @ lower (pk_package_id p))
       (manifest_text e) author ''application/vnd.ai-factory.engineering-evidence+json'') (\<lambda>_.
     act_bind (run_packages sha clock pod design author ps) (\<lambda>es. act_return (e # es))))"

definition engineering_execute :: "(string \<Rightarrow> string) \<Rightarrow> ('w \<Rightarrow> 'w \<times> string) \<Rightarrow> 'w engineering_pod \<Rightarrow> design_bundle \<Rightarrow>
     string \<Rightarrow> ('w eng_state, engineering_plan \<times> package list \<times> manifest list) act" where
  "engineering_execute sha clock pod design author =
     act_bind (act_res (bundle_validate design)) (\<lambda>_.
     act_bind (validated_plan pod design) (\<lambda>plan.
     act_bind (act_res (execution_order plan)) (\<lambda>order.
     act_bind reset_workspaces (\<lambda>_.
     act_bind (run_packages sha clock pod design author order) (\<lambda>es.
     act_return (plan, order, es))))))"

definition engineering_run :: "(string \<Rightarrow> string) \<Rightarrow> ('w \<Rightarrow> 'w \<times> string) \<Rightarrow> 'w engineering_pod \<Rightarrow> design_bundle \<Rightarrow>
     string \<Rightarrow> ('w eng_state, manifest list) act" where
  "engineering_run sha clock pod design author =
     act_bind (engineering_execute sha clock pod design author) (\<lambda>(plan, order, es). act_return es)"

definition run_integrated :: "(string \<Rightarrow> string) \<Rightarrow> ('w \<Rightarrow> 'w \<times> string) \<Rightarrow> 'w engineering_pod \<Rightarrow> design_bundle \<Rightarrow>
     string \<Rightarrow> ('w eng_state, manifest list \<times> integration) act" where
  "run_integrated sha clock pod design author =
     act_bind (engineering_execute sha clock pod design author) (\<lambda>(plan, order, es).
     act_bind (act_res (integrate (dg_mission_id design) plan es (map pk_package_id order))) (\<lambda>g.
     act_bind (publish sha (eng_clock clock) (dg_mission_id design) ''engineering-integration-manifest''
       (integration_text g) author ''application/vnd.ai-factory.engineering-integration+json'') (\<lambda>_.
     act_return (es, g))))"

section \<open>The order exists\<close>

text \<open>Every package comes after the packages it depends on.\<close>

fun in_dependency_order :: "string list \<Rightarrow> package list \<Rightarrow> bool" where
  "in_dependency_order past [] \<longleftrightarrow> True"
| "in_dependency_order past (p # ps) \<longleftrightarrow>
     set (pk_depends_on p) \<subseteq> set past \<and> in_dependency_order (past @ [pk_package_id p]) ps"

lemma in_dependency_order_append:
  "in_dependency_order past (ps @ qs) \<longleftrightarrow>
     in_dependency_order past ps \<and> in_dependency_order (past @ map pk_package_id ps) qs"
  by (induction ps arbitrary: past) auto

lemma all_ready_in_order:
  "\<forall>p \<in> set ps. set (pk_depends_on p) \<subseteq> set past \<Longrightarrow> in_dependency_order past ps"
proof (induction ps arbitrary: past)
  case (Cons p ps)
  from Cons.IH [of "past @ [pk_package_id p]"] Cons.prems show ?case by auto
qed simp

abbreviation ready_packages :: "package list \<Rightarrow> string list \<Rightarrow> package list" where
  "ready_packages remaining completed \<equiv>
     sort_key pk_package_id (filter (\<lambda>p. list_all (\<lambda>d. d \<in> set completed) (pk_depends_on p)) remaining)"

abbreviation not_ready :: "package list \<Rightarrow> string list \<Rightarrow> package list" where
  "not_ready remaining completed \<equiv>
     filter (\<lambda>p. pk_package_id p \<notin> set (map pk_package_id (ready_packages remaining completed))) remaining"

lemma not_ready_eq:
  assumes "distinct (map pk_package_id remaining)"
  shows "not_ready remaining completed =
     filter (\<lambda>p. \<not> list_all (\<lambda>d. d \<in> set completed) (pk_depends_on p)) remaining"
proof (rule filter_cong [OF refl])
  fix p assume p: "p \<in> set remaining"
  have "inj_on pk_package_id (set remaining)" using assms by (simp add: distinct_map)
  with p show "pk_package_id p \<notin> set (map pk_package_id (ready_packages remaining completed)) \<longleftrightarrow>
     \<not> list_all (\<lambda>d. d \<in> set completed) (pk_depends_on p)"
    by (auto simp: inj_on_def)
qed

lemma execution_loop_Inr:
  "execution_loop remaining completed = Inr order \<Longrightarrow> distinct (map pk_package_id remaining) \<Longrightarrow>
     mset order = mset remaining \<and> in_dependency_order completed order"
proof (induction remaining completed arbitrary: order rule: execution_loop.induct)
  case (1 remaining completed)
  show ?case
  proof (cases "remaining = []")
    case True
    with "1.prems" show ?thesis by (simp add: execution_loop.simps)
  next
    case False
    let ?R = "ready_packages remaining completed"
    from "1.prems"(1) False obtain rest where R: "?R \<noteq> []" and order: "order = ?R @ rest"
      and rest: "execution_loop (not_ready remaining completed) (completed @ map pk_package_id ?R) = Inr rest"
      by (auto simp: execution_loop.simps [of remaining] Let_def split: if_splits)
    have "distinct (map pk_package_id (not_ready remaining completed))"
      using "1.prems"(2) by (rule distinct_map_filter)
    from "1.IH" [OF False refl R rest this]
    have "mset rest = mset (not_ready remaining completed)" "in_dependency_order (completed @ map pk_package_id ?R) rest"
      by auto
    then show ?thesis
      unfolding order not_ready_eq [OF "1.prems"(2)]
      by (auto simp: in_dependency_order_append list_all_iff intro!: all_ready_in_order)
  qed
qed

lemma ready_exists:
  assumes "acyclic (package_depends ps)" "set remaining \<subseteq> set ps" "remaining \<noteq> []"
    and "\<forall>p \<in> set remaining. set (pk_depends_on p) \<subseteq> set completed \<union> pk_package_id ` set remaining"
  shows "ready_packages remaining completed \<noteq> []"
proof -
  have "package_depends ps = (\<Union>p \<in> set ps. Pair (pk_package_id p) ` set (pk_depends_on p))"
    by (auto simp: package_depends_def)
  then have "finite (package_depends ps)" by simp
  then have "wf ((package_depends ps)\<inverse>)"
    using assms(1) by (simp add: finite_acyclic_wf_converse)
  moreover have "pk_package_id (hd remaining) \<in> pk_package_id ` set remaining" using assms(3) by simp
  ultimately obtain i where i: "i \<in> pk_package_id ` set remaining"
    and min: "\<And>j. (j, i) \<in> (package_depends ps)\<inverse> \<Longrightarrow> j \<notin> pk_package_id ` set remaining"
    by (rule wfE_min) blast
  then obtain p where p: "p \<in> set remaining" "pk_package_id p = i" by auto
  have "d \<in> set completed" if d: "d \<in> set (pk_depends_on p)" for d
  proof -
    have "(i, d) \<in> package_depends ps" using p d assms(2) by (auto simp: package_depends_def)
    then have "d \<notin> pk_package_id ` set remaining" using min [of d] by blast
    with assms(4) p(1) d show ?thesis by blast
  qed
  with p(1) have "p \<in> set (ready_packages remaining completed)" by (simp add: list_all_iff)
  then show ?thesis by force
qed

lemma execution_loop_succeeds:
  "acyclic (package_depends ps) \<Longrightarrow> set remaining \<subseteq> set ps \<Longrightarrow> distinct (map pk_package_id remaining) \<Longrightarrow>
     \<forall>p \<in> set remaining. set (pk_depends_on p) \<subseteq> set completed \<union> pk_package_id ` set remaining \<Longrightarrow>
     \<exists>order. execution_loop remaining completed = Inr order"
proof (induction remaining completed rule: execution_loop.induct)
  case (1 remaining completed)
  show ?case
  proof (cases "remaining = []")
    case False
    let ?R = "ready_packages remaining completed"
    have R: "?R \<noteq> []" using "1.prems" False by (intro ready_exists [of ps])
    have "\<exists>order. execution_loop (not_ready remaining completed) (completed @ map pk_package_id ?R) = Inr order"
    proof (rule "1.IH" [OF False refl R "1.prems"(1)])
      show "distinct (map pk_package_id (not_ready remaining completed))"
        using "1.prems"(3) by (rule distinct_map_filter)
      show "set (not_ready remaining completed) \<subseteq> set ps" using "1.prems"(2) by auto
      show "\<forall>p \<in> set (not_ready remaining completed). set (pk_depends_on p) \<subseteq>
         set (completed @ map pk_package_id ?R) \<union> pk_package_id ` set (not_ready remaining completed)"
      proof (intro ballI subsetI)
        fix p d assume p: "p \<in> set (not_ready remaining completed)" and d: "d \<in> set (pk_depends_on p)"
        from p have "p \<in> set remaining" by simp
        with d "1.prems"(4) have "d \<in> set completed \<or> (\<exists>q \<in> set remaining. pk_package_id q = d)" by blast
        then show "d \<in> set (completed @ map pk_package_id ?R) \<union> pk_package_id ` set (not_ready remaining completed)"
          by (cases "d \<in> set (completed @ map pk_package_id ?R)") (auto simp: image_iff)
      qed
    qed
    with False R show ?thesis by (auto simp: execution_loop.simps [of remaining] Let_def)
  qed (simp add: execution_loop.simps)
qed

lemma dict_values: "distinct (map pk_package_id ps) \<Longrightarrow> map snd (dict_by pk_package_id id ps) = ps"
  by (simp add: dict_by_distinct comp_def)

lemma plan_has_order:
  assumes "plan_ok design ps"
  shows "\<exists>order. execution_order ps = Inr order \<and> mset order = mset ps \<and> in_dependency_order [] order"
proof -
  have ps: "distinct (map pk_package_id ps)" "acyclic (package_depends ps)"
    "\<forall>p \<in> set ps. set (pk_depends_on p) \<subseteq> pk_package_id ` set ps"
    using assms unfolding plan_ok_passes plan_passes_def by (auto simp: list_all_iff)
  then obtain order where "execution_loop ps [] = Inr order"
    using execution_loop_succeeds [of ps ps "[]"] by auto
  with execution_loop_Inr [OF this ps(1)] ps(1) show ?thesis by (simp add: execution_order_def dict_values)
qed

section \<open>What a run promises\<close>

lemma plan_pass_Inr:
  "plan_pass design plan otherwise s = (s', Inr x) \<Longrightarrow>
     (x = plan \<and> plan_ok design plan) \<or> (\<exists>fs. otherwise fs s = (s', Inr x))"
  by (auto simp: plan_pass_def act_bind_Inr plan_accepted split: if_splits)

lemma plan_rounds_Inr: "plan_rounds pl design k n plan s = (s', Inr x) \<Longrightarrow> plan_ok design x"
proof (induction k arbitrary: n plan s)
  case 0
  then show ?case by (auto dest!: plan_pass_Inr)
next
  case (Suc k)
  from Suc.prems show ?case
    by (auto dest!: plan_pass_Inr split: option.splits if_splits intro: Suc.IH simp: act_bind_Inr)
qed

lemma validated_plan_Inr: "validated_plan pod design s = (s', Inr plan) \<Longrightarrow> plan_ok design plan"
  by (auto simp: validated_plan_def act_bind_Inr intro: plan_rounds_Inr)

lemma evidence_pass_Inr:
  "evidence_pass p e otherwise s = (s', Inr x) \<Longrightarrow>
     (x = e \<and> evidence_ok p e) \<or> (\<exists>fs. otherwise fs s = (s', Inr x))"
  by (auto simp: evidence_pass_def act_bind_Inr evidence_accepted split: if_splits)

lemma evidence_rounds_Inr: "evidence_rounds wk design p wid k n e s = (s', Inr x) \<Longrightarrow> evidence_ok p x"
proof (induction k arbitrary: n e s)
  case 0
  then show ?case by (auto dest!: evidence_pass_Inr)
next
  case (Suc k)
  from Suc.prems show ?case
    by (auto dest!: evidence_pass_Inr split: option.splits if_splits intro: Suc.IH simp: act_bind_Inr)
qed

text \<open>Workspace assignments: only a package's own dispatch changes its entry.\<close>

definition assignments :: "'w eng_state \<Rightarrow> (string \<times> workspace) list" where
  "assignments s = snd (fst s)"

definition keeps_assignments :: "('w eng_state, 'a) act \<Rightarrow> bool" where
  "keeps_assignments m \<longleftrightarrow> (\<forall>s. assignments (fst (m s)) = assignments s)"

lemma keeps_assignments_basic [intro, simp]:
  "keeps_assignments (ask_worker m)" "keeps_assignments (act_res r)" "keeps_assignments (act_return x)"
  "keeps_assignments (publish sha (eng_clock clock) i a content author mt)"
  by (auto simp: keeps_assignments_def assignments_def ask_worker_def ask_def publish_def eng_clock_def
      split: prod.splits option.splits sum.splits)

lemma keeps_assignments_bind [intro]:
  "keeps_assignments m \<Longrightarrow> (\<And>x. keeps_assignments (f x)) \<Longrightarrow> keeps_assignments (act_bind m f)"
  by (auto simp: keeps_assignments_def act_bind_apply simp del: split_paired_All split: sum.splits)

lemma keeps_assignmentsD: "keeps_assignments m \<Longrightarrow> m s = (s', r) \<Longrightarrow> assignments s' = assignments s"
  by (metis fst_conv keeps_assignments_def)

lemma evidence_rounds_assignments: "keeps_assignments (evidence_rounds wk design p wid k n e)"
  by (induction k arbitrary: n e)
    (auto simp: evidence_pass_def split: option.splits intro!: keeps_assignments_bind)

lemma run_package_Inr:
  assumes "run_package pod design p s = (s', Inr e)"
  shows "evidence_ok p e \<and> is_ok (worker_for pod p) \<and>
     (\<exists>ws. allocate p = Inr ws \<and> assignments s' = AList.update (pk_package_id p) ws (assignments s))"
proof -
  from assms obtain wk ws e0 s1 s2 where wk: "worker_for pod p = Inr wk" and ws: "allocate p = Inr ws"
    and s1: "assign_workspace (pk_package_id p) ws s = (s1, Inr ())"
    and s2: "ask_worker (ew_implement wk design p (ws_workspace_id ws)) s1 = (s2, Inr e0)"
    and rounds: "evidence_rounds wk design p (ws_workspace_id ws) (nat (ep_max_implementation_rounds pod)) 0 e0 s2 = (s', Inr e)"
    by (auto simp: run_package_def act_bind_Inr)
  have "assignments s1 = AList.update (pk_package_id p) ws (assignments s)"
    using s1 by (cases s) (auto simp: assign_workspace_def ask_def assignments_def split: prod.splits)
  with keeps_assignmentsD [OF keeps_assignments_basic(1) s2] keeps_assignmentsD [OF evidence_rounds_assignments rounds]
  have "assignments s' = AList.update (pk_package_id p) ws (assignments s)" by simp
  with wk ws evidence_rounds_Inr [OF rounds] show ?thesis by auto
qed

lemma run_packages_Inr:
  "run_packages sha clock pod design author ps s = (s', Inr es) \<Longrightarrow> distinct (map pk_package_id ps) \<Longrightarrow>
     list_all2 evidence_ok ps es \<and> (\<forall>p \<in> set ps. is_ok (worker_for pod p)) \<and>
     (\<forall>p \<in> set ps. \<exists>ws. allocate p = Inr ws \<and> map_of (assignments s') (pk_package_id p) = Some ws) \<and>
     (\<forall>i. i \<notin> pk_package_id ` set ps \<longrightarrow> map_of (assignments s') i = map_of (assignments s) i)"
proof (induction ps arbitrary: s es)
  case (Cons p ps)
  from Cons.prems(1) obtain e s1 s2 es' where s1: "run_package pod design p s = (s1, Inr e)"
    and s2: "publish sha (eng_clock clock) (dg_mission_id design) (''engineering-evidence-'' @ lower (pk_package_id p))
       (manifest_text e) author ''application/vnd.ai-factory.engineering-evidence+json'' s1 = (s2, Inr ())"
    and rest: "run_packages sha clock pod design author ps s2 = (s', Inr es')" and es: "es = e # es'"
    by (auto simp: act_bind_Inr)
  have "assignments s2 = assignments s1" by (rule keeps_assignmentsD [OF keeps_assignments_basic(4) s2])
  with run_package_Inr [OF s1] Cons.IH [OF rest] Cons.prems(2) show ?case
    by (auto simp: es AList.update_conv')
qed simp

lemma execute_Inr:
  assumes "engineering_execute sha clock pod design author s = (s', Inr (plan, order, es))"
  shows "plan_ok design plan \<and> execution_order plan = Inr order \<and> mset order = mset plan \<and>
     in_dependency_order [] order \<and> list_all2 evidence_ok order es \<and>
     (\<forall>p \<in> set plan. is_ok (worker_for pod p) \<and>
        (\<exists>ws. allocate p = Inr ws \<and> map_of (assignments s') (pk_package_id p) = Some ws))"
proof -
  from assms obtain s2 s3 where plan: "validated_plan pod design s = (s2, Inr plan)"
    and order: "execution_order plan = Inr order"
    and run: "run_packages sha clock pod design author order s3 = (s', Inr es)"
    by (auto simp: engineering_execute_def act_bind_Inr simp del: split_paired_Ex)
  have ok: "plan_ok design plan" using plan by (rule validated_plan_Inr)
  with order plan_has_order [OF ok] have o: "mset order = mset plan" "in_dependency_order [] order" by auto
  then have "set order = set plan" by (rule_tac mset_eq_setD)
  moreover have "distinct (map pk_package_id plan)" using ok unfolding plan_ok_def by (rule conjunct1)
  then have "distinct (map pk_package_id order)" using o(1) by (metis mset_eq_imp_distinct_iff mset_map)
  ultimately show ?thesis using run_packages_Inr [OF run] ok order o by auto
qed

lemma ask_worker_sound [intro, simp]: "preserves (catalog_sound sha) (ask_worker m)"
  by (simp add: ask_worker_def keeps_catalog_sound)

lemma act_res_sound [intro, simp]: "preserves (catalog_sound sha) (act_res r)"
  by (simp add: keeps_catalog_sound)

lemma evidence_rounds_sound: "preserves (catalog_sound sha) (evidence_rounds wk design p wid k n e)"
  by (induction k arbitrary: n e) (auto simp: evidence_pass_def split: option.splits intro!: preserves_bind)

lemma plan_rounds_sound: "preserves (catalog_sound sha) (plan_rounds pl design k n plan)"
  by (induction k arbitrary: n plan) (auto simp: plan_pass_def split: option.splits intro!: preserves_bind)

lemma run_packages_sound: "preserves (catalog_sound sha) (run_packages sha clock pod design author ps)"
proof (induction ps)
  case Nil
  show ?case unfolding run_packages.simps by (rule preserves_return)
next
  case (Cons p ps)
  show ?case unfolding run_packages.simps run_package_def assign_workspace_def
    by (intro preserves_bind preserves_publish evidence_rounds_sound ask_worker_sound act_res_sound Cons.IH
        preserves_return keeps_catalog_sound keeps_catalog_basic)
qed

lemma execute_sound: "preserves (catalog_sound sha) (engineering_execute sha clock pod design author)"
  unfolding engineering_execute_def validated_plan_def reset_workspaces_def
  by (intro preserves_bind plan_rounds_sound run_packages_sound keeps_catalog_sound keeps_catalog_basic ask_worker_sound
      preserves_return)

lemma run_integrated_Inr:
  assumes "run_integrated sha clock pod design author s = (s', Inr (es, g))"
  shows "\<exists>plan order ev. plan_ok design plan \<and> mset order = mset plan \<and> in_dependency_order [] order \<and>
     list_all2 evidence_ok order es \<and> (\<forall>p \<in> set plan. is_ok (worker_for pod p)) \<and>
     integrates (dg_mission_id design) plan ev (map pk_package_id order) g"
proof -
  from assms obtain s1 plan order where ex: "engineering_execute sha clock pod design author s = (s1, Inr (plan, order, es))"
    and g: "integrate (dg_mission_id design) plan es (map pk_package_id order) = Inr g"
    by (auto simp: run_integrated_def act_bind_Inr split: prod.splits)
  from execute_Inr [OF ex] integrate_Inr [OF g] show ?thesis by blast
qed

lemma run_integrated_published:
  assumes "run_integrated sha clock pod design author s = (s', Inr (es, g))" "catalog_sound sha s" "snd s' = Some k"
  shows "\<exists>row. latest_artifact (dg_mission_id design) ''engineering-integration-manifest'' k = Inr row \<and>
     af_content_text row = integration_text g"
proof -
  from assms(1) obtain s1 plan order where ex: "engineering_execute sha clock pod design author s = (s1, Inr (plan, order, es))"
    and pub: "publish sha (eng_clock clock) (dg_mission_id design) ''engineering-integration-manifest''
       (integration_text g) author ''application/vnd.ai-factory.engineering-integration+json'' s1 = (s', Inr ())"
    by (auto simp: run_integrated_def act_bind_Inr split: prod.splits)
  have "catalog_sound sha s1" using execute_sound assms(2) ex by (rule preservesD)
  moreover obtain k0 where "snd s1 = Some k0"
    using publish_Inr [OF pub] assms(3) by (cases "snd s1") (auto simp: published_opt_def)
  ultimately show ?thesis using publish_latest [OF pub] assms(3) by auto
qed

end
