(* ===== verification/Assurance_Pod.thy ===== *)
theory Assurance_Pod
  imports Engineering_Integration Hash_Chain
begin

text \<open>
  The assurance pod (factory/assurance_pod/): reports of the three independent reviewers, the
  deterministic gate over them, the coordinator that collects and publishes them, and the
  lifecycle that ties a decision to the fingerprint of the integration it was taken on.
\<close>

section \<open>Contracts\<close>

definition assurance_roles :: "string list" where
  "assurance_roles = [''A09-SECURITY'', ''A10-QA'', ''A12-RED-TEAM'']"

definition assurance_severities :: "string list" where
  "assurance_severities = [''INFO'', ''LOW'', ''MEDIUM'', ''HIGH'', ''CRITICAL'']"

record acceptance_coverage =
  av_criterion_id :: string
  av_evidence_refs :: "string list"

definition coverage_validate :: "acceptance_coverage \<Rightarrow> unit res" where
  "coverage_validate c = checks [
     raise_if (blank (av_criterion_id c)) (ValueError ''criterion_id is required''),
     raise_if (av_evidence_refs c = [] \<or> list_ex blank (av_evidence_refs c))
       (ValueError ''acceptance coverage requires non-empty evidence_refs'')]"

record assurance_finding =
  sf_finding_id :: string
  sf_category :: string
  sf_severity :: string
  sf_subject_ref :: string
  sf_statement :: string
  sf_evidence_refs :: "string list"
  sf_remediation :: string
  sf_blocking :: bool

definition assurance_finding_validate :: "assurance_finding \<Rightarrow> unit res" where
  "assurance_finding_validate f = checks [
     raise_if (sf_finding_id f = [] \<or> blank (sf_category f) \<or> blank (sf_subject_ref f))
       (ValueError ''finding_id, category and subject_ref are required''),
     raise_if (sf_severity f \<notin> set assurance_severities)
       (ValueError (''unknown assurance severity: '' @ sf_severity f)),
     raise_if (blank (sf_statement f) \<or> blank (sf_remediation f))
       (ValueError ''finding statement and remediation are required''),
     raise_if (sf_evidence_refs f = []) (ValueError ''assurance finding requires at least one evidence_ref''),
     raise_if (sf_severity f \<in> {''HIGH'', ''CRITICAL''} \<and> \<not> sf_blocking f)
       (ValueError ''HIGH/CRITICAL findings must be blocking'')]"

record assurance_report =
  ar_report_id :: string
  ar_mission_id :: string
  ar_reviewer_agent :: string
  ar_subject_artifact_ref :: string
  ar_findings :: "assurance_finding list"
  ar_verification_refs :: "string list"
  ar_acceptance_coverage :: "acceptance_coverage list"

definition assurance_report_validate :: "assurance_report \<Rightarrow> unit res" where
  "assurance_report_validate r = checks [
     raise_if (ar_report_id r = [] \<or> ar_mission_id r = [] \<or> blank (ar_subject_artifact_ref r))
       (ValueError ''report_id, mission_id and subject_artifact_ref are required''),
     raise_if (ar_reviewer_agent r \<notin> set assurance_roles)
       (ValueError (''unknown assurance reviewer: '' @ ar_reviewer_agent r)),
     raise_if (ar_verification_refs r = []) (ValueError ''assurance report requires executable verification_refs''),
     raise_if (\<not> distinct (map sf_finding_id (ar_findings r))) (ValueError ''duplicate finding IDs are not allowed''),
     check_all assurance_finding_validate (ar_findings r),
     raise_if (\<not> distinct (map av_criterion_id (ar_acceptance_coverage r)))
       (ValueError ''duplicate acceptance criterion coverage is not allowed''),
     check_all coverage_validate (ar_acceptance_coverage r),
     raise_if (ar_reviewer_agent r \<noteq> ''A10-QA'' \<and> ar_acceptance_coverage r \<noteq> [])
       (ValueError ''only A10-QA may claim acceptance criterion coverage'')]"

record assurance_decision =
  as_mission_id :: string
  as_status :: string
  as_reviewer_agents :: "string list"
  as_blocking_finding_ids :: "string list"
  as_report_ids :: "string list"

definition assurance_decision_validate :: "assurance_decision \<Rightarrow> unit res" where
  "assurance_decision_validate d = checks [
     raise_if (as_status d \<notin> {''PASS'', ''CHANGES_REQUIRED''})
       (ValueError ''assurance status must be PASS or CHANGES_REQUIRED''),
     raise_if (set (as_reviewer_agents d) \<noteq> set assurance_roles)
       (ValueError ''assurance decision requires A09, A10 and A12''),
     raise_if (length (as_report_ids d) \<noteq> 3 \<or> card (set (as_report_ids d)) \<noteq> 3)
       (ValueError ''assurance decision requires three unique reports''),
     raise_if (as_status d = ''PASS'' \<and> as_blocking_finding_ids d \<noteq> [])
       (ValueError ''PASS cannot contain blocking findings''),
     raise_if (as_status d = ''CHANGES_REQUIRED'' \<and> as_blocking_finding_ids d = [])
       (ValueError ''CHANGES_REQUIRED needs at least one blocking finding'')]"

section \<open>The gate\<close>

text \<open>The loop over the reports: reviewers, report ids, blocking findings and the QA report so far.\<close>

record gathered =
  ga_reviewers :: "string list"
  ga_report_ids :: "string list"
  ga_blocking :: "string list"
  ga_qa_report :: "assurance_report option"

definition gather_report :: "string \<Rightarrow> string list \<Rightarrow> assurance_report \<Rightarrow> gathered \<Rightarrow> gathered res" where
  "gather_report mission_id implementers r g = res_bind (checks [
       assurance_report_validate r,
       raise_if (ar_mission_id r \<noteq> mission_id) (ValueError ''assurance report mission mismatch''),
       raise_if (ar_reviewer_agent r \<in> set implementers)
         (ValueError (''reviewer independence violation:'' @ ar_reviewer_agent r)),
       raise_if (ar_reviewer_agent r \<in> set (ga_reviewers g))
         (ValueError (''duplicate assurance reviewer:'' @ ar_reviewer_agent r)),
       raise_if (ar_report_id r \<in> set (ga_report_ids g))
         (ValueError (''duplicate assurance report:'' @ ar_report_id r))]) (\<lambda>_.
     Inr \<lparr>ga_reviewers = ga_reviewers g @ [ar_reviewer_agent r], ga_report_ids = ga_report_ids g @ [ar_report_id r],
       ga_blocking = ga_blocking g @ map sf_finding_id (filter sf_blocking (ar_findings r)),
       ga_qa_report = (if ar_reviewer_agent r = ''A10-QA'' then Some r else ga_qa_report g)\<rparr>)"

fun gather_reports :: "string \<Rightarrow> string list \<Rightarrow> assurance_report list \<Rightarrow> gathered \<Rightarrow> gathered res" where
  "gather_reports mission_id implementers [] g = Inr g"
| "gather_reports mission_id implementers (r # rs) g =
     res_bind (gather_report mission_id implementers r g) (gather_reports mission_id implementers rs)"

text \<open>Coverage by QA: the criteria nobody covered become blocking.\<close>

definition uncovered_criteria :: "string list \<Rightarrow> assurance_report option \<Rightarrow> string list res" where
  "uncovered_criteria required qa = (if required = [] then Inr [] else
     res_bind (fetch (ValueError ''A10-QA report is required for acceptance coverage'') qa) (\<lambda>r.
     let covered = map av_criterion_id (ar_acceptance_coverage r);
         unknown = sorted_set (filter (\<lambda>c. c \<notin> set required) covered)
     in res_bind (raise_if (unknown \<noteq> [])
          (ValueError (''A10-QA claimed unknown acceptance criteria:'' @ join '','' unknown))) (\<lambda>_.
        Inr (map (\<lambda>c. ''QA-COVERAGE-'' @ c) (sorted_set (filter (\<lambda>c. c \<notin> set covered) required))))))"

definition assurance_decide :: "string \<Rightarrow> assurance_report list \<Rightarrow> string list \<Rightarrow> string list \<Rightarrow> assurance_decision res" where
  "assurance_decide mission_id reports implementers required =
     res_bind (checks [
       raise_if (mission_id = []) (ValueError ''mission_id is required''),
       raise_if (length reports \<noteq> 3) (ValueError ''exactly three assurance reports are required'')]) (\<lambda>_.
     res_bind (gather_reports mission_id implementers reports
       \<lparr>ga_reviewers = [], ga_report_ids = [], ga_blocking = [], ga_qa_report = None\<rparr>) (\<lambda>g.
     res_bind (checks [
       raise_if (set (ga_reviewers g) \<noteq> set assurance_roles)
         (ValueError ''assurance requires A09 Security, A10 QA and A12 Red Team''),
       raise_if (\<not> distinct required) (ValueError ''required acceptance criterion IDs must be unique'')]) (\<lambda>_.
     res_bind (uncovered_criteria required (ga_qa_report g)) (\<lambda>uncovered.
     let blockers = ga_blocking g @ uncovered;
         decision = \<lparr>as_mission_id = mission_id, as_status = (if blockers = [] then ''PASS'' else ''CHANGES_REQUIRED''),
           as_reviewer_agents = sort (ga_reviewers g), as_blocking_finding_ids = sorted_set blockers,
           as_report_ids = sort (ga_report_ids g)\<rparr>
     in res_bind (assurance_decision_validate decision) (\<lambda>_. Inr decision)))))"

section \<open>The coordinator\<close>

record 'w assurance_worker =
  aw_agent_id :: string
  aw_review :: "design_bundle \<Rightarrow> integration \<Rightarrow> ('w, assurance_report) act"

definition new_assurance_pod :: "'w assurance_worker list \<Rightarrow> (string \<times> 'w assurance_worker) list" where
  "new_assurance_pod workers = dict_by aw_agent_id id workers"

definition assurance_finding_json :: "assurance_finding \<Rightarrow> json" where
  "assurance_finding_json f = JObj [(''finding_id'', JStr (sf_finding_id f)), (''category'', JStr (sf_category f)),
     (''severity'', JStr (sf_severity f)), (''subject_ref'', JStr (sf_subject_ref f)),
     (''statement'', JStr (sf_statement f)), (''evidence_refs'', JStrs (sf_evidence_refs f)),
     (''remediation'', JStr (sf_remediation f)), (''blocking'', JBool (sf_blocking f))]"

definition coverage_json :: "acceptance_coverage \<Rightarrow> json" where
  "coverage_json c = JObj [(''criterion_id'', JStr (av_criterion_id c)), (''evidence_refs'', JStrs (av_evidence_refs c))]"

definition assurance_report_text :: "assurance_report \<Rightarrow> string" where
  "assurance_report_text r = json_dumps (JObj [(''report_id'', JStr (ar_report_id r)),
     (''mission_id'', JStr (ar_mission_id r)), (''reviewer_agent'', JStr (ar_reviewer_agent r)),
     (''subject_artifact_ref'', JStr (ar_subject_artifact_ref r)),
     (''findings'', JList (map assurance_finding_json (ar_findings r))),
     (''verification_refs'', JStrs (ar_verification_refs r)),
     (''acceptance_coverage'', JList (map coverage_json (ar_acceptance_coverage r)))])"

definition assurance_decision_text :: "assurance_decision \<Rightarrow> string" where
  "assurance_decision_text d = json_dumps (JObj [(''mission_id'', JStr (as_mission_id d)),
     (''status'', JStr (as_status d)), (''reviewer_agents'', JStrs (as_reviewer_agents d)),
     (''blocking_finding_ids'', JStrs (as_blocking_finding_ids d)), (''report_ids'', JStrs (as_report_ids d))])"

definition review_by :: "(string \<Rightarrow> string) \<Rightarrow> ('w \<Rightarrow> 'w \<times> string) \<Rightarrow> (string \<times> 'w assurance_worker) list \<Rightarrow>
     design_bundle \<Rightarrow> integration \<Rightarrow> string \<Rightarrow> string \<Rightarrow> ('w pod_state, assurance_report) act" where
  "review_by sha clock workers design g author reviewer =
     act_bind (act_res (fetch (RuntimeError (''assurance_worker_missing:'' @ reviewer)) (map_of workers reviewer))) (\<lambda>wk.
     act_bind (ask (aw_review wk design g)) (\<lambda>r.
     act_bind (act_res (raise_if (ar_reviewer_agent r \<noteq> reviewer)
       (RuntimeError (''assurance_worker_identity_mismatch:'' @ reviewer)))) (\<lambda>_.
     act_bind (act_res (assurance_report_validate r)) (\<lambda>_.
     act_bind (publish sha clock (dg_mission_id design) (''assurance-report-'' @ lower reviewer)
       (assurance_report_text r) author ''application/vnd.ai-factory.assurance-report+json'') (\<lambda>_.
     act_return r)))))"

fun review_all :: "(string \<Rightarrow> string) \<Rightarrow> ('w \<Rightarrow> 'w \<times> string) \<Rightarrow> (string \<times> 'w assurance_worker) list \<Rightarrow>
     design_bundle \<Rightarrow> integration \<Rightarrow> string \<Rightarrow> string list \<Rightarrow> ('w pod_state, assurance_report list) act" where
  "review_all sha clock workers design g author [] = act_return []"
| "review_all sha clock workers design g author (a # as) =
     act_bind (review_by sha clock workers design g author a) (\<lambda>r.
     act_bind (review_all sha clock workers design g author as) (\<lambda>rs. act_return (r # rs)))"

definition assurance_run :: "(string \<Rightarrow> string) \<Rightarrow> ('w \<Rightarrow> 'w \<times> string) \<Rightarrow> (string \<times> 'w assurance_worker) list \<Rightarrow>
     design_bundle \<Rightarrow> integration \<Rightarrow> string list \<Rightarrow> string \<Rightarrow>
     ('w pod_state, assurance_report list \<times> assurance_decision) act" where
  "assurance_run sha clock workers design g implementers author =
     act_bind (act_res (checks [bundle_validate design, integration_validate g,
       raise_if (dg_mission_id design \<noteq> ig_mission_id g) (ValueError ''design/integration mission mismatch'')])) (\<lambda>_.
     act_bind (review_all sha clock workers design g author (sorted_set assurance_roles)) (\<lambda>rs.
     act_bind (act_res (assurance_decide (dg_mission_id design) rs implementers
       (map cr_criterion_id (dg_acceptance_criteria design)))) (\<lambda>d.
     act_bind (publish sha clock (dg_mission_id design) ''assurance-decision'' (assurance_decision_text d) author
       ''application/vnd.ai-factory.assurance-decision+json'') (\<lambda>_.
     act_return (rs, d)))))"

section \<open>The lifecycle\<close>

definition fingerprint_text :: "integration \<Rightarrow> string" where
  "fingerprint_text g = json_dumps_ascii (JObj [(''mission_id'', JStr (ig_mission_id g)),
     (''package_order'', JStrs (ig_package_order g)),
     (''artifacts'', JList (map (\<lambda>(n, p). JList [JStr n, JStr p]) (ig_artifacts g))),
     (''changed_paths'', JStrs (ig_changed_paths g)), (''verification_ids'', JStrs (ig_verification_ids g))])"

definition integration_fingerprint :: "(string \<Rightarrow> string) \<Rightarrow> integration \<Rightarrow> string res" where
  "integration_fingerprint sha g = res_bind (integration_validate g) (\<lambda>_. Inr (sha (fingerprint_text g)))"

record cycle =
  cy_cycle_id :: string
  cy_mission_id :: string
  cy_attempt :: int
  cy_subject_fingerprint :: string
  cy_decision_status :: string
  cy_blocking_finding_ids :: "string list"
  cy_stale :: bool

definition cycle_validate :: "cycle \<Rightarrow> unit res" where
  "cycle_validate c = checks [
     raise_if (cy_cycle_id c = [] \<or> cy_mission_id c = [] \<or> cy_subject_fingerprint c = [])
       (ValueError ''cycle identity and subject_fingerprint are required''),
     raise_if (cy_attempt c < 1) (ValueError ''assurance attempt must be >= 1''),
     raise_if (cy_decision_status c \<notin> {''PASS'', ''CHANGES_REQUIRED''})
       (ValueError ''invalid assurance cycle decision_status''),
     raise_if (cy_decision_status c = ''PASS'' \<and> cy_blocking_finding_ids c \<noteq> [])
       (ValueError ''PASS cycle cannot contain blocking findings''),
     raise_if (cy_decision_status c = ''CHANGES_REQUIRED'' \<and> cy_blocking_finding_ids c = [])
       (ValueError ''CHANGES_REQUIRED cycle requires blocking findings'')]"

record remediation =
  rm_mission_id :: string
  rm_from_cycle_id :: string
  rm_subject_fingerprint :: string
  rm_blocking_finding_ids :: "string list"

definition remediation_validate :: "remediation \<Rightarrow> unit res" where
  "remediation_validate r = checks [
     raise_if (rm_mission_id r = [] \<or> rm_from_cycle_id r = [] \<or> rm_subject_fingerprint r = [])
       (ValueError ''remediation request identity is required''),
     raise_if (rm_blocking_finding_ids r = []) (ValueError ''remediation request requires blocking findings'')]"

text \<open>A lifecycle is its \<open>max_attempts\<close>.\<close>

definition new_lifecycle :: "int \<Rightarrow> int res" where
  "new_lifecycle max_attempts = res_bind (raise_if (max_attempts < 1) (ValueError ''max_attempts must be >= 1''))
     (\<lambda>_. Inr max_attempts)"

definition record_cycle :: "(string \<Rightarrow> string) \<Rightarrow> string \<Rightarrow> integration \<Rightarrow> assurance_decision \<Rightarrow> int \<Rightarrow> cycle res" where
  "record_cycle sha cycle_id g d attempt =
     res_bind (checks [assurance_decision_validate d,
       raise_if (as_mission_id d \<noteq> ig_mission_id g) (ValueError ''assurance decision/integration mission mismatch'')]) (\<lambda>_.
     res_bind (integration_fingerprint sha g) (\<lambda>fp.
     let c = \<lparr>cy_cycle_id = cycle_id, cy_mission_id = ig_mission_id g, cy_attempt = attempt,
           cy_subject_fingerprint = fp, cy_decision_status = as_status d,
           cy_blocking_finding_ids = as_blocking_finding_ids d, cy_stale = False\<rparr>
     in res_bind (cycle_validate c) (\<lambda>_. Inr c)))"

definition remediation_request :: "cycle \<Rightarrow> remediation res" where
  "remediation_request c =
     res_bind (checks [cycle_validate c,
       raise_if (cy_stale c) (RuntimeError ''cannot remediate from stale assurance''),
       raise_if (cy_decision_status c \<noteq> ''CHANGES_REQUIRED'') (RuntimeError ''remediation requires CHANGES_REQUIRED'')]) (\<lambda>_.
     let r = \<lparr>rm_mission_id = cy_mission_id c, rm_from_cycle_id = cy_cycle_id c,
           rm_subject_fingerprint = cy_subject_fingerprint c, rm_blocking_finding_ids = cy_blocking_finding_ids c\<rparr>
     in res_bind (remediation_validate r) (\<lambda>_. Inr r))"

definition re_review :: "(string \<Rightarrow> string) \<Rightarrow> int \<Rightarrow> cycle \<Rightarrow> integration \<Rightarrow> assurance_decision \<Rightarrow> string \<Rightarrow> (cycle \<times> cycle) res" where
  "re_review sha max_attempts previous corrected d cycle_id =
     res_bind (checks [cycle_validate previous,
       raise_if (cy_stale previous) (RuntimeError ''previous assurance is already stale''),
       raise_if (cy_decision_status previous \<noteq> ''CHANGES_REQUIRED'')
         (RuntimeError ''re-review requires a prior blocking decision''),
       raise_if (cy_attempt previous \<ge> max_attempts) (RuntimeError ''assurance remediation budget exhausted''),
       raise_if (ig_mission_id corrected \<noteq> cy_mission_id previous)
         (ValueError ''corrected integration mission mismatch'')]) (\<lambda>_.
     res_bind (integration_fingerprint sha corrected) (\<lambda>fp.
     res_bind (raise_if (fp = cy_subject_fingerprint previous)
       (RuntimeError ''assurance remediation made no subject change'')) (\<lambda>_.
     res_bind (record_cycle sha cycle_id corrected d (cy_attempt previous + 1)) (\<lambda>current.
     Inr (previous\<lparr>cy_stale := True\<rparr>, current)))))"

definition assert_release_ready :: "(string \<Rightarrow> string) \<Rightarrow> cycle \<Rightarrow> integration \<Rightarrow> unit res" where
  "assert_release_ready sha c g = checks [cycle_validate c,
     raise_if (cy_stale c) (RuntimeError ''stale assurance cannot release''),
     raise_if (cy_decision_status c \<noteq> ''PASS'') (RuntimeError ''blocking assurance findings prevent release''),
     res_bind (integration_fingerprint sha g) (\<lambda>fp.
       raise_if (cy_subject_fingerprint c \<noteq> fp) (RuntimeError ''assurance subject changed after review''))]"

text \<open>The cycles of one mission: a first review, then re-reviews of the latest cycle.\<close>

inductive review_history :: "(string \<Rightarrow> string) \<Rightarrow> int \<Rightarrow> cycle list \<Rightarrow> bool" for sha max_attempts where
  first: "record_cycle sha i g d 1 = Inr c \<Longrightarrow> review_history sha max_attempts [c]"
| again: "review_history sha max_attempts (cs @ [c]) \<Longrightarrow> re_review sha max_attempts c g d i = Inr (old, new) \<Longrightarrow>
     review_history sha max_attempts (cs @ [old, new])"

section \<open>What the gate shows\<close>

lemma gather_reports_Inr:
  "gather_reports m is rs g = Inr g' \<Longrightarrow> distinct (ga_reviewers g) \<Longrightarrow>
     list_all (\<lambda>r. assurance_report_validate r = Inr () \<and> ar_mission_id r = m \<and> ar_reviewer_agent r \<notin> set is) rs \<and>
     ga_reviewers g' = ga_reviewers g @ map ar_reviewer_agent rs \<and> distinct (ga_reviewers g') \<and>
     ga_report_ids g' = ga_report_ids g @ map ar_report_id rs \<and>
     ga_blocking g' = ga_blocking g @ concat (map (map sf_finding_id \<circ> filter sf_blocking \<circ> ar_findings) rs) \<and>
     (case find (\<lambda>r. ar_reviewer_agent r = ''A10-QA'') rs of
        None \<Rightarrow> ga_qa_report g' = ga_qa_report g
      | Some r \<Rightarrow> ga_qa_report g' = Some r)"
proof (induction rs arbitrary: g)
  case (Cons r rs)
  from Cons.prems obtain g1 where g1: "gather_report m is r g = Inr g1" and rest: "gather_reports m is rs g1 = Inr g'"
    by auto
  from g1 have c: "assurance_report_validate r = Inr () \<and> ar_mission_id r = m \<and> ar_reviewer_agent r \<notin> set is \<and>
      ar_reviewer_agent r \<notin> set (ga_reviewers g)"
    and g1': "g1 = \<lparr>ga_reviewers = ga_reviewers g @ [ar_reviewer_agent r], ga_report_ids = ga_report_ids g @ [ar_report_id r],
       ga_blocking = ga_blocking g @ map sf_finding_id (filter sf_blocking (ar_findings r)),
       ga_qa_report = (if ar_reviewer_agent r = ''A10-QA'' then Some r else ga_qa_report g)\<rparr>"
    by (auto simp: gather_report_def)
  have "distinct (ga_reviewers g1)" using c Cons.prems(2) g1' by simp
  note ih = Cons.IH [OF rest this]
  have "ar_reviewer_agent r \<notin> ar_reviewer_agent ` set rs" using ih g1' by auto
  then have "ar_reviewer_agent r = ''A10-QA'' \<Longrightarrow> find (\<lambda>r. ar_reviewer_agent r = ''A10-QA'') rs = None"
    unfolding find_None_iff by (metis imageI)
  with ih c g1' show ?case
    by (cases "ar_reviewer_agent r = ''A10-QA''"; cases "find (\<lambda>r. ar_reviewer_agent r = ''A10-QA'') rs") simp_all
qed simp

lemma uncovered_Inr:
  assumes "uncovered_criteria required (Some qa) = Inr us"
  shows "us = [] \<longleftrightarrow> set required \<subseteq> set (map av_criterion_id (ar_acceptance_coverage qa))"
  using assms by (auto simp: uncovered_criteria_def Let_def filter_empty_conv split: if_splits)

text \<open>A decision and what it stands for.\<close>

definition decision_stands :: "string \<Rightarrow> assurance_report list \<Rightarrow> string list \<Rightarrow> string list \<Rightarrow> assurance_decision \<Rightarrow> bool" where
  "decision_stands m rs is required d \<longleftrightarrow> as_mission_id d = m \<and>
     distinct (map ar_reviewer_agent rs) \<and> set (map ar_reviewer_agent rs) = set assurance_roles \<and>
     list_all (\<lambda>r. assurance_report_validate r = Inr () \<and> ar_mission_id r = m \<and> ar_reviewer_agent r \<notin> set is) rs \<and>
     (as_status d = ''PASS'' \<longleftrightarrow>
        list_all (\<lambda>r. list_all (\<lambda>f. \<not> sf_blocking f) (ar_findings r)) rs \<and>
        list_all (\<lambda>c. list_ex (\<lambda>r. ar_reviewer_agent r = ''A10-QA'' \<and>
          c \<in> set (map av_criterion_id (ar_acceptance_coverage r))) rs) required)"

lemma find_unique:
  "distinct (map f rs) \<Longrightarrow> find (\<lambda>r. f r = x) rs = Some r \<Longrightarrow> r' \<in> set rs \<Longrightarrow> f r' = x \<Longrightarrow> r' = r"
  by (auto simp: find_Some_iff distinct_map inj_on_def)

lemma assurance_decide_Inr:
  assumes "assurance_decide m rs is required = Inr d"
  shows "decision_stands m rs is required d \<and> assurance_decision_validate d = Inr ()"
proof -
  from assms obtain g us where g: "gather_reports m is rs
       \<lparr>ga_reviewers = [], ga_report_ids = [], ga_blocking = [], ga_qa_report = None\<rparr> = Inr g"
    and roles: "set (ga_reviewers g) = set assurance_roles"
    and us: "uncovered_criteria required (ga_qa_report g) = Inr us"
    and m: "as_mission_id d = m"
    and st: "as_status d = (if ga_blocking g @ us = [] then ''PASS'' else ''CHANGES_REQUIRED'')"
    and v: "assurance_decision_validate d = Inr ()"
    unfolding assurance_decide_def Let_def by auto
  note r = gather_reports_Inr [OF g, simplified]
  have "''A10-QA'' \<in> set (map ar_reviewer_agent rs)" using roles r by (simp add: assurance_roles_def)
  then obtain qa where f: "find (\<lambda>r. ar_reviewer_agent r = ''A10-QA'') rs = Some qa"
    by (cases "find (\<lambda>r. ar_reviewer_agent r = ''A10-QA'') rs") (auto simp: find_None_iff)
  have qa: "ga_qa_report g = Some qa" "qa \<in> set rs" "ar_reviewer_agent qa = ''A10-QA''"
    using r f by simp (use f in \<open>auto simp: find_Some_iff\<close>)
  have only: "r' = qa" if "r' \<in> set rs" "ar_reviewer_agent r' = ''A10-QA''" for r'
  proof -
    have "distinct (map ar_reviewer_agent rs)" using r by auto
    from find_unique [OF this f that] show ?thesis .
  qed
  have "us = [] \<longleftrightarrow> list_all (\<lambda>c. list_ex (\<lambda>r. ar_reviewer_agent r = ''A10-QA'' \<and>
          c \<in> set (map av_criterion_id (ar_acceptance_coverage r))) rs) required"
  proof -
    have ex: "list_ex (\<lambda>r. ar_reviewer_agent r = ''A10-QA'' \<and> P r) rs \<longleftrightarrow> P qa" for P
      using qa(2,3) only unfolding list_ex_iff by blast
    have "us = [] \<longleftrightarrow> set required \<subseteq> set (map av_criterion_id (ar_acceptance_coverage qa))"
      by (rule uncovered_Inr) (use us qa(1) in simp)
    then show ?thesis by (simp only: ex list_all_iff subset_iff Ball_def)
  qed
  moreover have "ga_blocking g = [] \<longleftrightarrow> list_all (\<lambda>r. list_all (\<lambda>f. \<not> sf_blocking f) (ar_findings r)) rs"
    using r by (auto simp: list_all_iff filter_empty_conv)
  ultimately have "as_status d = ''PASS'' \<longleftrightarrow>
        list_all (\<lambda>r. list_all (\<lambda>f. \<not> sf_blocking f) (ar_findings r)) rs \<and>
        list_all (\<lambda>c. list_ex (\<lambda>r. ar_reviewer_agent r = ''A10-QA'' \<and>
          c \<in> set (map av_criterion_id (ar_acceptance_coverage r))) rs) required"
    unfolding st by auto
  moreover have "distinct (map ar_reviewer_agent rs)" using r by auto
  ultimately show ?thesis using r roles m v by (simp add: decision_stands_def)
qed

section \<open>What a run and the lifecycle show\<close>

lemma review_by_Inr: "review_by sha clock workers design g author a s = (s', Inr r) \<Longrightarrow> ar_reviewer_agent r = a"
  by (auto simp: review_by_def act_bind_Inr)

lemma assurance_run_Inr:
  assumes "assurance_run sha clock workers design g is author s = (s', Inr (rs, d))"
  shows "decision_stands (dg_mission_id design) rs is (map cr_criterion_id (dg_acceptance_criteria design)) d \<and>
     assurance_decision_validate d = Inr ()"
  using assms by (intro assurance_decide_Inr) (auto simp: assurance_run_def act_bind_Inr)

lemma fingerprint_text_inject [simp]: "fingerprint_text g = fingerprint_text g' \<longleftrightarrow> g = g'"
proof -
  have pair: "json_norm (case x of (n, p) \<Rightarrow> JList [JStr n, JStr p]) = json_norm (case y of (n, p) \<Rightarrow> JList [JStr n, JStr p])
      \<longleftrightarrow> x = y" for x y
    by (cases x; cases y) simp
  show ?thesis
    by (cases g; cases g')
      (auto simp: fingerprint_text_def json_dumps_ascii_eq_iff sort_literal
        map_norm_eq [of "\<lambda>(n, p). JList [JStr n, JStr p]", OF pair])
qed

lemma integration_fingerprint_Inr:
  "integration_fingerprint sha g = Inr fp \<longleftrightarrow> integration_validate g = Inr () \<and> fp = sha (fingerprint_text g)"
  by (auto simp: integration_fingerprint_def)

lemma record_cycle_Inr:
  "record_cycle sha i g d n = Inr c \<longleftrightarrow> assurance_decision_validate d = Inr () \<and> as_mission_id d = ig_mission_id g \<and>
     integration_validate g = Inr () \<and> c = \<lparr>cy_cycle_id = i, cy_mission_id = ig_mission_id g, cy_attempt = n,
           cy_subject_fingerprint = sha (fingerprint_text g), cy_decision_status = as_status d,
           cy_blocking_finding_ids = as_blocking_finding_ids d, cy_stale = False\<rparr> \<and> cycle_validate c = Inr ()"
  by (auto simp: record_cycle_def integration_fingerprint_Inr Let_def)

lemma re_review_Inr:
  "re_review sha n c g d i = Inr (old, new) \<Longrightarrow> cycle_validate c = Inr () \<and> \<not> cy_stale c \<and>
     cy_decision_status c = ''CHANGES_REQUIRED'' \<and> cy_attempt c < n \<and> old = c\<lparr>cy_stale := True\<rparr> \<and>
     record_cycle sha i g d (cy_attempt c + 1) = Inr new \<and> cy_mission_id new = cy_mission_id c \<and>
     cy_subject_fingerprint new \<noteq> cy_subject_fingerprint c"
  by (auto simp: re_review_def record_cycle_Inr integration_fingerprint_Inr not_le)

text \<open>Histories: numbered attempts within the budget, only the latest cycle fresh, every earlier one
  blocking, no cycle on the subject of the one before.\<close>

definition history_ok :: "int \<Rightarrow> cycle list \<Rightarrow> bool" where
  "history_ok max_attempts cs \<longleftrightarrow> cs \<noteq> [] \<and> map cy_attempt cs = [1 .. int (length cs)] \<and>
     int (length cs) \<le> max 1 max_attempts \<and> \<not> cy_stale (last cs) \<and>
     list_all (\<lambda>c. cy_stale c \<and> cy_decision_status c = ''CHANGES_REQUIRED'') (butlast cs) \<and>
     list_all (\<lambda>(c, c'). cy_subject_fingerprint c \<noteq> cy_subject_fingerprint c') (zip cs (tl cs))"

lemma history_ok_again:
  assumes "history_ok n (cs @ [c])" "re_review sha n c g d i = Inr (old, new)"
  shows "history_ok n (cs @ [old, new])"
proof -
  note r = re_review_Inr [OF assms(2)]
  have att: "map cy_attempt cs @ [cy_attempt c] = [1 .. int (length cs) + 1]"
    using assms(1) by (simp add: history_ok_def add.commute)
  then have "last (map cy_attempt cs @ [cy_attempt c]) = last [1 .. int (length cs) + 1]" by simp
  then have c: "cy_attempt c = int (length cs) + 1" by (simp add: upto_rec2)
  have new: "cy_attempt new = int (length cs) + 2" "\<not> cy_stale new" using r c by (auto simp: record_cycle_Inr)
  have "[1 .. int (length cs) + 2] = [1 .. int (length cs) + 1] @ [int (length cs) + 2]"
    using upto_rec2 [of 1 "int (length cs) + 2"] by (simp add: add.commute)
  with att new r have "map cy_attempt (cs @ [old, new]) = [1 .. int (length (cs @ [old, new]))]"
    by (simp add: ac_simps)
  moreover have "list_all (\<lambda>(c, c'). cy_subject_fingerprint c \<noteq> cy_subject_fingerprint c')
      (zip (cs @ [old, new]) (tl (cs @ [old, new])))"
    using assms(1) r by (cases cs rule: rev_cases)
     (auto simp: history_ok_def tl_append zip_append1 split: list.splits)
  ultimately show ?thesis using assms(1) r c new by (auto simp: history_ok_def butlast_append)
qed

lemma review_history_ok: "review_history sha n cs \<Longrightarrow> history_ok n cs"
proof (induction rule: review_history.induct)
  case (first i g d c)
  then show ?case by (auto simp: history_ok_def record_cycle_Inr)
next
  case (again cs c g d i old new)
  from history_ok_again [OF again.IH again.hyps(2)] show ?case .
qed

lemma release_ready_iff:
  "assert_release_ready sha c g = Inr () \<longleftrightarrow> cycle_validate c = Inr () \<and> \<not> cy_stale c \<and> cy_decision_status c = ''PASS'' \<and>
     integration_validate g = Inr () \<and> cy_subject_fingerprint c = sha (fingerprint_text g)"
  by (auto simp: assert_release_ready_def integration_fingerprint_Inr integration_fingerprint_def res_bind_def
      split: sum.splits)

end
