(* ===== verification/Datetime.thy ===== *)
theory Datetime
  imports Prelude Complex_Main
begin

text \<open>
  The timestamps of the real-estate mission and of the research pod: Python datetimes with their
  civil fields and optional UTC offset, their order, their ISO text, and the rounding of numbers.
  A float is modelled as a rational number, so \<open>round\<close> is the only rounding there is.
\<close>

section \<open>Datetimes\<close>

text \<open>The offset from UTC is in seconds; a naive datetime has none.\<close>

record datetime =
  dt_year :: nat
  dt_month :: nat
  dt_day :: nat
  dt_hour :: nat
  dt_minute :: nat
  dt_second :: nat
  dt_micro :: nat
  dt_offset :: "int option"

definition leap_year :: "nat \<Rightarrow> bool" where
  "leap_year y \<longleftrightarrow> y mod 4 = 0 \<and> (y mod 100 \<noteq> 0 \<or> y mod 400 = 0)"

definition days_before_month :: "nat \<Rightarrow> nat \<Rightarrow> nat" where
  "days_before_month y m = sum_list (take (m - 1) [31, 28, 31, 30, 31, 30, 31, 31, 30, 31, 30, 31]) +
     (if 2 < m \<and> leap_year y then 1 else 0)"

text \<open>Days since the first of January of year 1, which is day 1.\<close>

definition to_ordinal :: "datetime \<Rightarrow> nat" where
  "to_ordinal d = (let y = dt_year d - 1 in
     365 * y + y div 4 - y div 100 + y div 400 + days_before_month (dt_year d) (dt_month d) + dt_day d)"

definition wall_micros :: "datetime \<Rightarrow> int" where
  "wall_micros d = int ((((to_ordinal d * 24 + dt_hour d) * 60 + dt_minute d) * 60 + dt_second d) * 1000000 + dt_micro d)"

definition offset_of :: "datetime \<Rightarrow> int" where
  "offset_of d = (case dt_offset d of None \<Rightarrow> 0 | Some s \<Rightarrow> s)"

text \<open>The instant of an aware datetime, in microseconds.\<close>

definition instant :: "datetime \<Rightarrow> int" where
  "instant d = wall_micros d - offset_of d * 1000000"

definition naive :: "datetime \<Rightarrow> bool" where
  "naive d \<longleftrightarrow> dt_offset d = None"

definition dt_less :: "datetime \<Rightarrow> datetime \<Rightarrow> bool res" where
  "dt_less d e = (if naive d \<noteq> naive e then Inl (TypeError ''can't compare offset-naive and offset-aware datetimes'')
     else Inr (instant d < instant e))"

lemma dt_less_Inr [simp]: "dt_less d e = Inr b \<longleftrightarrow> naive d = naive e \<and> b = (instant d < instant e)"
  by (auto simp: dt_less_def)

lemma dt_less_irrefl: "dt_less d d = Inr False"
  by simp

lemma dt_less_trans: "dt_less d e = Inr True \<Longrightarrow> dt_less e f = Inr True \<Longrightarrow> dt_less d f = Inr True"
  by simp

section \<open>ISO texts\<close>

definition padded :: "nat \<Rightarrow> nat \<Rightarrow> string" where
  "padded w n = replicate (w - length (show_nat n)) (digit 0) @ show_nat n"

definition iso_offset :: "int option \<Rightarrow> string" where
  "iso_offset off = (case off of None \<Rightarrow> [] | Some s \<Rightarrow>
     let m = nat \<bar>s\<bar> in
     (if s < 0 then ''-'' else ''+'') @ padded 2 (m div 3600) @ '':'' @ padded 2 (m div 60 mod 60) @
     (if m mod 60 = 0 then [] else '':'' @ padded 2 (m mod 60)))"

text \<open>\<open>datetime.isoformat()\<close>\<close>

definition isoformat :: "datetime \<Rightarrow> string" where
  "isoformat d = padded 4 (dt_year d) @ ''-'' @ padded 2 (dt_month d) @ ''-'' @ padded 2 (dt_day d) @ ''T'' @
     padded 2 (dt_hour d) @ '':'' @ padded 2 (dt_minute d) @ '':'' @ padded 2 (dt_second d) @
     (if dt_micro d = 0 then [] else ''.'' @ padded 6 (dt_micro d)) @ iso_offset (dt_offset d)"

definition utc :: "nat \<Rightarrow> nat \<Rightarrow> nat \<Rightarrow> nat \<Rightarrow> datetime" where
  "utc y m d h = \<lparr>dt_year = y, dt_month = m, dt_day = d, dt_hour = h, dt_minute = 0, dt_second = 0, dt_micro = 0,
     dt_offset = Some 0\<rparr>"

section \<open>Instants as datetimes\<close>

definition micros_per_day :: int where
  "micros_per_day = 86400000000"

text \<open>Year, month and day of a day number.\<close>

definition ymd_of_ordinal :: "nat \<Rightarrow> nat \<times> nat \<times> nat" where
  "ymd_of_ordinal ordinal = (let n = ordinal - 1;
       n400 = n div 146097; n = n mod 146097; n100 = n div 36524; n = n mod 36524;
       n4 = n div 1461; n = n mod 1461; n1 = n div 365; n = n mod 365;
       year = n400 * 400 + 1 + n100 * 100 + n4 * 4 + n1;
       month = last (filter (\<lambda>m. days_before_month year m \<le> n) [1 ..< 13])
     in if n1 = 4 \<or> n100 = 4 then (year - 1, 12, 31) else (year, month, n - days_before_month year month + 1))"

text \<open>The UTC datetime of an instant.\<close>

definition utc_datetime :: "int \<Rightarrow> datetime res" where
  "utc_datetime t = (let ordinal = t div micros_per_day; rest = nat (t mod micros_per_day) in
     if \<not> (1 \<le> ordinal \<and> ordinal \<le> 3652059) then Inl (OverflowError ''date value out of range'')
     else case ymd_of_ordinal (nat ordinal) of (y, m, d) \<Rightarrow>
       Inr \<lparr>dt_year = y, dt_month = m, dt_day = d, dt_hour = rest div 3600000000,
         dt_minute = rest div 60000000 mod 60, dt_second = rest div 1000000 mod 60, dt_micro = rest mod 1000000,
         dt_offset = Some 0\<rparr>)"

lemma div_eq_between: "n * q \<le> m \<Longrightarrow> m < n * q + n \<Longrightarrow> m div n = q" for n :: nat
  by (rule div_nat_eqI) simp_all

lemma hms:
  fixes r :: nat
  shows "((r div 3600000000 * 60 + r div 60000000 mod 60) * 60 + r div 1000000 mod 60) * 1000000 + r mod 1000000 = r"
proof -
  have "r div 60000000 = r div 1000000 div 60" "r div 3600000000 = r div 1000000 div 60 div 60"
    by (simp_all flip: div_mult2_eq)
  then show ?thesis by simp
qed

lemma time_of_day:
  "(((k * 24 + h) * 60 + m) * 60 + s) * 1000000 + u = k * 86400000000 + (((h * 60 + m) * 60 + s) * 1000000 + u)"
  for k h m s u :: nat
  by simp

lemma days_before_December: "days_before_month y 12 = (if leap_year y then 335 else 334)"
  by (simp add: days_before_month_def)

lemma ymd_of_ordinal_spec:
  assumes "0 < ordinal" "ymd_of_ordinal ordinal = (y, m, d)"
  shows "365 * (y - 1) + (y - 1) div 4 - (y - 1) div 100 + (y - 1) div 400 + days_before_month y m + d = ordinal" "1 \<le> y"
proof -
  define a where "a = (ordinal - 1) div 146097"
  define r1 where "r1 = (ordinal - 1) mod 146097"
  define b where "b = r1 div 36524"
  define r2 where "r2 = r1 mod 36524"
  define c where "c = r2 div 1461"
  define r3 where "r3 = r2 mod 1461"
  define e where "e = r3 div 365"
  define n where "n = r3 mod 365"
  have parts: "ordinal = 146097 * a + 36524 * b + 1461 * c + 365 * e + n + 1"
    using assms(1) unfolding a_def r1_def b_def r2_def c_def r3_def e_def n_def by presburger
  have bounds: "r1 < 146097" "r2 < 36524" "r3 < 1461" "n < 365" "r1 = 36524 * b + r2" "r2 = 1461 * c + r3" "r3 = 365 * e + n"
    unfolding r1_def r2_def r3_def n_def b_def c_def e_def by simp_all
  have le: "b \<le> 4" "c \<le> 24" "e \<le> 4" using bounds by linarith+
  define Y where "Y = a * 400 + b * 100 + c * 4 + e"
  have year: "a * 400 + 1 + b * 100 + c * 4 + e = Suc Y" by (simp add: Y_def)
  have ymd: "(y, m, d) = (if e = 4 \<or> b = 4 then (Suc Y - 1, 12, 31)
      else (Suc Y, last (filter (\<lambda>m. days_before_month (Suc Y) m \<le> n) [1 ..< 13]),
        n - days_before_month (Suc Y) (last (filter (\<lambda>m. days_before_month (Suc Y) m \<le> n) [1 ..< 13])) + 1))"
    using assms(2) unfolding ymd_of_ordinal_def Let_def a_def [symmetric] r1_def [symmetric] b_def [symmetric]
      r2_def [symmetric] c_def [symmetric] r3_def [symmetric] e_def [symmetric] n_def [symmetric] year by simp
  show "365 * (y - 1) + (y - 1) div 4 - (y - 1) div 100 + (y - 1) div 400 + days_before_month y m + d = ordinal"
  proof (cases "e = 4 \<or> b = 4")
    case False
    with le have lt: "b < 4" "c < 25" "e < 4" by linarith+
    have q: "Y div 400 = a" "Y div 100 = 4 * a + b" "Y div 4 = 100 * a + 25 * b + c"
      by (rule div_eq_between; use lt in \<open>simp add: Y_def\<close>)+
    define mm where "mm = last (filter (\<lambda>m. days_before_month (Suc Y) m \<le> n) [1 ..< 13])"
    have "days_before_month (Suc Y) 1 \<le> n" by (simp add: days_before_month_def)
    then have "1 \<in> set (filter (\<lambda>m. days_before_month (Suc Y) m \<le> n) [1 ..< 13])" by (simp del: upt_Suc)
    then have "filter (\<lambda>m. days_before_month (Suc Y) m \<le> n) [1 ..< 13] \<noteq> []"
      by (rule length_pos_if_in_set [THEN length_greater_0_conv [THEN iffD1]])
    then have "mm \<in> set (filter (\<lambda>m. days_before_month (Suc Y) m \<le> n) [1 ..< 13])" unfolding mm_def by (rule last_in_set)
    then have "days_before_month (Suc Y) mm \<le> n" by simp
    moreover from ymd False have "y = Suc Y" "m = mm" "d = n - days_before_month (Suc Y) mm + 1" by (simp_all add: mm_def)
    moreover have "365 * Y + Y div 4 - Y div 100 + Y div 400 = 146097 * a + 36524 * b + 1461 * c + 365 * e"
      unfolding q by (simp add: Y_def)
    ultimately show ?thesis using parts by simp
  next
    case True
    with ymd have y: "y = Y" "m = 12" "d = 31" by simp_all
    show ?thesis
    proof (cases "b = 4")
      case True
      with bounds have z: "c = 0" "e = 0" "n = 0" by linarith+
      with True have Y: "Y = 400 * a + 400" by (simp add: Y_def)
      have "leap_year Y" by (simp add: leap_year_def Y mod_simps)
      moreover have "(Y - 1) div 4 = 100 * a + 99" "(Y - 1) div 100 = 4 * a + 3" "(Y - 1) div 400 = a"
        by (rule div_eq_between; simp add: Y)+
      ultimately show ?thesis using parts True z by (simp add: y days_before_December) (simp add: Y)
    next
      case False
      with \<open>e = 4 \<or> b = 4\<close> have e: "e = 4" by simp
      with bounds le False have z: "c < 24" "n = 0" "b < 4" by linarith+
      have Y: "Y = 400 * a + 100 * b + 4 * c + 4" using e by (simp add: Y_def)
      have "Y div 4 = 100 * a + 25 * b + c + 1" "Y div 100 = 4 * a + b"
        by (rule div_eq_between; use z in \<open>simp add: Y\<close>)+
      moreover have "Y = 4 * (Y div 4) + Y mod 4" "Y = 100 * (Y div 100) + Y mod 100" by simp_all
      ultimately have "Y mod 4 = 0" "Y mod 100 \<noteq> 0" using Y by linarith+
      then have "leap_year Y" by (simp add: leap_year_def)
      moreover have "(Y - 1) div 4 = 100 * a + 25 * b + c" "(Y - 1) div 100 = 4 * a + b" "(Y - 1) div 400 = a"
        by (rule div_eq_between; use z in \<open>simp add: Y\<close>)+
      ultimately show ?thesis using parts e z by (simp add: y days_before_December) (simp add: Y)
    qed
  qed
  show "1 \<le> y" using ymd le by (auto simp: Y_def split: if_splits)
qed

text \<open>The datetime of an instant is at that instant.\<close>

lemma instant_utc:
  assumes "utc_datetime t = Inr d" shows "instant d = t \<and> \<not> naive d"
proof -
  obtain y m dd where ymd: "ymd_of_ordinal (nat (t div micros_per_day)) = (y, m, dd)" by (cases "ymd_of_ordinal (nat (t div micros_per_day))")
  let ?rest = "nat (t mod micros_per_day)"
  from assms ymd have ord: "1 \<le> t div micros_per_day" and
    d: "d = \<lparr>dt_year = y, dt_month = m, dt_day = dd, dt_hour = ?rest div 3600000000,
         dt_minute = ?rest div 60000000 mod 60, dt_second = ?rest div 1000000 mod 60, dt_micro = ?rest mod 1000000,
         dt_offset = Some 0\<rparr>"
    by (auto simp: utc_datetime_def Let_def split: if_splits)
  have "to_ordinal d = nat (t div micros_per_day)"
    using ymd_of_ordinal_spec(1) [OF _ ymd] ord by (simp only: to_ordinal_def d Let_def datetime.select_convs)
  moreover have "dt_hour d = ?rest div 3600000000" "dt_minute d = ?rest div 60000000 mod 60"
    "dt_second d = ?rest div 1000000 mod 60" "dt_micro d = ?rest mod 1000000" unfolding d by simp_all
  ultimately have "wall_micros d = int (nat (t div micros_per_day) * 86400000000 +
      (((?rest div 3600000000 * 60 + ?rest div 60000000 mod 60) * 60 + ?rest div 1000000 mod 60) * 1000000 + ?rest mod 1000000))"
    by (simp only: wall_micros_def time_of_day)
  also have "\<dots> = int (nat (t div micros_per_day) * 86400000000 + ?rest)" unfolding hms ..
  also have "\<dots> = t div micros_per_day * micros_per_day + t mod micros_per_day"
    using ord by (simp add: micros_per_day_def)
  finally show ?thesis by (simp add: instant_def offset_of_def d naive_def)
qed

text \<open>The instants that have a datetime, from the year 1 to the year 9999.\<close>

definition representable :: "int \<Rightarrow> bool" where
  "representable t \<longleftrightarrow> micros_per_day \<le> t \<and> t < 3652060 * micros_per_day"

lemma utc_datetime_representable:
  "representable t \<Longrightarrow> \<exists>d. utc_datetime t = Inr d \<and> instant d = t \<and> \<not> naive d"
  "\<not> representable t \<Longrightarrow> utc_datetime t = Inl (OverflowError ''date value out of range'')"
proof -
  have div: "1 \<le> t div micros_per_day \<and> t div micros_per_day \<le> 3652059 \<longleftrightarrow> representable t"
  proof -
    define q r where "q = t div micros_per_day" and "r = t mod micros_per_day"
    have "t = 86400000000 * q + r" "0 \<le> r" "r < 86400000000" by (simp_all add: q_def r_def micros_per_day_def)
    then show ?thesis unfolding q_def [symmetric] representable_def micros_per_day_def by linarith
  qed
  show "\<not> representable t \<Longrightarrow> utc_datetime t = Inl (OverflowError ''date value out of range'')"
    unfolding div [symmetric] utc_datetime_def Let_def by (simp only: not_not if_True simp_thms)
  assume "representable t"
  with div have ord: "(\<not> (1 \<le> t div micros_per_day \<and> t div micros_per_day \<le> 3652059)) = False" by blast
  obtain y m d where ymd: "ymd_of_ordinal (nat (t div micros_per_day)) = (y, m, d)" by (cases "ymd_of_ordinal (nat (t div micros_per_day))")
  have "\<exists>d. utc_datetime t = Inr d" unfolding utc_datetime_def Let_def ord ymd if_False prod.case by (rule exI) (rule refl)
  then show "\<exists>d. utc_datetime t = Inr d \<and> instant d = t \<and> \<not> naive d" using instant_utc by blast
qed

lemma utc_datetime_Inr: "utc_datetime t = Inr d \<Longrightarrow> representable t"
  using utc_datetime_representable(2) [of t] by (cases "representable t") auto

text \<open>\<open>timedelta(days=n)\<close>, in microseconds\<close>

definition timedelta_days :: "int \<Rightarrow> int res" where
  "timedelta_days n = (if \<bar>n\<bar> \<le> 999999999 then Inr (n * micros_per_day)
     else Inl (OverflowError (''days='' @ (if n < 0 then ''-'' else []) @ show_nat (nat \<bar>n\<bar>) @ ''; must have magnitude <= 999999999'')))"

section \<open>Rounding\<close>

text \<open>Python rounds to the nearest, ties to even.\<close>

definition round_half_even :: "rat \<Rightarrow> int" where
  "round_half_even x = (let f = \<lfloor>x\<rfloor>; r = x - of_int f in
     if r < 1 / 2 then f else if 1 / 2 < r then f + 1 else if even f then f else f + 1)"

definition round_to :: "nat \<Rightarrow> rat \<Rightarrow> rat" where
  "round_to k x = of_int (round_half_even (x * 10 ^ k)) / 10 ^ k"

lemma round_half_even_near: "\<bar>of_int (round_half_even x) - x\<bar> \<le> 1 / 2"
proof -
  have "of_int \<lfloor>x\<rfloor> \<le> x" "x < of_int \<lfloor>x\<rfloor> + 1" by linarith+
  then show ?thesis unfolding round_half_even_def Let_def abs_if by (simp split: if_splits; linarith)
qed

lemma round_half_even_of_int [simp]: "round_half_even (of_int n) = n"
  by (simp add: round_half_even_def Let_def)

lemma round_half_even_mono:
  assumes "x \<le> y" shows "round_half_even x \<le> round_half_even y"
proof (cases "\<lfloor>x\<rfloor> = \<lfloor>y\<rfloor>")
  case True
  with assms show ?thesis by (auto simp: round_half_even_def Let_def)
next
  case False
  with assms have "\<lfloor>x\<rfloor> + 1 \<le> \<lfloor>y\<rfloor>" using floor_mono [OF assms] by linarith
  then show ?thesis by (auto simp: round_half_even_def Let_def)
qed

lemma round_to_mono: "x \<le> y \<Longrightarrow> round_to k x \<le> round_to k y"
  by (simp add: round_to_def divide_right_mono round_half_even_mono)

lemma round_to_0 [simp]: "round_to k 0 = 0"
  using round_half_even_of_int [of 0] by (simp add: round_to_def)

lemma round_to_1 [simp]: "round_to k 1 = 1"
  using round_half_even_of_int [of "10 ^ k"] by (simp add: round_to_def)

lemma round_to_unit: "0 \<le> x \<Longrightarrow> x \<le> 1 \<Longrightarrow> 0 \<le> round_to k x \<and> round_to k x \<le> 1"
  using round_to_mono [of 0 x k] round_to_mono [of x 1 k] by simp

lemma round_to_eq_0: "round_to k x = 0 \<longleftrightarrow> \<bar>x\<bar> * 10 ^ k \<le> 1 / 2"
proof -
  have "round_half_even y = 0 \<longleftrightarrow> \<bar>y\<bar> \<le> 1 / 2" for y
  proof
    assume "round_half_even y = 0"
    then show "\<bar>y\<bar> \<le> 1 / 2" using round_half_even_near [of y] by simp
  next
    assume y: "\<bar>y\<bar> \<le> 1 / 2"
    show "round_half_even y = 0"
    proof (cases "0 \<le> y")
      case True
      with y have "\<lfloor>y\<rfloor> = 0" by (simp add: floor_eq_iff abs_if)
      with y True show ?thesis by (simp add: round_half_even_def Let_def abs_if)
    next
      case False
      with y have f: "\<lfloor>y\<rfloor> = -1" by (simp add: floor_eq_iff abs_if)
      from y False f show ?thesis by (auto simp: round_half_even_def Let_def abs_if)
    qed
  qed
  then show ?thesis by (simp add: round_to_def abs_mult)
qed

text \<open>\<open>f"{x:.3f}"\<close> of a number that is not negative\<close>

definition fixed3 :: "rat \<Rightarrow> string" where
  "fixed3 x = (let n = nat (round_half_even (x * 1000)) in show_nat (n div 1000) @ ''.'' @ padded 3 (n mod 1000))"

end
