(* ===== verification/Listing.thy ===== *)
theory Listing
  imports Datetime Json
begin

text \<open>
  Listings of the real-estate mission (src/missions/real_estate/contracts.py), their rights, lifecycle
  and quality scores (integrity.py) and the ranking of a listing in search results (ranking.py).
\<close>

section \<open>Contracts\<close>

datatype rights_basis = OWNER_SUBMITTED | PARTNER_FEED | LICENSED_DATA | UNAUTHORIZED_SCRAPE

datatype listing_state = DRAFT | ACTIVE | UNDER_OFFER | SOLD | RENTED | WITHDRAWN | EXPIRED

definition rights_value :: "rights_basis \<Rightarrow> string" where
  "rights_value r = (case r of OWNER_SUBMITTED \<Rightarrow> ''OWNER_SUBMITTED'' | PARTNER_FEED \<Rightarrow> ''PARTNER_FEED''
     | LICENSED_DATA \<Rightarrow> ''LICENSED_DATA'' | UNAUTHORIZED_SCRAPE \<Rightarrow> ''UNAUTHORIZED_SCRAPE'')"

definition listing_value :: "listing_state \<Rightarrow> string" where
  "listing_value s = (case s of DRAFT \<Rightarrow> ''DRAFT'' | ACTIVE \<Rightarrow> ''ACTIVE'' | UNDER_OFFER \<Rightarrow> ''UNDER_OFFER''
     | SOLD \<Rightarrow> ''SOLD'' | RENTED \<Rightarrow> ''RENTED'' | WITHDRAWN \<Rightarrow> ''WITHDRAWN'' | EXPIRED \<Rightarrow> ''EXPIRED'')"

lemma rights_value_inject [simp]: "rights_value r = rights_value r' \<longleftrightarrow> r = r'"
  by (cases r; cases r') (simp_all add: rights_value_def)

lemma listing_value_inject [simp]: "listing_value s = listing_value s' \<longleftrightarrow> s = s'"
  by (cases s; cases s') (simp_all add: listing_value_def)

record listing =
  li_listing_id :: string
  li_source_ref :: string
  li_publisher_id :: string
  li_rights_basis :: rights_basis
  li_transaction_type :: string
  li_property_type :: string
  li_city :: string
  li_locality :: string
  li_geo_cell :: string
  li_price_minor :: int
  li_area_sqm :: rat
  li_bedrooms :: "int option"
  li_title :: string
  li_description :: string
  li_image_hashes :: "string list"
  li_source_updated_at :: datetime
  li_last_verified_at :: datetime
  li_latitude :: "rat option"
  li_longitude :: "rat option"
  li_state :: listing_state

definition outside :: "rat \<Rightarrow> rat option \<Rightarrow> bool" where
  "outside b x = (case x of None \<Rightarrow> False | Some v \<Rightarrow> \<not> (- b \<le> v \<and> v \<le> b))"

definition negative :: "int option \<Rightarrow> bool" where
  "negative x = (case x of None \<Rightarrow> False | Some v \<Rightarrow> v < 0)"

definition listing_validate :: "listing \<Rightarrow> unit res" where
  "listing_validate c = checks [
     raise_if (blank (li_listing_id c)) (ValueError ''listing_id is required''),
     raise_if (blank (li_source_ref c)) (ValueError ''source_ref is required''),
     raise_if (blank (li_publisher_id c)) (ValueError ''publisher_id is required''),
     raise_if (li_price_minor c < 0) (ValueError ''price_minor must be non-negative''),
     raise_if (li_area_sqm c \<le> 0) (ValueError ''area_sqm must be positive''),
     raise_if (negative (li_bedrooms c)) (ValueError ''bedrooms must be non-negative''),
     res_bind (dt_less (li_last_verified_at c) (li_source_updated_at c)) (\<lambda>b.
       raise_if b (ValueError ''last_verified_at cannot predate source_updated_at'')),
     raise_if ((li_latitude c = None) \<noteq> (li_longitude c = None))
       (ValueError ''latitude and longitude must be provided together''),
     raise_if (outside 90 (li_latitude c)) (ValueError ''latitude must be between -90 and 90''),
     raise_if (outside 180 (li_longitude c)) (ValueError ''longitude must be between -180 and 180'')]"

record search_signals =
  ss_relevance :: rat
  ss_freshness :: rat
  ss_completeness :: rat
  ss_publisher_trust :: rat
  ss_anomaly_penalty :: rat

definition in_unit :: "rat \<Rightarrow> bool" where
  "in_unit x \<longleftrightarrow> 0 \<le> x \<and> x \<le> 1"

definition signals_validate :: "search_signals \<Rightarrow> unit res" where
  "signals_validate s = checks (map (\<lambda>(name, v). raise_if (\<not> in_unit v) (ValueError (name @ '' must be between 0 and 1'')))
     [(''relevance'', ss_relevance s), (''freshness'', ss_freshness s), (''completeness'', ss_completeness s),
      (''publisher_trust'', ss_publisher_trust s), (''anomaly_penalty'', ss_anomaly_penalty s)])"

section \<open>Rights and lifecycle\<close>

definition allowed_rights :: "rights_basis list" where
  "allowed_rights = [OWNER_SUBMITTED, PARTNER_FEED, LICENSED_DATA]"

definition allowed_transitions :: "listing_state \<Rightarrow> listing_state list" where
  "allowed_transitions s = (case s of
       DRAFT \<Rightarrow> [ACTIVE, WITHDRAWN]
     | ACTIVE \<Rightarrow> [UNDER_OFFER, SOLD, RENTED, WITHDRAWN, EXPIRED]
     | UNDER_OFFER \<Rightarrow> [ACTIVE, SOLD, RENTED, WITHDRAWN, EXPIRED]
     | EXPIRED \<Rightarrow> [ACTIVE, WITHDRAWN]
     | SOLD \<Rightarrow> [] | RENTED \<Rightarrow> [] | WITHDRAWN \<Rightarrow> [])"

definition ensure_ingestion_allowed :: "listing \<Rightarrow> unit res" where
  "ensure_ingestion_allowed c = checks [
     listing_validate c,
     raise_if (li_rights_basis c \<notin> set allowed_rights)
       (PermissionError (''ingestion rights basis is not allowed: '' @ rights_value (li_rights_basis c)))]"

definition allowed_listing_transitions :: "listing_state \<Rightarrow> listing_state list" where
  "allowed_listing_transitions s = sort_key listing_value (allowed_transitions s)"

definition transition_listing_state :: "listing_state \<Rightarrow> listing_state \<Rightarrow> listing_state res" where
  "transition_listing_state current target = (if target = current then Inr current
     else if target \<notin> set (allowed_transitions current)
     then Inl (ValueError (''invalid listing transition: '' @ listing_value current @ '' -> '' @ listing_value target))
     else Inr target)"

lemma transition_listing_state_Inr:
  "transition_listing_state s t = Inr t' \<longleftrightarrow> t' = t \<and> (t = s \<or> t \<in> set (allowed_transitions s))"
  by (auto simp: transition_listing_state_def)

lemma allowed_listing_transitions_set [simp]:
  "set (allowed_listing_transitions s) = set (allowed_transitions s)"
  by (simp add: allowed_listing_transitions_def)

text \<open>SOLD, RENTED and WITHDRAWN are final.\<close>

definition final_listing :: "listing_state \<Rightarrow> bool" where
  "final_listing s \<longleftrightarrow> s \<in> {SOLD, RENTED, WITHDRAWN}"

lemma final_iff_no_transition: "final_listing s \<longleftrightarrow> allowed_transitions s = []"
  by (cases s) (simp_all add: final_listing_def allowed_transitions_def)

text \<open>The text of an optional float in JSON.\<close>

definition float_text :: "(rat \<Rightarrow> string) \<Rightarrow> rat option \<Rightarrow> string" where
  "float_text show_float x = (case x of None \<Rightarrow> ''null'' | Some v \<Rightarrow> show_float v)"

section \<open>Quality scores\<close>

record freshness_policy =
  fp_max_age_days :: int

definition policy_validate :: "freshness_policy \<Rightarrow> unit res" where
  "policy_validate p = raise_if (fp_max_age_days p \<le> 0) (ValueError ''max_age_days must be positive'')"

definition age_seconds :: "listing \<Rightarrow> datetime \<Rightarrow> rat" where
  "age_seconds c now = max 0 (of_int (instant now - instant (li_last_verified_at c)) / 1000000)"

definition max_seconds :: "freshness_policy \<Rightarrow> rat" where
  "max_seconds p = of_int (fp_max_age_days p * 24 * 60 * 60)"

definition freshness_score :: "freshness_policy \<Rightarrow> datetime \<Rightarrow> listing \<Rightarrow> rat res" where
  "freshness_score p now c =
     res_bind (policy_validate p) (\<lambda>_.
     res_bind (ensure_ingestion_allowed c) (\<lambda>_.
     if naive now \<or> naive (li_last_verified_at c) then Inl (ValueError ''freshness timestamps must be timezone-aware'')
     else if max_seconds p \<le> age_seconds c now then Inr 0
     else Inr (round_to 6 (1 - age_seconds c now / max_seconds p))))"

definition completeness_checks :: "listing \<Rightarrow> bool list" where
  "completeness_checks c = [\<not> blank (li_title c), \<not> blank (li_description c), \<not> blank (li_city c),
     \<not> blank (li_locality c), \<not> blank (li_geo_cell c), 0 < li_price_minor c, 0 < li_area_sqm c,
     li_bedrooms c \<noteq> None, 3 \<le> length (li_image_hashes c)]"

definition completeness_score :: "listing \<Rightarrow> rat res" where
  "completeness_score c = res_bind (ensure_ingestion_allowed c) (\<lambda>_.
     Inr (round_to 6 (of_nat (length (filter id (completeness_checks c))) / of_nat (length (completeness_checks c)))))"

lemma freshness_unit:
  assumes "freshness_score p now c = Inr x" shows "in_unit x"
proof -
  from assms have pos: "0 < max_seconds p"
    by (auto simp: freshness_score_def policy_validate_def max_seconds_def)
  have "0 \<le> age_seconds c now" by (simp add: age_seconds_def)
  with pos have "age_seconds c now < max_seconds p \<Longrightarrow> 0 \<le> 1 - age_seconds c now / max_seconds p"
    "1 - age_seconds c now / max_seconds p \<le> 1" by simp_all
  with assms show ?thesis
    by (auto simp: freshness_score_def in_unit_def split: if_splits intro: round_to_unit [THEN conjunct1] round_to_unit [THEN conjunct2])
qed

text \<open>The score is 0 when the age reaches the limit, up to the half unit of the sixth digit that
  rounding hides.\<close>

lemma freshness_zero:
  assumes "freshness_score p now c = Inr x"
  shows "x = 0 \<longleftrightarrow> max_seconds p * (1 - 1 / 2000000) \<le> age_seconds c now"
proof -
  from assms have pos: "0 < max_seconds p"
    by (auto simp: freshness_score_def policy_validate_def max_seconds_def)
  show ?thesis
  proof (cases "max_seconds p \<le> age_seconds c now")
    case True
    with assms have "x = 0" by (auto simp: freshness_score_def split: if_splits)
    moreover have "max_seconds p * (1 - 1 / 2000000) \<le> max_seconds p" using pos by (simp add: field_simps)
    ultimately show ?thesis using True by linarith
  next
    case False
    with assms have x: "x = round_to 6 (1 - age_seconds c now / max_seconds p)"
      by (auto simp: freshness_score_def split: if_splits)
    have "0 < 1 - age_seconds c now / max_seconds p" using False pos by simp
    then have "x = 0 \<longleftrightarrow> (1 - age_seconds c now / max_seconds p) * 10 ^ 6 \<le> 1 / 2"
      by (simp add: x round_to_eq_0)
    also have "\<dots> \<longleftrightarrow> max_seconds p * (1 - 1 / 2000000) \<le> age_seconds c now"
      using pos by (simp add: field_simps)
    finally show ?thesis .
  qed
qed

lemma completeness_unit:
  assumes "completeness_score c = Inr x" shows "in_unit x"
proof -
  have "length (filter id (completeness_checks c)) \<le> length (completeness_checks c)" by simp
  then have "(of_nat (length (filter id (completeness_checks c))) :: rat) \<le> of_nat (length (completeness_checks c))"
    by (simp only: of_nat_le_iff)
  then show ?thesis
    using assms by (auto simp: completeness_score_def in_unit_def divide_simps completeness_checks_def
        intro!: round_to_unit [THEN conjunct1] round_to_unit [THEN conjunct2])
qed

section \<open>Duplicate grouping\<close>

text \<open>\<open>str.casefold\<close> and the classes of \<open>re\<close> on code points below 256; the micro sign, whose
  folding lies outside, stays as it is.\<close>

definition casefold :: "string \<Rightarrow> string" where
  "casefold s = concat (map (\<lambda>c. if (of_char c :: nat) = 223 then ''ss'' else [lower_char c]) s)"

definition is_word :: "char \<Rightarrow> bool" where
  "is_word c = (let n = (of_char c :: nat) in
     48 \<le> n \<and> n \<le> 57 \<or> 65 \<le> n \<and> n \<le> 90 \<or> 97 \<le> n \<and> n \<le> 122 \<or> 192 \<le> n \<and> n \<noteq> 215 \<and> n \<noteq> 247 \<or>
     n \<in> {95, 170, 178, 179, 181, 185, 186, 188, 189, 190})"

fun squeeze :: "string \<Rightarrow> string" where
  "squeeze [] = []"
| "squeeze [c] = [if is_space c then CHR '' '' else c]"
| "squeeze (c # d # s) = (if is_space c then if is_space d then squeeze (d # s) else CHR '' '' # squeeze (d # s)
     else c # squeeze (d # s))"

definition normalize_text :: "string \<Rightarrow> string" where
  "normalize_text v = squeeze (filter (\<lambda>c. is_word c \<or> is_space c \<or> c = CHR ''-'') (strip (casefold v)))"

definition show_int_opt :: "int option \<Rightarrow> string" where
  "show_int_opt b = (case b of None \<Rightarrow> ''None'' | Some n \<Rightarrow> show_int n)"

definition stable_image :: "string list \<Rightarrow> string" where
  "stable_image hashes = (case hashes of [] \<Rightarrow> ''no-image'' | h # hs \<Rightarrow> fold min hs h)"

definition fingerprint_parts :: "listing \<Rightarrow> string list" where
  "fingerprint_parts c =
     map normalize_text [li_transaction_type c, li_property_type c, li_city c, li_locality c, li_geo_cell c] @
     [show_int (round_half_even (li_area_sqm c / 5) * 5), show_int_opt (li_bedrooms c),
      stable_image (li_image_hashes c)]"

definition duplicate_fingerprint :: "(string \<Rightarrow> string) \<Rightarrow> listing \<Rightarrow> string res" where
  "duplicate_fingerprint sha c = res_bind (ensure_ingestion_allowed c) (\<lambda>_. Inr (sha (join ''|'' (fingerprint_parts c))))"

section \<open>Ranking\<close>

record ranking_decision =
  rk_eligible :: bool
  rk_score :: rat
  rk_reasons :: "string list"

definition positive_signal :: "search_signals \<Rightarrow> rat" where
  "positive_signal s = ss_relevance s * (40 / 100) + ss_freshness s * (25 / 100) + ss_completeness s * (15 / 100) +
     ss_publisher_trust s * (20 / 100)"

definition rank_reasons :: "search_signals \<Rightarrow> string list" where
  "rank_reasons s = [''relevance:'' @ fixed3 (ss_relevance s), ''freshness:'' @ fixed3 (ss_freshness s),
     ''completeness:'' @ fixed3 (ss_completeness s), ''publisher_trust:'' @ fixed3 (ss_publisher_trust s),
     ''anomaly_penalty:'' @ fixed3 (ss_anomaly_penalty s)]"

definition rank_listing :: "listing \<Rightarrow> search_signals \<Rightarrow> ranking_decision res" where
  "rank_listing c s =
     res_bind (listing_validate c) (\<lambda>_.
     res_bind (signals_validate s) (\<lambda>_.
     if li_state c \<notin> {ACTIVE, UNDER_OFFER}
     then Inr \<lparr>rk_eligible = False, rk_score = 0, rk_reasons = [''state:'' @ listing_value (li_state c) @ '':not-rank-eligible'']\<rparr>
     else if ss_freshness s \<le> 0 then Inr \<lparr>rk_eligible = False, rk_score = 0, rk_reasons = [''freshness:expired'']\<rparr>
     else Inr \<lparr>rk_eligible = True,
       rk_score = round_to 6 (max 0 (min 1 (positive_signal s - ss_anomaly_penalty s * (25 / 100)))),
       rk_reasons = rank_reasons s\<rparr>))"

lemma rank_unit: "rank_listing c s = Inr d \<Longrightarrow> in_unit (rk_score d)"
  by (auto simp: rank_listing_def in_unit_def split: if_splits
      intro!: round_to_unit [THEN conjunct1] round_to_unit [THEN conjunct2])

lemma rank_eligible: "rank_listing c s = Inr d \<Longrightarrow> rk_eligible d \<Longrightarrow> li_state c \<in> {ACTIVE, UNDER_OFFER}"
  by (auto simp: rank_listing_def split: if_splits)

text \<open>One listing's signals are at least as good as another's.\<close>

definition better_signals :: "search_signals \<Rightarrow> search_signals \<Rightarrow> bool" where
  "better_signals s s' \<longleftrightarrow> ss_relevance s' \<le> ss_relevance s \<and> ss_freshness s' \<le> ss_freshness s \<and>
     ss_completeness s' \<le> ss_completeness s \<and> ss_publisher_trust s' \<le> ss_publisher_trust s \<and>
     ss_anomaly_penalty s \<le> ss_anomaly_penalty s'"

lemma rank_monotone:
  assumes "rank_listing c s = Inr d" "rank_listing c' s' = Inr d'" "better_signals s s'"
    and "rk_eligible d" "rk_eligible d'"
  shows "rk_score d' \<le> rk_score d"
proof -
  have "positive_signal s' - ss_anomaly_penalty s' * (25 / 100) \<le> positive_signal s - ss_anomaly_penalty s * (25 / 100)"
    using assms(3) by (auto simp: better_signals_def positive_signal_def)
  then show ?thesis
    using assms(1,2,4,5) by (auto simp: rank_listing_def split: if_splits intro!: round_to_mono max.mono min.mono)
qed

end
