(* ===== verification/Inventory.thy ===== *)
theory Inventory
  imports Listing
begin

text \<open>
  The canonical listing inventory (src/missions/real_estate/inventory.py): source records, the canonical
  row that each duplicate group projects, membership, the lifecycle log and publisher trust. The
  tables are the lists of their rows in insertion order; a timestamp column that holds the ISO text
  of a datetime is that datetime, and a JSON column is the list it encodes. \<open>now\<close> is the ISO
  text of the clock, \<open>show_float\<close> the text \<open>str\<close> gives for a float.
\<close>

section \<open>Contracts and tables\<close>

record trust_evidence =
  pt_publisher_id :: string
  pt_score :: rat
  pt_evidence_refs :: "string list"
  pt_verified_by :: string

definition trust_validate :: "trust_evidence \<Rightarrow> unit res" where
  "trust_validate t = checks [
     raise_if (blank (pt_publisher_id t)) (ValueError ''publisher_id is required''),
     raise_if (\<not> in_unit (pt_score t)) (ValueError ''trust score must be between 0 and 1''),
     raise_if (pt_evidence_refs t = []) (ValueError ''publisher trust requires evidence''),
     raise_if (blank (pt_verified_by t)) (ValueError ''verified_by is required'')]"

record inventory_query =
  iq_transaction_type :: "string option"
  iq_property_type :: "string option"
  iq_city :: "string option"
  iq_locality :: "string option"
  iq_min_price_minor :: "int option"
  iq_max_price_minor :: "int option"
  iq_bedrooms :: "int option"
  iq_states :: "listing_state list"

definition query_validate :: "inventory_query \<Rightarrow> unit res" where
  "query_validate q = checks [
     raise_if (negative (iq_min_price_minor q)) (ValueError ''min_price_minor must be non-negative''),
     raise_if (negative (iq_max_price_minor q)) (ValueError ''max_price_minor must be non-negative''),
     raise_if (case (iq_min_price_minor q, iq_max_price_minor q) of (Some lo, Some hi) \<Rightarrow> hi < lo | _ \<Rightarrow> False)
       (ValueError ''min_price_minor cannot exceed max_price_minor'')]"

text \<open>A row of \<open>source_records\<close>: the stored columns of the candidate, which are all but its coordinates.\<close>

record source_row =
  sr_version_id :: string
  sr_listing :: listing
  sr_fingerprint :: string
  sr_created_at :: string

record canonical_row =
  cn_canonical_id :: string
  cn_fingerprint :: string
  cn_active_source :: string
  cn_state :: listing_state
  cn_transaction_type :: string
  cn_property_type :: string
  cn_city :: string
  cn_locality :: string
  cn_geo_cell :: string
  cn_price_minor :: int
  cn_area_sqm :: rat
  cn_bedrooms :: "int option"
  cn_title :: string
  cn_description :: string
  cn_last_verified_at :: datetime
  cn_updated_at :: string

record membership =
  mb_canonical_id :: string
  mb_source_version_id :: string
  mb_joined_at :: string

record lifecycle_event =
  lc_canonical_id :: string
  lc_from_state :: "listing_state option"
  lc_to_state :: listing_state
  lc_reason :: string
  lc_actor_id :: string
  lc_occurred_at :: string

record inventory =
  iv_sources :: "source_row list"
  iv_canonicals :: "canonical_row list"
  iv_memberships :: "membership list"
  iv_lifecycle :: "lifecycle_event list"
  iv_trust :: "string \<rightharpoonup> trust_evidence \<times> string"

definition empty_inventory :: inventory where
  "empty_inventory = \<lparr>iv_sources = [], iv_canonicals = [], iv_memberships = [], iv_lifecycle = [], iv_trust = Map.empty\<rparr>"

section \<open>Reading\<close>

definition find_source :: "string \<Rightarrow> inventory \<Rightarrow> source_row option" where
  "find_source v db = find (\<lambda>s. sr_version_id s = v) (iv_sources db)"

definition source_record :: "string \<Rightarrow> inventory \<Rightarrow> source_row res" where
  "source_record v db = fetch (KeyError [v]) (find_source v db)"

definition canonical_by_id :: "string \<Rightarrow> inventory \<Rightarrow> canonical_row res" where
  "canonical_by_id cid db = fetch (KeyError [cid]) (find (\<lambda>r. cn_canonical_id r = cid) (iv_canonicals db))"

definition source_members :: "string \<Rightarrow> inventory \<Rightarrow> source_row list" where
  "source_members cid db = sort_key sr_created_at (sort_key sr_version_id
     (filter (\<lambda>s. list_ex (\<lambda>m. mb_source_version_id m = sr_version_id s \<and> mb_canonical_id m = cid) (iv_memberships db))
       (iv_sources db)))"

definition lifecycle_of :: "string \<Rightarrow> inventory \<Rightarrow> lifecycle_event list" where
  "lifecycle_of cid db = filter (\<lambda>e. lc_canonical_id e = cid) (iv_lifecycle db)"

definition publisher_trust :: "string \<Rightarrow> inventory \<Rightarrow> trust_evidence option" where
  "publisher_trust p db = map_option fst (iv_trust db p)"

definition inventory_counts :: "inventory \<Rightarrow> nat list" where
  "inventory_counts db = [length (iv_sources db), length (iv_canonicals db), length (iv_memberships db),
     length (iv_lifecycle db)]"

definition asked :: "'a option \<Rightarrow> 'a \<Rightarrow> bool" where
  "asked q v \<longleftrightarrow> (case q of None \<Rightarrow> True | Some w \<Rightarrow> v = w)"

definition row_matches :: "inventory_query \<Rightarrow> canonical_row \<Rightarrow> bool" where
  "row_matches q r \<longleftrightarrow> (iq_states q = [] \<or> cn_state r \<in> set (iq_states q)) \<and>
     asked (iq_transaction_type q) (cn_transaction_type r) \<and> asked (iq_property_type q) (cn_property_type r) \<and>
     asked (iq_city q) (cn_city r) \<and> asked (iq_locality q) (cn_locality r) \<and>
     (iq_bedrooms q = None \<or> cn_bedrooms r = iq_bedrooms q) \<and>
     (case iq_min_price_minor q of None \<Rightarrow> True | Some lo \<Rightarrow> lo \<le> cn_price_minor r) \<and>
     (case iq_max_price_minor q of None \<Rightarrow> True | Some hi \<Rightarrow> cn_price_minor r \<le> hi)"

text \<open>\<open>ORDER BY last_verified_at DESC, canonical_id ASC\<close>; the column is compared as text.\<close>

definition query_rows :: "inventory_query \<Rightarrow> inventory \<Rightarrow> canonical_row list res" where
  "query_rows q db = res_bind (query_validate q) (\<lambda>_.
     Inr (rev (sort_key (\<lambda>r. isoformat (cn_last_verified_at r))
       (rev (sort_key cn_canonical_id (filter (row_matches q) (iv_canonicals db)))))))"

lemma query_rows_set: "query_rows q db = Inr rows \<Longrightarrow> set rows = {r \<in> set (iv_canonicals db). row_matches q r}"
  by (auto simp: query_rows_def)

lemma query_rows_length: "query_rows q db = Inr rows \<Longrightarrow> length rows = length (filter (row_matches q) (iv_canonicals db))"
  by (auto simp: query_rows_def)

section \<open>Writing\<close>

definition show_state :: "listing \<Rightarrow> string" where
  "show_state c = listing_value (li_state c)"

definition source_version_id :: "(string \<Rightarrow> string) \<Rightarrow> (rat \<Rightarrow> string) \<Rightarrow> listing \<Rightarrow> string" where
  "source_version_id sha show_float c = ''SRC-'' @ take 24 (sha (join ''|'' [
     li_source_ref c, li_publisher_id c, isoformat (li_source_updated_at c), isoformat (li_last_verified_at c),
     show_state c, show_int (li_price_minor c), show_float (li_area_sqm c), show_int_opt (li_bedrooms c),
     li_title c, li_description c, join '','' (li_image_hashes c)]))"

definition candidate_from_source :: "source_row \<Rightarrow> listing_state \<Rightarrow> listing" where
  "candidate_from_source s st = (sr_listing s)\<lparr>li_latitude := None, li_longitude := None, li_state := st\<rparr>"

definition append_lifecycle :: "string \<Rightarrow> listing_state option \<Rightarrow> listing_state \<Rightarrow> string \<Rightarrow> string \<Rightarrow> string \<Rightarrow>
    inventory \<Rightarrow> inventory res" where
  "append_lifecycle cid from to reason actor_id now db =
     res_bind (raise_if (blank reason \<or> blank actor_id) (ValueError ''lifecycle reason and actor_id are required'')) (\<lambda>_.
     Inr (db\<lparr>iv_lifecycle := iv_lifecycle db @ [\<lparr>lc_canonical_id = cid, lc_from_state = from, lc_to_state = to,
       lc_reason = reason, lc_actor_id = actor_id, lc_occurred_at = now\<rparr>]\<rparr>))"

definition new_canonical :: "string \<Rightarrow> string \<Rightarrow> string \<Rightarrow> string \<Rightarrow> listing \<Rightarrow> canonical_row" where
  "new_canonical cid fp v now c = \<lparr>cn_canonical_id = cid, cn_fingerprint = fp, cn_active_source = v,
     cn_state = li_state c, cn_transaction_type = li_transaction_type c, cn_property_type = li_property_type c,
     cn_city = li_city c, cn_locality = li_locality c, cn_geo_cell = li_geo_cell c, cn_price_minor = li_price_minor c,
     cn_area_sqm = li_area_sqm c, cn_bedrooms = li_bedrooms c, cn_title = li_title c,
     cn_description = li_description c, cn_last_verified_at = li_last_verified_at c, cn_updated_at = now\<rparr>"

text \<open>\<open>UPDATE canonical_listings SET ...\<close>: everything but the id, the fingerprint and the state.\<close>

definition refresh_canonical :: "string \<Rightarrow> string \<Rightarrow> listing \<Rightarrow> canonical_row \<Rightarrow> canonical_row" where
  "refresh_canonical v now c r = (new_canonical (cn_canonical_id r) (cn_fingerprint r) v now c)\<lparr>cn_state := cn_state r\<rparr>"

definition update_where :: "('a \<Rightarrow> bool) \<Rightarrow> ('a \<Rightarrow> 'a) \<Rightarrow> 'a list \<Rightarrow> 'a list" where
  "update_where P f xs = map (\<lambda>x. if P x then f x else x) xs"

definition join_group :: "string \<Rightarrow> string \<Rightarrow> string \<Rightarrow> string \<Rightarrow> listing \<Rightarrow> string \<Rightarrow> inventory \<Rightarrow> (inventory \<times> string) res" where
  "join_group cid fp v now c actor_id db = (case find (\<lambda>r. cn_fingerprint r = fp) (iv_canonicals db) of
     None \<Rightarrow>
       res_bind (raise_if (list_ex (\<lambda>r. cn_canonical_id r = cid) (iv_canonicals db))
         (IntegrityError ''UNIQUE constraint failed: canonical_listings.canonical_id'')) (\<lambda>_.
       res_bind (append_lifecycle cid None (li_state c) ''CANONICAL_CREATED'' actor_id now
         (db\<lparr>iv_canonicals := iv_canonicals db @ [new_canonical cid fp v now c]\<rparr>)) (\<lambda>db'.
       Inr (db', cid)))
   | Some r \<Rightarrow>
       res_bind (dt_less (cn_last_verified_at r) (li_last_verified_at c)) (\<lambda>newer.
       Inr (if newer then db\<lparr>iv_canonicals := update_where (\<lambda>r'. cn_canonical_id r' = cn_canonical_id r)
              (refresh_canonical v now c) (iv_canonicals db)\<rparr> else db, cn_canonical_id r)))"

definition add_source :: "(string \<Rightarrow> string) \<Rightarrow> (rat \<Rightarrow> string) \<Rightarrow> string \<Rightarrow> listing \<Rightarrow> string \<Rightarrow> inventory \<Rightarrow>
    (inventory \<times> string) res" where
  "add_source sha show_float now c actor_id db =
     res_bind (ensure_ingestion_allowed c) (\<lambda>_.
     res_bind (duplicate_fingerprint sha c) (\<lambda>fp.
     let v = source_version_id sha show_float c; cid = ''CAN-'' @ take 20 fp
     in if find_source v db \<noteq> None then Inr (db, cid)
        else let row = \<lparr>sr_version_id = v, sr_listing = c\<lparr>li_latitude := None, li_longitude := None\<rparr>,
               sr_fingerprint = fp, sr_created_at = now\<rparr>
          in res_bind (join_group cid fp v now c actor_id (db\<lparr>iv_sources := iv_sources db @ [row]\<rparr>)) (\<lambda>(db', cid').
             Inr (db'\<lparr>iv_memberships := iv_memberships db' @
               [\<lparr>mb_canonical_id = cid', mb_source_version_id = v, mb_joined_at = now\<rparr>]\<rparr>, cid'))))"

definition transition_canonical :: "string \<Rightarrow> string \<Rightarrow> listing_state \<Rightarrow> string \<Rightarrow> string \<Rightarrow> inventory \<Rightarrow> inventory res" where
  "transition_canonical now cid target reason actor_id db =
     res_bind (canonical_by_id cid db) (\<lambda>row.
     res_bind (transition_listing_state (cn_state row) target) (\<lambda>resolved.
     if resolved = cn_state row then Inr db
     else append_lifecycle cid (Some (cn_state row)) resolved reason actor_id now
       (db\<lparr>iv_canonicals := update_where (\<lambda>r. cn_canonical_id r = cid)
         (\<lambda>r. r\<lparr>cn_state := resolved, cn_updated_at := now\<rparr>) (iv_canonicals db)\<rparr>)))"

text \<open>The sweeper: one transition per stale row, each a transaction of its own.\<close>

definition row_freshness :: "freshness_policy \<Rightarrow> datetime \<Rightarrow> canonical_row \<Rightarrow> inventory \<Rightarrow> rat res" where
  "row_freshness p now row db = res_bind (source_record (cn_active_source row) db) (\<lambda>s.
     freshness_score p now (candidate_from_source s (cn_state row)))"

fun expire_loop :: "(nat \<Rightarrow> string) \<Rightarrow> freshness_policy \<Rightarrow> datetime \<Rightarrow> string \<Rightarrow> canonical_row list \<Rightarrow>
    (inventory, string list) act" where
  "expire_loop clock p now actor_id [] = act_return []"
| "expire_loop clock p now actor_id (row # rows) =
     act_bind (reading (row_freshness p now row)) (\<lambda>score.
     if score = 0 then
       act_bind (transaction (\<lambda>db. res_bind (transition_canonical (clock (length (iv_lifecycle db))) (cn_canonical_id row)
         EXPIRED ''FRESHNESS_EXPIRED'' actor_id db) (\<lambda>db'. Inr (db', ())))) (\<lambda>_.
       act_bind (expire_loop clock p now actor_id rows) (\<lambda>expired.
       act_return (cn_canonical_id row # expired)))
     else expire_loop clock p now actor_id rows)"

definition listed :: "canonical_row \<Rightarrow> bool" where
  "listed r \<longleftrightarrow> cn_state r \<in> {ACTIVE, UNDER_OFFER}"

definition expire_stale :: "(nat \<Rightarrow> string) \<Rightarrow> freshness_policy \<Rightarrow> datetime \<Rightarrow> string \<Rightarrow> (inventory, string list) act" where
  "expire_stale clock p now actor_id =
     act_bind (reading (\<lambda>db. Inr (filter listed (iv_canonicals db)))) (expire_loop clock p now actor_id)"

definition record_publisher_trust :: "string \<Rightarrow> trust_evidence \<Rightarrow> inventory \<Rightarrow> inventory res" where
  "record_publisher_trust now t db = res_bind (trust_validate t) (\<lambda>_.
     Inr (db\<lparr>iv_trust := (iv_trust db)(pt_publisher_id t \<mapsto> (t, now))\<rparr>))"

section \<open>Invariant\<close>

definition legal_step :: "listing_state option \<Rightarrow> listing_state \<Rightarrow> bool" where
  "legal_step from to \<longleftrightarrow> (case from of None \<Rightarrow> True | Some s \<Rightarrow> to \<in> set (allowed_transitions s))"

fun legal_life :: "listing_state option \<Rightarrow> lifecycle_event list \<Rightarrow> bool" where
  "legal_life s [] \<longleftrightarrow> True"
| "legal_life s (e # es) \<longleftrightarrow> lc_from_state e = s \<and> legal_step s (lc_to_state e) \<and> legal_life (Some (lc_to_state e)) es"

definition life_state :: "listing_state option \<Rightarrow> lifecycle_event list \<Rightarrow> listing_state option" where
  "life_state s es = (if es = [] then s else Some (lc_to_state (last es)))"

lemma life_state_simps [simp]:
  "life_state s [] = s"
  "life_state s (e # es) = life_state (Some (lc_to_state e)) es"
  "life_state s (es @ [e]) = Some (lc_to_state e)"
  by (simp_all add: life_state_def)

lemma legal_life_append: "legal_life s (es @ fs) \<longleftrightarrow> legal_life s es \<and> legal_life (life_state s es) fs"
  by (induction es arbitrary: s) auto

text \<open>The columns of a canonical row are those of a source.\<close>

definition projects :: "canonical_row \<Rightarrow> listing \<Rightarrow> bool" where
  "projects r c \<longleftrightarrow> cn_transaction_type r = li_transaction_type c \<and> cn_property_type r = li_property_type c \<and>
     cn_city r = li_city c \<and> cn_locality r = li_locality c \<and> cn_geo_cell r = li_geo_cell c \<and>
     cn_price_minor r = li_price_minor c \<and> cn_area_sqm r = li_area_sqm c \<and> cn_bedrooms r = li_bedrooms c \<and>
     cn_title r = li_title c \<and> cn_description r = li_description c \<and> cn_last_verified_at r = li_last_verified_at c"

definition source_ok :: "(string \<Rightarrow> string) \<Rightarrow> source_row \<Rightarrow> bool" where
  "source_ok sha s \<longleftrightarrow> ensure_ingestion_allowed (sr_listing s) = Inr () \<and>
     duplicate_fingerprint sha (sr_listing s) = Inr (sr_fingerprint s)"

text \<open>A source is not verified later than a row.\<close>

definition no_later :: "source_row \<Rightarrow> canonical_row \<Rightarrow> bool" where
  "no_later s r \<longleftrightarrow> dt_less (cn_last_verified_at r) (li_last_verified_at (sr_listing s)) = Inr False"

definition group_ok :: "source_row list \<Rightarrow> canonical_row \<Rightarrow> bool" where
  "group_ok ss r \<longleftrightarrow>
     (\<exists>s \<in> set ss. sr_version_id s = cn_active_source r \<and> sr_fingerprint s = cn_fingerprint r \<and> projects r (sr_listing s)) \<and>
     (\<forall>s \<in> set ss. sr_fingerprint s = cn_fingerprint r \<longrightarrow> no_later s r)"

definition row_key :: "canonical_row \<Rightarrow> string \<times> string" where
  "row_key r = (cn_canonical_id r, cn_fingerprint r)"

definition belongs :: "canonical_row list \<Rightarrow> membership \<Rightarrow> source_row \<Rightarrow> bool" where
  "belongs rs m s \<longleftrightarrow> mb_source_version_id m = sr_version_id s \<and>
     (mb_canonical_id m, sr_fingerprint s) \<in> set (map row_key rs)"

definition sources_ok :: "(string \<Rightarrow> string) \<Rightarrow> inventory \<Rightarrow> bool" where
  "sources_ok sha db \<longleftrightarrow> distinct (map sr_version_id (iv_sources db)) \<and> list_all (source_ok sha) (iv_sources db)"

definition rows_ok :: "inventory \<Rightarrow> bool" where
  "rows_ok db \<longleftrightarrow> distinct (map cn_canonical_id (iv_canonicals db)) \<and> distinct (map cn_fingerprint (iv_canonicals db)) \<and>
     list_all (group_ok (iv_sources db)) (iv_canonicals db)"

definition members_ok :: "inventory \<Rightarrow> bool" where
  "members_ok db \<longleftrightarrow> list_all2 (belongs (iv_canonicals db)) (iv_memberships db) (iv_sources db)"

definition lives_ok :: "inventory \<Rightarrow> bool" where
  "lives_ok db \<longleftrightarrow>
     list_all (\<lambda>r. legal_life None (lifecycle_of (cn_canonical_id r) db) \<and>
       life_state None (lifecycle_of (cn_canonical_id r) db) = Some (cn_state r)) (iv_canonicals db) \<and>
     set (map lc_canonical_id (iv_lifecycle db)) \<subseteq> set (map cn_canonical_id (iv_canonicals db))"

definition inventory_ok :: "(string \<Rightarrow> string) \<Rightarrow> inventory \<Rightarrow> bool" where
  "inventory_ok sha db \<longleftrightarrow> sources_ok sha db \<and> rows_ok db \<and> members_ok db \<and> lives_ok db"

lemmas inventory_parts = inventory_ok_def sources_ok_def rows_ok_def members_ok_def lives_ok_def

lemma inventory_ok_empty: "inventory_ok sha empty_inventory"
  by (simp add: inventory_parts empty_inventory_def)

subsection \<open>Lookups and updates of rows\<close>

lemma update_where_map:
  assumes "\<And>x. g (f x) = g x" shows "map g (update_where P f xs) = map g xs"
  using assms by (simp add: update_where_def)

lemma set_update_where: "y \<in> set (update_where P f xs) \<longleftrightarrow> (\<exists>x \<in> set xs. y = (if P x then f x else x))"
  by (auto simp: update_where_def)

lemma lifecycle_of_snoc:
  "lifecycle_of cid (db\<lparr>iv_lifecycle := iv_lifecycle db @ [e]\<rparr>) =
     lifecycle_of cid db @ (if lc_canonical_id e = cid then [e] else [])"
  by (simp add: lifecycle_of_def)

lemma lifecycle_of_frame [simp]:
  "lifecycle_of cid (db\<lparr>iv_sources := a\<rparr>) = lifecycle_of cid db"
  "lifecycle_of cid (db\<lparr>iv_canonicals := b\<rparr>) = lifecycle_of cid db"
  "lifecycle_of cid (db\<lparr>iv_memberships := c\<rparr>) = lifecycle_of cid db"
  "lifecycle_of cid (db\<lparr>iv_trust := d\<rparr>) = lifecycle_of cid db"
  by (simp_all add: lifecycle_of_def)

lemma append_lifecycle_Inr:
  "append_lifecycle cid from to reason actor_id now db = Inr db' \<longleftrightarrow> \<not> blank reason \<and> \<not> blank actor_id \<and>
     db' = db\<lparr>iv_lifecycle := iv_lifecycle db @ [\<lparr>lc_canonical_id = cid, lc_from_state = from, lc_to_state = to,
       lc_reason = reason, lc_actor_id = actor_id, lc_occurred_at = now\<rparr>]\<rparr>"
  by (auto simp: append_lifecycle_def)

lemma canonical_by_id_Inr: "canonical_by_id cid db = Inr r \<Longrightarrow> r \<in> set (iv_canonicals db) \<and> cn_canonical_id r = cid"
  by (auto simp: canonical_by_id_def find_Some_iff)

lemma canonical_by_id_unique:
  assumes "distinct (map cn_canonical_id (iv_canonicals db))" "r \<in> set (iv_canonicals db)"
  shows "canonical_by_id (cn_canonical_id r) db = Inr r"
proof -
  have "find (\<lambda>x. cn_canonical_id x = cn_canonical_id r) (iv_canonicals db) \<noteq> None"
    using assms(2) by (auto simp: find_None_iff)
  then obtain y where y: "find (\<lambda>x. cn_canonical_id x = cn_canonical_id r) (iv_canonicals db) = Some y" by blast
  then have "y \<in> set (iv_canonicals db)" "cn_canonical_id y = cn_canonical_id r" by (auto simp: find_Some_iff)
  with assms have "y = r" by (auto simp: distinct_map dest: inj_onD)
  with y show ?thesis by (simp add: canonical_by_id_def)
qed

lemma new_canonical_simps [simp]:
  "cn_canonical_id (new_canonical cid fp v now c) = cid"
  "cn_fingerprint (new_canonical cid fp v now c) = fp"
  "cn_active_source (new_canonical cid fp v now c) = v"
  "cn_state (new_canonical cid fp v now c) = li_state c"
  "cn_last_verified_at (new_canonical cid fp v now c) = li_last_verified_at c"
  by (simp_all add: new_canonical_def)

lemma refresh_canonical_simps [simp]:
  "cn_canonical_id (refresh_canonical v now c r) = cn_canonical_id r"
  "cn_fingerprint (refresh_canonical v now c r) = cn_fingerprint r"
  "cn_active_source (refresh_canonical v now c r) = v"
  "cn_state (refresh_canonical v now c r) = cn_state r"
  "cn_last_verified_at (refresh_canonical v now c r) = li_last_verified_at c"
  by (simp_all add: refresh_canonical_def)

lemma projects_stored [simp]:
  "projects (new_canonical cid fp v now c) (c\<lparr>li_latitude := None, li_longitude := None\<rparr>)"
  "projects (refresh_canonical v now c r) (c\<lparr>li_latitude := None, li_longitude := None\<rparr>)"
  by (simp_all add: projects_def new_canonical_def refresh_canonical_def)

lemma projects_state [simp]: "projects (r\<lparr>cn_state := st, cn_updated_at := now\<rparr>) c = projects r c"
  by (simp add: projects_def)

subsection \<open>Preservation\<close>

lemma belongs_update:
  assumes "\<And>r. row_key (f r) = row_key r"
  shows "belongs (update_where P f rs) = belongs rs"
  unfolding belongs_def update_where_map [of row_key f, OF assms] ..

lemma row_key_simps [simp]:
  "row_key (r\<lparr>cn_state := st, cn_updated_at := now\<rparr>) = row_key r"
  "row_key (refresh_canonical v now c r) = row_key r"
  by (simp_all add: row_key_def)

lemma belongs_more: "belongs rs m s \<Longrightarrow> belongs (rs @ rs') m s"
  by (auto simp: belongs_def)

lemma group_ok_state [simp]: "group_ok ss (r\<lparr>cn_state := st, cn_updated_at := now\<rparr>) = group_ok ss r"
  by (simp add: group_ok_def no_later_def)

lemma lives_ok_move:
  assumes lives: "lives_ok db" and dist: "distinct (map cn_canonical_id (iv_canonicals db))"
    and r: "r \<in> set (iv_canonicals db)" and step: "t \<in> set (allowed_transitions (cn_state r))"
    and e: "lc_canonical_id e = cn_canonical_id r" "lc_from_state e = Some (cn_state r)" "lc_to_state e = t"
  shows "lives_ok (db\<lparr>iv_canonicals := update_where (\<lambda>x. cn_canonical_id x = cn_canonical_id r)
     (\<lambda>x. x\<lparr>cn_state := t, cn_updated_at := now\<rparr>) (iv_canonicals db), iv_lifecycle := iv_lifecycle db @ [e]\<rparr>)"
    (is "lives_ok ?db'")
proof -
  have life: "lifecycle_of cid ?db' = lifecycle_of cid db @ (if cn_canonical_id r = cid then [e] else [])" for cid
    by (simp add: lifecycle_of_def e(1))
  have "legal_life None (lifecycle_of (cn_canonical_id y) ?db') \<and>
      life_state None (lifecycle_of (cn_canonical_id y) ?db') = Some (cn_state y)"
    if y: "y \<in> set (iv_canonicals ?db')" for y
  proof -
    from y obtain x where x: "x \<in> set (iv_canonicals db)"
      "y = (if cn_canonical_id x = cn_canonical_id r then x\<lparr>cn_state := t, cn_updated_at := now\<rparr> else x)"
      by (auto simp: set_update_where)
    have old: "legal_life None (lifecycle_of (cn_canonical_id x) db)"
      "life_state None (lifecycle_of (cn_canonical_id x) db) = Some (cn_state x)"
      using lives x(1) by (auto simp: lives_ok_def list_all_iff)
    show ?thesis
    proof (cases "cn_canonical_id x = cn_canonical_id r")
      case True
      with dist r x(1) have "x = r" by (auto simp: distinct_map dest: inj_onD)
      with x(2) old step e show ?thesis unfolding life by (simp add: legal_life_append legal_step_def)
    next
      case False
      with x(2) old show ?thesis unfolding life by simp
    qed
  qed
  moreover have "set (map lc_canonical_id (iv_lifecycle ?db')) \<subseteq> set (map cn_canonical_id (iv_canonicals ?db'))"
    using lives r by (auto simp: lives_ok_def e(1) update_where_map)
  ultimately show ?thesis unfolding lives_ok_def list_all_iff by blast
qed

lemma transition_canonical_Inr:
  assumes "transition_canonical now cid target reason actor_id db = Inr db'"
  shows "\<exists>r. canonical_by_id cid db = Inr r \<and> (target = cn_state r \<and> db' = db \<or>
     target \<in> set (allowed_transitions (cn_state r)) \<and> \<not> blank reason \<and> \<not> blank actor_id \<and>
     db' = db\<lparr>iv_canonicals := update_where (\<lambda>x. cn_canonical_id x = cid)
       (\<lambda>x. x\<lparr>cn_state := target, cn_updated_at := now\<rparr>) (iv_canonicals db),
       iv_lifecycle := iv_lifecycle db @ [\<lparr>lc_canonical_id = cid, lc_from_state = Some (cn_state r),
         lc_to_state = target, lc_reason = reason, lc_actor_id = actor_id, lc_occurred_at = now\<rparr>]\<rparr>)"
  using assms by (auto simp: transition_canonical_def transition_listing_state_Inr append_lifecycle_Inr split: if_splits)

lemma transition_canonical_ok:
  assumes ok: "inventory_ok sha db" and t: "transition_canonical now cid target reason actor_id db = Inr db'"
  shows "inventory_ok sha db'"
proof -
  from transition_canonical_Inr [OF t] obtain r where r: "canonical_by_id cid db = Inr r" and
    db': "target = cn_state r \<and> db' = db \<or> target \<in> set (allowed_transitions (cn_state r)) \<and>
     db' = db\<lparr>iv_canonicals := update_where (\<lambda>x. cn_canonical_id x = cid)
       (\<lambda>x. x\<lparr>cn_state := target, cn_updated_at := now\<rparr>) (iv_canonicals db),
       iv_lifecycle := iv_lifecycle db @ [\<lparr>lc_canonical_id = cid, lc_from_state = Some (cn_state r),
         lc_to_state = target, lc_reason = reason, lc_actor_id = actor_id, lc_occurred_at = now\<rparr>]\<rparr>" by blast
  from canonical_by_id_Inr [OF r] have r: "r \<in> set (iv_canonicals db)" "cid = cn_canonical_id r" by auto
  show ?thesis
  proof (cases "db' = db")
    case False
    let ?rows = "update_where (\<lambda>x. cn_canonical_id x = cid) (\<lambda>x. x\<lparr>cn_state := target, cn_updated_at := now\<rparr>) (iv_canonicals db)"
    have maps: "map cn_canonical_id ?rows = map cn_canonical_id (iv_canonicals db)"
      "map cn_fingerprint ?rows = map cn_fingerprint (iv_canonicals db)" by (simp_all add: update_where_map)
    have "list_all (group_ok (iv_sources db)) ?rows"
      using ok by (auto simp: inventory_parts list_all_iff set_update_where)
    moreover have "list_all2 (belongs ?rows) (iv_memberships db) (iv_sources db)"
      using ok by (simp add: inventory_parts belongs_update)
    moreover have "lives_ok db'"
      using False db' r ok by (auto simp: inventory_ok_def rows_ok_def intro!: lives_ok_move)
    ultimately show ?thesis using ok False db' maps by (auto simp: inventory_ok_def rows_ok_def members_ok_def sources_ok_def)
  qed (use ok in simp)
qed

lemma expire_loop_ok: "preserves (inventory_ok sha) (expire_loop clock p now actor_id rows)"
proof (induction rows)
  case (Cons row rows)
  have "preserves (inventory_ok sha) (transaction (\<lambda>db. res_bind (transition_canonical (clock (length (iv_lifecycle db)))
      (cn_canonical_id row) EXPIRED ''FRESHNESS_EXPIRED'' actor_id db) (\<lambda>db'. Inr (db', ()))))"
    by (rule preserves_transaction) (auto intro: transition_canonical_ok)
  with Cons.IH show ?case unfolding expire_loop.simps
    by (intro preserves_bind preserves_reading) (auto intro!: preserves_bind)
qed (simp add: preserves_def)

lemma expire_stale_ok: "preserves (inventory_ok sha) (expire_stale clock p now actor_id)"
  unfolding expire_stale_def by (intro preserves_bind preserves_reading expire_loop_ok)

lemma join_group_Inr:
  assumes "join_group cid fp v now c actor_id db = Inr (db', cid')"
  shows "((\<forall>r \<in> set (iv_canonicals db). cn_fingerprint r \<noteq> fp) \<and> cid' = cid \<and>
       (\<forall>r \<in> set (iv_canonicals db). cn_canonical_id r \<noteq> cid) \<and> \<not> blank actor_id \<and>
       db' = db\<lparr>iv_canonicals := iv_canonicals db @ [new_canonical cid fp v now c],
         iv_lifecycle := iv_lifecycle db @ [\<lparr>lc_canonical_id = cid, lc_from_state = None, lc_to_state = li_state c,
           lc_reason = ''CANONICAL_CREATED'', lc_actor_id = actor_id, lc_occurred_at = now\<rparr>]\<rparr>) \<or>
     (\<exists>r \<in> set (iv_canonicals db). cn_fingerprint r = fp \<and> cid' = cn_canonical_id r \<and>
       naive (cn_last_verified_at r) = naive (li_last_verified_at c) \<and>
       (if instant (cn_last_verified_at r) < instant (li_last_verified_at c)
        then db' = db\<lparr>iv_canonicals := update_where (\<lambda>r'. cn_canonical_id r' = cn_canonical_id r)
          (refresh_canonical v now c) (iv_canonicals db)\<rparr>
        else db' = db))"
proof (cases "find (\<lambda>r. cn_fingerprint r = fp) (iv_canonicals db)")
  case None
  with assms show ?thesis by (auto simp: join_group_def append_lifecycle_Inr find_None_iff list_ex_iff)
next
  case (Some r)
  then have "r \<in> set (iv_canonicals db)" "cn_fingerprint r = fp" by (auto simp: find_Some_iff)
  with assms Some show ?thesis by (auto simp: join_group_def split: if_splits)
qed

lemma group_ok_new:
  assumes "group_ok ss r" "cn_fingerprint r = sr_fingerprint s \<Longrightarrow> no_later s r"
  shows "group_ok (ss @ [s]) r"
  using assms by (auto simp: group_ok_def)

lemma members_cover:
  assumes "list_all2 (belongs rs) ms ss" "s \<in> set ss"
  shows "\<exists>r \<in> set rs. cn_fingerprint r = sr_fingerprint s"
proof -
  from assms obtain m where "belongs rs m s" by (auto simp: list_all2_conv_all_nth in_set_conv_nth)
  then show ?thesis by (auto simp: belongs_def row_key_def)
qed

text \<open>A source that starts a group.\<close>

lemma first_source_ok:
  assumes ok: "inventory_ok sha db"
    and s: "source_ok sha s" "find_source (sr_version_id s) db = None" "projects r (sr_listing s)"
    and r: "cn_active_source r = sr_version_id s" "cn_fingerprint r = sr_fingerprint s"
      "cn_last_verified_at r = li_last_verified_at (sr_listing s)"
    and new: "\<forall>x \<in> set (iv_canonicals db). cn_fingerprint x \<noteq> sr_fingerprint s"
      "\<forall>x \<in> set (iv_canonicals db). cn_canonical_id x \<noteq> cn_canonical_id r"
    and e: "lc_canonical_id e = cn_canonical_id r" "lc_from_state e = None" "lc_to_state e = cn_state r"
    and m: "mb_canonical_id m = cn_canonical_id r" "mb_source_version_id m = sr_version_id s"
  shows "inventory_ok sha (db\<lparr>iv_sources := iv_sources db @ [s], iv_canonicals := iv_canonicals db @ [r],
     iv_lifecycle := iv_lifecycle db @ [e], iv_memberships := iv_memberships db @ [m]\<rparr>)" (is "inventory_ok sha ?db'")
proof -
  from s(2) have fresh: "sr_version_id s \<notin> set (map sr_version_id (iv_sources db))"
    by (auto simp: find_source_def find_None_iff)
  from ok have sources: "sources_ok sha ?db'" using s(1) fresh by (simp add: inventory_ok_def sources_ok_def)
  have alone: "sr_fingerprint x \<noteq> sr_fingerprint s" if "x \<in> set (iv_sources db)" for x
    using members_cover [of _ "iv_memberships db"] that ok new(1) by (fastforce simp: inventory_ok_def members_ok_def)
  have "group_ok (iv_sources db @ [s]) r"
    using s(3) r alone by (auto simp: group_ok_def no_later_def)
  moreover have "group_ok (iv_sources db @ [s]) x" if "x \<in> set (iv_canonicals db)" for x
    using ok new(1) that by (intro group_ok_new) (auto simp: inventory_ok_def rows_ok_def list_all_iff)
  ultimately have rows: "rows_ok ?db'"
    using ok new r(2) by (auto simp: inventory_ok_def rows_ok_def list_all_iff)
  have "list_all2 (belongs (iv_canonicals db @ [r])) (iv_memberships db) (iv_sources db)"
    by (rule list_all2_mono [of "belongs (iv_canonicals db)"])
      (use ok in \<open>auto simp: inventory_ok_def members_ok_def intro: belongs_more\<close>)
  then have members: "members_ok ?db'"
    using m r(2) by (simp add: members_ok_def list_all2_appendI belongs_def row_key_def)
  have none: "lifecycle_of (cn_canonical_id r) db = []"
    using ok new(2) by (auto simp: inventory_ok_def lives_ok_def lifecycle_of_def filter_empty_conv)
  have life: "lifecycle_of cid ?db' = lifecycle_of cid db @ (if cn_canonical_id r = cid then [e] else [])" for cid
    by (simp add: lifecycle_of_def e(1))
  have "lives_ok ?db'"
    using ok new(2) e none unfolding lives_ok_def life
    by (auto simp: inventory_ok_def lives_ok_def list_all_iff legal_step_def)
  with sources rows members show ?thesis by (simp add: inventory_ok_def)
qed

text \<open>A source that joins a group, and becomes the active one when it is verified later.\<close>

lemma joining_source_ok:
  assumes ok: "inventory_ok sha db"
    and s: "source_ok sha s" "find_source (sr_version_id s) db = None"
    and r: "r \<in> set (iv_canonicals db)" "cn_fingerprint r = sr_fingerprint s"
    and upd: "if instant (cn_last_verified_at r) < instant (li_last_verified_at (sr_listing s))
      then rows = update_where (\<lambda>x. cn_canonical_id x = cn_canonical_id r) f (iv_canonicals db)
      else rows = iv_canonicals db" "naive (cn_last_verified_at r) = naive (li_last_verified_at (sr_listing s))"
    and f: "\<And>x. row_key (f x) = row_key x" "\<And>x. cn_state (f x) = cn_state x" "cn_active_source (f r) = sr_version_id s"
      "projects (f r) (sr_listing s)" "cn_last_verified_at (f r) = li_last_verified_at (sr_listing s)"
    and m: "mb_canonical_id m = cn_canonical_id r" "mb_source_version_id m = sr_version_id s"
  shows "inventory_ok sha (db\<lparr>iv_sources := iv_sources db @ [s], iv_canonicals := rows,
     iv_memberships := iv_memberships db @ [m]\<rparr>)" (is "inventory_ok sha ?db'")
proof -
  from s(2) have fresh: "sr_version_id s \<notin> set (map sr_version_id (iv_sources db))"
    by (auto simp: find_source_def find_None_iff)
  from ok have sources: "sources_ok sha ?db'" using s(1) fresh by (simp add: inventory_ok_def sources_ok_def)
  have keys: "map row_key rows = map row_key (iv_canonicals db)"
    using upd(1) f(1) by (auto simp: update_where_map split: if_splits)
  have ids: "map cn_canonical_id rows = map cn_canonical_id (iv_canonicals db)"
    "map cn_fingerprint rows = map cn_fingerprint (iv_canonicals db)"
    using arg_cong [OF keys, of "map fst"] arg_cong [OF keys, of "map snd"] by (simp_all add: row_key_def comp_def)
  have states: "map (\<lambda>x. (cn_canonical_id x, cn_state x)) rows = map (\<lambda>x. (cn_canonical_id x, cn_state x)) (iv_canonicals db)"
    using upd(1) f(1,2) by (auto simp: update_where_map row_key_def split: if_splits)
  have old: "group_ok (iv_sources db) x" if "x \<in> set (iv_canonicals db)" for x
    using ok that by (auto simp: inventory_ok_def rows_ok_def list_all_iff)
  have same: "x = r" if "x \<in> set (iv_canonicals db)" "cn_canonical_id x = cn_canonical_id r \<or> cn_fingerprint x = sr_fingerprint s" for x
  proof -
    have "inj_on cn_canonical_id (set (iv_canonicals db))" "inj_on cn_fingerprint (set (iv_canonicals db))"
      using ok by (simp_all add: inventory_ok_def rows_ok_def distinct_map)
    with that r show ?thesis by (metis inj_onD)
  qed
  have fr: "cn_fingerprint (f r) = sr_fingerprint s" using f(1) [of r] r(2) by (simp add: row_key_def)
  have "group_ok (iv_sources db @ [s]) y" if y: "y \<in> set rows" for y
  proof (cases "instant (cn_last_verified_at r) < instant (li_last_verified_at (sr_listing s))")
    case True
    with upd(1) y obtain x where x: "x \<in> set (iv_canonicals db)"
      "y = (if cn_canonical_id x = cn_canonical_id r then f x else x)" by (auto simp: set_update_where)
    show ?thesis
    proof (cases "x = r")
      case True
      then have y: "y = f r" using x(2) by simp
      have "no_later z (f r)" if "z \<in> set (iv_sources db)" "sr_fingerprint z = sr_fingerprint s" for z
        using old [OF r(1)] that r(2) \<open>instant _ < _\<close> upd(2) f(5) by (auto simp: group_ok_def no_later_def)
      then show ?thesis unfolding y using f fr by (auto simp: group_ok_def no_later_def)
    next
      case False
      with same x(1) have "cn_canonical_id x \<noteq> cn_canonical_id r" "cn_fingerprint x \<noteq> sr_fingerprint s" by blast+
      with x(2) old [OF x(1)] show ?thesis by (auto intro: group_ok_new)
    qed
  next
    case False
    with upd(1) y have x: "y \<in> set (iv_canonicals db)" by simp
    show ?thesis using old [OF x] same [OF x] False upd(2) by (intro group_ok_new) (auto simp: no_later_def)
  qed
  then have rows: "rows_ok ?db'" using ok ids by (simp add: inventory_ok_def rows_ok_def list_all_iff)
  have "belongs rows = belongs (iv_canonicals db)" unfolding belongs_def keys ..
  moreover have "(mb_canonical_id m, sr_fingerprint s) \<in> set (map row_key (iv_canonicals db))"
    using r m by (force simp: row_key_def)
  ultimately have members: "members_ok ?db'"
    using ok m by (simp add: inventory_ok_def members_ok_def list_all2_appendI belongs_def)
  have st: "\<exists>x \<in> set (iv_canonicals db). cn_canonical_id x = cn_canonical_id y \<and> cn_state x = cn_state y"
    if "y \<in> set rows" for y
  proof -
    have "(\<lambda>x. (cn_canonical_id x, cn_state x)) y \<in> set (map (\<lambda>x. (cn_canonical_id x, cn_state x)) rows)"
      using that unfolding set_map by (rule imageI)
    then show ?thesis unfolding states by auto
  qed
  have life: "lifecycle_of cid ?db' = lifecycle_of cid db" for cid by (simp add: lifecycle_of_def)
  have "lives_ok ?db'"
    using ok ids(1) st unfolding lives_ok_def life by (fastforce simp: inventory_ok_def lives_ok_def list_all_iff)
  with sources rows members show ?thesis by (simp add: inventory_ok_def)
qed

lemma stored_candidate_ok:
  assumes "ensure_ingestion_allowed c = Inr ()" "duplicate_fingerprint sha c = Inr fp"
  shows "source_ok sha \<lparr>sr_version_id = v, sr_listing = c\<lparr>li_latitude := None, li_longitude := None\<rparr>,
     sr_fingerprint = fp, sr_created_at = now\<rparr>"
proof -
  let ?c = "c\<lparr>li_latitude := None, li_longitude := None\<rparr>"
  have "listing_validate c = Inr () \<Longrightarrow> listing_validate ?c = Inr ()"
    by (auto simp: listing_validate_def outside_def)
  with assms(1) have ok: "ensure_ingestion_allowed ?c = Inr ()" by (simp add: ensure_ingestion_allowed_def)
  have "fingerprint_parts ?c = fingerprint_parts c" by (simp add: fingerprint_parts_def)
  with assms ok show ?thesis by (simp add: source_ok_def duplicate_fingerprint_def)
qed

lemma add_source_Inr:
  assumes "add_source sha show_float now c actor_id db = Inr (db', cid')"
  shows "ensure_ingestion_allowed c = Inr () \<and> (\<exists>fp. duplicate_fingerprint sha c = Inr fp \<and>
     (let v = source_version_id sha show_float c; cid = ''CAN-'' @ take 20 fp in
      if find_source v db \<noteq> None then db' = db \<and> cid' = cid
      else \<exists>db1. join_group cid fp v now c actor_id (db\<lparr>iv_sources := iv_sources db @
          [\<lparr>sr_version_id = v, sr_listing = c\<lparr>li_latitude := None, li_longitude := None\<rparr>,
            sr_fingerprint = fp, sr_created_at = now\<rparr>]\<rparr>) = Inr (db1, cid') \<and>
        db' = db1\<lparr>iv_memberships := iv_memberships db1 @
          [\<lparr>mb_canonical_id = cid', mb_source_version_id = v, mb_joined_at = now\<rparr>]\<rparr>))"
  using assms by (auto simp: add_source_def Let_def split: if_splits)

lemma add_source_ok:
  assumes ok: "inventory_ok sha db" and add: "add_source sha show_float now c actor_id db = Inr (db', cid')"
  shows "inventory_ok sha db'"
proof -
  from add_source_Inr [OF add] obtain fp where
    c: "ensure_ingestion_allowed c = Inr ()" "duplicate_fingerprint sha c = Inr fp" and
    rest: "let v = source_version_id sha show_float c; cid = ''CAN-'' @ take 20 fp in
      if find_source v db \<noteq> None then db' = db \<and> cid' = cid
      else \<exists>db1. join_group cid fp v now c actor_id (db\<lparr>iv_sources := iv_sources db @
          [\<lparr>sr_version_id = v, sr_listing = c\<lparr>li_latitude := None, li_longitude := None\<rparr>,
            sr_fingerprint = fp, sr_created_at = now\<rparr>]\<rparr>) = Inr (db1, cid') \<and>
        db' = db1\<lparr>iv_memberships := iv_memberships db1 @
          [\<lparr>mb_canonical_id = cid', mb_source_version_id = v, mb_joined_at = now\<rparr>]\<rparr>" by blast
  define v where "v = source_version_id sha show_float c"
  define s where "s = \<lparr>sr_version_id = v, sr_listing = c\<lparr>li_latitude := None, li_longitude := None\<rparr>,
     sr_fingerprint = fp, sr_created_at = now\<rparr>"
  have s: "source_ok sha s" unfolding s_def by (rule stored_candidate_ok [OF c])
  have fields: "sr_version_id s = v" "sr_fingerprint s = fp" "li_last_verified_at (sr_listing s) = li_last_verified_at c"
    "projects (new_canonical i f v now c) (sr_listing s)" "projects (refresh_canonical v now c r) (sr_listing s)" for i f r
    by (simp_all add: s_def)
  show ?thesis
  proof (cases "find_source v db")
    case (Some x)
    with rest ok show ?thesis by (simp add: Let_def v_def)
  next
    case None
    with rest obtain db1 where j: "join_group (''CAN-'' @ take 20 fp) fp v now c actor_id
        (db\<lparr>iv_sources := iv_sources db @ [s]\<rparr>) = Inr (db1, cid')"
      and db': "db' = db1\<lparr>iv_memberships := iv_memberships db1 @
          [\<lparr>mb_canonical_id = cid', mb_source_version_id = v, mb_joined_at = now\<rparr>]\<rparr>"
      by (auto simp: Let_def v_def s_def)
    from join_group_Inr [OF j] show ?thesis
    proof (elim disjE)
      assume "(\<forall>r \<in> set (iv_canonicals (db\<lparr>iv_sources := iv_sources db @ [s]\<rparr>)). cn_fingerprint r \<noteq> fp) \<and>
        cid' = ''CAN-'' @ take 20 fp \<and>
        (\<forall>r \<in> set (iv_canonicals (db\<lparr>iv_sources := iv_sources db @ [s]\<rparr>)). cn_canonical_id r \<noteq> ''CAN-'' @ take 20 fp) \<and>
        \<not> blank actor_id \<and> db1 = (db\<lparr>iv_sources := iv_sources db @ [s]\<rparr>)\<lparr>
          iv_canonicals := iv_canonicals (db\<lparr>iv_sources := iv_sources db @ [s]\<rparr>) @ [new_canonical (''CAN-'' @ take 20 fp) fp v now c],
          iv_lifecycle := iv_lifecycle (db\<lparr>iv_sources := iv_sources db @ [s]\<rparr>) @
            [\<lparr>lc_canonical_id = ''CAN-'' @ take 20 fp, lc_from_state = None, lc_to_state = li_state c,
              lc_reason = ''CANONICAL_CREATED'', lc_actor_id = actor_id, lc_occurred_at = now\<rparr>]\<rparr>"
      with None s fields show ?thesis unfolding db' by (auto intro!: first_source_ok [OF ok])
    next
      assume "\<exists>r \<in> set (iv_canonicals (db\<lparr>iv_sources := iv_sources db @ [s]\<rparr>)). cn_fingerprint r = fp \<and>
        cid' = cn_canonical_id r \<and> naive (cn_last_verified_at r) = naive (li_last_verified_at c) \<and>
        (if instant (cn_last_verified_at r) < instant (li_last_verified_at c)
         then db1 = (db\<lparr>iv_sources := iv_sources db @ [s]\<rparr>)\<lparr>iv_canonicals :=
           update_where (\<lambda>r'. cn_canonical_id r' = cn_canonical_id r) (refresh_canonical v now c)
             (iv_canonicals (db\<lparr>iv_sources := iv_sources db @ [s]\<rparr>))\<rparr>
         else db1 = db\<lparr>iv_sources := iv_sources db @ [s]\<rparr>)"
      then obtain r where r: "r \<in> set (iv_canonicals db)" "cn_fingerprint r = fp" "cid' = cn_canonical_id r"
        "naive (cn_last_verified_at r) = naive (li_last_verified_at c)"
        and db1: "db1 = db\<lparr>iv_sources := iv_sources db @ [s], iv_canonicals :=
          (if instant (cn_last_verified_at r) < instant (li_last_verified_at c)
           then update_where (\<lambda>r'. cn_canonical_id r' = cn_canonical_id r) (refresh_canonical v now c) (iv_canonicals db)
           else iv_canonicals db)\<rparr>" by (auto split: if_splits)
      have "inventory_ok sha (db\<lparr>iv_sources := iv_sources db @ [s], iv_canonicals :=
          (if instant (cn_last_verified_at r) < instant (li_last_verified_at c)
           then update_where (\<lambda>r'. cn_canonical_id r' = cn_canonical_id r) (refresh_canonical v now c) (iv_canonicals db)
           else iv_canonicals db),
          iv_memberships := iv_memberships db @ [\<lparr>mb_canonical_id = cid', mb_source_version_id = v, mb_joined_at = now\<rparr>]\<rparr>)"
        by (rule joining_source_ok [OF ok, where r = r and f = "refresh_canonical v now c"])
          (use None s fields r in simp_all)
      then show ?thesis unfolding db' db1 by simp
    qed
  qed
qed

section \<open>Runs\<close>

datatype inventory_call =
    AddSource listing string
  | Move string listing_state string string
  | ExpireStale freshness_policy datetime string
  | RecordTrust trust_evidence

definition kept :: "'s \<Rightarrow> 's res \<Rightarrow> 's" where
  "kept s r = (case r of Inl _ \<Rightarrow> s | Inr s' \<Rightarrow> s')"

fun inventory_step :: "(string \<Rightarrow> string) \<Rightarrow> (rat \<Rightarrow> string) \<Rightarrow> (nat \<Rightarrow> string) \<Rightarrow> inventory_call \<Rightarrow> inventory \<Rightarrow> inventory" where
  "inventory_step sha show_float clock (AddSource c actor_id) db =
     kept db (map_sum id fst (add_source sha show_float (clock 0) c actor_id db))"
| "inventory_step sha show_float clock (Move cid t reason actor_id) db =
     kept db (transition_canonical (clock 0) cid t reason actor_id db)"
| "inventory_step sha show_float clock (ExpireStale p now actor_id) db = fst (expire_stale clock p now actor_id db)"
| "inventory_step sha show_float clock (RecordTrust t) db = kept db (record_publisher_trust (clock 0) t db)"

text \<open>Calls in sequence, each with its own clock, whether they raise or not.\<close>

fun inventory_run :: "(string \<Rightarrow> string) \<Rightarrow> (rat \<Rightarrow> string) \<Rightarrow> ((nat \<Rightarrow> string) \<times> inventory_call) list \<Rightarrow> inventory \<Rightarrow> inventory" where
  "inventory_run sha show_float [] db = db"
| "inventory_run sha show_float ((clock, call) # calls) db =
     inventory_run sha show_float calls (inventory_step sha show_float clock call db)"

lemma kept_cases: "P s \<Longrightarrow> (\<And>s'. r = Inr s' \<Longrightarrow> P s') \<Longrightarrow> P (kept s r)"
  by (cases r) (simp_all add: kept_def)

lemma inventory_step_ok: "inventory_ok sha db \<Longrightarrow> inventory_ok sha (inventory_step sha show_float clock call db)"
proof (cases call)
  case (AddSource c actor_id)
  assume "inventory_ok sha db"
  moreover have "inventory_ok sha db'" if "map_sum id fst (add_source sha show_float (clock 0) c actor_id db) = Inr db'" for db'
    using that add_source_ok [OF \<open>inventory_ok sha db\<close>]
    by (cases "add_source sha show_float (clock 0) c actor_id db") auto
  ultimately show ?thesis unfolding AddSource inventory_step.simps by (rule kept_cases)
next
  case (Move cid t reason actor_id)
  assume ok: "inventory_ok sha db"
  show ?thesis unfolding Move inventory_step.simps
    by (rule kept_cases [where P = "inventory_ok sha"]) (auto intro: ok transition_canonical_ok [OF ok])
next
  case (ExpireStale p now actor_id)
  assume "inventory_ok sha db"
  with expire_stale_ok [of sha clock p now actor_id] show ?thesis by (simp add: ExpireStale preserves_def)
next
  case (RecordTrust t)
  assume ok: "inventory_ok sha db"
  have "inventory_ok sha (db\<lparr>iv_trust := m\<rparr>)" for m using ok by (simp add: inventory_parts)
  with ok show ?thesis unfolding RecordTrust inventory_step.simps
    by (intro kept_cases [where P = "inventory_ok sha"]) (auto simp: record_publisher_trust_def)
qed

lemma inventory_run_ok: "inventory_ok sha db \<Longrightarrow> inventory_ok sha (inventory_run sha show_float calls db)"
  by (induction sha show_float calls db rule: inventory_run.induct) (simp_all add: inventory_step_ok)

section \<open>The freshness sweep\<close>

definition stale :: "freshness_policy \<Rightarrow> datetime \<Rightarrow> inventory \<Rightarrow> canonical_row \<Rightarrow> bool" where
  "stale p now db r \<longleftrightarrow> listed r \<and> row_freshness p now r db = Inr 0"

definition aware_sources :: "inventory \<Rightarrow> bool" where
  "aware_sources db \<longleftrightarrow> list_all (\<lambda>s. \<not> naive (li_last_verified_at (sr_listing s))) (iv_sources db)"

lemma row_freshness_sources: "iv_sources db' = iv_sources db \<Longrightarrow> row_freshness p now r db' = row_freshness p now r db"
  by (simp add: row_freshness_def source_record_def find_source_def)

lemma find_source_unique:
  assumes "distinct (map sr_version_id (iv_sources db))" "s \<in> set (iv_sources db)"
  shows "find_source (sr_version_id s) db = Some s"
proof -
  obtain y where y: "find_source (sr_version_id s) db = Some y"
    using assms(2) by (fastforce simp: find_source_def find_None_iff)
  then have "y \<in> set (iv_sources db)" "sr_version_id y = sr_version_id s" by (auto simp: find_source_def find_Some_iff)
  with assms have "y = s" by (auto simp: distinct_map dest: inj_onD)
  with y show ?thesis by simp
qed

lemma candidate_from_source_ok:
  assumes "ensure_ingestion_allowed (sr_listing s) = Inr ()"
  shows "ensure_ingestion_allowed (candidate_from_source s st) = Inr ()"
  using assms by (auto simp: ensure_ingestion_allowed_def listing_validate_def candidate_from_source_def outside_def)

text \<open>The freshness of a row can be computed.\<close>

lemma row_freshness_total:
  assumes ok: "inventory_ok sha db" "aware_sources db" "r \<in> set (iv_canonicals db)"
    and pn: "0 < fp_max_age_days p" "\<not> naive now"
  shows "\<exists>x. row_freshness p now r db = Inr x"
proof -
  from ok obtain s where s: "s \<in> set (iv_sources db)" "sr_version_id s = cn_active_source r"
    by (auto simp: inventory_ok_def rows_ok_def list_all_iff group_ok_def)
  with ok have "source_record (cn_active_source r) db = Inr s"
    using find_source_unique [of db s] by (simp add: source_record_def inventory_ok_def sources_ok_def)
  moreover have "ensure_ingestion_allowed (sr_listing s) = Inr ()"
    using ok s(1) by (auto simp: inventory_ok_def sources_ok_def list_all_iff source_ok_def)
  moreover have "\<not> naive (li_last_verified_at (candidate_from_source s (cn_state r)))"
    using ok(2) s(1) by (auto simp: aware_sources_def list_all_iff candidate_from_source_def)
  ultimately show ?thesis
    using pn by (auto simp: row_freshness_def freshness_score_def policy_validate_def candidate_from_source_ok)
qed

definition id_state :: "canonical_row \<Rightarrow> string \<times> listing_state" where
  "id_state r = (cn_canonical_id r, cn_state r)"

lemma expire_one:
  assumes ok: "inventory_ok sha db" and r: "r \<in> set (iv_canonicals db)" "listed r" and actor: "\<not> blank actor_id"
  shows "\<exists>db'. transition_canonical now (cn_canonical_id r) EXPIRED ''FRESHNESS_EXPIRED'' actor_id db = Inr db' \<and>
     iv_sources db' = iv_sources db \<and>
     iv_canonicals db' = update_where (\<lambda>x. cn_canonical_id x = cn_canonical_id r)
       (\<lambda>x. x\<lparr>cn_state := EXPIRED, cn_updated_at := now\<rparr>) (iv_canonicals db)"
proof -
  have "canonical_by_id (cn_canonical_id r) db = Inr r"
    using ok r(1) by (intro canonical_by_id_unique) (simp_all add: inventory_ok_def rows_ok_def)
  moreover have "transition_listing_state (cn_state r) EXPIRED = Inr EXPIRED" "EXPIRED \<noteq> cn_state r"
    using r(2) by (auto simp: listed_def transition_listing_state_def allowed_transitions_def)
  moreover have "\<not> blank ''FRESHNESS_EXPIRED''" by (simp add: is_space_def)
  ultimately show ?thesis using actor by (simp add: transition_canonical_def append_lifecycle_def raise_if_def)
qed

lemma expire_loop_result:
  assumes "inventory_ok sha db" "aware_sources db" "0 < fp_max_age_days p" "\<not> naive now" "\<not> blank actor_id"
    and "set rows \<subseteq> set (iv_canonicals db)" "list_all listed rows" "distinct (map cn_canonical_id rows)"
  shows "\<exists>db'. expire_loop clock p now actor_id rows db =
      (db', Inr (map cn_canonical_id (filter (\<lambda>r. row_freshness p now r db = Inr 0) rows))) \<and>
    map id_state (iv_canonicals db') = map (\<lambda>r. (cn_canonical_id r,
      if cn_canonical_id r \<in> cn_canonical_id ` {r \<in> set rows. row_freshness p now r db = Inr 0} then EXPIRED
      else cn_state r)) (iv_canonicals db)"
  using assms
proof (induction rows arbitrary: db)
  case Nil
  then show ?case by (auto simp: id_state_def)
next
  case (Cons r rows)
  from Cons.prems row_freshness_total [of sha db r p now] obtain x where x: "row_freshness p now r db = Inr x" by auto
  show ?case
  proof (cases "x = 0")
    case False
    with x Cons.IH [OF Cons.prems(1-5)] Cons.prems(6-8) show ?thesis
      by (auto simp: act_bind_apply cong: conj_cong)
  next
    case True
    let ?now = "clock (length (iv_lifecycle db))"
    from expire_one [of sha db r actor_id ?now] Cons.prems obtain db1 where
      t: "transition_canonical ?now (cn_canonical_id r) EXPIRED ''FRESHNESS_EXPIRED'' actor_id db = Inr db1" and
      src: "iv_sources db1 = iv_sources db" and
      rows1: "iv_canonicals db1 = update_where (\<lambda>x. cn_canonical_id x = cn_canonical_id r)
       (\<lambda>x. x\<lparr>cn_state := EXPIRED, cn_updated_at := ?now\<rparr>) (iv_canonicals db)" by auto
    have fresh: "row_freshness p now y db1 = row_freshness p now y db" for y by (rule row_freshness_sources [OF src])
    have "set rows \<subseteq> set (iv_canonicals db1)"
    proof
      fix y assume "y \<in> set rows"
      with Cons.prems(6) have "y \<in> set (iv_canonicals db)" by auto
      moreover have "cn_canonical_id r \<notin> cn_canonical_id ` set rows" using Cons.prems(8) by simp
      with \<open>y \<in> set rows\<close> have "cn_canonical_id y \<noteq> cn_canonical_id r" by (metis image_eqI)
      ultimately show "y \<in> set (iv_canonicals db1)" unfolding rows1 set_update_where by (intro bexI [of _ y]) simp_all
    qed
    with Cons.IH [of db1] transition_canonical_ok [OF Cons.prems(1) t] Cons.prems src obtain db2 where
      l: "expire_loop clock p now actor_id rows db1 =
        (db2, Inr (map cn_canonical_id (filter (\<lambda>r. row_freshness p now r db = Inr 0) rows)))" and
      st: "map id_state (iv_canonicals db2) = map (\<lambda>r. (cn_canonical_id r,
        if cn_canonical_id r \<in> cn_canonical_id ` {r \<in> set rows. row_freshness p now r db = Inr 0} then EXPIRED
        else cn_state r)) (iv_canonicals db1)"
      by (auto simp: aware_sources_def fresh)
    have "expire_loop clock p now actor_id (r # rows) db =
        (db2, Inr (cn_canonical_id r # map cn_canonical_id (filter (\<lambda>r. row_freshness p now r db = Inr 0) rows)))"
      using x True t l by (simp add: act_bind_apply transaction_def)
    moreover have "map id_state (iv_canonicals db2) = map (\<lambda>y. (cn_canonical_id y,
        if cn_canonical_id y \<in> cn_canonical_id ` {y \<in> set (r # rows). row_freshness p now y db = Inr 0} then EXPIRED
        else cn_state y)) (iv_canonicals db)"
      unfolding st rows1 update_where_def using x True by (auto simp: comp_def)
    ultimately show ?thesis using x True by auto
  qed
qed

text \<open>A sweep expires exactly the listed rows whose freshness is 0, in table order, and moves no other row.\<close>

lemma expire_stale_result:
  assumes "inventory_ok sha db" "aware_sources db" "0 < fp_max_age_days p" "\<not> naive now" "\<not> blank actor_id"
  shows "\<exists>db'. expire_stale clock p now actor_id db =
      (db', Inr (map cn_canonical_id (filter (stale p now db) (iv_canonicals db)))) \<and>
    map id_state (iv_canonicals db') = map (\<lambda>r. (cn_canonical_id r, if stale p now db r then EXPIRED else cn_state r))
      (iv_canonicals db)"
proof -
  let ?rows = "filter listed (iv_canonicals db)"
  have dist: "distinct (map cn_canonical_id (iv_canonicals db))" using assms(1) by (simp add: inventory_ok_def rows_ok_def)
  have same: "cn_canonical_id r \<in> cn_canonical_id ` {r \<in> set ?rows. row_freshness p now r db = Inr 0} \<longleftrightarrow> stale p now db r"
    if "r \<in> set (iv_canonicals db)" for r
    using that dist by (auto simp: stale_def distinct_map dest: inj_onD)
  have "filter (\<lambda>r. row_freshness p now r db = Inr 0) ?rows = filter (stale p now db) (iv_canonicals db)"
    by (simp add: stale_def [abs_def] conj_commute)
  with expire_loop_result [OF assms, of ?rows clock] same show ?thesis
    by (auto simp: expire_stale_def act_bind_apply list_all_iff distinct_map_filter dist cong: map_cong)
qed

end
