(* ===== verification/Anomalies.thy ===== *)
theory Anomalies
  imports Inventory
begin

text \<open>
  The duplicate price detector of the real-estate mission (src/missions/real_estate/anomalies.py):
  it compares the prices of the current record of every source of a group and emits a finding.
  An infinite gap is \<open>None\<close>.
\<close>

datatype anomaly_severity = LOW | MEDIUM | HIGH | CRITICAL

record anomaly =
  an_finding_id :: string
  an_anomaly_type :: string
  an_severity :: anomaly_severity
  an_canonical_id :: string
  an_source_version_ids :: "string list"
  an_detector_id :: string
  an_evidence_refs :: "string list"
  an_evidence_fingerprint :: string
  an_summary :: string
  an_observed_value :: rat
  an_threshold :: rat

definition anomaly_validate :: "anomaly \<Rightarrow> unit res" where
  "anomaly_validate f = checks (
     map (\<lambda>(name, v). raise_if (blank v) (ValueError (name @ '' is required'')))
       [(''finding_id'', an_finding_id f), (''anomaly_type'', an_anomaly_type f), (''canonical_id'', an_canonical_id f),
        (''detector_id'', an_detector_id f), (''evidence_fingerprint'', an_evidence_fingerprint f),
        (''summary'', an_summary f)] @
     [raise_if (an_source_version_ids f = []) (ValueError ''anomaly finding requires source versions''),
      raise_if (an_evidence_refs f = []) (ValueError ''anomaly finding requires evidence references''),
      raise_if (an_observed_value f < 0 \<or> an_threshold f < 0) (ValueError ''finding numeric values must be non-negative'')])"

record detector =
  dr_medium_threshold :: rat
  dr_high_threshold :: rat
  dr_critical_threshold :: rat

definition new_detector :: "rat \<Rightarrow> rat \<Rightarrow> rat \<Rightarrow> detector res" where
  "new_detector medium high critical =
     (if \<not> (0 < medium \<and> medium < high \<and> high < critical)
      then Inl (ValueError ''detector thresholds must be positive and strictly increasing'')
      else Inr \<lparr>dr_medium_threshold = medium, dr_high_threshold = high, dr_critical_threshold = critical\<rparr>)"

definition price_detector_id :: string where
  "price_detector_id = ''DET-DUPLICATE-PRICE-DIVERGENCE-V1''"

definition source_key :: "source_row \<Rightarrow> string \<times> string" where
  "source_key s = (li_publisher_id (sr_listing s), li_source_ref (sr_listing s))"

definition verified_text :: "source_row \<Rightarrow> string" where
  "verified_text s = isoformat (li_last_verified_at (sr_listing s))"

text \<open>The record of each source that the detector takes as current: the one whose ISO text is greatest.\<close>

definition take_latest :: "((string \<times> string) \<times> source_row) list \<Rightarrow> source_row \<Rightarrow> ((string \<times> string) \<times> source_row) list" where
  "take_latest d s = (case map_of d (source_key s) of
     None \<Rightarrow> AList.update (source_key s) s d
   | Some prior \<Rightarrow> if verified_text prior < verified_text s then AList.update (source_key s) s d else d)"

definition latest_by_source :: "source_row list \<Rightarrow> source_row list" where
  "latest_by_source ss = map snd (foldl take_latest [] ss)"

definition price_of :: "source_row \<Rightarrow> int" where
  "price_of s = li_price_minor (sr_listing s)"

definition relative_gap :: "int list \<Rightarrow> rat option" where
  "relative_gap prices = (let lo = fold min (tl prices) (hd prices); hi = fold max (tl prices) (hd prices) in
     if lo \<le> 0 then None else Some (of_int (hi - lo) / of_int lo))"

definition gap_reaches :: "rat option \<Rightarrow> rat \<Rightarrow> bool" where
  "gap_reaches gap t = (case gap of None \<Rightarrow> True | Some g \<Rightarrow> t \<le> g)"

definition gap_severity :: "detector \<Rightarrow> rat option \<Rightarrow> anomaly_severity" where
  "gap_severity d gap = (if gap_reaches gap (dr_critical_threshold d) then CRITICAL
     else if gap_reaches gap (dr_high_threshold d) then HIGH else MEDIUM)"

definition evidence_item :: "source_row \<Rightarrow> json" where
  "evidence_item s = JObj [(''source_version_id'', JStr (sr_version_id s)),
     (''publisher_id'', JStr (li_publisher_id (sr_listing s))), (''source_ref'', JStr (li_source_ref (sr_listing s))),
     (''price_minor'', JInt (price_of s)), (''last_verified_at'', JStr (verified_text s))]"

definition evidence_fingerprint :: "(string \<Rightarrow> string) \<Rightarrow> source_row list \<Rightarrow> string" where
  "evidence_fingerprint sha ordered = sha (json_dumps_ascii (JList (map evidence_item ordered)))"

definition price_finding :: "(string \<Rightarrow> string) \<Rightarrow> detector \<Rightarrow> string \<Rightarrow> rat option \<Rightarrow> source_row list \<Rightarrow> anomaly" where
  "price_finding sha d cid gap ordered = (let fp = evidence_fingerprint sha ordered; source_ids = map sr_version_id ordered in
     \<lparr>an_finding_id = ''FIND-'' @ take 24 (sha (price_detector_id @ ''|'' @ cid @ ''|'' @ fp)),
      an_anomaly_type = ''DUPLICATE_PRICE_DIVERGENCE'', an_severity = gap_severity d gap, an_canonical_id = cid,
      an_source_version_ids = source_ids, an_detector_id = price_detector_id,
      an_evidence_refs = map (\<lambda>i. ''SOURCE:'' @ i) source_ids, an_evidence_fingerprint = fp,
      an_summary = ''Independent current source records disagree materially on price; operator review required.'',
      an_observed_value = round_to 6 (case gap of None \<Rightarrow> 999999 | Some g \<Rightarrow> g),
      an_threshold = dr_medium_threshold d\<rparr>)"

definition detect :: "(string \<Rightarrow> string) \<Rightarrow> detector \<Rightarrow> inventory \<Rightarrow> string \<Rightarrow> anomaly option res" where
  "detect sha d db cid =
     (let latest = latest_by_source (source_members cid db); gap = relative_gap (map price_of latest) in
      if length latest < 2 then Inr None
      else if \<not> gap_reaches gap (dr_medium_threshold d) then Inr None
      else let finding = price_finding sha d cid gap (sort_key sr_version_id latest)
        in res_bind (anomaly_validate finding) (\<lambda>_. Inr (Some finding)))"

section \<open>What a finding says\<close>

text \<open>Two prices differ by the share \<open>t\<close> of the lower one, or a price is not positive.\<close>

definition divergent :: "rat \<Rightarrow> int list \<Rightarrow> bool" where
  "divergent t ps \<longleftrightarrow> list_ex (\<lambda>p. p \<le> 0) ps \<or> list_ex (\<lambda>p. list_ex (\<lambda>q. (1 + t) * of_int q \<le> of_int p) ps) ps"

lemma gap_reaches_iff:
  assumes "ps \<noteq> []" "0 < t" shows "gap_reaches (relative_gap ps) t \<longleftrightarrow> divergent t ps"
proof -
  let ?lo = "Min (set ps)" and ?hi = "Max (set ps)"
  have ends: "fold min (tl ps) (hd ps) = ?lo" "fold max (tl ps) (hd ps) = ?hi"
    using assms(1) Min.set_eq_fold [of "hd ps" "tl ps"] Max.set_eq_fold [of "hd ps" "tl ps"] by simp_all
  have mem: "?lo \<in> set ps" "?hi \<in> set ps" using assms(1) by simp_all
  have le: "?lo \<le> p" "p \<le> ?hi" if "p \<in> set ps" for p using that by simp_all
  show ?thesis
  proof (cases "?lo \<le> 0")
    case True
    with mem(1) show ?thesis by (auto simp: relative_gap_def ends gap_reaches_def divergent_def list_ex_iff)
  next
    case False
    then have pos: "(0 :: rat) < of_int ?lo" by simp
    have "gap_reaches (relative_gap ps) t \<longleftrightarrow> (1 + t) * of_int ?lo \<le> of_int ?hi"
      using False pos by (simp add: relative_gap_def ends gap_reaches_def Let_def field_simps)
    also have "\<dots> \<longleftrightarrow> (\<exists>p \<in> set ps. \<exists>q \<in> set ps. (1 + t) * of_int q \<le> of_int p)"
    proof
      assume "\<exists>p \<in> set ps. \<exists>q \<in> set ps. (1 + t) * of_int q \<le> of_int p"
      then obtain p q where pq: "p \<in> set ps" "q \<in> set ps" "(1 + t) * of_int q \<le> of_int p" by blast
      have "(1 + t) * of_int ?lo \<le> (1 + t) * of_int q" using le [OF pq(2)] assms(2) by (intro mult_left_mono) auto
      also have "\<dots> \<le> of_int p" by (rule pq(3))
      also have "\<dots> \<le> of_int ?hi" using le [OF pq(1)] by simp
      finally show "(1 + t) * of_int ?lo \<le> of_int ?hi" .
    qed (use mem in blast)
    also have "\<dots> \<longleftrightarrow> divergent t ps"
    proof -
      have "0 < p" if "p \<in> set ps" for p using False le(1) [OF that] by linarith
      then have "\<not> list_ex (\<lambda>p. p \<le> 0) ps" by (fastforce simp: list_ex_iff)
      then show ?thesis by (simp add: divergent_def list_ex_iff)
    qed
    finally show ?thesis .
  qed
qed

lemma take_latest_keys: "fst ` set (take_latest d s) = insert (source_key s) (fst ` set d)"
  by (auto simp: take_latest_def dom_update map_of_eq_None_iff split: option.splits dest: map_of_SomeD intro: rev_image_eqI)

definition latest_ok :: "source_row list \<Rightarrow> ((string \<times> string) \<times> source_row) list \<Rightarrow> bool" where
  "latest_ok ss d \<longleftrightarrow> distinct (map fst d) \<and> fst ` set d = source_key ` set ss \<and>
     (\<forall>(k, s) \<in> set d. source_key s = k \<and> s \<in> set ss \<and>
       (\<forall>t \<in> set ss. source_key t = k \<longrightarrow> verified_text t \<le> verified_text s))"

lemma take_latest_ok:
  assumes ok: "latest_ok ss d" shows "latest_ok (ss @ [s]) (take_latest d s)"
proof -
  have dist: "distinct (map fst d)" using ok by (simp add: latest_ok_def)
  have old: "source_key x = k \<and> x \<in> set ss \<and> (\<forall>t \<in> set ss. source_key t = k \<longrightarrow> verified_text t \<le> verified_text x)"
    if "map_of d k = Some x" for k x using ok map_of_SomeD [OF that] by (auto simp: latest_ok_def)
  have dist': "distinct (map fst (take_latest d s))"
    using dist by (auto simp: take_latest_def distinct_update split: option.splits)
  have none: "source_key t \<noteq> source_key s" if "map_of d (source_key s) = None" "t \<in> set ss" for t
  proof -
    have "fst ` set d = source_key ` set ss" using ok by (simp add: latest_ok_def)
    with that show ?thesis by (metis map_of_eq_None_iff image_eqI)
  qed
  have "source_key x = k \<and> x \<in> set (ss @ [s]) \<and>
      (\<forall>t \<in> set (ss @ [s]). source_key t = k \<longrightarrow> verified_text t \<le> verified_text x)"
    if "map_of (take_latest d s) k = Some x" for k x
  proof (cases "k = source_key s")
    case False
    with that have "map_of d k = Some x"
      by (auto simp: take_latest_def update_conv' split: option.splits if_splits)
    from old [OF this] False show ?thesis by auto
  next
    case True
    show ?thesis
    proof (cases "map_of d (source_key s)")
      case None
      with that True none [OF None] show ?thesis by (auto simp: take_latest_def update_conv')
    next
      case (Some prior)
      from old [OF Some] that True Some show ?thesis
        by (auto simp: take_latest_def update_conv' split: if_splits)
    qed
  qed
  moreover have "map_of (take_latest d s) k = Some x" if "(k, x) \<in> set (take_latest d s)" for k x
    using dist' that by (rule map_of_is_SomeI)
  ultimately have "\<forall>(k, x) \<in> set (take_latest d s). source_key x = k \<and> x \<in> set (ss @ [s]) \<and>
      (\<forall>t \<in> set (ss @ [s]). source_key t = k \<longrightarrow> verified_text t \<le> verified_text x)" by blast
  with dist' ok show ?thesis by (simp add: latest_ok_def take_latest_keys)
qed

lemma latest_ok_foldl: "latest_ok (rs @ ss) (foldl take_latest d ss)" if "latest_ok rs d"
  using that
proof (induction ss arbitrary: rs d)
  case (Cons s ss)
  from Cons.IH [OF take_latest_ok [OF Cons.prems, of s]] show ?case by simp
qed simp

lemma latest_by_source_max:
  assumes "s \<in> set (latest_by_source ss)"
  shows "s \<in> set ss" "t \<in> set ss \<Longrightarrow> source_key t = source_key s \<Longrightarrow> verified_text t \<le> verified_text s"
proof -
  have "latest_ok [] []" by (simp add: latest_ok_def)
  then have ok: "latest_ok ss (foldl take_latest [] ss)" using latest_ok_foldl [of "[]" "[]" ss] by simp
  from assms obtain k where "(k, s) \<in> set (foldl take_latest [] ss)" by (auto simp: latest_by_source_def)
  with ok have "source_key s = k \<and> s \<in> set ss \<and> (\<forall>t \<in> set ss. source_key t = k \<longrightarrow> verified_text t \<le> verified_text s)"
    by (auto simp: latest_ok_def)
  then show "s \<in> set ss" "t \<in> set ss \<Longrightarrow> source_key t = source_key s \<Longrightarrow> verified_text t \<le> verified_text s" by auto
qed

lemma latest_by_source_keys: "source_key ` set (latest_by_source ss) = source_key ` set ss"
  "distinct (map source_key (latest_by_source ss))"
proof -
  have "latest_ok [] []" by (simp add: latest_ok_def)
  then have ok: "latest_ok ss (foldl take_latest [] ss)" using latest_ok_foldl [of "[]" "[]" ss] by simp
  then have "map source_key (latest_by_source ss) = map fst (foldl take_latest [] ss)"
    by (auto simp: latest_ok_def latest_by_source_def)
  with ok show "source_key ` set (latest_by_source ss) = source_key ` set ss" "distinct (map source_key (latest_by_source ss))"
    by (auto simp: latest_ok_def simp flip: set_map)
qed

lemma detect_Some:
  assumes "detect sha d db cid = Inr (Some f)" "0 < dr_medium_threshold d"
  shows "let latest = latest_by_source (source_members cid db); prices = map price_of latest in
     2 \<le> length latest \<and> divergent (dr_medium_threshold d) prices \<and>
     f = price_finding sha d cid (relative_gap prices) (sort_key sr_version_id latest) \<and> anomaly_validate f = Inr ()"
  using assms gap_reaches_iff [of "map price_of (latest_by_source (source_members cid db))" "dr_medium_threshold d"]
  by (cases "latest_by_source (source_members cid db)") (auto simp: detect_def Let_def Suc_le_eq split: if_splits)

lemma detect_None:
  assumes "detect sha d db cid = Inr None" "0 < dr_medium_threshold d"
  shows "let latest = latest_by_source (source_members cid db) in
     length latest < 2 \<or> \<not> divergent (dr_medium_threshold d) (map price_of latest)"
  using assms gap_reaches_iff [of "map price_of (latest_by_source (source_members cid db))" "dr_medium_threshold d"]
  by (cases "latest_by_source (source_members cid db)") (auto simp: detect_def Let_def Suc_le_eq split: if_splits)

lemma price_finding_simps [simp]:
  "an_canonical_id (price_finding sha d cid gap ss) = cid"
  "an_detector_id (price_finding sha d cid gap ss) = price_detector_id"
  "an_severity (price_finding sha d cid gap ss) = gap_severity d gap"
  "an_evidence_fingerprint (price_finding sha d cid gap ss) = evidence_fingerprint sha ss"
  "an_source_version_ids (price_finding sha d cid gap ss) = map sr_version_id ss"
  by (simp_all add: price_finding_def Let_def)

end
