(* ===== verification/Review_Queue.thy ===== *)
theory Review_Queue
  imports Anomalies Hash_Chain
begin

text \<open>
  The trust review queue (src/missions/real_estate/review_queue.py): anomaly findings become cases that a
  reviewer takes and decides, every step is an event in the hash chain of its case, and a coordinator
  decides a case only while its evidence is current. The tables are the lists of their rows, a
  JSON column is the value it encodes, \<open>now\<close> is the clock reading of a call.
\<close>

section \<open>Tables\<close>

datatype review_status = OPEN | IN_REVIEW | RESOLVED | DISMISSED

datatype review_outcome = CONFIRMED_ANOMALY | FALSE_POSITIVE | INSUFFICIENT_EVIDENCE

definition review_value :: "review_status \<Rightarrow> string" where
  "review_value s = (case s of OPEN \<Rightarrow> ''OPEN'' | IN_REVIEW \<Rightarrow> ''IN_REVIEW'' | RESOLVED \<Rightarrow> ''RESOLVED''
     | DISMISSED \<Rightarrow> ''DISMISSED'')"

definition outcome_value :: "review_outcome \<Rightarrow> string" where
  "outcome_value x = (case x of CONFIRMED_ANOMALY \<Rightarrow> ''CONFIRMED_ANOMALY'' | FALSE_POSITIVE \<Rightarrow> ''FALSE_POSITIVE''
     | INSUFFICIENT_EVIDENCE \<Rightarrow> ''INSUFFICIENT_EVIDENCE'')"

lemma review_value_inject [simp]: "review_value s = review_value s' \<longleftrightarrow> s = s'"
  by (cases s; cases s') (simp_all add: review_value_def)

lemma outcome_value_inject [simp]: "outcome_value x = outcome_value x' \<longleftrightarrow> x = x'"
  by (cases x; cases x') (simp_all add: outcome_value_def)

record review_case =
  rc_case_id :: string
  rc_finding :: anomaly
  rc_status :: review_status
  rc_assigned_reviewer :: "string option"
  rc_created_at :: string
  rc_updated_at :: string

record review_event =
  re_case_id :: string
  re_event_type :: string
  re_actor_id :: string
  re_from_status :: "review_status option"
  re_to_status :: review_status
  re_outcome :: "review_outcome option"
  re_evidence_refs :: "string list"
  re_note :: string
  re_occurred_at :: string
  re_previous_hash :: string
  re_event_hash :: string

record review_db =
  rq_cases :: "review_case list"
  rq_events :: "review_event list"

definition empty_review :: review_db where
  "empty_review = \<lparr>rq_cases = [], rq_events = []\<rparr>"

section \<open>Events\<close>

definition review_payload :: "review_event \<Rightarrow> json" where
  "review_payload e = JObj [
     (''case_id'', JStr (re_case_id e)), (''event_type'', JStr (re_event_type e)), (''actor_id'', JStr (re_actor_id e)),
     (''from_status'', JStrOpt (map_option review_value (re_from_status e))),
     (''to_status'', JStr (review_value (re_to_status e))),
     (''outcome'', JStrOpt (map_option outcome_value (re_outcome e))),
     (''evidence_refs'', JStrs (re_evidence_refs e)), (''note'', JStr (re_note e)),
     (''occurred_at'', JStr (re_occurred_at e)), (''previous_hash'', JStr (re_previous_hash e))]"

definition review_material :: "review_event \<Rightarrow> string" where
  "review_material e = json_dumps (review_payload e)"

definition events_of :: "string \<Rightarrow> review_db \<Rightarrow> review_event list" where
  "events_of cid db = filter (\<lambda>e. re_case_id e = cid) (rq_events db)"

text \<open>\<open>_append_event\<close>: the event continues the chain of its case.\<close>

definition sign_event :: "(string \<Rightarrow> string) \<Rightarrow> string \<Rightarrow> review_event \<Rightarrow> review_event" where
  "sign_event sha previous e = (let linked_event = e\<lparr>re_previous_hash := previous\<rparr> in
     linked_event\<lparr>re_event_hash := sha (review_material linked_event)\<rparr>)"

definition append_review_event :: "(string \<Rightarrow> string) \<Rightarrow> review_event \<Rightarrow> review_db \<Rightarrow> review_db" where
  "append_review_event sha e db = db\<lparr>rq_events := rq_events db @
     [sign_event sha (last_hash re_event_hash ''GENESIS'' (events_of (re_case_id e) db)) e]\<rparr>"

definition review_event_row :: "string \<Rightarrow> string \<Rightarrow> string \<Rightarrow> review_status option \<Rightarrow> review_status \<Rightarrow>
    review_outcome option \<Rightarrow> string list \<Rightarrow> string \<Rightarrow> string \<Rightarrow> review_event" where
  "review_event_row cid ty actor_id from to result refs note now = \<lparr>re_case_id = cid, re_event_type = ty,
     re_actor_id = actor_id, re_from_status = from, re_to_status = to, re_outcome = result, re_evidence_refs = refs,
     re_note = note, re_occurred_at = now, re_previous_hash = [], re_event_hash = []\<rparr>"

section \<open>The queue\<close>

definition find_case :: "string \<Rightarrow> review_db \<Rightarrow> review_case option" where
  "find_case cid db = find (\<lambda>c. rc_case_id c = cid) (rq_cases db)"

text \<open>Reading a case validates the finding it holds.\<close>

definition get_case :: "string \<Rightarrow> review_db \<Rightarrow> review_case res" where
  "get_case cid db = res_bind (fetch (KeyError [cid]) (find_case cid db)) (\<lambda>c.
     res_bind (anomaly_validate (rc_finding c)) (\<lambda>_. Inr c))"

definition open_cases :: "review_db \<Rightarrow> review_case list res" where
  "open_cases db = map_res (\<lambda>c. get_case (rc_case_id c) db)
     (sort_key rc_created_at (sort_key rc_case_id (filter (\<lambda>c. rc_status c \<in> {OPEN, IN_REVIEW}) (rq_cases db))))"

definition case_id_for :: "(string \<Rightarrow> string) \<Rightarrow> anomaly \<Rightarrow> string" where
  "case_id_for sha f = ''CASE-'' @ take 24 (sha (an_finding_id f))"

definition queued_note :: string where
  "queued_note = ''Anomaly queued for operator review; no protected domain decision was made.''"

definition insert_case :: "(string \<Rightarrow> string) \<Rightarrow> string \<Rightarrow> anomaly \<Rightarrow> review_db \<Rightarrow> (review_db \<times> unit) res" where
  "insert_case sha now f db = (let cid = case_id_for sha f in
     res_bind (raise_if (find_case cid db \<noteq> None) (IntegrityError ''UNIQUE constraint failed: review_cases.case_id'')) (\<lambda>_.
     Inr (append_review_event sha
       (review_event_row cid ''QUEUED'' (an_detector_id f) None OPEN None (an_evidence_refs f) queued_note now)
       (db\<lparr>rq_cases := rq_cases db @ [\<lparr>rc_case_id = cid, rc_finding = f, rc_status = OPEN,
         rc_assigned_reviewer = None, rc_created_at = now, rc_updated_at = now\<rparr>]\<rparr>), ())))"

definition queue_finding :: "(string \<Rightarrow> string) \<Rightarrow> string \<Rightarrow> anomaly \<Rightarrow> (review_db, review_case) act" where
  "queue_finding sha now f = act_bind (reading (\<lambda>_. anomaly_validate f)) (\<lambda>_.
     act_bind (reading (\<lambda>db. Inr (find (\<lambda>c. an_finding_id (rc_finding c) = an_finding_id f) (rq_cases db)))) (\<lambda>existing.
     case existing of Some c \<Rightarrow> reading (get_case (rc_case_id c))
     | None \<Rightarrow> act_bind (transaction (insert_case sha now f)) (\<lambda>_. reading (get_case (case_id_for sha f)))))"

definition set_case :: "string \<Rightarrow> (review_case \<Rightarrow> review_case) \<Rightarrow> review_db \<Rightarrow> review_db" where
  "set_case cid f db = db\<lparr>rq_cases := update_where (\<lambda>c. rc_case_id c = cid) f (rq_cases db)\<rparr>"

definition high_impact :: "anomaly \<Rightarrow> bool" where
  "high_impact f \<longleftrightarrow> an_severity f \<in> {HIGH, CRITICAL}"

definition start_update :: "(string \<Rightarrow> string) \<Rightarrow> string \<Rightarrow> string \<Rightarrow> string \<Rightarrow> review_db \<Rightarrow> (review_db \<times> unit) res" where
  "start_update sha now cid reviewer_id db = Inr (append_review_event sha
     (review_event_row cid ''REVIEW_STARTED'' reviewer_id (Some OPEN) IN_REVIEW None [] ''Operator review started.'' now)
     (set_case cid (\<lambda>c. c\<lparr>rc_status := IN_REVIEW, rc_assigned_reviewer := Some reviewer_id, rc_updated_at := now\<rparr>) db), ())"

definition start_review :: "(string \<Rightarrow> string) \<Rightarrow> string \<Rightarrow> string \<Rightarrow> string \<Rightarrow> (review_db, review_case) act" where
  "start_review sha now cid reviewer_id =
     act_bind (reading (\<lambda>_. raise_if (blank reviewer_id) (ValueError ''reviewer_id is required''))) (\<lambda>_.
     act_bind (reading (get_case cid)) (\<lambda>c.
     act_bind (reading (\<lambda>_. checks [
       raise_if (rc_status c \<noteq> OPEN) (ValueError (''review can only start from OPEN, got '' @ review_value (rc_status c))),
       raise_if (high_impact (rc_finding c) \<and> reviewer_id = an_detector_id (rc_finding c))
         (PermissionError ''high-impact anomaly review must be independent from detector'')])) (\<lambda>_.
     act_bind (transaction (start_update sha now cid reviewer_id)) (\<lambda>_. reading (get_case cid)))))"

definition target_status :: "review_outcome \<Rightarrow> review_status" where
  "target_status x = (if x = FALSE_POSITIVE then DISMISSED else RESOLVED)"

definition resolve_update :: "(string \<Rightarrow> string) \<Rightarrow> string \<Rightarrow> string \<Rightarrow> string \<Rightarrow> review_outcome \<Rightarrow> string list \<Rightarrow> string \<Rightarrow>
    review_db \<Rightarrow> (review_db \<times> unit) res" where
  "resolve_update sha now cid reviewer_id result refs note db = Inr (append_review_event sha
     (review_event_row cid ''REVIEW_DECIDED'' reviewer_id (Some IN_REVIEW) (target_status result) (Some result) refs note now)
     (set_case cid (\<lambda>c. c\<lparr>rc_status := target_status result, rc_updated_at := now\<rparr>) db), ())"

definition resolve_case :: "(string \<Rightarrow> string) \<Rightarrow> string \<Rightarrow> string \<Rightarrow> string \<Rightarrow> review_outcome \<Rightarrow> string list \<Rightarrow> string \<Rightarrow>
    (review_db, review_case) act" where
  "resolve_case sha now cid reviewer_id result refs note =
     act_bind (reading (get_case cid)) (\<lambda>c.
     act_bind (reading (\<lambda>_. checks [
       raise_if (rc_status c \<noteq> IN_REVIEW) (ValueError (''resolution requires IN_REVIEW, got '' @ review_value (rc_status c))),
       raise_if (Some reviewer_id \<noteq> rc_assigned_reviewer c) (PermissionError ''only the assigned reviewer may resolve the case''),
       raise_if (refs = []) (ValueError ''review resolution requires evidence''),
       raise_if (blank note) (ValueError ''review resolution requires a note'')])) (\<lambda>_.
     act_bind (transaction (resolve_update sha now cid reviewer_id result refs note)) (\<lambda>_. reading (get_case cid))))"

definition case_events :: "string \<Rightarrow> review_db \<Rightarrow> review_event list res" where
  "case_events cid db = res_bind (fetch (KeyError [cid]) (find_case cid db)) (\<lambda>_. Inr (events_of cid db))"

fun chain_verifies :: "(string \<Rightarrow> string) \<Rightarrow> string \<Rightarrow> review_event list \<Rightarrow> bool" where
  "chain_verifies sha previous [] \<longleftrightarrow> True"
| "chain_verifies sha previous (e # es) \<longleftrightarrow> (if re_previous_hash e \<noteq> previous then False
     else if sha (review_material e) \<noteq> re_event_hash e then False else chain_verifies sha (re_event_hash e) es)"

definition verify_case_chain :: "(string \<Rightarrow> string) \<Rightarrow> string \<Rightarrow> review_db \<Rightarrow> bool res" where
  "verify_case_chain sha cid db = res_bind (case_events cid db) (\<lambda>es. Inr (chain_verifies sha ''GENESIS'' es))"

section \<open>The coordinator\<close>

definition detect_and_queue :: "(string \<Rightarrow> string) \<Rightarrow> detector \<Rightarrow> string \<Rightarrow> string \<Rightarrow> inventory \<Rightarrow> (review_db, review_case option) act" where
  "detect_and_queue sha d now cid stock = act_bind (reading (\<lambda>_. detect sha d stock cid)) (\<lambda>found.
     case found of None \<Rightarrow> act_return None
     | Some f \<Rightarrow> act_bind (queue_finding sha now f) (\<lambda>c. act_return (Some c)))"

definition evidence_current :: "anomaly option \<Rightarrow> anomaly \<Rightarrow> bool" where
  "evidence_current current f = (case current of None \<Rightarrow> False
     | Some g \<Rightarrow> an_evidence_fingerprint g = an_evidence_fingerprint f)"

definition resolve_current :: "(string \<Rightarrow> string) \<Rightarrow> detector \<Rightarrow> string \<Rightarrow> string \<Rightarrow> string \<Rightarrow> review_outcome \<Rightarrow> string list \<Rightarrow>
    string \<Rightarrow> inventory \<Rightarrow> (review_db, review_case) act" where
  "resolve_current sha d now cid reviewer_id result refs note stock =
     act_bind (reading (get_case cid)) (\<lambda>c.
     act_bind (reading (\<lambda>_. detect sha d stock (an_canonical_id (rc_finding c)))) (\<lambda>current.
     act_bind (reading (\<lambda>_. raise_if (\<not> evidence_current current (rc_finding c))
       (RuntimeError ''finding evidence changed; re-detect and re-queue before confirmed resolution''))) (\<lambda>_.
     resolve_case sha now cid reviewer_id result refs note)))"

section \<open>The chain of a case\<close>

text \<open>Everything but the digest is covered by it.\<close>

definition review_content :: "review_event \<Rightarrow> review_event" where
  "review_content e = e\<lparr>re_event_hash := []\<rparr>"

lemma map_option_value [simp]:
  "map_option review_value s = map_option review_value s' \<longleftrightarrow> s = s'"
  "map_option outcome_value x = map_option outcome_value x' \<longleftrightarrow> x = x'"
  by (cases s; cases s'; simp) (cases x; cases x'; simp)

lemma review_material_eq: "review_material e = review_material e' \<longleftrightarrow> review_content e = review_content e'"
  by (cases e; cases e') (auto simp: review_material_def review_content_def review_payload_def json_dumps_eq_iff sort_literal)

interpretation review_chain: hash_chain sha review_material re_previous_hash re_event_hash review_content
  for sha
proof unfold_locales
  show "review_material e = review_material e' \<Longrightarrow> review_content e = review_content e'" for e e'
    by (simp add: review_material_eq)
  show "review_content e = review_content e' \<Longrightarrow> re_previous_hash e = re_previous_hash e'" for e e'
    by (cases e; cases e') (simp add: review_content_def)
qed

lemma chain_verifies_iff:
  "chain_verifies sha p es \<longleftrightarrow> linked re_previous_hash re_event_hash p es \<and> signed sha review_material re_event_hash es"
  by (induction es arbitrary: p) auto

section \<open>Invariant\<close>

text \<open>What the events of a case say, and the row they leave.\<close>

fun review_life :: "review_case \<Rightarrow> review_event list \<Rightarrow> bool" where
  "review_life c [q] \<longleftrightarrow> re_event_type q = ''QUEUED'' \<and> rc_status c = OPEN \<and> rc_assigned_reviewer c = None"
| "review_life c [q, s] \<longleftrightarrow> re_event_type q = ''QUEUED'' \<and> re_event_type s = ''REVIEW_STARTED'' \<and>
     rc_status c = IN_REVIEW \<and> rc_assigned_reviewer c = Some (re_actor_id s) \<and>
     \<not> (high_impact (rc_finding c) \<and> re_actor_id s = an_detector_id (rc_finding c))"
| "review_life c [q, s, d] \<longleftrightarrow> re_event_type q = ''QUEUED'' \<and> re_event_type s = ''REVIEW_STARTED'' \<and>
     re_event_type d = ''REVIEW_DECIDED'' \<and> rc_assigned_reviewer c = Some (re_actor_id s) \<and>
     \<not> (high_impact (rc_finding c) \<and> re_actor_id s = an_detector_id (rc_finding c)) \<and>
     re_actor_id d = re_actor_id s \<and> re_evidence_refs d \<noteq> [] \<and> \<not> blank (re_note d) \<and>
     (\<exists>x. re_outcome d = Some x \<and> rc_status c = target_status x)"
| "review_life c _ \<longleftrightarrow> False"

definition case_ok :: "(string \<Rightarrow> string) \<Rightarrow> review_db \<Rightarrow> review_case \<Rightarrow> bool" where
  "case_ok sha db c \<longleftrightarrow> review_life c (events_of (rc_case_id c) db) \<and>
     chain_verifies sha ''GENESIS'' (events_of (rc_case_id c) db) \<and> anomaly_validate (rc_finding c) = Inr ()"

definition review_ok :: "(string \<Rightarrow> string) \<Rightarrow> review_db \<Rightarrow> bool" where
  "review_ok sha db \<longleftrightarrow> distinct (map rc_case_id (rq_cases db)) \<and>
     distinct (map (an_finding_id \<circ> rc_finding) (rq_cases db)) \<and>
     list_all (case_ok sha db) (rq_cases db) \<and>
     set (map re_case_id (rq_events db)) \<subseteq> set (map rc_case_id (rq_cases db))"

lemma sign_event_simps [simp]:
  "re_case_id (sign_event sha p e) = re_case_id e" "re_event_type (sign_event sha p e) = re_event_type e"
  "re_actor_id (sign_event sha p e) = re_actor_id e" "re_outcome (sign_event sha p e) = re_outcome e"
  "re_evidence_refs (sign_event sha p e) = re_evidence_refs e" "re_note (sign_event sha p e) = re_note e"
  "re_previous_hash (sign_event sha p e) = p"
  by (simp_all add: sign_event_def Let_def)

lemma sign_event_signed: "sha (review_material (sign_event sha p e)) = re_event_hash (sign_event sha p e)"
proof -
  have "review_material (e'\<lparr>re_event_hash := h\<rparr>) = review_material e'" for e' h
    by (simp add: review_material_eq review_content_def)
  then show ?thesis by (simp add: sign_event_def Let_def)
qed

lemma chain_verifies_snoc:
  "chain_verifies sha ''GENESIS'' es \<Longrightarrow>
   chain_verifies sha ''GENESIS'' (es @ [sign_event sha (last_hash re_event_hash ''GENESIS'' es) e])"
  unfolding chain_verifies_iff
  by (rule review_chain.append_verified) (simp_all add: sign_event_signed)

lemma events_of_append:
  "events_of cid (append_review_event sha e db) = events_of cid db @
     (if re_case_id e = cid then [sign_event sha (last_hash re_event_hash ''GENESIS'' (events_of cid db)) e] else [])"
  by (simp add: events_of_def append_review_event_def)

lemma events_of_frame [simp]:
  "events_of cid (db\<lparr>rq_cases := cs\<rparr>) = events_of cid db" "events_of cid (set_case i f db) = events_of cid db"
  by (simp_all add: events_of_def set_case_def)

lemma rq_append [simp]: "rq_cases (append_review_event sha e db) = rq_cases db"
  "set (map re_case_id (rq_events (append_review_event sha e db))) = insert (re_case_id e) (set (map re_case_id (rq_events db)))"
  by (simp_all add: append_review_event_def)

lemma find_case_Some: "find_case cid db = Some c \<Longrightarrow> c \<in> set (rq_cases db) \<and> rc_case_id c = cid"
  by (auto simp: find_case_def find_Some_iff)

lemma get_case_Inr: "get_case cid db = Inr c \<Longrightarrow> c \<in> set (rq_cases db) \<and> rc_case_id c = cid"
  by (auto simp: get_case_def dest: find_case_Some)

lemma review_ok_step:
  assumes ok: "review_ok sha db" and c: "c \<in> set (rq_cases db)"
    and f: "\<And>x. rc_case_id (f x) = rc_case_id x" "\<And>x. rc_finding (f x) = rc_finding x"
    and e: "re_case_id e = rc_case_id c"
    and life: "\<And>p. review_life c (events_of (rc_case_id c) db) \<Longrightarrow>
      review_life (f c) (events_of (rc_case_id c) db @ [sign_event sha p e])"
  shows "review_ok sha (append_review_event sha e (set_case (rc_case_id c) f db))" (is "review_ok sha ?db'")
proof -
  have maps: "map rc_case_id (rq_cases ?db') = map rc_case_id (rq_cases db)"
    "map (an_finding_id \<circ> rc_finding) (rq_cases ?db') = map (an_finding_id \<circ> rc_finding) (rq_cases db)"
    by (simp_all add: set_case_def update_where_map f)
  have "case_ok sha ?db' y" if y: "y \<in> set (rq_cases ?db')" for y
  proof -
    from y obtain x where x: "x \<in> set (rq_cases db)" "y = (if rc_case_id x = rc_case_id c then f x else x)"
      by (auto simp: set_case_def set_update_where)
    have old: "case_ok sha db x" using ok x(1) by (auto simp: review_ok_def list_all_iff)
    show ?thesis
    proof (cases "rc_case_id x = rc_case_id c")
      case True
      with ok c x(1) have "x = c" by (auto simp: review_ok_def distinct_map dest: inj_onD)
      with x(2) old f e life show ?thesis by (simp add: case_ok_def events_of_append chain_verifies_snoc)
    next
      case False
      with x(2) old e show ?thesis by (simp add: case_ok_def events_of_append)
    qed
  qed
  moreover have "set (map re_case_id (rq_events ?db')) \<subseteq> set (map rc_case_id (rq_cases ?db'))"
  proof -
    have "set (map re_case_id (rq_events (set_case (rc_case_id c) f db))) = set (map re_case_id (rq_events db))"
      by (simp add: set_case_def)
    moreover have "set (map rc_case_id (rq_cases ?db')) = set (map rc_case_id (rq_cases db))" unfolding maps(1) ..
    moreover have "set (map re_case_id (rq_events db)) \<subseteq> set (map rc_case_id (rq_cases db))"
      "rc_case_id c \<in> set (map rc_case_id (rq_cases db))" using ok c by (simp_all add: review_ok_def)
    ultimately show ?thesis unfolding rq_append(2) e by auto
  qed
  ultimately show ?thesis using ok unfolding review_ok_def list_all_iff maps by blast
qed

lemma start_review_ok: "preserves (review_ok sha) (start_review sha now cid reviewer_id)"
  unfolding preserves_def
proof (intro allI impI)
  fix db assume ok: "review_ok sha db"
  show "review_ok sha (fst (start_review sha now cid reviewer_id db))"
  proof (cases "\<exists>c. get_case cid db = Inr c \<and> rc_status c = OPEN \<and>
      \<not> (high_impact (rc_finding c) \<and> reviewer_id = an_detector_id (rc_finding c)) \<and> \<not> blank reviewer_id")
    case False
    with ok show ?thesis
      by (auto simp: start_review_def act_bind_apply split: sum.splits)
  next
    case True
    then obtain c where c: "get_case cid db = Inr c" "rc_status c = OPEN"
      "\<not> (high_impact (rc_finding c) \<and> reviewer_id = an_detector_id (rc_finding c))" "\<not> blank reviewer_id" by blast
    from get_case_Inr [OF c(1)] have mem: "c \<in> set (rq_cases db)" "cid = rc_case_id c" by auto
    let ?e = "review_event_row cid ''REVIEW_STARTED'' reviewer_id (Some OPEN) IN_REVIEW None [] ''Operator review started.'' now"
    let ?f = "\<lambda>c. c\<lparr>rc_status := IN_REVIEW, rc_assigned_reviewer := Some reviewer_id, rc_updated_at := now\<rparr>"
    have "review_life (?f c) (events_of (rc_case_id c) db @ [sign_event sha p ?e])"
      if "review_life c (events_of (rc_case_id c) db)" for p
      using that c(2,3) by (cases "(c, events_of (rc_case_id c) db)" rule: review_life.cases)
        (auto simp: review_event_row_def target_status_def split: if_splits)
    with ok mem have "review_ok sha (append_review_event sha ?e (set_case (rc_case_id c) ?f db))"
      by (intro review_ok_step) (auto simp: review_event_row_def)
    with c mem(2) show ?thesis
      by (auto simp: start_review_def act_bind_apply transaction_def start_update_def raise_if_def split: sum.splits)
  qed
qed

lemma resolve_case_ok: "preserves (review_ok sha) (resolve_case sha now cid reviewer_id result refs note)"
  unfolding preserves_def
proof (intro allI impI)
  fix db assume ok: "review_ok sha db"
  show "review_ok sha (fst (resolve_case sha now cid reviewer_id result refs note db))"
  proof (cases "\<exists>c. get_case cid db = Inr c \<and> rc_status c = IN_REVIEW \<and> rc_assigned_reviewer c = Some reviewer_id \<and>
      refs \<noteq> [] \<and> \<not> blank note")
    case False
    with ok show ?thesis
      by (auto simp: resolve_case_def act_bind_apply split: sum.splits)
  next
    case True
    then obtain c where c: "get_case cid db = Inr c" "rc_status c = IN_REVIEW"
      "rc_assigned_reviewer c = Some reviewer_id" "refs \<noteq> []" "\<not> blank note" by blast
    from get_case_Inr [OF c(1)] have mem: "c \<in> set (rq_cases db)" "cid = rc_case_id c" by auto
    let ?e = "review_event_row cid ''REVIEW_DECIDED'' reviewer_id (Some IN_REVIEW) (target_status result) (Some result) refs note now"
    let ?f = "\<lambda>c. c\<lparr>rc_status := target_status result, rc_updated_at := now\<rparr>"
    have "review_life (?f c) (events_of (rc_case_id c) db @ [sign_event sha p ?e])"
      if "review_life c (events_of (rc_case_id c) db)" for p
      using that c(2-) by (cases "(c, events_of (rc_case_id c) db)" rule: review_life.cases)
        (auto simp: review_event_row_def target_status_def split: if_splits)
    with ok mem have "review_ok sha (append_review_event sha ?e (set_case (rc_case_id c) ?f db))"
      by (intro review_ok_step) (auto simp: review_event_row_def)
    with c mem(2) show ?thesis
      by (auto simp: resolve_case_def act_bind_apply transaction_def resolve_update_def raise_if_def split: sum.splits)
  qed
qed

lemma insert_case_ok:
  assumes ok: "review_ok sha db" and f: "anomaly_validate f = Inr ()"
    and new: "find (\<lambda>c. an_finding_id (rc_finding c) = an_finding_id f) (rq_cases db) = None"
    and ins: "insert_case sha now f db = Inr (db', u)"
  shows "review_ok sha db'"
proof -
  let ?c = "\<lparr>rc_case_id = case_id_for sha f, rc_finding = f, rc_status = OPEN, rc_assigned_reviewer = None,
     rc_created_at = now, rc_updated_at = now\<rparr>"
  let ?e = "review_event_row (case_id_for sha f) ''QUEUED'' (an_detector_id f) None OPEN None (an_evidence_refs f) queued_note now"
  from ins have free: "find_case (case_id_for sha f) db = None"
    and db': "db' = append_review_event sha ?e (db\<lparr>rq_cases := rq_cases db @ [?c]\<rparr>)"
    by (auto simp: insert_case_def Let_def raise_if_def split: if_splits)
  have e: "re_case_id ?e = case_id_for sha f" by (simp add: review_event_row_def)
  have fresh: "rc_case_id x \<noteq> case_id_for sha f" "an_finding_id (rc_finding x) \<noteq> an_finding_id f"
    if "x \<in> set (rq_cases db)" for x using that free new by (auto simp: find_case_def find_None_iff)
  have none: "events_of (case_id_for sha f) db = []"
  proof -
    have "re_case_id e' \<noteq> case_id_for sha f" if "e' \<in> set (rq_events db)" for e'
    proof -
      have "re_case_id e' \<in> set (map re_case_id (rq_events db))" using that by simp
      moreover have "set (map re_case_id (rq_events db)) \<subseteq> set (map rc_case_id (rq_cases db))"
        using ok by (simp add: review_ok_def)
      ultimately have "re_case_id e' \<in> set (map rc_case_id (rq_cases db))" by (rule rev_subsetD)
      then obtain x where "x \<in> set (rq_cases db)" "rc_case_id x = re_case_id e'" by auto
      with fresh(1) show ?thesis by metis
    qed
    then show ?thesis by (simp add: events_of_def filter_empty_conv)
  qed
  have events: "events_of cid db' = events_of cid db @
      (if case_id_for sha f = cid then [sign_event sha (last_hash re_event_hash ''GENESIS'' (events_of cid db)) ?e] else [])" for cid
    unfolding db' events_of_append e by simp
  have "case_ok sha db' ?c"
    using f by (simp add: case_ok_def events none sign_event_signed) (simp add: review_event_row_def)
  moreover have "case_ok sha db' x" if "x \<in> set (rq_cases db)" for x
    using ok that fresh(1) [OF that] by (auto simp: review_ok_def list_all_iff case_ok_def events)
  moreover have "rq_cases db' = rq_cases db @ [?c]" by (simp add: db')
  moreover have "set (map re_case_id (rq_events db')) = insert (case_id_for sha f) (set (map re_case_id (rq_events db)))"
    unfolding db' rq_append(2) e by simp
  moreover have "case_id_for sha f \<notin> rc_case_id ` set (rq_cases db)"
    "an_finding_id f \<notin> (an_finding_id \<circ> rc_finding) ` set (rq_cases db)" using fresh by force+
  ultimately show ?thesis using ok by (auto simp: review_ok_def list_all_iff)
qed

lemma queue_finding_ok: "preserves (review_ok sha) (queue_finding sha now f)"
  unfolding preserves_def
proof (intro allI impI)
  fix db assume ok: "review_ok sha db"
  show "review_ok sha (fst (queue_finding sha now f db))"
  proof (cases "anomaly_validate f = Inr () \<and> find (\<lambda>c. an_finding_id (rc_finding c) = an_finding_id f) (rq_cases db) = None")
    case True
    with insert_case_ok [OF ok] ok show ?thesis
      by (auto simp: queue_finding_def act_bind_apply transaction_def split: sum.splits)
  next
    case False
    with ok show ?thesis
      by (auto simp: queue_finding_def act_bind_apply split: sum.splits option.splits)
  qed
qed

lemma detect_and_queue_ok: "preserves (review_ok sha) (detect_and_queue sha d now cid stock)"
  unfolding detect_and_queue_def
  by (intro preserves_bind preserves_reading) (auto split: option.splits intro!: preserves_bind queue_finding_ok)

lemma resolve_current_ok: "preserves (review_ok sha) (resolve_current sha d now cid reviewer_id result refs note stock)"
  unfolding resolve_current_def by (intro preserves_bind preserves_reading resolve_case_ok)

lemma review_ok_empty: "review_ok sha empty_review"
  by (simp add: review_ok_def empty_review_def)

section \<open>Runs\<close>

datatype review_call =
    Queue anomaly
  | DetectAndQueue string inventory
  | StartReview string string
  | Resolve string string review_outcome "string list" string
  | ResolveCurrent string string review_outcome "string list" string inventory

fun review_step :: "(string \<Rightarrow> string) \<Rightarrow> detector \<Rightarrow> string \<Rightarrow> review_call \<Rightarrow> review_db \<Rightarrow> review_db" where
  "review_step sha d now (Queue f) db = fst (queue_finding sha now f db)"
| "review_step sha d now (DetectAndQueue cid stock) db = fst (detect_and_queue sha d now cid stock db)"
| "review_step sha d now (StartReview cid who) db = fst (start_review sha now cid who db)"
| "review_step sha d now (Resolve cid who x refs note) db = fst (resolve_case sha now cid who x refs note db)"
| "review_step sha d now (ResolveCurrent cid who x refs note stock) db =
     fst (resolve_current sha d now cid who x refs note stock db)"

fun review_run :: "(string \<Rightarrow> string) \<Rightarrow> detector \<Rightarrow> (string \<times> review_call) list \<Rightarrow> review_db \<Rightarrow> review_db" where
  "review_run sha d [] db = db"
| "review_run sha d ((now, call) # calls) db = review_run sha d calls (review_step sha d now call db)"

lemma review_step_ok: "review_ok sha db \<Longrightarrow> review_ok sha (review_step sha d now call db)"
  using queue_finding_ok detect_and_queue_ok start_review_ok resolve_case_ok resolve_current_ok
  by (cases call) (auto simp: preserves_def)

lemma review_run_ok: "review_ok sha db \<Longrightarrow> review_ok sha (review_run sha d calls db)"
  by (induction sha d calls db rule: review_run.induct) (simp_all add: review_step_ok)

text \<open>Through the coordinator a case is decided only on current evidence.\<close>

lemma resolve_current_Inr:
  assumes "resolve_current sha d now cid reviewer_id result refs note stock db = (db', Inr c')"
  shows "\<exists>c f. get_case cid db = Inr c \<and> detect sha d stock (an_canonical_id (rc_finding c)) = Inr (Some f) \<and>
     an_evidence_fingerprint f = an_evidence_fingerprint (rc_finding c)"
  using assms by (auto simp: resolve_current_def act_bind_Inr raise_if_def evidence_current_def
      split: if_splits option.splits)

text \<open>A case whose anomaly has gone cannot be decided there, not even as a false positive.\<close>

lemma resolve_current_gone:
  assumes "get_case cid db = Inr c" "detect sha d stock (an_canonical_id (rc_finding c)) = Inr None"
  shows "resolve_current sha d now cid reviewer_id result refs note stock db =
     (db, Inl (RuntimeError ''finding evidence changed; re-detect and re-queue before confirmed resolution''))"
  using assms by (simp add: resolve_current_def act_bind_apply evidence_current_def)

end
