(* ===== verification/Search.thy ===== *)
theory Search
  imports Inventory "HOL-Library.Product_Lexorder"
begin

text \<open>
  The spatial index (src/missions/real_estate/geo.py) and the ranked, paginated search over the canonical
  inventory (src/missions/real_estate/search.py). The trigonometric functions of \<open>math\<close> are an argument.
  A cursor text is the payload it encodes, or \<open>Undecodable\<close>; \<open>show_float\<close> is the text of a
  float in JSON.
\<close>

definition somes :: "'a option list \<Rightarrow> 'a list" where
  "somes xs = map the (filter (\<lambda>x. x \<noteq> None) xs)"

lemma somes_simps [simp]: "somes [] = []" "somes (None # xs) = somes xs" "somes (Some x # xs) = x # somes xs"
  by (simp_all add: somes_def)

section \<open>Spatial index\<close>

record geo_point =
  gp_latitude :: rat
  gp_longitude :: rat

definition point_validate :: "geo_point \<Rightarrow> unit res" where
  "point_validate p = checks [
     raise_if (outside 90 (Some (gp_latitude p))) (ValueError ''latitude must be between -90 and 90''),
     raise_if (outside 180 (Some (gp_longitude p))) (ValueError ''longitude must be between -180 and 180'')]"

record trig =
  tg_radians :: "rat \<Rightarrow> rat"
  tg_sin :: "rat \<Rightarrow> rat"
  tg_cos :: "rat \<Rightarrow> rat"
  tg_sqrt :: "rat \<Rightarrow> rat"
  tg_atan2 :: "rat \<Rightarrow> rat \<Rightarrow> rat"

text \<open>The table \<open>geo_points\<close> in insertion order.\<close>

type_synonym geo_index = "(string \<times> geo_point) list"

definition upsert_point :: "string \<Rightarrow> geo_point \<Rightarrow> geo_index \<Rightarrow> geo_index res" where
  "upsert_point cid p g = res_bind (raise_if (blank cid) (ValueError ''canonical_id is required'')) (\<lambda>_.
     res_bind (point_validate p) (\<lambda>_. Inr (AList.update cid p g)))"

definition remove_point :: "string \<Rightarrow> geo_index \<Rightarrow> geo_index" where
  "remove_point cid g = filter (\<lambda>e. fst e \<noteq> cid) g"

definition distance_km :: "trig \<Rightarrow> geo_point \<Rightarrow> geo_point \<Rightarrow> rat res" where
  "distance_km t a b = res_bind (point_validate a) (\<lambda>_. res_bind (point_validate b) (\<lambda>_.
     let lat1 = tg_radians t (gp_latitude a); lat2 = tg_radians t (gp_latitude b);
       dlat = lat2 - lat1; dlon = tg_radians t (gp_longitude b - gp_longitude a);
       hav = tg_sin t (dlat / 2) ^ 2 + tg_cos t lat1 * tg_cos t lat2 * tg_sin t (dlon / 2) ^ 2;
       angle = 2 * tg_atan2 t (tg_sqrt t hav) (tg_sqrt t (max 0 (1 - hav)))
     in Inr (63710088 / 10000 * angle)))"

definition between :: "rat \<Rightarrow> rat \<Rightarrow> rat \<Rightarrow> bool" where
  "between lo hi x \<longleftrightarrow> lo \<le> x \<and> x \<le> hi"

text \<open>The coarse box of \<open>within_radius\<close>.\<close>

definition in_box :: "trig \<Rightarrow> geo_point \<Rightarrow> rat \<Rightarrow> geo_point \<Rightarrow> bool" where
  "in_box t center radius p =
     (let lat_delta = radius / (11132 / 100);
        cos_lat = max (1 / 100) (tg_cos t (tg_radians t (gp_latitude center)));
        lon_delta = radius / (11132 / 100 * cos_lat);
        min_lat = max (- 90) (gp_latitude center - lat_delta); max_lat = min 90 (gp_latitude center + lat_delta);
        min_lon = gp_longitude center - lon_delta; max_lon = gp_longitude center + lon_delta
      in between min_lat max_lat (gp_latitude p) \<and>
         (min_lon < - 180 \<or> 180 < max_lon \<or> between min_lon max_lon (gp_longitude p)))"

definition geo_hit :: "trig \<Rightarrow> geo_point \<Rightarrow> rat \<Rightarrow> string \<times> geo_point \<Rightarrow> (string \<times> rat) option res" where
  "geo_hit t center radius e = res_bind (distance_km t center (snd e)) (\<lambda>distance.
     Inr (if distance \<le> radius then Some (fst e, round_to 6 distance) else None))"

definition within_radius :: "trig \<Rightarrow> geo_index \<Rightarrow> geo_point \<Rightarrow> rat \<Rightarrow> nat option \<Rightarrow> (string \<times> rat) list res" where
  "within_radius t g center radius limit =
     res_bind (point_validate center) (\<lambda>_.
     res_bind (checks [raise_if (radius \<le> 0) (ValueError ''radius_km must be positive''),
       raise_if (limit = Some 0) (ValueError ''limit must be positive'')]) (\<lambda>_.
     res_bind (map_res (geo_hit t center radius) (filter (\<lambda>e. in_box t center radius (snd e)) g)) (\<lambda>found.
     let hits = sort_key (\<lambda>h. (snd h, fst h)) (somes found)
     in Inr (case limit of None \<Rightarrow> hits | Some n \<Rightarrow> take n hits))))"

section \<open>Queries\<close>

datatype cursor = Payload int string rat datetime string | Undecodable

record search_query =
  sq_text :: string
  sq_transaction_type :: "string option"
  sq_property_type :: "string option"
  sq_city :: "string option"
  sq_locality :: "string option"
  sq_geo_cell_prefix :: "string option"
  sq_center_latitude :: "rat option"
  sq_center_longitude :: "rat option"
  sq_radius_km :: "rat option"
  sq_min_price_minor :: "int option"
  sq_max_price_minor :: "int option"
  sq_bedrooms :: "int option"
  sq_states :: "listing_state list"
  sq_page_size :: int
  sq_cursor :: "cursor option"

definition inventory_query_of :: "search_query \<Rightarrow> inventory_query" where
  "inventory_query_of q = \<lparr>iq_transaction_type = sq_transaction_type q, iq_property_type = sq_property_type q,
     iq_city = sq_city q, iq_locality = sq_locality q, iq_min_price_minor = sq_min_price_minor q,
     iq_max_price_minor = sq_max_price_minor q, iq_bedrooms = sq_bedrooms q, iq_states = sq_states q\<rparr>"

definition search_validate :: "search_query \<Rightarrow> unit res" where
  "search_validate q = checks [
     raise_if (\<not> (1 \<le> sq_page_size q \<and> sq_page_size q \<le> 100)) (ValueError ''page_size must be between 1 and 100''),
     query_validate (inventory_query_of q),
     raise_if (case sq_geo_cell_prefix q of None \<Rightarrow> False | Some p \<Rightarrow> blank p) (ValueError ''geo_cell_prefix cannot be blank''),
     (let given = map (\<lambda>v. v \<noteq> None) [sq_center_latitude q, sq_center_longitude q, sq_radius_km q] in
      raise_if (list_ex id given \<and> \<not> list_all id given)
        (ValueError ''center_latitude, center_longitude and radius_km must be provided together'')),
     (case (sq_center_latitude q, sq_center_longitude q) of
        (Some lat, Some lon) \<Rightarrow> res_bind (point_validate \<lparr>gp_latitude = lat, gp_longitude = lon\<rparr>) (\<lambda>_.
          raise_if (case sq_radius_km q of None \<Rightarrow> True | Some r \<Rightarrow> r \<le> 0) (ValueError ''radius_km must be positive''))
      | _ \<Rightarrow> Inr ())]"

record search_result =
  rs_canonical_id :: string
  rs_score :: rat
  rs_title :: string
  rs_city :: string
  rs_locality :: string
  rs_geo_cell :: string
  rs_price_minor :: int
  rs_area_sqm :: rat
  rs_bedrooms :: "int option"
  rs_last_verified_at :: datetime
  rs_reasons :: "string list"
  rs_distance_km :: "rat option"

record search_page =
  pg_results :: "search_result list"
  pg_next_cursor :: "cursor option"
  pg_total_candidates :: nat

section \<open>Relevance\<close>

text \<open>\<open>[\w-]+\<close>, each token case-folded\<close>

definition token_char :: "char \<Rightarrow> bool" where
  "token_char c \<longleftrightarrow> is_word c \<or> c = CHR ''-''"

function tokens :: "string \<Rightarrow> string list" where
  "tokens s = (let s' = dropWhile (\<lambda>c. \<not> token_char c) s in
     if s' = [] then [] else casefold (takeWhile token_char s') # tokens (dropWhile token_char s'))"
  by pat_completeness auto

termination
proof (relation "measure length", simp)
  fix s s' assume s': "s' = dropWhile (\<lambda>c. \<not> token_char c) s" "s' \<noteq> []"
  then have "token_char (hd s')" using hd_dropWhile [of "\<lambda>c. \<not> token_char c" s] by simp
  with s'(2) have "length (dropWhile token_char s') < length s'"
    by (cases s') (simp_all add: length_dropWhile_le less_Suc_eq_le)
  also have "\<dots> \<le> length s" by (simp add: s'(1) length_dropWhile_le)
  finally show "(dropWhile token_char s', s) \<in> measure length" by simp
qed

declare tokens.simps [simp del]

definition token_weight :: "string list \<Rightarrow> string list \<Rightarrow> string list \<Rightarrow> string \<Rightarrow> rat" where
  "token_weight title location description w =
     (if w \<in> set title then 1 else if w \<in> set location then 8 / 10 else if w \<in> set description then 5 / 10 else 0)"

definition text_relevance :: "string \<Rightarrow> listing \<Rightarrow> rat" where
  "text_relevance text c = (let words = remdups (tokens text) in
     if words = [] then 1
     else round_to 6 (min 1 (sum_list (map (token_weight (tokens (li_title c))
       (tokens (li_city c @ '' '' @ li_locality c)) (tokens (li_description c))) words) / of_nat (length words))))"

section \<open>Cursors\<close>

definition query_fields :: "(rat \<Rightarrow> string) \<Rightarrow> search_query \<Rightarrow> (string \<times> string) list \<times> (string \<times> string) list" where
  "query_fields show_float q =
     ([(''bedrooms'', render False (int_json (sq_bedrooms q))),
       (''center_latitude'', float_text show_float (sq_center_latitude q)),
       (''center_longitude'', float_text show_float (sq_center_longitude q)),
       (''city'', render False (JStrOpt (sq_city q))),
       (''geo_cell_prefix'', render False (JStrOpt (sq_geo_cell_prefix q))),
       (''locality'', render False (JStrOpt (sq_locality q))),
       (''max_price_minor'', render False (int_json (sq_max_price_minor q))),
       (''min_price_minor'', render False (int_json (sq_min_price_minor q)))],
      [(''property_type'', render False (JStrOpt (sq_property_type q))),
       (''radius_km'', float_text show_float (sq_radius_km q)),
       (''states'', render False (JStrs (map listing_value (sq_states q))))])"

definition query_signature :: "(string \<Rightarrow> string) \<Rightarrow> (rat \<Rightarrow> string) \<Rightarrow> search_query \<Rightarrow> string" where
  "query_signature sha show_float q = (let (early, late) = query_fields show_float q in
     take 20 (sha (object_text (early @ [(''page_size'', render False (JInt (sq_page_size q)))] @ late @
       [(''text'', render False (JStr (strip (casefold (sq_text q))))),
        (''transaction_type'', render False (JStrOpt (sq_transaction_type q)))]))))"

type_synonym cursor_key = "rat \<times> int \<times> string"

definition result_key :: "search_result \<Rightarrow> cursor_key" where
  "result_key r = (- rs_score r, - instant (rs_last_verified_at r), rs_canonical_id r)"

definition encode_cursor :: "string \<Rightarrow> search_result \<Rightarrow> cursor" where
  "encode_cursor sig r = Payload 1 sig (rs_score r) (rs_last_verified_at r) (rs_canonical_id r)"

definition decode_cursor :: "string \<Rightarrow> cursor \<Rightarrow> cursor_key res" where
  "decode_cursor expected c = (case c of
     Undecodable \<Rightarrow> Inl (ValueError ''invalid search cursor'')
   | Payload v sig score verified cid \<Rightarrow>
       if v \<noteq> 1 \<or> sig \<noteq> expected then Inl (ValueError ''cursor does not belong to this search query'')
       else Inr (- score, - instant verified, cid))"

lemma decode_encode [simp]: "decode_cursor sig (encode_cursor sig r) = Inr (result_key r)"
  by (simp add: decode_cursor_def encode_cursor_def result_key_def)

section \<open>Search\<close>

record search_env =
  se_store :: inventory
  se_policy :: freshness_policy
  se_geo :: "geo_index option"
  se_trig :: trig

text \<open>The distances of a radius query.\<close>

definition distances :: "search_env \<Rightarrow> search_query \<Rightarrow> (string \<times> rat) list option res" where
  "distances env q = (case sq_radius_km q of None \<Rightarrow> Inr None
     | Some radius \<Rightarrow> (case se_geo env of None \<Rightarrow> Inl (RuntimeError ''radius search requires a geo index'')
       | Some g \<Rightarrow> res_bind (within_radius (se_trig env) g
           \<lparr>gp_latitude = the (sq_center_latitude q), gp_longitude = the (sq_center_longitude q)\<rparr> radius None)
           (\<lambda>hits. Inr (Some hits))))"

definition trust_score :: "inventory \<Rightarrow> string \<Rightarrow> rat" where
  "trust_score db p = (case publisher_trust p db of None \<Rightarrow> 0 | Some t \<Rightarrow> pt_score t)"

definition row_in_area :: "search_query \<Rightarrow> (string \<times> rat) list option \<Rightarrow> canonical_row \<Rightarrow> bool" where
  "row_in_area q ds row \<longleftrightarrow>
     (case sq_geo_cell_prefix q of None \<Rightarrow> True | Some p \<Rightarrow> prefixed p (cn_geo_cell row)) \<and>
     (case ds of None \<Rightarrow> True | Some d \<Rightarrow> cn_canonical_id row \<in> fst ` set d)"

definition search_row :: "search_env \<Rightarrow> search_query \<Rightarrow> datetime \<Rightarrow> (string \<times> rat) list option \<Rightarrow> canonical_row \<Rightarrow>
    search_result option res" where
  "search_row env q now ds row =
     (if \<not> row_in_area q ds row then Inr None
      else res_bind (source_record (cn_active_source row) (se_store env)) (\<lambda>source.
        let c = candidate_from_source source (cn_state row); relevance = text_relevance (sq_text q) c in
        if \<not> blank (sq_text q) \<and> relevance \<le> 0 then Inr None
        else
          res_bind (freshness_score (se_policy env) now c) (\<lambda>freshness.
          res_bind (completeness_score c) (\<lambda>completeness.
          res_bind (rank_listing c \<lparr>ss_relevance = relevance, ss_freshness = freshness, ss_completeness = completeness,
            ss_publisher_trust = trust_score (se_store env) (li_publisher_id c), ss_anomaly_penalty = 0\<rparr>) (\<lambda>decision.
          Inr (if \<not> rk_eligible decision then None
            else Some \<lparr>rs_canonical_id = cn_canonical_id row, rs_score = rk_score decision, rs_title = cn_title row,
              rs_city = cn_city row, rs_locality = cn_locality row, rs_geo_cell = cn_geo_cell row,
              rs_price_minor = cn_price_minor row, rs_area_sqm = cn_area_sqm row, rs_bedrooms = cn_bedrooms row,
              rs_last_verified_at = cn_last_verified_at row, rs_reasons = rk_reasons decision,
              rs_distance_km = Option.bind ds (\<lambda>d. map_of d (cn_canonical_id row))\<rparr>))))))"

definition is_after :: "cursor_key option \<Rightarrow> search_result \<Rightarrow> bool" where
  "is_after after r = (case after of None \<Rightarrow> True | Some k \<Rightarrow> k < result_key r)"

definition search :: "(string \<Rightarrow> string) \<Rightarrow> (rat \<Rightarrow> string) \<Rightarrow> search_env \<Rightarrow> datetime \<Rightarrow> search_query \<Rightarrow> search_page res" where
  "search sha show_float env now q =
     res_bind (search_validate q) (\<lambda>_.
     res_bind (raise_if (naive now) (ValueError ''search now must be timezone-aware'')) (\<lambda>_.
     res_bind (query_rows (inventory_query_of q) (se_store env)) (\<lambda>rows.
     let sig = query_signature sha show_float q in
     res_bind (case sq_cursor q of None \<Rightarrow> Inr None
       | Some c \<Rightarrow> res_bind (decode_cursor sig c) (\<lambda>k. Inr (Some k))) (\<lambda>start.
     res_bind (distances env q) (\<lambda>ds.
     res_bind (map_res (search_row env q now ds) rows) (\<lambda>found.
     let ranked = sort_key result_key (filter (is_after start) (somes found));
         items = take (nat (sq_page_size q)) ranked
     in Inr \<lparr>pg_results = items,
          pg_next_cursor = (if length ranked > nat (sq_page_size q) \<and> items \<noteq> [] then Some (encode_cursor sig (last items)) else None),
          pg_total_candidates = length ranked\<rparr>))))))"

section \<open>Reading every page\<close>

text \<open>\<open>SavedSearchEvaluator._all_matching_ids\<close> (alerts.py): pages of 100 until there is no next cursor.
  A loop that does not end is \<open>None\<close>.\<close>

partial_function (option) all_matching_from ::
    "(string \<Rightarrow> string) \<Rightarrow> (rat \<Rightarrow> string) \<Rightarrow> search_env \<Rightarrow> datetime \<Rightarrow> search_query \<Rightarrow> cursor option \<Rightarrow> string list res option" where
  "all_matching_from sha show_float env now q c =
     (case search sha show_float env now (q\<lparr>sq_page_size := 100, sq_cursor := c\<rparr>) of
        Inl e \<Rightarrow> Some (Inl e)
      | Inr page \<Rightarrow> (case pg_next_cursor page of
          None \<Rightarrow> Some (Inr (map rs_canonical_id (pg_results page)))
        | Some c' \<Rightarrow> Option.bind (all_matching_from sha show_float env now q (Some c')) (\<lambda>rest.
            Some (res_bind rest (\<lambda>ids. Inr (map rs_canonical_id (pg_results page) @ ids))))))"

declare all_matching_from.simps [code]

definition all_matching_ids :: "(string \<Rightarrow> string) \<Rightarrow> (rat \<Rightarrow> string) \<Rightarrow> search_env \<Rightarrow> datetime \<Rightarrow> search_query \<Rightarrow>
    string list res option" where
  "all_matching_ids sha show_float env now q = all_matching_from sha show_float env now q None"

text \<open>The specification: every eligible row once, best first, without pages.\<close>

definition eligible_results :: "search_env \<Rightarrow> datetime \<Rightarrow> search_query \<Rightarrow> search_result list res" where
  "eligible_results env now q =
     res_bind (search_validate q) (\<lambda>_.
     res_bind (raise_if (naive now) (ValueError ''search now must be timezone-aware'')) (\<lambda>_.
     res_bind (query_rows (inventory_query_of q) (se_store env)) (\<lambda>rows.
     res_bind (distances env q) (\<lambda>ds.
     res_bind (map_res (search_row env q now ds) rows) (\<lambda>found.
     Inr (sort_key result_key (somes found)))))))"

lemma cursor_irrelevant [simp]:
  "search_validate (q\<lparr>sq_cursor := c\<rparr>) = search_validate q"
  "inventory_query_of (q\<lparr>sq_cursor := c\<rparr>) = inventory_query_of q"
  "query_signature sha show_float (q\<lparr>sq_cursor := c\<rparr>) = query_signature sha show_float q"
  "distances env (q\<lparr>sq_cursor := c\<rparr>) = distances env q"
  "search_row env (q\<lparr>sq_cursor := c\<rparr>) = search_row env q"
proof -
  show q: "inventory_query_of (q\<lparr>sq_cursor := c\<rparr>) = inventory_query_of q" by (simp add: inventory_query_of_def)
  show "search_validate (q\<lparr>sq_cursor := c\<rparr>) = search_validate q" unfolding search_validate_def q by (simp cong: option.case_cong)
  show "query_signature sha show_float (q\<lparr>sq_cursor := c\<rparr>) = query_signature sha show_float q"
    unfolding query_signature_def query_fields_def by simp
  show "distances env (q\<lparr>sq_cursor := c\<rparr>) = distances env q" unfolding distances_def by (simp cong: option.case_cong)
  show "search_row env (q\<lparr>sq_cursor := c\<rparr>) = search_row env q"
    by (intro ext) (simp add: search_row_def row_in_area_def)
qed

lemma search_row_id: "search_row env q now ds row = Inr (Some r) \<Longrightarrow> rs_canonical_id r = cn_canonical_id row"
  by (auto simp: search_row_def Let_def split: if_splits)

lemma found_ids:
  assumes "map_res (search_row env q now ds) rows = Inr found" "distinct (map cn_canonical_id rows)"
  shows "distinct (map rs_canonical_id (somes found)) \<and>
     set (map rs_canonical_id (somes found)) \<subseteq> set (map cn_canonical_id rows)"
  using assms
proof (induction rows arbitrary: found)
  case (Cons row rows)
  then obtain x xs where x: "search_row env q now ds row = Inr x" "map_res (search_row env q now ds) rows = Inr xs"
    "found = x # xs" by auto
  with Cons have ids: "distinct (map rs_canonical_id (somes xs))"
    "set (map rs_canonical_id (somes xs)) \<subseteq> set (map cn_canonical_id rows)"
    "cn_canonical_id row \<notin> set (map cn_canonical_id rows)" by auto
  show ?case
  proof (cases x)
    case (Some r)
    with search_row_id [of env q now ds row r] x(1) have "rs_canonical_id r = cn_canonical_id row" by simp
    with ids Some x(3) show ?thesis by auto
  qed (use ids x(3) in auto)
qed simp

lemma eligible_distinct:
  assumes "eligible_results env now q = Inr rs" "distinct (map cn_canonical_id (iv_canonicals (se_store env)))"
  shows "distinct (map rs_canonical_id rs)" "sorted (map result_key rs)"
proof -
  from assms(1) obtain rows ds found where rows: "query_rows (inventory_query_of q) (se_store env) = Inr rows"
    and f: "map_res (search_row env q now ds) rows = Inr found" and rs: "rs = sort_key result_key (somes found)"
    by (auto simp: eligible_results_def)
  have "distinct (map cn_canonical_id rows)"
    using rows assms(2) by (auto simp: query_rows_def distinct_map intro: inj_on_subset)
  with found_ids [OF f] have "distinct (map rs_canonical_id (somes found))" by blast
  then show "distinct (map rs_canonical_id rs)" unfolding rs by (simp add: distinct_map)
  show "sorted (map result_key rs)" by (simp add: rs)
qed

subsection \<open>Pages are well formed\<close>

lemma set_somes: "r \<in> set (somes xs) \<longleftrightarrow> Some r \<in> set xs"
proof (induction xs)
  case (Cons x xs)
  then show ?case by (cases x) auto
qed simp

text \<open>A result stands for a listed row and its score is in the unit interval.\<close>

definition result_ok :: "canonical_row list \<Rightarrow> search_result \<Rightarrow> bool" where
  "result_ok rows r \<longleftrightarrow> in_unit (rs_score r) \<and> list_ex (\<lambda>row. cn_canonical_id row = rs_canonical_id r \<and> listed row \<and>
     cn_price_minor row = rs_price_minor r \<and> cn_city row = rs_city r) rows"

lemma search_row_ok:
  assumes "search_row env q now ds row = Inr (Some r)" "row \<in> set rows" shows "result_ok rows r"
proof -
  from assms(1) obtain source signals decision where
    d: "rank_listing (candidate_from_source source (cn_state row)) signals = Inr decision" "rk_eligible decision" and
    r: "rs_score r = rk_score decision" "rs_canonical_id r = cn_canonical_id row" "rs_price_minor r = cn_price_minor row"
      "rs_city r = cn_city row"
    by (auto simp: search_row_def Let_def split: if_splits)
  have "listed row" using rank_eligible [OF d] by (simp add: listed_def candidate_from_source_def)
  with r rank_unit [OF d(1)] assms(2) show ?thesis by (auto simp: result_ok_def list_ex_iff)
qed

definition page_ok :: "nat \<Rightarrow> canonical_row list \<Rightarrow> search_page \<Rightarrow> bool" where
  "page_ok n rows page \<longleftrightarrow> length (pg_results page) = min n (pg_total_candidates page) \<and>
     list_all (result_ok rows) (pg_results page) \<and> distinct (map rs_canonical_id (pg_results page)) \<and>
     sorted_wrt (<) (map result_key (pg_results page)) \<and>
     (pg_next_cursor page = None \<longleftrightarrow> length (pg_results page) = pg_total_candidates page)"

lemma search_page_ok:
  assumes s: "search sha show_float env now q = Inr page"
    and d: "distinct (map cn_canonical_id (iv_canonicals (se_store env)))"
  shows "page_ok (nat (sq_page_size q)) (filter (row_matches (inventory_query_of q)) (iv_canonicals (se_store env))) page"
proof -
  let ?n = "nat (sq_page_size q)"
  from s obtain rows ds found start where v: "search_validate q = Inr ()"
      "query_rows (inventory_query_of q) (se_store env) = Inr rows" "map_res (search_row env q now ds) rows = Inr found"
    and page: "page = (let ranked = sort_key result_key (filter (is_after start) (somes found)); items = take ?n ranked
      in \<lparr>pg_results = items, pg_next_cursor = (if length ranked > ?n \<and> items \<noteq> []
            then Some (encode_cursor (query_signature sha show_float q) (last items)) else None),
          pg_total_candidates = length ranked\<rparr>)"
    by (auto simp: search_def Let_def)
  define ranked where "ranked = sort_key result_key (filter (is_after start) (somes found))"
  have n: "0 < ?n" using v(1) by (simp add: search_validate_def)
  have "distinct (map cn_canonical_id rows)"
    using v(2) d by (auto simp: query_rows_def distinct_map intro: inj_on_subset)
  with found_ids [OF v(3)] have ids: "distinct (map rs_canonical_id ranked)"
    by (auto simp: ranked_def distinct_map intro: inj_on_subset)
  then have keys: "distinct (map result_key ranked)" by (auto simp: distinct_map inj_on_def result_key_def)
  have all2: "list_all2 (\<lambda>row x. search_row env q now ds row = Inr x) rows found" using v(3) by (simp add: map_res_eq_Inr)
  have "result_ok (filter (row_matches (inventory_query_of q)) (iv_canonicals (se_store env))) r" if "r \<in> set ranked" for r
  proof -
    have "Some r \<in> set found" using that by (simp add: ranked_def set_somes)
    then obtain row where "row \<in> set rows" "search_row env q now ds row = Inr (Some r)"
      using all2 by (auto simp: list_all2_conv_all_nth in_set_conv_nth) metis
    with search_row_ok [of env q now ds row r] query_rows_set [OF v(2)] show ?thesis by simp
  qed
  moreover have "sorted_wrt (<) (map result_key (take ?n ranked))"
    using keys by (simp add: strict_sorted_iff take_map [symmetric] sorted_wrt_take ranked_def)
  moreover have "distinct (map rs_canonical_id (take ?n ranked))" using ids by (simp add: take_map [symmetric])
  moreover have "pg_results page = take ?n ranked" "pg_total_candidates page = length ranked"
    by (simp_all add: page Let_def flip: ranked_def)
  moreover have "pg_next_cursor page = None \<longleftrightarrow> length ranked \<le> ?n"
    using n by (cases "ranked = []") (simp_all add: page Let_def not_less flip: ranked_def)
  ultimately show ?thesis unfolding page_ok_def list_all_iff by (auto simp: min_def dest: in_set_takeD)
qed

text \<open>In a list with strictly increasing keys the elements after the one at position \<open>k\<close> are the rest.\<close>

lemma after_position:
  fixes f :: "'a \<Rightarrow> 'b::linorder"
  assumes "sorted (map f xs)" "distinct (map f xs)" "k < length xs"
  shows "filter (\<lambda>x. f (xs ! k) < f x) xs = drop (Suc k) xs"
proof -
  have lt: "f (xs ! i) < f (xs ! j)" if "i < j" "j < length xs" for i j
    using assms that sorted_nth_mono [of "map f xs" i j] nth_eq_iff_index_eq [of "map f xs" i j]
    by (simp add: order_less_le)
  have "filter (\<lambda>x. f (xs ! k) < f x) (take (Suc k) xs) = []"
  proof -
    have "\<not> f (xs ! k) < f (xs ! i)" if "i < Suc k" for i
      using that lt [of i k] assms(3) by (cases "i = k") (auto dest: less_asym)
    then show ?thesis by (auto simp: filter_empty_conv in_set_conv_nth)
  qed
  moreover have "filter (\<lambda>x. f (xs ! k) < f x) (drop (Suc k) xs) = drop (Suc k) xs"
  proof -
    have "f (xs ! k) < f (xs ! (Suc k + i))" if "Suc k + i < length xs" for i
      using that by (intro lt) auto
    then show ?thesis by (auto simp: filter_id_conv in_set_conv_nth)
  qed
  ultimately show ?thesis by (metis append_take_drop_id filter_append self_append_conv2)
qed

definition page_at :: "nat \<Rightarrow> nat \<Rightarrow> string \<Rightarrow> search_result list \<Rightarrow> search_page" where
  "page_at n k sig rs = \<lparr>pg_results = take n (drop k rs),
     pg_next_cursor = (if n < length rs - k then Some (encode_cursor sig (rs ! (k + n - 1))) else None),
     pg_total_candidates = length rs - k\<rparr>"

definition cursor_at :: "nat \<Rightarrow> string \<Rightarrow> search_result list \<Rightarrow> cursor option" where
  "cursor_at k sig rs = (if k = 0 then None else Some (encode_cursor sig (rs ! (k - 1))))"

lemma search_page_at:
  assumes e: "eligible_results env now q = Inr rs" and d: "distinct (map cn_canonical_id (iv_canonicals (se_store env)))"
    and k: "k \<le> length rs"
  shows "search sha show_float env now (q\<lparr>sq_cursor := cursor_at k (query_signature sha show_float q) rs\<rparr>) =
     Inr (page_at (nat (sq_page_size q)) k (query_signature sha show_float q) rs)"
proof -
  let ?sig = "query_signature sha show_float q" and ?n = "nat (sq_page_size q)"
  from e obtain rows ds found where v: "search_validate q = Inr ()" "\<not> naive now"
      "query_rows (inventory_query_of q) (se_store env) = Inr rows" "distances env q = Inr ds"
      "map_res (search_row env q now ds) rows = Inr found"
    and rs: "rs = sort_key result_key (somes found)"
    by (auto simp: eligible_results_def)
  from v(1) have n: "0 < ?n" by (simp add: search_validate_def)
  define start where "start = (if k = 0 then None else Some (result_key (rs ! (k - 1))))"
  note ids = eligible_distinct [OF e d]
  have "distinct (map result_key rs)"
    using ids(1) by (auto simp: distinct_map inj_on_def result_key_def)
  with ids(2) k after_position [of result_key rs "k - 1"] have "filter (is_after start) rs = drop k rs"
    by (cases k) (auto simp: start_def is_after_def [abs_def])
  then have ranked: "sort_key result_key (filter (is_after start) (somes found)) = drop k rs"
    by (simp add: rs filter_sort)
  have len: "length (filter (is_after start) (somes found)) = length rs - k"
    using arg_cong [OF ranked, of length] by simp
  have last: "last (take ?n (drop k rs)) = rs ! (k + ?n - 1)" if "?n < length rs - k"
    using that n by (subst last_conv_nth) (auto simp: min_def)
  have start: "(case cursor_at k ?sig rs of None \<Rightarrow> Inr None
       | Some c \<Rightarrow> res_bind (decode_cursor ?sig c) (\<lambda>k. Inr (Some k))) = Inr start"
    by (simp add: cursor_at_def start_def)
  show ?thesis using v n last
    by (simp add: search_def Let_def ranked start page_at_def len)
qed

lemma all_matching_from_at:
  assumes e: "eligible_results env now (q\<lparr>sq_page_size := 100\<rparr>) = Inr rs"
    and d: "distinct (map cn_canonical_id (iv_canonicals (se_store env)))"
  shows "k \<le> length rs \<Longrightarrow> all_matching_from sha show_float env now q
      (cursor_at k (query_signature sha show_float (q\<lparr>sq_page_size := 100\<rparr>)) rs) =
    Some (Inr (map rs_canonical_id (drop k rs)))"
proof (induction "length rs - k" arbitrary: k rule: less_induct)
  case less
  let ?q = "q\<lparr>sq_page_size := 100\<rparr>"
  let ?sig = "query_signature sha show_float ?q"
  have page: "search sha show_float env now (?q\<lparr>sq_cursor := cursor_at k ?sig rs\<rparr>) = Inr (page_at 100 k ?sig rs)"
    using search_page_at [OF e d less.prems, of sha show_float] by simp
  show ?case
  proof (cases "100 < length rs - k")
    case False
    with page show ?thesis by (subst all_matching_from.simps) (simp add: page_at_def)
  next
    case True
    have "all_matching_from sha show_float env now q (cursor_at (k + 100) ?sig rs) =
        Some (Inr (map rs_canonical_id (drop (k + 100) rs)))"
      using True less.prems by (intro less.hyps) auto
    moreover have "map rs_canonical_id (take 100 (drop k rs)) @ map rs_canonical_id (drop (k + 100) rs) =
        map rs_canonical_id (drop k rs)"
      by (metis add.commute append_take_drop_id drop_drop map_append)
    ultimately show ?thesis using page True
      by (subst all_matching_from.simps) (simp add: page_at_def cursor_at_def)
  qed
qed

lemma search_error:
  assumes "eligible_results env now q = Inl e" "sq_cursor q = None"
  shows "search sha show_float env now q = Inl e"
  using assms by (auto simp: search_def eligible_results_def res_bind_def Let_def split: sum.splits)

theorem all_matching_ids_eq:
  assumes "distinct (map cn_canonical_id (iv_canonicals (se_store env)))"
  shows "all_matching_ids sha show_float env now q =
     Some (res_bind (eligible_results env now (q\<lparr>sq_page_size := 100, sq_cursor := None\<rparr>)) (\<lambda>rs. Inr (map rs_canonical_id rs)))"
proof -
  have same: "eligible_results env now (q\<lparr>sq_page_size := 100, sq_cursor := None\<rparr>) = eligible_results env now (q\<lparr>sq_page_size := 100\<rparr>)"
    by (simp add: eligible_results_def)
  show ?thesis
  proof (cases "eligible_results env now (q\<lparr>sq_page_size := 100\<rparr>)")
    case (Inl e)
    with search_error [of env now "q\<lparr>sq_page_size := 100, sq_cursor := None\<rparr>" e sha show_float] same show ?thesis
      unfolding all_matching_ids_def by (subst all_matching_from.simps) simp
  next
    case (Inr rs)
    from all_matching_from_at [OF Inr assms, of 0 sha show_float] same Inr show ?thesis
      by (simp add: all_matching_ids_def cursor_at_def)
  qed
qed

end
