(* ===== verification/Alerts.thy ===== *)
theory Alerts
  imports Search
begin

text \<open>
  Saved searches and the internal alert outbox (src/missions/real_estate/alerts.py). The tables are the lists of
  their rows; the JSON text of a saved query is the query it encodes, with the page size and the
  cursor it leaves out at their defaults. An evaluation that would not end is \<open>None\<close>.
\<close>

section \<open>Contracts and tables\<close>

record saved_search =
  sv_saved_search_id :: string
  sv_owner_id :: string
  sv_name :: string
  sv_query :: search_query
  sv_enabled :: bool
  sv_version :: int

definition saved_validate :: "saved_search \<Rightarrow> unit res" where
  "saved_validate s = checks [
     raise_if (blank (sv_saved_search_id s)) (ValueError ''saved_search_id is required''),
     raise_if (blank (sv_owner_id s)) (ValueError ''owner_id is required''),
     raise_if (blank (sv_name s)) (ValueError ''name is required''),
     raise_if (sv_version s \<le> 0) (ValueError ''version must be positive''),
     raise_if (sq_cursor (sv_query s) \<noteq> None) (ValueError ''saved searches cannot persist a pagination cursor''),
     search_validate (sv_query s)]"

record alert_event =
  al_event_id :: string
  al_saved_search_id :: string
  al_saved_search_version :: int
  al_canonical_id :: string
  al_owner_id :: string
  al_created_at :: string
  al_status :: string

record saved_row =
  sx_search :: saved_search
  sx_fingerprint :: string
  sx_primed :: bool
  sx_created_at :: string
  sx_updated_at :: string

record alert_match =
  am_saved_search_id :: string
  am_saved_search_version :: int
  am_canonical_id :: string
  am_first_matched_at :: string

record alert_db =
  ab_searches :: "saved_row list"
  ab_matches :: "alert_match list"
  ab_outbox :: "alert_event list"

definition empty_alerts :: alert_db where
  "empty_alerts = \<lparr>ab_searches = [], ab_matches = [], ab_outbox = []\<rparr>"

section \<open>Saved searches\<close>

definition sx_id :: "saved_row \<Rightarrow> string" where
  "sx_id r = sv_saved_search_id (sx_search r)"

definition serialize_query :: "(rat \<Rightarrow> string) \<Rightarrow> search_query \<Rightarrow> string res" where
  "serialize_query show_float q =
     res_bind (search_validate q) (\<lambda>_.
     res_bind (raise_if (sq_cursor q \<noteq> None) (ValueError ''saved searches cannot persist a pagination cursor'')) (\<lambda>_.
     let (early, late) = query_fields show_float q in
     Inr (object_text (early @ late @ [(''text'', render False (JStr (sq_text q))),
       (''transaction_type'', render False (JStrOpt (sq_transaction_type q)))]))))"

definition stored_query :: "search_query \<Rightarrow> search_query" where
  "stored_query q = q\<lparr>sq_page_size := 20, sq_cursor := None\<rparr>"

definition search_row_of :: "string \<Rightarrow> alert_db \<Rightarrow> saved_row res" where
  "search_row_of sid db = fetch (KeyError [sid]) (find (\<lambda>r. sx_id r = sid) (ab_searches db))"

definition save_search :: "(string \<Rightarrow> string) \<Rightarrow> (rat \<Rightarrow> string) \<Rightarrow> string \<Rightarrow> saved_search \<Rightarrow> alert_db \<Rightarrow> (alert_db \<times> saved_search) res" where
  "save_search sha show_float now saved db =
     res_bind (saved_validate saved) (\<lambda>_.
     res_bind (serialize_query show_float (sv_query saved)) (\<lambda>payload.
     let fingerprint = sha payload; stored = (\<lambda>s. s\<lparr>sv_query := stored_query (sv_query saved)\<rparr>) in
     case find (\<lambda>r. sx_id r = sv_saved_search_id saved) (ab_searches db) of
       None \<Rightarrow> Inr (db\<lparr>ab_searches := ab_searches db @ [\<lparr>sx_search = stored saved, sx_fingerprint = fingerprint,
           sx_primed = False, sx_created_at = now, sx_updated_at = now\<rparr>]\<rparr>, saved)
     | Some r \<Rightarrow>
         let changed = fingerprint \<noteq> sx_fingerprint r;
           normalized = saved\<lparr>sv_version := (if changed then sv_version (sx_search r) + 1 else sv_version (sx_search r))\<rparr> in
         Inr (db\<lparr>ab_searches := update_where (\<lambda>x. sx_id x = sv_saved_search_id saved)
           (\<lambda>x. x\<lparr>sx_search := stored normalized, sx_fingerprint := fingerprint,
             sx_primed := (if changed then False else sx_primed r), sx_updated_at := now\<rparr>) (ab_searches db)\<rparr>, normalized)))"

definition get_search :: "string \<Rightarrow> alert_db \<Rightarrow> saved_search res" where
  "get_search sid db = res_bind (search_row_of sid db) (\<lambda>r. Inr (sx_search r))"

definition is_primed :: "string \<Rightarrow> alert_db \<Rightarrow> bool res" where
  "is_primed sid db = res_bind (search_row_of sid db) (\<lambda>r. Inr (sx_primed r))"

definition enabled_searches :: "alert_db \<Rightarrow> saved_search list" where
  "enabled_searches db = sort_key sv_saved_search_id (filter sv_enabled (map sx_search (ab_searches db)))"

section \<open>Matches and alerts\<close>

definition match_key :: "alert_match \<Rightarrow> string \<times> int \<times> string" where
  "match_key m = (am_saved_search_id m, am_saved_search_version m, am_canonical_id m)"

definition event_key :: "alert_event \<Rightarrow> string \<times> int \<times> string" where
  "event_key e = (al_saved_search_id e, al_saved_search_version e, al_canonical_id e)"

definition key_of :: "saved_search \<Rightarrow> string \<Rightarrow> string \<times> int \<times> string" where
  "key_of s cid = (sv_saved_search_id s, sv_version s, cid)"

definition match_keys :: "alert_db \<Rightarrow> (string \<times> int \<times> string) list" where
  "match_keys db = map match_key (ab_matches db)"

definition matched :: "saved_search \<Rightarrow> string \<Rightarrow> alert_db \<Rightarrow> bool" where
  "matched s cid db \<longleftrightarrow> key_of s cid \<in> set (match_keys db)"

text \<open>An insert into \<open>alert_matches\<close>, whose search must be a row of \<open>saved_searches\<close>.\<close>

definition add_match :: "saved_search \<Rightarrow> string \<Rightarrow> string \<Rightarrow> alert_db \<Rightarrow> alert_db res" where
  "add_match s occurred cid db =
     res_bind (raise_if (\<not> list_ex (\<lambda>r. sx_id r = sv_saved_search_id s) (ab_searches db))
       (IntegrityError ''FOREIGN KEY constraint failed'')) (\<lambda>_.
     Inr (db\<lparr>ab_matches := ab_matches db @ [\<lparr>am_saved_search_id = sv_saved_search_id s,
       am_saved_search_version = sv_version s, am_canonical_id = cid, am_first_matched_at = occurred\<rparr>]\<rparr>))"

fun baseline_loop :: "saved_search \<Rightarrow> string \<Rightarrow> string list \<Rightarrow> alert_db \<Rightarrow> alert_db res" where
  "baseline_loop s occurred [] db = Inr db"
| "baseline_loop s occurred (cid # cids) db =
     res_bind (raise_if (blank cid) (ValueError ''canonical_id is required'')) (\<lambda>_.
     res_bind (if matched s cid db then Inr db else add_match s occurred cid db) (baseline_loop s occurred cids))"

definition writable_at :: "saved_search \<Rightarrow> datetime \<Rightarrow> unit res" where
  "writable_at s occurred_at = res_bind (saved_validate s) (\<lambda>_.
     raise_if (naive occurred_at) (ValueError ''occurred_at must be timezone-aware''))"

definition establish_baseline :: "saved_search \<Rightarrow> string list \<Rightarrow> datetime \<Rightarrow> alert_db \<Rightarrow> alert_db res" where
  "establish_baseline s cids occurred_at db =
     res_bind (writable_at s occurred_at) (\<lambda>_.
     res_bind (baseline_loop s (isoformat occurred_at) cids db) (\<lambda>db'.
     Inr (db'\<lparr>ab_searches := update_where (\<lambda>r. sx_id r = sv_saved_search_id s)
       (\<lambda>r. r\<lparr>sx_primed := True, sx_updated_at := isoformat occurred_at\<rparr>) (ab_searches db')\<rparr>)))"

definition alert_id :: "(string \<Rightarrow> string) \<Rightarrow> saved_search \<Rightarrow> string \<Rightarrow> string" where
  "alert_id sha s cid = ''ALERT-'' @
     take 24 (sha (sv_saved_search_id s @ ''|'' @ show_int (sv_version s) @ ''|'' @ cid))"

definition new_alert :: "(string \<Rightarrow> string) \<Rightarrow> saved_search \<Rightarrow> string \<Rightarrow> string \<Rightarrow> alert_event" where
  "new_alert sha s occurred cid = \<lparr>al_event_id = alert_id sha s cid, al_saved_search_id = sv_saved_search_id s,
     al_saved_search_version = sv_version s, al_canonical_id = cid, al_owner_id = sv_owner_id s,
     al_created_at = occurred, al_status = ''PENDING_INTERNAL''\<rparr>"

definition add_alert :: "alert_event \<Rightarrow> alert_db \<Rightarrow> alert_db res" where
  "add_alert e db =
     res_bind (raise_if (al_event_id e \<in> set (map al_event_id (ab_outbox db)))
       (IntegrityError ''UNIQUE constraint failed: alert_outbox.event_id'')) (\<lambda>_.
     res_bind (raise_if (event_key e \<in> set (map event_key (ab_outbox db)))
       (IntegrityError ''UNIQUE constraint failed: alert_outbox'')) (\<lambda>_.
     Inr (db\<lparr>ab_outbox := ab_outbox db @ [e]\<rparr>)))"

fun mark_loop :: "(string \<Rightarrow> string) \<Rightarrow> saved_search \<Rightarrow> string \<Rightarrow> string list \<Rightarrow> alert_db \<Rightarrow> (alert_db \<times> alert_event list) res" where
  "mark_loop sha s occurred [] db = Inr (db, [])"
| "mark_loop sha s occurred (cid # cids) db =
     res_bind (raise_if (blank cid) (ValueError ''canonical_id is required'')) (\<lambda>_.
     if matched s cid db then mark_loop sha s occurred cids db
     else
       res_bind (add_match s occurred cid db) (\<lambda>db1.
       res_bind (add_alert (new_alert sha s occurred cid) db1) (\<lambda>db2.
       res_bind (mark_loop sha s occurred cids db2) (\<lambda>(db3, created).
       Inr (db3, new_alert sha s occurred cid # created)))))"

definition mark_matches :: "(string \<Rightarrow> string) \<Rightarrow> saved_search \<Rightarrow> string list \<Rightarrow> datetime \<Rightarrow> alert_db \<Rightarrow> (alert_db \<times> alert_event list) res" where
  "mark_matches sha s cids occurred_at db =
     res_bind (writable_at s occurred_at) (\<lambda>_.
     res_bind (is_primed (sv_saved_search_id s) db) (\<lambda>primed.
     res_bind (raise_if (\<not> primed) (RuntimeError ''saved search must be primed before emitting alerts'')) (\<lambda>_.
     mark_loop sha s (isoformat occurred_at) cids db)))"

definition outbox_of :: "string \<Rightarrow> alert_db \<Rightarrow> alert_event list" where
  "outbox_of status db = sort_key al_created_at (sort_key al_event_id (filter (\<lambda>e. al_status e = status) (ab_outbox db)))"

section \<open>Evaluation\<close>

text \<open>The evaluator's search service is an environment; the store is the state.\<close>

definition evaluate :: "(string \<Rightarrow> string) \<Rightarrow> (rat \<Rightarrow> string) \<Rightarrow> search_env \<Rightarrow> datetime \<Rightarrow> string \<Rightarrow> alert_db \<Rightarrow>
    (alert_db \<times> alert_event list res) option" where
  "evaluate sha show_float env now sid db = (case get_search sid db of
     Inl e \<Rightarrow> Some (db, Inl e)
   | Inr saved \<Rightarrow>
       if \<not> sv_enabled saved then Some (db, Inr [])
       else Option.bind (all_matching_ids sha show_float env now (sv_query saved)) (\<lambda>found. case found of
         Inl e \<Rightarrow> Some (db, Inl e)
       | Inr cids \<Rightarrow> (case is_primed (sv_saved_search_id saved) db of
           Inl e \<Rightarrow> Some (db, Inl e)
         | Inr primed \<Rightarrow>
             if \<not> primed
             then Some (transaction (\<lambda>db. res_bind (establish_baseline saved cids now db) (\<lambda>db'. Inr (db', []))) db)
             else Some (transaction (mark_matches sha saved cids now) db))))"

fun evaluate_each :: "(string \<Rightarrow> string) \<Rightarrow> (rat \<Rightarrow> string) \<Rightarrow> search_env \<Rightarrow> datetime \<Rightarrow> saved_search list \<Rightarrow> alert_db \<Rightarrow>
    (alert_db \<times> alert_event list res) option" where
  "evaluate_each sha show_float env now [] db = Some (db, Inr [])"
| "evaluate_each sha show_float env now (s # ss) db =
     Option.bind (evaluate sha show_float env now (sv_saved_search_id s) db) (\<lambda>(db1, result). case result of
       Inl e \<Rightarrow> Some (db1, Inl e)
     | Inr events \<Rightarrow> map_option (\<lambda>(db2, rest). (db2, res_bind rest (\<lambda>more. Inr (events @ more))))
         (evaluate_each sha show_float env now ss db1))"

definition evaluate_all :: "(string \<Rightarrow> string) \<Rightarrow> (rat \<Rightarrow> string) \<Rightarrow> search_env \<Rightarrow> datetime \<Rightarrow> alert_db \<Rightarrow>
    (alert_db \<times> alert_event list res) option" where
  "evaluate_all sha show_float env now db = evaluate_each sha show_float env now (enabled_searches db) db"

section \<open>The loops\<close>

lemma add_match_Inr:
  "add_match s occurred cid db = Inr db' \<longleftrightarrow> list_ex (\<lambda>r. sx_id r = sv_saved_search_id s) (ab_searches db) \<and>
     db' = db\<lparr>ab_matches := ab_matches db @ [\<lparr>am_saved_search_id = sv_saved_search_id s,
       am_saved_search_version = sv_version s, am_canonical_id = cid, am_first_matched_at = occurred\<rparr>]\<rparr>"
  by (auto simp: add_match_def)

lemma event_key_new [simp]: "event_key (new_alert sha s occurred cid) = key_of s cid"
  by (simp add: event_key_def new_alert_def key_of_def)

definition event_keys :: "alert_db \<Rightarrow> (string \<times> int \<times> string) list" where
  "event_keys db = map event_key (ab_outbox db)"

text \<open>Every alert is a match of its search version, recorded once.\<close>

definition alerts_ok :: "alert_db \<Rightarrow> bool" where
  "alerts_ok db \<longleftrightarrow> distinct (match_keys db) \<and> distinct (event_keys db) \<and> set (event_keys db) \<subseteq> set (match_keys db)"

lemma add_match_keys:
  assumes "add_match s occurred cid db = Inr db'"
  shows "match_keys db' = match_keys db @ [key_of s cid]" "ab_outbox db' = ab_outbox db" "ab_searches db' = ab_searches db"
  using assms by (auto simp: add_match_Inr match_keys_def match_key_def key_of_def)

lemma add_alert_Inr:
  assumes "add_alert e db = Inr db'"
  shows "match_keys db' = match_keys db" "ab_outbox db' = ab_outbox db @ [e]" "ab_searches db' = ab_searches db"
    "event_key e \<notin> set (event_keys db)"
  using assms by (auto simp: add_alert_def match_keys_def event_keys_def)

lemma baseline_loop_result:
  assumes "baseline_loop s occurred cids db = Inr db'"
  shows "ab_outbox db' = ab_outbox db \<and> ab_searches db' = ab_searches db \<and>
     set (match_keys db') = set (match_keys db) \<union> key_of s ` set cids \<and>
     (distinct (match_keys db) \<longrightarrow> distinct (match_keys db'))"
  using assms
proof (induction cids arbitrary: db)
  case (Cons cid cids)
  then obtain d where d: "(if matched s cid db then Inr db else add_match s occurred cid db) = Inr d"
    "baseline_loop s occurred cids d = Inr db'" by auto
  have "ab_outbox d = ab_outbox db \<and> ab_searches d = ab_searches db \<and>
      set (match_keys d) = insert (key_of s cid) (set (match_keys db)) \<and> (distinct (match_keys db) \<longrightarrow> distinct (match_keys d))"
  proof (cases "matched s cid db")
    case True
    with d(1) show ?thesis by (simp add: matched_def insert_absorb)
  next
    case False
    with d(1) have "add_match s occurred cid db = Inr d" by simp
    from add_match_keys [OF this] False show ?thesis by (simp add: matched_def)
  qed
  with Cons.IH [OF d(2)] show ?case by simp
qed auto

lemma mark_loop_result:
  assumes "mark_loop sha s occurred cids db = Inr (db', created)"
  shows "\<exists>fresh. created = map (new_alert sha s occurred) fresh \<and> distinct fresh \<and>
     set fresh = {cid \<in> set cids. \<not> matched s cid db} \<and>
     (distinct cids \<longrightarrow> fresh = filter (\<lambda>cid. \<not> matched s cid db) cids) \<and>
     match_keys db' = match_keys db @ map (key_of s) fresh \<and> ab_outbox db' = ab_outbox db @ created \<and>
     ab_searches db' = ab_searches db"
  using assms
proof (induction cids arbitrary: db created)
  case (Cons cid cids)
  show ?case
  proof (cases "matched s cid db")
    case True
    with Cons.prems have "mark_loop sha s occurred cids db = Inr (db', created)" by simp
    from Cons.IH [OF this] True show ?thesis by fastforce
  next
    case False
    with Cons.prems obtain db1 db2 rest where st: "add_match s occurred cid db = Inr db1"
      "add_alert (new_alert sha s occurred cid) db1 = Inr db2" "mark_loop sha s occurred cids db2 = Inr (db', rest)"
      and created: "created = new_alert sha s occurred cid # rest" by auto
    have keys: "match_keys db2 = match_keys db @ [key_of s cid]" "ab_outbox db2 = ab_outbox db @ [new_alert sha s occurred cid]"
      "ab_searches db2 = ab_searches db"
      using add_match_keys [OF st(1)] add_alert_Inr [OF st(2)] by simp_all
    have m: "matched s c db2 \<longleftrightarrow> matched s c db \<or> c = cid" for c
      by (auto simp: matched_def keys key_of_def)
    from Cons.IH [OF st(3)] obtain fresh where fresh: "rest = map (new_alert sha s occurred) fresh" "distinct fresh"
      "set fresh = {c \<in> set cids. \<not> matched s c db2}"
      "distinct cids \<longrightarrow> fresh = filter (\<lambda>c. \<not> matched s c db2) cids"
      "match_keys db' = match_keys db2 @ map (key_of s) fresh" "ab_outbox db' = ab_outbox db2 @ rest"
      "ab_searches db' = ab_searches db2" by blast
    have "filter (\<lambda>c. \<not> matched s c db2) cids = filter (\<lambda>c. \<not> matched s c db) cids" if "cid \<notin> set cids"
      using that by (intro filter_cong) (auto simp: m)
    with fresh created keys False show ?thesis
      by (intro exI [of _ "cid # fresh"]) (auto simp: m)
  qed
qed auto

section \<open>Invariant\<close>

lemma alerts_ok_empty: "alerts_ok empty_alerts"
  by (simp add: alerts_ok_def empty_alerts_def match_keys_def event_keys_def)

lemma keys_frame [simp]: "match_keys (db\<lparr>ab_searches := ss\<rparr>) = match_keys db" "event_keys (db\<lparr>ab_searches := ss\<rparr>) = event_keys db"
  by (simp_all add: match_keys_def event_keys_def)

lemma alerts_ok_frame [simp]: "alerts_ok (db\<lparr>ab_searches := ss\<rparr>) = alerts_ok db"
  by (simp add: alerts_ok_def)

lemma save_search_ok [keeps]: "alerts_ok db \<Longrightarrow> save_search sha show_float now saved db = Inr (db', x) \<Longrightarrow> alerts_ok db'"
  by (auto simp: save_search_def Let_def split: option.splits)

lemma establish_baseline_result:
  assumes "establish_baseline s cids occurred_at db = Inr db'"
  shows "ab_outbox db' = ab_outbox db" "set (match_keys db') = set (match_keys db) \<union> key_of s ` set cids"
    "distinct (match_keys db) \<Longrightarrow> distinct (match_keys db')"
  using assms by (auto simp: establish_baseline_def dest: baseline_loop_result)

lemma establish_baseline_ok [keeps]: "alerts_ok db \<Longrightarrow> establish_baseline s cids occurred_at db = Inr db' \<Longrightarrow> alerts_ok db'"
  using establish_baseline_result [of s cids occurred_at db db'] by (auto simp: alerts_ok_def event_keys_def)

lemma mark_matches_ok [keeps]:
  assumes ok: "alerts_ok db" and m: "mark_matches sha s cids occurred_at db = Inr (db', created)"
  shows "alerts_ok db'"
proof -
  from m have "mark_loop sha s (isoformat occurred_at) cids db = Inr (db', created)" by (auto simp: mark_matches_def)
  from mark_loop_result [OF this] obtain fresh where f: "created = map (new_alert sha s (isoformat occurred_at)) fresh"
    "distinct fresh" "set fresh = {cid \<in> set cids. \<not> matched s cid db}" "match_keys db' = match_keys db @ map (key_of s) fresh"
    "ab_outbox db' = ab_outbox db @ created" by blast
  have events: "event_keys db' = event_keys db @ map (key_of s) fresh"
    by (simp add: event_keys_def f(1,5) comp_def)
  have "distinct (map (key_of s) fresh)" using f(2) by (simp add: distinct_map key_of_def inj_on_def)
  moreover have "set (map (key_of s) fresh) \<inter> set (match_keys db) = {}" using f(3) by (auto simp: matched_def)
  ultimately show ?thesis using ok by (auto simp: alerts_ok_def events f(4))
qed

lemma evaluate_cases:
  assumes "evaluate sha show_float env now sid db = Some (db', r)"
  shows "db' = db \<or> (\<exists>s cids. establish_baseline s cids now db = Inr db') \<or>
     (\<exists>s cids created. mark_matches sha s cids now db = Inr (db', created))"
proof (cases "get_search sid db")
  case (Inr s)
  note s = this
  show ?thesis
  proof (cases "sv_enabled s")
    case True
    with assms Inr obtain found where found: "all_matching_ids sha show_float env now (sv_query s) = Some found"
      by (auto simp: evaluate_def Option.bind_eq_Some_conv)
    show ?thesis
    proof (cases found)
      case (Inr cids)
      show ?thesis
      proof (cases "is_primed (sv_saved_search_id s) db")
        case (Inr primed)
        with assms s True found \<open>found = Inr cids\<close> show ?thesis
          by (cases primed) (auto simp: evaluate_def transaction_def split: sum.splits)
      qed (use assms s True found Inr in \<open>simp add: evaluate_def\<close>)
    qed (use assms s True found in \<open>simp add: evaluate_def\<close>)
  qed (use assms s in \<open>simp add: evaluate_def\<close>)
qed (use assms in \<open>simp add: evaluate_def\<close>)

lemma evaluate_ok [keeps]:
  assumes "alerts_ok db" "evaluate sha show_float env now sid db = Some (db', r)"
  shows "alerts_ok db'"
  using evaluate_cases [OF assms(2)] assms(1) establish_baseline_ok mark_matches_ok by blast

lemma evaluate_each_ok [keeps]:
  assumes "alerts_ok db" "evaluate_each sha show_float env now ss db = Some (db', r)"
  shows "alerts_ok db'"
  using assms
proof (induction ss arbitrary: db r)
  case (Cons s ss)
  from Cons.prems(2) obtain db1 result where e: "evaluate sha show_float env now (sv_saved_search_id s) db = Some (db1, result)"
    by (auto simp: Option.bind_eq_Some_conv)
  have ok: "alerts_ok db1" by (rule evaluate_ok [OF Cons.prems(1) e])
  show ?case
  proof (cases result)
    case (Inl x)
    with e ok Cons.prems(2) show ?thesis by auto
  next
    case (Inr events)
    with e Cons.prems(2) Cons.IH [OF ok] show ?thesis by auto
  qed
qed auto

text \<open>Any sequence of calls on the store and of evaluations, over changing inventories.\<close>

inductive alert_runs :: "(string \<Rightarrow> string) \<Rightarrow> (rat \<Rightarrow> string) \<Rightarrow> alert_db \<Rightarrow> alert_db \<Rightarrow> bool"
  for sha show_float db0 where
  start: "alert_runs sha show_float db0 db0"
| save: "alert_runs sha show_float db0 db \<Longrightarrow> save_search sha show_float now saved db = Inr (db', s) \<Longrightarrow>
    alert_runs sha show_float db0 db'"
| baseline: "alert_runs sha show_float db0 db \<Longrightarrow> establish_baseline s cids now db = Inr db' \<Longrightarrow>
    alert_runs sha show_float db0 db'"
| mark: "alert_runs sha show_float db0 db \<Longrightarrow> mark_matches sha s cids now db = Inr (db', created) \<Longrightarrow>
    alert_runs sha show_float db0 db'"
| eval: "alert_runs sha show_float db0 db \<Longrightarrow> evaluate sha show_float env now sid db = Some (db', r) \<Longrightarrow>
    alert_runs sha show_float db0 db'"
| eval_all: "alert_runs sha show_float db0 db \<Longrightarrow> evaluate_all sha show_float env now db = Some (db', r) \<Longrightarrow>
    alert_runs sha show_float db0 db'"

lemma alert_runs_ok:
  assumes "alert_runs sha show_float db0 db" "alerts_ok db0" shows "alerts_ok db"
  using assms
  by (induction rule: alert_runs.induct) (auto intro: keeps simp: evaluate_all_def)

section \<open>What an evaluation does\<close>

lemma search_row_of_Inr: "search_row_of sid db = Inr r \<Longrightarrow> sx_id r = sid"
  by (auto simp: search_row_of_def find_Some_iff)

lemma get_search_id: "get_search sid db = Inr s \<Longrightarrow> sv_saved_search_id s = sid"
  by (auto simp: get_search_def sx_id_def dest!: search_row_of_Inr)

lemma mark_loop_matches:
  assumes "mark_loop sha s occurred cids db = Inr (db', created)"
  shows "ab_searches db' = ab_searches db \<and> (\<forall>cid \<in> set cids. matched s cid db')"
proof -
  from mark_loop_result [OF assms] obtain fresh where f: "set fresh = {cid \<in> set cids. \<not> matched s cid db}"
    "match_keys db' = match_keys db @ map (key_of s) fresh" "ab_searches db' = ab_searches db" by blast
  have "matched s cid db'" if "cid \<in> set cids" for cid
  proof (cases "matched s cid db")
    case False
    with that f(1) have "cid \<in> set fresh" by blast
    then show ?thesis by (simp add: matched_def f(2))
  qed (simp add: matched_def f(2))
  with f(3) show ?thesis by blast
qed

lemma mark_loop_nothing:
  "\<forall>cid \<in> set cids. matched s cid db \<and> \<not> blank cid \<Longrightarrow> mark_loop sha s occurred cids db = Inr (db, [])"
  by (induction cids) auto

lemma mark_loop_not_blank: "mark_loop sha s occurred cids db = Inr (db', created) \<Longrightarrow> \<forall>cid \<in> set cids. \<not> blank cid"
  by (induction cids arbitrary: db created) (auto split: if_splits)

lemma baseline_loop_not_blank: "baseline_loop s occurred cids db = Inr db' \<Longrightarrow> \<forall>cid \<in> set cids. \<not> blank cid"
  by (induction cids arbitrary: db) auto

text \<open>An evaluation of an enabled search whose candidates can be scored.\<close>

lemma evaluate_eq:
  assumes "get_search sid db = Inr s" "sv_enabled s"
    and "distinct (map cn_canonical_id (iv_canonicals (se_store env)))"
    and "eligible_results env now ((sv_query s)\<lparr>sq_page_size := 100, sq_cursor := None\<rparr>) = Inr rs"
    and "is_primed sid db = Inr primed"
  shows "evaluate sha show_float env now sid db = Some (if primed
      then transaction (mark_matches sha s (map rs_canonical_id rs) now) db
      else transaction (\<lambda>db. res_bind (establish_baseline s (map rs_canonical_id rs) now db) (\<lambda>db'. Inr (db', []))) db)"
  using assms all_matching_ids_eq [OF assms(3), of sha show_float now "sv_query s"] get_search_id [OF assms(1)]
  by (simp add: evaluate_def)

lemma evaluate_Inr:
  assumes "evaluate sha show_float env now sid db = Some (db', Inr events)"
    and d: "distinct (map cn_canonical_id (iv_canonicals (se_store env)))"
    and s: "get_search sid db = Inr s" "sv_enabled s"
  shows "\<exists>rs primed. eligible_results env now ((sv_query s)\<lparr>sq_page_size := 100, sq_cursor := None\<rparr>) = Inr rs \<and>
     is_primed sid db = Inr primed \<and>
     (if primed then mark_matches sha s (map rs_canonical_id rs) now db = Inr (db', events)
      else establish_baseline s (map rs_canonical_id rs) now db = Inr db' \<and> events = [])"
proof -
  let ?e = "eligible_results env now ((sv_query s)\<lparr>sq_page_size := 100, sq_cursor := None\<rparr>)"
  from s(1) obtain primed where p: "is_primed sid db = Inr primed" by (auto simp: get_search_def is_primed_def)
  obtain rs where rs: "?e = Inr rs"
    using assms(1) s all_matching_ids_eq [OF d, of sha show_float now "sv_query s"]
    by (cases ?e) (simp_all add: evaluate_def)
  from assms(1) rs p evaluate_eq [OF s d rs p, of sha show_float] show ?thesis
    by (auto simp: transaction_Inr split: if_splits)
qed

text \<open>A primed search alerts exactly the eligible listings it has not matched, best first.\<close>

lemma evaluate_primed:
  assumes e: "evaluate sha show_float env now sid db = Some (db', Inr events)"
    and d: "distinct (map cn_canonical_id (iv_canonicals (se_store env)))"
    and s: "get_search sid db = Inr s" "sv_enabled s" "is_primed sid db = Inr True"
  shows "\<exists>rs. eligible_results env now ((sv_query s)\<lparr>sq_page_size := 100, sq_cursor := None\<rparr>) = Inr rs \<and>
     map al_canonical_id events = filter (\<lambda>cid. \<not> matched s cid db) (map rs_canonical_id rs) \<and>
     ab_outbox db' = ab_outbox db @ events"
proof -
  from evaluate_Inr [OF e d s(1,2)] s(3) obtain rs where
    rs: "eligible_results env now ((sv_query s)\<lparr>sq_page_size := 100, sq_cursor := None\<rparr>) = Inr rs" and
    m: "mark_matches sha s (map rs_canonical_id rs) now db = Inr (db', events)" by auto
  have dist: "distinct (map rs_canonical_id rs)" by (rule eligible_distinct(1) [OF rs d])
  from m have "mark_loop sha s (isoformat now) (map rs_canonical_id rs) db = Inr (db', events)"
    by (auto simp: mark_matches_def)
  from mark_loop_result [OF this] dist show ?thesis
    using rs by (auto simp: comp_def new_alert_def)
qed

text \<open>The first evaluation of a search version alerts nothing and records what it saw.\<close>

lemma evaluate_unprimed:
  assumes e: "evaluate sha show_float env now sid db = Some (db', Inr events)"
    and d: "distinct (map cn_canonical_id (iv_canonicals (se_store env)))"
    and s: "get_search sid db = Inr s" "sv_enabled s" "is_primed sid db = Inr False"
  shows "events = [] \<and> ab_outbox db' = ab_outbox db"
  using evaluate_Inr [OF e d s(1,2)] s(3) establish_baseline_result by fastforce

lemma evaluate_marks:
  assumes e: "evaluate sha show_float env now sid db = Some (db', Inr events)"
    and d: "distinct (map cn_canonical_id (iv_canonicals (se_store env)))"
    and s: "get_search sid db = Inr s" "sv_enabled s"
    and rs: "eligible_results env now ((sv_query s)\<lparr>sq_page_size := 100, sq_cursor := None\<rparr>) = Inr rs"
  shows "get_search sid db' = Inr s \<and> is_primed sid db' = Inr True \<and> writable_at s now = Inr () \<and>
     (\<forall>cid \<in> set (map rs_canonical_id rs). matched s cid db' \<and> \<not> blank cid)"
proof -
  from evaluate_Inr [OF e d s] rs obtain primed where p: "is_primed sid db = Inr primed" and
    step: "if primed then mark_matches sha s (map rs_canonical_id rs) now db = Inr (db', events)
      else establish_baseline s (map rs_canonical_id rs) now db = Inr db' \<and> events = []" by auto
  note id = get_search_id [OF s(1)]
  show ?thesis
  proof (cases primed)
    case True
    with step have m: "writable_at s now = Inr ()" "mark_loop sha s (isoformat now) (map rs_canonical_id rs) db = Inr (db', events)"
      by (auto simp: mark_matches_def)
    from mark_loop_matches [OF m(2)] have same: "ab_searches db' = ab_searches db" and
      keys: "\<forall>cid \<in> set (map rs_canonical_id rs). matched s cid db'" by blast+
    from same s(1) p True have "get_search sid db' = Inr s" "is_primed sid db' = Inr True"
      by (simp_all add: get_search_def is_primed_def search_row_of_def)
    with m keys mark_loop_not_blank [OF m(2)] show ?thesis by blast
  next
    case False
    with step obtain db1 where b: "writable_at s now = Inr ()"
      "baseline_loop s (isoformat now) (map rs_canonical_id rs) db = Inr db1"
      "db' = db1\<lparr>ab_searches := update_where (\<lambda>r. sx_id r = sid)
        (\<lambda>r. r\<lparr>sx_primed := True, sx_updated_at := isoformat now\<rparr>) (ab_searches db1)\<rparr>"
      by (auto simp: establish_baseline_def id)
    from s(1) obtain r where r: "find (\<lambda>r. sx_id r = sid) (ab_searches db) = Some r" "sx_search r = s"
      by (auto simp: get_search_def search_row_of_def)
    have "find (\<lambda>r. sx_id r = sid) (update_where (\<lambda>r. sx_id r = sid) f xs) = map_option f (find (\<lambda>r. sx_id r = sid) xs)"
      if "\<And>r. sx_id (f r) = sx_id r" for f xs
      by (induction xs) (simp_all add: update_where_def that)
    with r b(3) baseline_loop_result [OF b(2)] have "get_search sid db' = Inr s" "is_primed sid db' = Inr True"
      by (simp_all add: get_search_def is_primed_def search_row_of_def sx_id_def)
    moreover have "\<forall>cid \<in> set (map rs_canonical_id rs). matched s cid db'"
      using baseline_loop_result [OF b(2)] by (auto simp: matched_def b(3))
    ultimately show ?thesis using b(1) baseline_loop_not_blank [OF b(2)] by blast
  qed
qed

text \<open>Evaluating again changes nothing and alerts nothing.\<close>

lemma evaluate_again:
  assumes e: "evaluate sha show_float env now sid db = Some (db', Inr events)"
    and d: "distinct (map cn_canonical_id (iv_canonicals (se_store env)))"
  shows "evaluate sha show_float env now sid db' = Some (db', Inr [])"
proof -
  from e obtain s where s: "get_search sid db = Inr s" by (cases "get_search sid db") (auto simp: evaluate_def)
  show ?thesis
  proof (cases "sv_enabled s")
    case False
    with e s show ?thesis by (auto simp: evaluate_def)
  next
    case True
    from evaluate_Inr [OF e d s True] obtain rs where
      rs: "eligible_results env now ((sv_query s)\<lparr>sq_page_size := 100, sq_cursor := None\<rparr>) = Inr rs" by blast
    note m = evaluate_marks [OF e d s True rs]
    then have "mark_matches sha s (map rs_canonical_id rs) now db' = Inr (db', [])"
      using get_search_id [OF s] by (simp add: mark_matches_def mark_loop_nothing)
    with m evaluate_eq [OF _ True d rs, of sid db' True sha show_float] show ?thesis
      by (simp add: transaction_def)
  qed
qed

end
