(* ===== verification/Presentation.thy ===== *)
theory Presentation
  imports Review_Queue Alerts
begin

text \<open>
  The read-only surfaces of the real-estate mission: consumer, publisher and operator projections
  (src/missions/real_estate/presentation.py), listing cards (cards.py) and public discovery documents
  and sitemap (discovery.py). \<open>urlsplit\<close>, \<open>html.unescape\<close> and the XML writer of the standard
  library are arguments.
\<close>

section \<open>Projections\<close>

datatype freshness_code = FRESH_LISTING | STALE_LISTING

datatype trust_code = TRUST_UNKNOWN | EVIDENCE_AVAILABLE | NEEDS_REVIEW

datatype evidence_currency = EVIDENCE_CURRENT | EVIDENCE_STALE

datatype delivery_code = INTERNAL_EVENT_ONLY | EXTERNAL_DELIVERY_CONFIRMED

record consumer_listing =
  cl_canonical_id :: string
  cl_title :: string
  cl_city :: string
  cl_locality :: string
  cl_price_minor :: int
  cl_area_sqm :: rat
  cl_bedrooms :: "int option"
  cl_state :: string
  cl_last_verified_at :: string
  cl_freshness_code :: freshness_code
  cl_disclosure_score :: rat
  cl_source_count :: nat
  cl_rights_bases :: "string list"
  cl_trust_code :: trust_code
  cl_verification_badge :: bool
  cl_message_codes :: "string list"

record publisher_submission =
  ps_listing_id :: string
  ps_source_ref :: string
  ps_rights_basis :: string
  ps_rights_accepted :: bool
  ps_submitted_state :: string
  ps_missing_disclosures :: "string list"
  ps_allowed_lifecycle_actions :: "string list"
  ps_blocking_codes :: "string list"

record publisher_listing =
  pl_canonical_id :: string
  pl_listing_id :: string
  pl_source_ref :: string
  pl_rights_basis :: string
  pl_rights_accepted :: bool
  pl_state :: string
  pl_missing_disclosures :: "string list"
  pl_allowed_lifecycle_actions :: "string list"
  pl_message_codes :: "string list"

record alert_status =
  ax_event_id :: string
  ax_saved_search_id :: string
  ax_canonical_id :: string
  ax_internal_status :: string
  ax_delivery_code :: delivery_code
  ax_message_codes :: "string list"

record operator_review =
  ov_case_id :: string
  ov_finding_id :: string
  ov_canonical_id :: string
  ov_severity :: anomaly_severity
  ov_status :: review_status
  ov_assigned_reviewer :: "string option"
  ov_evidence_refs :: "string list"
  ov_evidence_currency :: evidence_currency
  ov_message_codes :: "string list"

text \<open>The service: the stores it reads, its detector and its freshness policy.\<close>

record presentation =
  pr_inventory :: inventory
  pr_review :: "review_db option"
  pr_detector :: detector
  pr_policy :: freshness_policy

definition code_if :: "bool \<Rightarrow> string \<Rightarrow> string list" where
  "code_if b code = (if b then [code] else [])"

definition high_impact_open :: "string \<Rightarrow> review_case \<Rightarrow> bool" where
  "high_impact_open cid c \<longleftrightarrow> an_canonical_id (rc_finding c) = cid \<and> rc_status c \<in> {OPEN, IN_REVIEW} \<and>
     high_impact (rc_finding c)"

definition has_active_high_impact_review :: "presentation \<Rightarrow> string \<Rightarrow> bool res" where
  "has_active_high_impact_review p cid = (case pr_review p of None \<Rightarrow> Inr False
     | Some rdb \<Rightarrow> res_bind (open_cases rdb) (\<lambda>cs. Inr (list_ex (high_impact_open cid) cs)))"

definition consumer_projection :: "presentation \<Rightarrow> datetime \<Rightarrow> string \<Rightarrow> consumer_listing res" where
  "consumer_projection p now cid =
     res_bind (raise_if (naive now) (ValueError ''presentation time must be timezone-aware'')) (\<lambda>_.
     res_bind (canonical_by_id cid (pr_inventory p)) (\<lambda>row.
     res_bind (source_record (cn_active_source row) (pr_inventory p)) (\<lambda>source.
     let c = candidate_from_source source (cn_state row); members = source_members cid (pr_inventory p) in
     res_bind (freshness_score (pr_policy p) now c) (\<lambda>freshness.
     res_bind (completeness_score c) (\<lambda>disclosure.
     let evidence = publisher_trust (li_publisher_id c) (pr_inventory p);
       code = (if 0 < freshness then FRESH_LISTING else STALE_LISTING) in
     res_bind (has_active_high_impact_review p cid) (\<lambda>review.
     Inr \<lparr>cl_canonical_id = cid, cl_title = cn_title row, cl_city = cn_city row, cl_locality = cn_locality row,
       cl_price_minor = cn_price_minor row, cl_area_sqm = cn_area_sqm row, cl_bedrooms = cn_bedrooms row,
       cl_state = listing_value (cn_state row), cl_last_verified_at = isoformat (cn_last_verified_at row),
       cl_freshness_code = code, cl_disclosure_score = disclosure, cl_source_count = length members,
       cl_rights_bases = sorted_set (map (\<lambda>s. rights_value (li_rights_basis (sr_listing s))) members),
       cl_trust_code = (if review then NEEDS_REVIEW else if evidence \<noteq> None then EVIDENCE_AVAILABLE else TRUST_UNKNOWN),
       cl_verification_badge = False,
       cl_message_codes = code_if (code = STALE_LISTING) ''LISTING_STALE'' @ code_if (disclosure < 1) ''DISCLOSURE_INCOMPLETE'' @
         code_if review ''TRUST_REVIEW_PENDING'' @ code_if (evidence \<noteq> None) ''TRUST_EVIDENCE_AVAILABLE''\<rparr>))))))"

definition missing_disclosures :: "listing \<Rightarrow> string list" where
  "missing_disclosures c =
     code_if (blank (li_title c)) ''TITLE'' @ code_if (blank (li_description c)) ''DESCRIPTION'' @ code_if (blank (li_city c)) ''CITY'' @
     code_if (blank (li_locality c)) ''LOCALITY'' @ code_if (blank (li_geo_cell c)) ''GEO_CELL'' @
     code_if (li_price_minor c \<le> 0) ''PRICE'' @ code_if (li_bedrooms c = None) ''BEDROOMS'' @
     code_if (length (li_image_hashes c) < 3) ''IMAGES''"

definition submission_projection :: "listing \<Rightarrow> publisher_submission res" where
  "submission_projection c = res_bind (listing_validate c) (\<lambda>_.
     let accepted = li_rights_basis c \<in> set allowed_rights; missing = missing_disclosures c in
     Inr \<lparr>ps_listing_id = li_listing_id c, ps_source_ref = li_source_ref c, ps_rights_basis = rights_value (li_rights_basis c),
       ps_rights_accepted = accepted, ps_submitted_state = listing_value (li_state c), ps_missing_disclosures = missing,
       ps_allowed_lifecycle_actions = (if \<not> accepted then [] else map listing_value (allowed_listing_transitions (li_state c))),
       ps_blocking_codes = code_if (\<not> accepted) ''RIGHTS_BASIS_REJECTED'' @ code_if (missing \<noteq> []) ''DISCLOSURE_ACTION_REQUIRED''\<rparr>)"

definition publisher_projection :: "inventory \<Rightarrow> string \<Rightarrow> publisher_listing res" where
  "publisher_projection db cid =
     res_bind (canonical_by_id cid db) (\<lambda>row.
     res_bind (source_record (cn_active_source row) db) (\<lambda>source.
     let rights = li_rights_basis (sr_listing source); accepted = rights \<in> set allowed_rights;
       missing = missing_disclosures (candidate_from_source source (li_state (sr_listing source))) in
     Inr \<lparr>pl_canonical_id = cid, pl_listing_id = li_listing_id (sr_listing source),
       pl_source_ref = li_source_ref (sr_listing source), pl_rights_basis = rights_value rights,
       pl_rights_accepted = accepted, pl_state = listing_value (cn_state row), pl_missing_disclosures = missing,
       pl_allowed_lifecycle_actions = map listing_value (allowed_listing_transitions (cn_state row)),
       pl_message_codes = code_if (\<not> accepted) ''RIGHTS_BASIS_REJECTED'' @ code_if (missing \<noteq> []) ''DISCLOSURE_ACTION_REQUIRED''\<rparr>))"

definition alert_projection :: "alert_event \<Rightarrow> alert_status" where
  "alert_projection e = \<lparr>ax_event_id = al_event_id e, ax_saved_search_id = al_saved_search_id e,
     ax_canonical_id = al_canonical_id e, ax_internal_status = al_status e, ax_delivery_code = INTERNAL_EVENT_ONLY,
     ax_message_codes = (if al_status e = ''PENDING_INTERNAL'' then [''ALERT_NOT_EXTERNALLY_DELIVERED'']
       else [''ALERT_DELIVERY_UNVERIFIED''])\<rparr>"

definition operator_projection :: "(string \<Rightarrow> string) \<Rightarrow> presentation \<Rightarrow> review_case \<Rightarrow> operator_review res" where
  "operator_projection sha p c =
     res_bind (detect sha (pr_detector p) (pr_inventory p) (an_canonical_id (rc_finding c))) (\<lambda>current.
     let currency = (if evidence_current current (rc_finding c) then EVIDENCE_CURRENT else EVIDENCE_STALE) in
     Inr \<lparr>ov_case_id = rc_case_id c, ov_finding_id = an_finding_id (rc_finding c),
       ov_canonical_id = an_canonical_id (rc_finding c), ov_severity = an_severity (rc_finding c), ov_status = rc_status c,
       ov_assigned_reviewer = rc_assigned_reviewer c, ov_evidence_refs = an_evidence_refs (rc_finding c),
       ov_evidence_currency = currency,
       ov_message_codes = ''ANOMALY_REVIEW_REQUIRED'' # code_if (currency = EVIDENCE_STALE) ''ANOMALY_EVIDENCE_STALE''\<rparr>)"

section \<open>Cards\<close>

record listing_card =
  cd_canonical_id :: string
  cd_title :: string
  cd_city :: string
  cd_locality :: string
  cd_price_minor :: int
  cd_area_sqm :: rat
  cd_bedrooms :: "int option"
  cd_freshness_code :: freshness_code
  cd_trust_code :: trust_code
  cd_verification_badge :: bool
  cd_message_codes :: "string list"

definition project_card :: "presentation \<Rightarrow> datetime \<Rightarrow> string \<Rightarrow> listing_card res" where
  "project_card p now cid = res_bind (consumer_projection p now cid) (\<lambda>d.
     Inr \<lparr>cd_canonical_id = cl_canonical_id d, cd_title = cl_title d, cd_city = cl_city d, cd_locality = cl_locality d,
       cd_price_minor = cl_price_minor d, cd_area_sqm = cl_area_sqm d, cd_bedrooms = cl_bedrooms d,
       cd_freshness_code = cl_freshness_code d, cd_trust_code = cl_trust_code d,
       cd_verification_badge = cl_verification_badge d, cd_message_codes = cl_message_codes d\<rparr>)"

section \<open>Discovery\<close>

definition allowed_public_rights :: "string list" where
  "allowed_public_rights = map rights_value allowed_rights"

definition index_reasons :: "string \<Rightarrow> freshness_code \<Rightarrow> string list \<Rightarrow> string list" where
  "index_reasons st freshness rights =
     code_if (st \<notin> {listing_value ACTIVE, listing_value UNDER_OFFER}) ''STATE_NOT_PUBLIC'' @
     code_if (freshness = STALE_LISTING) ''STALE'' @
     code_if (rights = [] \<or> list_ex (\<lambda>r. r \<notin> set allowed_public_rights) rights) ''RIGHTS_NOT_PUBLIC''"

record discovery_document =
  dd_canonical_id :: string
  dd_route_path :: string
  dd_canonical_url :: string
  dd_indexable :: bool
  dd_robots_directive :: string
  dd_noindex_reasons :: "string list"
  dd_title :: string
  dd_description :: string
  dd_city :: string
  dd_locality :: string
  dd_price_minor :: int
  dd_lastmod :: string
  dd_structured_data_profile :: string
  dd_structured_data :: "(string \<times> string) list"

record sitemap_entry =
  sm_canonical_id :: string
  sm_loc :: string
  sm_lastmod :: string

definition lower_hex :: "char \<Rightarrow> bool" where
  "lower_hex c \<longleftrightarrow> is_digit c \<or> c \<in> set ''abcdef''"

definition route_for :: "string \<Rightarrow> string res" where
  "route_for cid = (if \<not> (prefixed ''CAN-'' cid \<and> length cid = 24 \<and> list_all lower_hex (drop 4 cid))
     then Inl (ValueError ''canonical_id is not a valid public route identifier'') else Inr (''/listing/'' @ cid))"

text \<open>What \<open>urlsplit\<close> returns; it raises \<open>ValueError\<close> on some texts.\<close>

record url_parts =
  up_scheme :: string
  up_netloc :: string
  up_hostname :: "string option"
  up_username :: "string option"
  up_password :: "string option"
  up_path :: string
  up_query :: string
  up_fragment :: string

definition validate_base_url :: "(string \<Rightarrow> url_parts res) \<Rightarrow> string \<Rightarrow> string res" where
  "validate_base_url urlsplit v = res_bind (urlsplit v) (\<lambda>u.
     if up_scheme u \<noteq> ''https'' \<or> up_hostname u = None \<or> up_hostname u = Some [] \<or> up_username u \<noteq> None \<or>
       up_password u \<noteq> None \<or> up_query u \<noteq> [] \<or> up_fragment u \<noteq> []
     then Inl (ValueError ''public_base_url must be an HTTPS origin without credentials, query or fragment'')
     else Inr (''https://'' @ up_netloc u @ rev (dropWhile (\<lambda>c. c = CHR ''/'') (rev (up_path u)))))"

text \<open>\<open><[^>]*>\<close> becomes a space; an opening that is never closed stays.\<close>

function strip_tags :: "string \<Rightarrow> string" where
  "strip_tags [] = []"
| "strip_tags (c # s) = (if c = CHR ''<'' \<and> CHR ''>'' \<in> set s
     then CHR '' '' # strip_tags (drop 1 (dropWhile (\<lambda>d. d \<noteq> CHR ''>'') s)) else c # strip_tags s)"
  by pat_completeness auto

termination
proof (relation "measure length", simp)
  fix c :: char and s :: string
  have "length (dropWhile (\<lambda>d. d \<noteq> CHR ''>'') s) \<le> length s" by (rule length_dropWhile_le)
  then show "(drop 1 (dropWhile (\<lambda>d. d \<noteq> CHR ''>'') s), c # s) \<in> measure length" by simp
qed simp

definition is_control :: "char \<Rightarrow> bool" where
  "is_control c = (let n = (of_char c :: nat) in n < 32 \<or> n = 127)"

definition plain_text :: "(string \<Rightarrow> string) \<Rightarrow> nat \<Rightarrow> string \<Rightarrow> string" where
  "plain_text unescape limit v =
     (let cleaned = squeeze (map (\<lambda>c. if is_control c then CHR '' '' else c) (strip_tags (unescape v))) in
      rev (dropWhile is_space (rev (take limit (strip cleaned)))))"

record discovery_env =
  de_presentation :: presentation
  de_base_url :: string
  de_unescape :: "string \<Rightarrow> string"

definition listing_document :: "discovery_env \<Rightarrow> datetime \<Rightarrow> string \<Rightarrow> discovery_document res" where
  "listing_document env now cid =
     res_bind (route_for cid) (\<lambda>route.
     res_bind (consumer_projection (de_presentation env) now cid) (\<lambda>detail.
     res_bind (canonical_by_id cid (pr_inventory (de_presentation env))) (\<lambda>row.
     let reasons = index_reasons (cl_state detail) (cl_freshness_code detail) (cl_rights_bases detail);
       title = plain_text (de_unescape env) 70 (cl_title detail);
       description = plain_text (de_unescape env) 160 (cn_description row);
       url = de_base_url env @ route in
     Inr \<lparr>dd_canonical_id = cid, dd_route_path = route, dd_canonical_url = url, dd_indexable = (reasons = []),
       dd_robots_directive = (if reasons = [] then ''index,follow'' else ''noindex,follow''), dd_noindex_reasons = reasons,
       dd_title = title, dd_description = description, dd_city = cl_city detail, dd_locality = cl_locality detail,
       dd_price_minor = cl_price_minor detail, dd_lastmod = cn_updated_at row,
       dd_structured_data_profile = ''schema.org-v30.0'',
       dd_structured_data = [(''@context'', ''https://schema.org''), (''@type'', ''RealEstateListing''), (''url'', url),
         (''name'', title), (''description'', description)]\<rparr>)))"

definition public_query :: inventory_query where
  "public_query = \<lparr>iq_transaction_type = None, iq_property_type = None, iq_city = None, iq_locality = None,
     iq_min_price_minor = None, iq_max_price_minor = None, iq_bedrooms = None, iq_states = [ACTIVE, UNDER_OFFER]\<rparr>"

definition entry_of :: "discovery_document \<Rightarrow> sitemap_entry" where
  "entry_of d = \<lparr>sm_canonical_id = dd_canonical_id d, sm_loc = dd_canonical_url d, sm_lastmod = dd_lastmod d\<rparr>"

definition sitemap :: "discovery_env \<Rightarrow> datetime \<Rightarrow> sitemap_entry list res" where
  "sitemap env now =
     res_bind (query_rows public_query (pr_inventory (de_presentation env))) (\<lambda>rows.
     res_bind (map_res (\<lambda>r. listing_document env now (cn_canonical_id r)) rows) (\<lambda>documents.
     Inr (sort_key sm_loc (map entry_of (filter dd_indexable documents)))))"

fun sitemap_locs :: "string option \<Rightarrow> sitemap_entry list \<Rightarrow> unit res" where
  "sitemap_locs previous [] = Inr ()"
| "sitemap_locs previous (e # es) = (if previous = Some (sm_loc e) then Inl (ValueError ''duplicate sitemap loc is not allowed'')
     else sitemap_locs (Some (sm_loc e)) es)"

text \<open>The XML text of the sorted (loc, lastmod) pairs is the standard library's.\<close>

definition render_sitemap_xml :: "((string \<times> string) list \<Rightarrow> string) \<Rightarrow> sitemap_entry list \<Rightarrow> string res" where
  "render_sitemap_xml xml entries = (let ordered = sort_key sm_loc entries in
     res_bind (sitemap_locs None ordered) (\<lambda>_. Inr (xml (map (\<lambda>e. (sm_loc e, sm_lastmod e)) ordered))))"

section \<open>What the public sees\<close>

lemma code_if_Nil [simp]: "code_if b x = [] \<longleftrightarrow> \<not> b"
  by (simp add: code_if_def)

lemma active_source_is_member:
  assumes ok: "inventory_ok sha db" and r: "r \<in> set (iv_canonicals db)"
  shows "source_members (cn_canonical_id r) db \<noteq> []"
proof -
  from ok r obtain s where s: "s \<in> set (iv_sources db)" "sr_fingerprint s = cn_fingerprint r"
    by (auto simp: inventory_ok_def rows_ok_def list_all_iff group_ok_def)
  from s(1) ok obtain m where m: "m \<in> set (iv_memberships db)" "belongs (iv_canonicals db) m s"
    by (auto simp: inventory_ok_def members_ok_def list_all2_conv_all_nth in_set_conv_nth) (metis nth_mem)
  then obtain r' where r': "r' \<in> set (iv_canonicals db)" "cn_canonical_id r' = mb_canonical_id m"
    "cn_fingerprint r' = sr_fingerprint s" "mb_source_version_id m = sr_version_id s"
    by (auto simp: belongs_def row_key_def)
  have "inj_on cn_fingerprint (set (iv_canonicals db))" using ok by (simp add: inventory_ok_def rows_ok_def distinct_map)
  with r r' s(2) have "r' = r" by (auto dest: inj_onD)
  with m(1) r' s(1) have "s \<in> set (source_members (cn_canonical_id r) db)"
    by (auto simp: source_members_def list_ex_iff)
  then show ?thesis by force
qed

lemma members_have_rights:
  assumes "inventory_ok sha db" "s \<in> set (source_members cid db)"
  shows "rights_value (li_rights_basis (sr_listing s)) \<in> set allowed_public_rights"
proof -
  from assms have "source_ok sha s" by (auto simp: source_members_def inventory_ok_def sources_ok_def list_all_iff)
  then have "li_rights_basis (sr_listing s) \<in> set allowed_rights"
    by (auto simp: source_ok_def ensure_ingestion_allowed_def)
  then show ?thesis by (auto simp: allowed_public_rights_def)
qed

definition publicly_fresh :: "presentation \<Rightarrow> datetime \<Rightarrow> canonical_row \<Rightarrow> bool" where
  "publicly_fresh p now r \<longleftrightarrow> listed r \<and>
     (case row_freshness (pr_policy p) now r (pr_inventory p) of Inl _ \<Rightarrow> False | Inr x \<Rightarrow> 0 < x)"

lemma document_indexable:
  assumes ok: "inventory_ok sha (pr_inventory (de_presentation env))"
    and r: "r \<in> set (iv_canonicals (pr_inventory (de_presentation env)))"
    and doc: "listing_document env now (cn_canonical_id r) = Inr d"
  shows "dd_indexable d \<longleftrightarrow> publicly_fresh (de_presentation env) now r"
    "dd_canonical_id d = cn_canonical_id r" "dd_canonical_url d = de_base_url env @ ''/listing/'' @ cn_canonical_id r"
proof -
  let ?p = "de_presentation env" and ?db = "pr_inventory (de_presentation env)"
  have row: "canonical_by_id (cn_canonical_id r) ?db = Inr r"
    using ok r by (intro canonical_by_id_unique) (simp_all add: inventory_ok_def rows_ok_def)
  from doc obtain detail where detail: "consumer_projection ?p now (cn_canonical_id r) = Inr detail"
    and d: "dd_indexable d \<longleftrightarrow> index_reasons (cl_state detail) (cl_freshness_code detail) (cl_rights_bases detail) = []"
      "dd_canonical_id d = cn_canonical_id r" "dd_canonical_url d = de_base_url env @ ''/listing/'' @ cn_canonical_id r"
    by (auto simp: listing_document_def route_for_def Let_def split: if_splits)
  from detail row obtain x where x: "row_freshness (pr_policy ?p) now r ?db = Inr x"
    "cl_state detail = listing_value (cn_state r)" "cl_freshness_code detail = (if 0 < x then FRESH_LISTING else STALE_LISTING)"
    "cl_rights_bases detail = sorted_set (map (\<lambda>s. rights_value (li_rights_basis (sr_listing s))) (source_members (cn_canonical_id r) ?db))"
    by (auto simp: consumer_projection_def row_freshness_def Let_def)
  have "cl_rights_bases detail \<noteq> []" using active_source_is_member [OF ok r] by (simp add: x(4))
  moreover have "\<not> list_ex (\<lambda>r. r \<notin> set allowed_public_rights) (cl_rights_bases detail)"
    using members_have_rights [OF ok] by (auto simp: x(4) list_ex_iff)
  ultimately show "dd_indexable d \<longleftrightarrow> publicly_fresh ?p now r"
    unfolding d(1) index_reasons_def x(2,3) by (simp add: publicly_fresh_def listed_def x(1))
  show "dd_canonical_id d = cn_canonical_id r" "dd_canonical_url d = de_base_url env @ ''/listing/'' @ cn_canonical_id r"
    by (rule d)+
qed

text \<open>The sitemap lists exactly the ACTIVE and UNDER_OFFER listings that are still fresh, each under its own URL.\<close>

lemma sitemap_exact:
  assumes ok: "inventory_ok sha (pr_inventory (de_presentation env))" and m: "sitemap env now = Inr entries"
  shows "(\<lambda>e. (sm_canonical_id e, sm_loc e)) ` set entries =
     (\<lambda>r. (cn_canonical_id r, de_base_url env @ ''/listing/'' @ cn_canonical_id r)) `
       {r \<in> set (iv_canonicals (pr_inventory (de_presentation env))). publicly_fresh (de_presentation env) now r}"
proof -
  let ?db = "pr_inventory (de_presentation env)"
  from m obtain rows docs where rows: "query_rows public_query ?db = Inr rows"
    and docs: "map_res (\<lambda>r. listing_document env now (cn_canonical_id r)) rows = Inr docs"
    and entries: "set entries = entry_of ` {d \<in> set docs. dd_indexable d}"
    by (auto simp: sitemap_def)
  have set_rows: "set rows = {r \<in> set (iv_canonicals ?db). listed r}"
    using query_rows_set [OF rows] by (auto simp: row_matches_def public_query_def asked_def listed_def)
  have all2: "list_all2 (\<lambda>r d. listing_document env now (cn_canonical_id r) = Inr d) rows docs"
    using docs by (simp add: map_res_eq_Inr)
  have doc: "\<exists>d \<in> set docs. listing_document env now (cn_canonical_id r) = Inr d" if "r \<in> set rows" for r
    using all2 that by (induction rule: list_all2_induct) auto
  have row: "\<exists>r \<in> set rows. listing_document env now (cn_canonical_id r) = Inr d" if "d \<in> set docs" for d
    using all2 that by (induction rule: list_all2_induct) auto
  note facts = document_indexable [OF ok]
  show ?thesis
  proof (intro set_eqI iffI; elim imageE)
    fix y e assume y: "y = (sm_canonical_id e, sm_loc e)" and "e \<in> set entries"
    then obtain d where d: "d \<in> set docs" "dd_indexable d" "e = entry_of d" by (auto simp: entries)
    from row [OF d(1)] set_rows obtain r where r: "r \<in> set (iv_canonicals ?db)" "listing_document env now (cn_canonical_id r) = Inr d"
      by auto
    from facts [OF r] d y r(1)
    show "y \<in> (\<lambda>r. (cn_canonical_id r, de_base_url env @ ''/listing/'' @ cn_canonical_id r)) `
       {r \<in> set (iv_canonicals ?db). publicly_fresh (de_presentation env) now r}"
      by (auto simp: entry_of_def)
  next
    fix y r assume y: "y = (cn_canonical_id r, de_base_url env @ ''/listing/'' @ cn_canonical_id r)"
      and r: "r \<in> {r \<in> set (iv_canonicals ?db). publicly_fresh (de_presentation env) now r}"
    then have "r \<in> set rows" by (simp add: set_rows publicly_fresh_def)
    from doc [OF this] obtain d where d: "d \<in> set docs" "listing_document env now (cn_canonical_id r) = Inr d" by blast
    with facts [OF _ d(2)] r have "dd_indexable d" "entry_of d \<in> set entries"
      "dd_canonical_id d = cn_canonical_id r" "dd_canonical_url d = de_base_url env @ ''/listing/'' @ cn_canonical_id r"
      by (auto simp: entries)
    with y show "y \<in> (\<lambda>e. (sm_canonical_id e, sm_loc e)) ` set entries"
      by (intro rev_image_eqI [of "entry_of d"]) (simp_all add: entry_of_def)
  qed
qed

lemma sitemap_locs_distinct:
  "distinct (map sm_loc es) \<Longrightarrow> \<forall>e \<in> set es. previous \<noteq> Some (sm_loc e) \<Longrightarrow> sitemap_locs previous es = Inr ()"
proof (induction es arbitrary: previous)
  case (Cons e es)
  have "\<forall>x \<in> set es. Some (sm_loc e) \<noteq> Some (sm_loc x)" using Cons.prems(1) by (auto intro: rev_image_eqI)
  with Cons show ?case by simp
qed simp

text \<open>No projection grants a badge, and an open high-impact case is always shown.\<close>

lemma consumer_projection_trust:
  assumes "consumer_projection p now cid = Inr d"
  shows "\<not> cl_verification_badge d"
    "has_active_high_impact_review p cid = Inr True \<longleftrightarrow> cl_trust_code d = NEEDS_REVIEW"
  using assms by (auto simp: consumer_projection_def Let_def split: if_splits)

text \<open>The lifecycle actions offered to a publisher are the ones the inventory accepts.\<close>

lemma publisher_actions_exact:
  assumes "publisher_projection db cid = Inr p" "canonical_by_id cid db = Inr r"
  shows "listing_value t \<in> set (pl_allowed_lifecycle_actions p) \<longleftrightarrow>
     t \<noteq> cn_state r \<and> transition_listing_state (cn_state r) t = Inr t"
proof -
  have "cn_state r \<notin> set (allowed_transitions (cn_state r))"
    by (cases "cn_state r") (simp_all add: allowed_transitions_def)
  with assms show ?thesis
    by (auto simp: publisher_projection_def Let_def transition_listing_state_Inr)
qed

end
