(* ===== verification/Research_Pod.thy ===== *)
theory Research_Pod
  imports Datetime Json
begin

text \<open>
  The research pod (src/factory/research_pod/): contracts of questions, sources, claims and bundles, the
  fingerprint of a bundle, and the deterministic evidence gate. \<open>parse\<close> stands for
  \<open>datetime.fromisoformat\<close>, \<open>scheme_of\<close> for the scheme \<open>urlparse\<close> finds, \<open>show_float\<close>
  for the text of a float in JSON.
\<close>

section \<open>Contracts\<close>

datatype source_class = PRIMARY_STANDARD | OFFICIAL_DOCUMENTATION | PEER_REVIEWED | PREPRINT | VENDOR_DOCUMENTATION
  | SECONDARY | COMMUNITY

datatype stance = SUPPORTS | CONTRADICTS | CONTEXT_ONLY

datatype disposition = SUPPORTED | CONTESTED | INSUFFICIENT

definition class_value :: "source_class \<Rightarrow> string" where
  "class_value c = (case c of PRIMARY_STANDARD \<Rightarrow> ''PRIMARY_STANDARD'' | OFFICIAL_DOCUMENTATION \<Rightarrow> ''OFFICIAL_DOCUMENTATION''
     | PEER_REVIEWED \<Rightarrow> ''PEER_REVIEWED'' | PREPRINT \<Rightarrow> ''PREPRINT'' | VENDOR_DOCUMENTATION \<Rightarrow> ''VENDOR_DOCUMENTATION''
     | SECONDARY \<Rightarrow> ''SECONDARY'' | COMMUNITY \<Rightarrow> ''COMMUNITY'')"

definition stance_value :: "stance \<Rightarrow> string" where
  "stance_value s = (case s of SUPPORTS \<Rightarrow> ''SUPPORTS'' | CONTRADICTS \<Rightarrow> ''CONTRADICTS'' | CONTEXT_ONLY \<Rightarrow> ''CONTEXT_ONLY'')"

definition disposition_value :: "disposition \<Rightarrow> string" where
  "disposition_value d = (case d of SUPPORTED \<Rightarrow> ''SUPPORTED'' | CONTESTED \<Rightarrow> ''CONTESTED'' | INSUFFICIENT \<Rightarrow> ''INSUFFICIENT'')"

record research_question =
  qu_question_id :: string
  qu_text :: string
  qu_critical :: bool
  qu_freshness_days :: "int option"

definition question_validate :: "research_question \<Rightarrow> unit res" where
  "question_validate q = checks [
     raise_if (blank (qu_question_id q) \<or> blank (qu_text q)) (ValueError ''research question id and text are required''),
     raise_if (case qu_freshness_days q of None \<Rightarrow> False | Some n \<Rightarrow> n < 0) (ValueError ''freshness_days cannot be negative'')]"

record research_source =
  so_source_id :: string
  so_uri :: string
  so_title :: string
  so_publisher :: string
  so_source_class :: source_class
  so_independent_group :: string
  so_retrieved_at :: string
  so_content_hash :: string
  so_published_at :: "string option"

text \<open>\<open>value.replace("Z", "+00:00")\<close>, and the UTC datetime \<open>parsed.astimezone(timezone.utc)\<close>, which overflows when it
  lies outside the years 1 to 9999\<close>

definition replace_Z :: "string \<Rightarrow> string" where
  "replace_Z s = concat (map (\<lambda>c. if c = CHR ''Z'' then ''+00:00'' else [c]) s)"

definition parse_aware :: "(string \<Rightarrow> datetime option) \<Rightarrow> string \<Rightarrow> string \<Rightarrow> datetime res" where
  "parse_aware parse message v = (case parse (replace_Z v) of
     None \<Rightarrow> Inl (ValueError ''Invalid isoformat string'')
   | Some d \<Rightarrow> if naive d then Inl (ValueError message) else utc_datetime (instant d))"

text \<open>\<open>int(text, 16)\<close> succeeds: surrounding white space, a sign, the prefix 0x and single underscores
  between digits are accepted.\<close>

definition is_hex :: "char \<Rightarrow> bool" where
  "is_hex c \<longleftrightarrow> is_digit c \<or> c \<in> set ''abcdefABCDEF''"

fun hex_digits :: "string \<Rightarrow> bool" where
  "hex_digits [] \<longleftrightarrow> False"
| "hex_digits [c] \<longleftrightarrow> is_hex c"
| "hex_digits (c # d # s) \<longleftrightarrow> is_hex c \<and> (if d = CHR ''_'' then hex_digits s else hex_digits (d # s))"

definition int16_ok :: "string \<Rightarrow> bool" where
  "int16_ok s = (let t = strip s;
     u = (case t of [] \<Rightarrow> [] | c # r \<Rightarrow> if c \<in> set ''+-'' then r else t);
     v = (if take 2 u \<in> {''0x'', ''0X''} then (case drop 2 u of [] \<Rightarrow> [] | c # r \<Rightarrow> if c = CHR ''_'' then r else c # r) else u)
   in hex_digits v)"

definition source_validate :: "(string \<Rightarrow> datetime option) \<Rightarrow> (string \<Rightarrow> string) \<Rightarrow> research_source \<Rightarrow> unit res" where
  "source_validate parse scheme_of s = checks [
     raise_if (list_ex blank [so_source_id s, so_uri s, so_title s, so_publisher s, so_independent_group s,
       so_retrieved_at s, so_content_hash s]) (ValueError ''source identity, provenance and content hash are required''),
     raise_if (scheme_of (so_uri s) \<notin> {''https'', ''http'', ''repo''}) (ValueError ''source uri must use http(s) or repo scheme''),
     res_bind (parse_aware parse ''retrieved_at must be timezone-aware'' (so_retrieved_at s)) (\<lambda>_. Inr ()),
     (case so_published_at s of None \<Rightarrow> Inr ()
      | Some p \<Rightarrow> res_bind (parse_aware parse ''published_at must be timezone-aware'' p) (\<lambda>_. Inr ())),
     raise_if (\<not> prefixed ''sha256:'' (so_content_hash s) \<or> length (so_content_hash s) \<noteq> 71)
       (ValueError ''content_hash must be a sha256:<64 hex> fingerprint''),
     raise_if (\<not> int16_ok (drop 7 (so_content_hash s))) (ValueError ''content_hash must contain hexadecimal sha256 data'')]"

record evidence_link =
  ln_source_id :: string
  ln_stance :: stance
  ln_evidence_ref :: string

definition link_validate :: "evidence_link \<Rightarrow> unit res" where
  "link_validate l = raise_if (blank (ln_source_id l) \<or> blank (ln_evidence_ref l))
     (ValueError ''evidence source and evidence_ref are required'')"

record research_claim =
  rl_claim_id :: string
  rl_statement :: string
  rl_evidence :: "evidence_link list"
  rl_disposition :: disposition
  rl_confidence :: rat
  rl_critical :: bool

definition claim_validate :: "research_claim \<Rightarrow> unit res" where
  "claim_validate c = checks [
     raise_if (blank (rl_claim_id c) \<or> blank (rl_statement c)) (ValueError ''claim identity and statement are required''),
     raise_if (\<not> (0 \<le> rl_confidence c \<and> rl_confidence c \<le> 1)) (ValueError ''claim confidence must be in [0,1]''),
     raise_if (rl_evidence c = []) (ValueError ''claims require explicit evidence links''),
     check_all link_validate (rl_evidence c)]"

record research_bundle =
  rb_bundle_id :: string
  rb_question :: research_question
  rb_sources :: "research_source list"
  rb_claims :: "research_claim list"
  rb_conclusion :: string
  rb_unresolved_gaps :: "string list"
  rb_participating_agents :: "string list"
  rb_created_at :: string

text \<open>The two loops with the ids seen so far.\<close>

fun validate_sources :: "(string \<Rightarrow> datetime option) \<Rightarrow> (string \<Rightarrow> string) \<Rightarrow> string list \<Rightarrow> research_source list \<Rightarrow> unit res" where
  "validate_sources parse scheme_of seen [] = Inr ()"
| "validate_sources parse scheme_of seen (s # ss) =
     res_bind (source_validate parse scheme_of s) (\<lambda>_.
     res_bind (raise_if (so_source_id s \<in> set seen) (ValueError ''duplicate source id'')) (\<lambda>_.
     validate_sources parse scheme_of (so_source_id s # seen) ss))"

fun validate_claims :: "string list \<Rightarrow> string list \<Rightarrow> research_claim list \<Rightarrow> unit res" where
  "validate_claims source_ids seen [] = Inr ()"
| "validate_claims source_ids seen (c # cs) =
     res_bind (claim_validate c) (\<lambda>_.
     res_bind (raise_if (rl_claim_id c \<in> set seen) (ValueError ''duplicate claim id'')) (\<lambda>_.
     res_bind (check_all (\<lambda>l. raise_if (ln_source_id l \<notin> set source_ids) (ValueError ''claim references an unknown source''))
       (rl_evidence c)) (\<lambda>_.
     validate_claims source_ids (rl_claim_id c # seen) cs)))"

definition research_validate :: "(string \<Rightarrow> datetime option) \<Rightarrow> (string \<Rightarrow> string) \<Rightarrow> research_bundle \<Rightarrow> unit res" where
  "research_validate parse scheme_of b = checks [
     raise_if (blank (rb_bundle_id b) \<or> blank (rb_conclusion b)) (ValueError ''bundle identity and conclusion are required''),
     question_validate (rb_question b),
     raise_if (rb_sources b = [] \<or> rb_claims b = []) (ValueError ''research bundle requires sources and claims''),
     raise_if (length (rb_participating_agents b) < 2)
       (ValueError ''research bundle must record at least two participating roles''),
     raise_if (\<not> distinct (rb_participating_agents b)) (ValueError ''duplicate participating agent roles''),
     res_bind (parse_aware parse ''created_at must be timezone-aware'' (rb_created_at b)) (\<lambda>_. Inr ()),
     validate_sources parse scheme_of [] (rb_sources b),
     validate_claims (map so_source_id (rb_sources b)) [] (rb_claims b)]"

section \<open>Fingerprint\<close>

definition source_text :: "research_source \<Rightarrow> string" where
  "source_text s = object_text [(''content_hash'', str_text (so_content_hash s)),
     (''independent_group'', str_text (so_independent_group s)),
     (''published_at'', render False (JStrOpt (so_published_at s))), (''publisher'', str_text (so_publisher s)),
     (''retrieved_at'', str_text (so_retrieved_at s)), (''source_class'', str_text (class_value (so_source_class s))),
     (''source_id'', str_text (so_source_id s)), (''title'', str_text (so_title s)), (''uri'', str_text (so_uri s))]"

definition link_text :: "evidence_link \<Rightarrow> string" where
  "link_text l = object_text [(''evidence_ref'', str_text (ln_evidence_ref l)), (''source_id'', str_text (ln_source_id l)),
     (''stance'', str_text (stance_value (ln_stance l)))]"

definition claim_text :: "(rat \<Rightarrow> string) \<Rightarrow> research_claim \<Rightarrow> string" where
  "claim_text show_float c = object_text [(''claim_id'', str_text (rl_claim_id c)),
     (''confidence'', show_float (rl_confidence c)), (''critical'', bool_text (rl_critical c)),
     (''disposition'', str_text (disposition_value (rl_disposition c))),
     (''evidence'', array_text (map link_text (sort_key ln_source_id (sort_key ln_evidence_ref (rl_evidence c))))),
     (''statement'', str_text (rl_statement c))]"

definition question_text :: "research_question \<Rightarrow> string" where
  "question_text q = object_text [(''critical'', bool_text (qu_critical q)),
     (''freshness_days'', render False (int_json (qu_freshness_days q))),
     (''question_id'', str_text (qu_question_id q)), (''text'', str_text (qu_text q))]"

definition research_text :: "(rat \<Rightarrow> string) \<Rightarrow> research_bundle \<Rightarrow> string" where
  "research_text show_float b = object_text [(''bundle_id'', str_text (rb_bundle_id b)),
     (''claims'', array_text (map (claim_text show_float) (sort_key rl_claim_id (rb_claims b)))),
     (''conclusion'', str_text (rb_conclusion b)), (''created_at'', str_text (rb_created_at b)),
     (''participating_agents'', render False (JStrs (sort (rb_participating_agents b)))),
     (''question'', question_text (rb_question b)),
     (''sources'', array_text (map source_text (sort_key so_source_id (rb_sources b)))),
     (''unresolved_gaps'', render False (JStrs (sort (rb_unresolved_gaps b))))]"

definition research_fingerprint :: "(string \<Rightarrow> string) \<Rightarrow> (rat \<Rightarrow> string) \<Rightarrow> (string \<Rightarrow> datetime option) \<Rightarrow> (string \<Rightarrow> string) \<Rightarrow>
    research_bundle \<Rightarrow> string res" where
  "research_fingerprint sha show_float parse scheme_of b = res_bind (research_validate parse scheme_of b) (\<lambda>_.
     Inr (''sha256:'' @ sha (research_text show_float b)))"

section \<open>The evidence gate\<close>

record research_policy =
  po_min_groups :: int
  po_allow_primary :: bool
  po_contradiction_scan :: bool
  po_max_gaps :: int

definition research_policy_validate :: "research_policy \<Rightarrow> unit res" where
  "research_policy_validate p = checks [
     raise_if (po_min_groups p < 1) (ValueError ''critical evidence threshold must be positive''),
     raise_if (po_max_gaps p < 0) (ValueError ''gap threshold cannot be negative'')]"

record research_issue =
  ri_code :: string
  ri_message :: string
  ri_claim_id :: "string option"

record research_assessment =
  ra_accepted :: bool
  ra_issues :: "research_issue list"
  ra_supported :: nat
  ra_contested :: nat
  ra_insufficient :: nat
  ra_source_count :: nat
  ra_group_count :: nat
  ra_high_authority :: nat

definition high_authority :: "research_source \<Rightarrow> bool" where
  "high_authority s \<longleftrightarrow> so_source_class s \<in> {PRIMARY_STANDARD, OFFICIAL_DOCUMENTATION, PEER_REVIEWED}"

definition links_of :: "stance \<Rightarrow> research_claim \<Rightarrow> evidence_link list" where
  "links_of st c = filter (\<lambda>l. ln_stance l = st) (rl_evidence c)"

text \<open>The sources that support a claim, looked up in the dictionary of sources.\<close>

definition support_sources :: "research_source list \<Rightarrow> research_claim \<Rightarrow> research_source list res" where
  "support_sources ss c = map_res (\<lambda>l. fetch (KeyError [ln_source_id l])
     (map_of (dict_by so_source_id (\<lambda>s. s) ss) (ln_source_id l))) (links_of SUPPORTS c)"

definition observed_instant :: "(string \<Rightarrow> datetime option) \<Rightarrow> research_source \<Rightarrow> int res" where
  "observed_instant parse s =
     res_bind (parse_aware parse ''research timestamps must be timezone-aware'' (so_retrieved_at s)) (\<lambda>observed.
     case so_published_at s of None \<Rightarrow> Inr (instant observed)
     | Some p \<Rightarrow> res_bind (parse_aware parse ''research timestamps must be timezone-aware'' p) (\<lambda>published.
         Inr (max (instant observed) (instant published))))"

fun any_fresh :: "(string \<Rightarrow> datetime option) \<Rightarrow> int \<Rightarrow> research_source list \<Rightarrow> bool res" where
  "any_fresh parse threshold [] = Inr False"
| "any_fresh parse threshold (s # ss) = res_bind (observed_instant parse s) (\<lambda>t.
     if threshold \<le> t then Inr True else any_fresh parse threshold ss)"

definition issue_if :: "bool \<Rightarrow> string \<Rightarrow> string \<Rightarrow> string option \<Rightarrow> research_issue list" where
  "issue_if b code message cid = (if b then [\<lparr>ri_code = code, ri_message = message, ri_claim_id = cid\<rparr>] else [])"

definition disposition_issues :: "research_policy \<Rightarrow> research_claim \<Rightarrow> research_source list \<Rightarrow> research_issue list" where
  "disposition_issues p c supports = (let cid = Some (rl_claim_id c) in case rl_disposition c of
     SUPPORTED \<Rightarrow>
       issue_if (supports = []) ''SUPPORTED_WITHOUT_SUPPORT'' ''supported claim has no supporting evidence'' cid @
       issue_if (links_of CONTRADICTS c \<noteq> [] \<and> po_contradiction_scan p) ''CONTRADICTION_NOT_REFLECTED''
         ''claim is marked supported despite explicit contradictory evidence'' cid @
       (if rl_critical c then
          issue_if (\<not> (po_min_groups p \<le> int (length (remdups (map so_independent_group supports))) \<or>
            po_allow_primary p \<and> list_ex (\<lambda>s. so_source_class s = PRIMARY_STANDARD) supports))
            ''CRITICAL_EVIDENCE_NOT_INDEPENDENT''
            ''critical claim lacks independent corroboration or a normative primary source'' cid @
          issue_if (\<not> list_ex high_authority supports) ''CRITICAL_CLAIM_LOW_AUTHORITY''
            ''critical claim has no high-authority supporting source'' cid
        else [])
   | CONTESTED \<Rightarrow>
       issue_if (links_of SUPPORTS c = [] \<or> links_of CONTRADICTS c = []) ''CONTESTED_WITHOUT_BOTH_SIDES''
         ''contested claim must preserve supporting and contradictory evidence'' cid
   | INSUFFICIENT \<Rightarrow>
       issue_if (3 / 4 < rl_confidence c) ''INSUFFICIENT_OVERCONFIDENT''
         ''insufficient claim cannot carry high confidence'' cid)"

definition claim_issues :: "(string \<Rightarrow> datetime option) \<Rightarrow> research_policy \<Rightarrow> datetime \<Rightarrow> research_bundle \<Rightarrow> research_claim \<Rightarrow>
    research_issue list res" where
  "claim_issues parse p now b c =
     res_bind (support_sources (rb_sources b) c) (\<lambda>supports.
     case qu_freshness_days (rb_question b) of
       None \<Rightarrow> Inr (disposition_issues p c supports)
     | Some days \<Rightarrow>
         res_bind (timedelta_days days) (\<lambda>delta.
         res_bind (utc_datetime (instant now - delta)) (\<lambda>threshold.
         res_bind (any_fresh parse (instant threshold) supports) (\<lambda>fresh.
         Inr (disposition_issues p c supports @
           issue_if (rl_disposition c = SUPPORTED \<and> \<not> fresh) ''FRESHNESS_REQUIREMENT_MISSED''
             ''supported claim lacks evidence inside the research freshness window'' (Some (rl_claim_id c)))))))"

definition count_disposition :: "disposition \<Rightarrow> research_bundle \<Rightarrow> nat" where
  "count_disposition d b = length (filter (\<lambda>c. rl_disposition c = d) (rb_claims b))"

definition bundle_issues :: "research_policy \<Rightarrow> research_bundle \<Rightarrow> research_issue list" where
  "bundle_issues p b =
     issue_if (po_max_gaps p < int (length (rb_unresolved_gaps b))) ''TOO_MANY_UNRESOLVED_GAPS''
       ''research bundle exceeds the unresolved-gap acceptance threshold'' None @
     issue_if (qu_critical (rb_question b) \<and> count_disposition INSUFFICIENT b \<noteq> 0)
       ''CRITICAL_QUESTION_HAS_INSUFFICIENT_CLAIMS''
       ''critical research question cannot pass with insufficient material claims'' None"

definition hard_codes :: "string list" where
  "hard_codes = [''SUPPORTED_WITHOUT_SUPPORT'', ''CONTRADICTION_NOT_REFLECTED'', ''CRITICAL_EVIDENCE_NOT_INDEPENDENT'',
     ''CRITICAL_CLAIM_LOW_AUTHORITY'', ''CONTESTED_WITHOUT_BOTH_SIDES'', ''FRESHNESS_REQUIREMENT_MISSED'',
     ''TOO_MANY_UNRESOLVED_GAPS'', ''CRITICAL_QUESTION_HAS_INSUFFICIENT_CLAIMS'']"

definition assess :: "(string \<Rightarrow> datetime option) \<Rightarrow> (string \<Rightarrow> string) \<Rightarrow> research_policy \<Rightarrow> datetime \<Rightarrow> research_bundle \<Rightarrow>
    research_assessment res" where
  "assess parse scheme_of p now b =
     res_bind (research_validate parse scheme_of b) (\<lambda>_.
     res_bind (research_policy_validate p) (\<lambda>_.
     res_bind (raise_if (naive now) (ValueError ''assessment time must be timezone-aware'')) (\<lambda>_.
     res_bind (utc_datetime (instant now)) (\<lambda>now.
     res_bind (map_res (claim_issues parse p now b) (rb_claims b)) (\<lambda>per_claim.
     let issues = concat per_claim @ bundle_issues p b in
     Inr \<lparr>ra_accepted = (\<not> list_ex (\<lambda>i. ri_code i \<in> set hard_codes) issues), ra_issues = issues,
       ra_supported = count_disposition SUPPORTED b, ra_contested = count_disposition CONTESTED b,
       ra_insufficient = count_disposition INSUFFICIENT b, ra_source_count = length (rb_sources b),
       ra_group_count = length (remdups (map so_independent_group (rb_sources b))),
       ra_high_authority = length (filter high_authority (rb_sources b))\<rparr>)))))"

section \<open>Valid bundles\<close>

lemma validate_sources_Inr:
  "validate_sources parse scheme_of seen ss = Inr () \<longleftrightarrow>
     (\<forall>s \<in> set ss. source_validate parse scheme_of s = Inr ()) \<and> distinct (map so_source_id ss) \<and>
     set (map so_source_id ss) \<inter> set seen = {}"
  by (induction ss arbitrary: seen) auto

lemma validate_claims_Inr:
  "validate_claims ids seen cs = Inr () \<longleftrightarrow> (\<forall>c \<in> set cs. claim_validate c = Inr () \<and>
     (\<forall>l \<in> set (rl_evidence c). ln_source_id l \<in> set ids)) \<and>
     distinct (map rl_claim_id cs) \<and> set (map rl_claim_id cs) \<inter> set seen = {}"
  by (induction cs arbitrary: seen) auto

lemma research_validate_parts:
  assumes "research_validate parse scheme_of b = Inr ()"
  shows "distinct (map so_source_id (rb_sources b))" "s \<in> set (rb_sources b) \<Longrightarrow> source_validate parse scheme_of s = Inr ()"
    "c \<in> set (rb_claims b) \<Longrightarrow> l \<in> set (rl_evidence c) \<Longrightarrow> ln_source_id l \<in> so_source_id ` set (rb_sources b)"
    "distinct (map rl_claim_id (rb_claims b))"
  using assms by (auto simp: research_validate_def validate_sources_Inr validate_claims_Inr)

text \<open>The text of a timezone-aware datetime that can be converted to UTC, and the instant it names.\<close>

definition aware_at :: "(string \<Rightarrow> datetime option) \<Rightarrow> string \<Rightarrow> int \<Rightarrow> bool" where
  "aware_at parse v t \<longleftrightarrow> (\<exists>d. parse (replace_Z v) = Some d \<and> \<not> naive d \<and> instant d = t \<and> representable t)"

lemma parse_aware_Inr: "parse_aware parse m v = Inr d \<Longrightarrow> aware_at parse v (instant d)"
  by (auto simp: parse_aware_def aware_at_def utc_datetime_Inr instant_utc split: option.splits if_splits)

lemma parse_aware_at: "aware_at parse v t \<Longrightarrow> \<exists>d. parse_aware parse m v = Inr d \<and> instant d = t"
  using utc_datetime_representable(1) [of t] by (auto simp: parse_aware_def aware_at_def)

lemma parse_aware_ok: "(\<exists>d. parse_aware parse m v = Inr d) \<longleftrightarrow> (\<exists>t. aware_at parse v t)"
  using parse_aware_Inr parse_aware_at by blast

text \<open>A source that was retrieved or published at \<open>threshold\<close> or later.\<close>

definition fresh_since :: "(string \<Rightarrow> datetime option) \<Rightarrow> int \<Rightarrow> research_source \<Rightarrow> bool" where
  "fresh_since parse threshold s \<longleftrightarrow> (\<exists>t \<ge> threshold. aware_at parse (so_retrieved_at s) t \<or>
     (\<exists>p. so_published_at s = Some p \<and> aware_at parse p t))"

lemma aware_at_unique: "aware_at parse v t \<Longrightarrow> aware_at parse v u \<Longrightarrow> t = u"
  by (auto simp: aware_at_def)

lemma observed_instant_fresh:
  assumes "source_validate parse scheme_of s = Inr ()"
  shows "\<exists>t. observed_instant parse s = Inr t \<and> (threshold \<le> t \<longleftrightarrow> fresh_since parse threshold s)"
proof -
  from assms obtain r where r: "aware_at parse (so_retrieved_at s) r"
    by (auto simp: source_validate_def dest: parse_aware_Inr)
  then obtain d where d: "parse_aware parse ''research timestamps must be timezone-aware'' (so_retrieved_at s) = Inr d"
    "instant d = r" using parse_aware_at by blast
  show ?thesis
  proof (cases "so_published_at s")
    case None
    with d r show ?thesis by (auto simp: observed_instant_def fresh_since_def dest: aware_at_unique)
  next
    case (Some p)
    with assms obtain u where u: "aware_at parse p u" by (auto simp: source_validate_def dest: parse_aware_Inr)
    then obtain e where e: "parse_aware parse ''research timestamps must be timezone-aware'' p = Inr e" "instant e = u"
      using parse_aware_at by blast
    have "observed_instant parse s = Inr (max r u)" using d e Some by (simp add: observed_instant_def)
    moreover have "threshold \<le> max r u \<longleftrightarrow> fresh_since parse threshold s"
      unfolding le_max_iff_disj fresh_since_def using r u Some by (auto dest: aware_at_unique)
    ultimately show ?thesis by blast
  qed
qed

lemma any_fresh_eq:
  "\<forall>s \<in> set ss. \<exists>t. observed_instant parse s = Inr t \<and> (threshold \<le> t \<longleftrightarrow> fresh_since parse threshold s) \<Longrightarrow>
   any_fresh parse threshold ss = Inr (list_ex (fresh_since parse threshold) ss)"
  by (induction ss) auto

text \<open>The supporting sources of a claim, without the dictionary.\<close>

definition supporting :: "research_bundle \<Rightarrow> research_claim \<Rightarrow> research_source set" where
  "supporting b c = {s \<in> set (rb_sources b). \<exists>l \<in> set (rl_evidence c). ln_stance l = SUPPORTS \<and> ln_source_id l = so_source_id s}"

lemma support_sources_set:
  assumes v: "research_validate parse scheme_of b = Inr ()" and c: "c \<in> set (rb_claims b)"
  shows "\<exists>ss. support_sources (rb_sources b) c = Inr ss \<and> set ss = supporting b c"
proof -
  note parts = research_validate_parts [OF v]
  have look: "map_of (dict_by so_source_id (\<lambda>s. s) (rb_sources b)) i = Some s \<longleftrightarrow> s \<in> set (rb_sources b) \<and> so_source_id s = i" for i s
    using parts(1) by (auto simp: dict_by_distinct map_of_by_iff)
  have "\<exists>ss. map_res (\<lambda>l. fetch (KeyError [ln_source_id l]) (map_of (dict_by so_source_id (\<lambda>s. s) (rb_sources b)) (ln_source_id l))) ls = Inr ss \<and>
      set ss = {s \<in> set (rb_sources b). \<exists>l \<in> set ls. ln_source_id l = so_source_id s}"
    if "set ls \<subseteq> set (rl_evidence c)" for ls
    using that
  proof (induction ls)
    case (Cons l ls)
    with parts(3) [OF c, of l] obtain s where s: "s \<in> set (rb_sources b)" "so_source_id s = ln_source_id l" by auto
    then have "map_of (dict_by so_source_id (\<lambda>s. s) (rb_sources b)) (ln_source_id l) = Some s" by (simp add: look)
    moreover have "{x \<in> set (rb_sources b). \<exists>k \<in> set (l # ls). ln_source_id k = so_source_id x} =
        insert s {x \<in> set (rb_sources b). \<exists>k \<in> set ls. ln_source_id k = so_source_id x}"
    proof -
      have inj: "inj_on so_source_id (set (rb_sources b))" using parts(1) by (simp add: distinct_map)
      have only: "x = s" if "x \<in> set (rb_sources b)" "ln_source_id l = so_source_id x" for x
        using inj_onD [OF inj, of x s] that s by simp
      have "{x \<in> set (rb_sources b). ln_source_id l = so_source_id x} = {s}"
        using s(1) s(2) [symmetric] only by blast
      then show ?thesis by auto
    qed
    moreover from Cons obtain ss where "map_res (\<lambda>l. fetch (KeyError [ln_source_id l])
        (map_of (dict_by so_source_id (\<lambda>s. s) (rb_sources b)) (ln_source_id l))) ls = Inr ss"
      "set ss = {s \<in> set (rb_sources b). \<exists>l \<in> set ls. ln_source_id l = so_source_id s}" by auto
    ultimately show ?case by (intro exI [of _ "s # ss"]) simp
  qed simp
  from this [of "links_of SUPPORTS c"] show ?thesis
    by (auto simp: support_sources_def supporting_def links_of_def)
qed

text \<open>The rules of a bundle, without the order of the checks.\<close>

definition source_sound :: "(string \<Rightarrow> datetime option) \<Rightarrow> (string \<Rightarrow> string) \<Rightarrow> research_source \<Rightarrow> bool" where
  "source_sound parse scheme_of s \<longleftrightarrow>
     \<not> blank (so_source_id s) \<and> \<not> blank (so_uri s) \<and> \<not> blank (so_title s) \<and> \<not> blank (so_publisher s) \<and>
     \<not> blank (so_independent_group s) \<and> \<not> blank (so_retrieved_at s) \<and> \<not> blank (so_content_hash s) \<and>
     scheme_of (so_uri s) \<in> {''https'', ''http'', ''repo''} \<and> (\<exists>t. aware_at parse (so_retrieved_at s) t) \<and>
     (\<forall>p. so_published_at s = Some p \<longrightarrow> (\<exists>t. aware_at parse p t)) \<and>
     (\<exists>digits. so_content_hash s = ''sha256:'' @ digits \<and> length digits = 64 \<and> int16_ok digits)"

definition stated_claim :: "research_bundle \<Rightarrow> research_claim \<Rightarrow> bool" where
  "stated_claim b c \<longleftrightarrow> \<not> blank (rl_claim_id c) \<and> \<not> blank (rl_statement c) \<and> 0 \<le> rl_confidence c \<and>
     rl_confidence c \<le> 1 \<and> rl_evidence c \<noteq> [] \<and> (\<forall>l \<in> set (rl_evidence c). \<not> blank (ln_source_id l) \<and>
       \<not> blank (ln_evidence_ref l) \<and> (\<exists>s \<in> set (rb_sources b). so_source_id s = ln_source_id l))"

definition valid_bundle :: "(string \<Rightarrow> datetime option) \<Rightarrow> (string \<Rightarrow> string) \<Rightarrow> research_bundle \<Rightarrow> bool" where
  "valid_bundle parse scheme_of b \<longleftrightarrow>
     \<not> blank (rb_bundle_id b) \<and> \<not> blank (rb_conclusion b) \<and> \<not> blank (qu_question_id (rb_question b)) \<and>
     \<not> blank (qu_text (rb_question b)) \<and> (\<forall>n. qu_freshness_days (rb_question b) = Some n \<longrightarrow> 0 \<le> n) \<and>
     rb_sources b \<noteq> [] \<and> rb_claims b \<noteq> [] \<and> 2 \<le> length (rb_participating_agents b) \<and>
     distinct (rb_participating_agents b) \<and> (\<exists>t. aware_at parse (rb_created_at b) t) \<and>
     (\<forall>s \<in> set (rb_sources b). source_sound parse scheme_of s) \<and> distinct (map so_source_id (rb_sources b)) \<and>
     (\<forall>c \<in> set (rb_claims b). stated_claim b c) \<and> distinct (map rl_claim_id (rb_claims b))"

lemma content_hash_iff: "prefixed ''sha256:'' h \<and> length h = 71 \<and> int16_ok (drop 7 h) \<longleftrightarrow>
    (\<exists>digits. h = ''sha256:'' @ digits \<and> length digits = 64 \<and> int16_ok digits)"
proof -
  show ?thesis unfolding prefixed_iff by auto
qed

lemma source_validate_iff: "source_validate parse scheme_of s = Inr () \<longleftrightarrow> source_sound parse scheme_of s"
  unfolding source_sound_def content_hash_iff [symmetric]
  by (cases "so_published_at s") (auto simp: source_validate_def parse_aware_ok)

lemma claim_validate_iff:
  "claim_validate c = Inr () \<and> (\<forall>l \<in> set (rl_evidence c). ln_source_id l \<in> set (map so_source_id (rb_sources b))) \<longleftrightarrow> stated_claim b c"
proof -
  have "(\<exists>s \<in> set (rb_sources b). so_source_id s = i) \<longleftrightarrow> i \<in> set (map so_source_id (rb_sources b))" for i by auto
  then show ?thesis unfolding stated_claim_def by (auto simp: claim_validate_def link_validate_def)
qed

lemma research_validate_iff: "research_validate parse scheme_of b = Inr () \<longleftrightarrow> valid_bundle parse scheme_of b"
proof -
  have "validate_claims (map so_source_id (rb_sources b)) [] (rb_claims b) = Inr () \<longleftrightarrow>
      (\<forall>c \<in> set (rb_claims b). stated_claim b c) \<and> distinct (map rl_claim_id (rb_claims b))"
    unfolding validate_claims_Inr claim_validate_iff by simp
  moreover have "question_validate (rb_question b) = Inr () \<longleftrightarrow> \<not> blank (qu_question_id (rb_question b)) \<and>
     \<not> blank (qu_text (rb_question b)) \<and> (\<forall>n. qu_freshness_days (rb_question b) = Some n \<longrightarrow> 0 \<le> n)"
    by (cases "qu_freshness_days (rb_question b)") (auto simp: question_validate_def)
  ultimately show ?thesis
    by (auto simp: research_validate_def valid_bundle_def validate_sources_Inr source_validate_iff parse_aware_ok not_less)
qed

section \<open>What acceptance means\<close>

definition claim_sound :: "(string \<Rightarrow> datetime option) \<Rightarrow> research_policy \<Rightarrow> datetime \<Rightarrow> research_bundle \<Rightarrow> research_claim \<Rightarrow> bool" where
  "claim_sound parse p now b c \<longleftrightarrow> (case rl_disposition c of
     SUPPORTED \<Rightarrow> supporting b c \<noteq> {} \<and>
       (po_contradiction_scan p \<longrightarrow> (\<forall>l \<in> set (rl_evidence c). ln_stance l \<noteq> CONTRADICTS)) \<and>
       (rl_critical c \<longrightarrow>
         (\<exists>s \<in> supporting b c. so_source_class s \<in> {PRIMARY_STANDARD, OFFICIAL_DOCUMENTATION, PEER_REVIEWED}) \<and>
         (po_min_groups p \<le> int (card (so_independent_group ` supporting b c)) \<or>
          po_allow_primary p \<and> (\<exists>s \<in> supporting b c. so_source_class s = PRIMARY_STANDARD))) \<and>
       (\<forall>days. qu_freshness_days (rb_question b) = Some days \<longrightarrow>
         (\<exists>s \<in> supporting b c. fresh_since parse (instant now - days * micros_per_day) s))
   | CONTESTED \<Rightarrow> (\<exists>l \<in> set (rl_evidence c). ln_stance l = SUPPORTS) \<and> (\<exists>l \<in> set (rl_evidence c). ln_stance l = CONTRADICTS)
   | INSUFFICIENT \<Rightarrow> True)"

definition bundle_sound :: "(string \<Rightarrow> datetime option) \<Rightarrow> research_policy \<Rightarrow> datetime \<Rightarrow> research_bundle \<Rightarrow> bool" where
  "bundle_sound parse p now b \<longleftrightarrow> (\<forall>c \<in> set (rb_claims b). claim_sound parse p now b c) \<and>
     int (length (rb_unresolved_gaps b)) \<le> po_max_gaps p \<and>
     (qu_critical (rb_question b) \<longrightarrow> (\<forall>c \<in> set (rb_claims b). rl_disposition c \<noteq> INSUFFICIENT))"

definition hard :: "research_issue list \<Rightarrow> bool" where
  "hard is \<longleftrightarrow> list_ex (\<lambda>i. ri_code i \<in> set hard_codes) is"

lemma hard_simps [simp]:
  "hard [] = False" "hard (xs @ ys) \<longleftrightarrow> hard xs \<or> hard ys"
  "hard (issue_if b ''SUPPORTED_WITHOUT_SUPPORT'' m i) = b" "hard (issue_if b ''CONTRADICTION_NOT_REFLECTED'' m i) = b"
  "hard (issue_if b ''CRITICAL_EVIDENCE_NOT_INDEPENDENT'' m i) = b" "hard (issue_if b ''CRITICAL_CLAIM_LOW_AUTHORITY'' m i) = b"
  "hard (issue_if b ''CONTESTED_WITHOUT_BOTH_SIDES'' m i) = b" "hard (issue_if b ''FRESHNESS_REQUIREMENT_MISSED'' m i) = b"
  "hard (issue_if b ''TOO_MANY_UNRESOLVED_GAPS'' m i) = b"
  "hard (issue_if b ''CRITICAL_QUESTION_HAS_INSUFFICIENT_CLAIMS'' m i) = b"
  "\<not> hard (issue_if b ''INSUFFICIENT_OVERCONFIDENT'' m i)"
  by (simp_all add: hard_def issue_if_def hard_codes_def)

lemma disposition_issues_hard:
  assumes "set ss = supporting b c"
  shows "hard (disposition_issues p c ss) \<longleftrightarrow> \<not> (case rl_disposition c of
     SUPPORTED \<Rightarrow> supporting b c \<noteq> {} \<and>
       (po_contradiction_scan p \<longrightarrow> (\<forall>l \<in> set (rl_evidence c). ln_stance l \<noteq> CONTRADICTS)) \<and>
       (rl_critical c \<longrightarrow> (\<exists>s \<in> supporting b c. high_authority s) \<and>
         (po_min_groups p \<le> int (card (so_independent_group ` supporting b c)) \<or>
          po_allow_primary p \<and> (\<exists>s \<in> supporting b c. so_source_class s = PRIMARY_STANDARD)))
   | CONTESTED \<Rightarrow> (\<exists>l \<in> set (rl_evidence c). ln_stance l = SUPPORTS) \<and> (\<exists>l \<in> set (rl_evidence c). ln_stance l = CONTRADICTS)
   | INSUFFICIENT \<Rightarrow> True)"
proof -
  have groups: "length (remdups (map so_independent_group ss)) = card (so_independent_group ` supporting b c)"
    by (simp flip: assms add: length_remdups_card_conv)
  have empty: "ss = [] \<longleftrightarrow> supporting b c = {}" by (simp flip: assms)
  have ex: "list_ex P ss \<longleftrightarrow> (\<exists>s \<in> supporting b c. P s)" for P by (simp flip: assms add: list_ex_iff)
  have links: "links_of st c = [] \<longleftrightarrow> \<not> (\<exists>l \<in> set (rl_evidence c). ln_stance l = st)" for st
    by (auto simp: links_of_def filter_empty_conv)
  show ?thesis
    by (cases "rl_disposition c") (auto simp: disposition_issues_def Let_def groups empty ex links)
qed

text \<open>The start of the freshness window has a datetime.\<close>

definition window_ok :: "datetime \<Rightarrow> research_question \<Rightarrow> bool" where
  "window_ok now q \<longleftrightarrow> (\<forall>days. qu_freshness_days q = Some days \<longrightarrow>
     \<bar>days\<bar> \<le> 999999999 \<and> representable (instant now - days * micros_per_day))"

lemma claim_issues_window:
  assumes "support_sources (rb_sources b) c = Inr ss" "\<not> window_ok now (rb_question b)"
  shows "\<exists>m. claim_issues parse p now b c = Inl (OverflowError m)"
proof -
  from assms(2) obtain days where days: "qu_freshness_days (rb_question b) = Some days"
    "\<bar>days\<bar> \<le> 999999999 \<Longrightarrow> \<not> representable (instant now - days * micros_per_day)"
    by (auto simp: window_ok_def)
  then show ?thesis using assms(1) utc_datetime_representable(2) [of "instant now - days * micros_per_day"]
    by (auto simp: claim_issues_def timedelta_days_def)
qed

lemma claim_issues_result:
  assumes v: "research_validate parse scheme_of b = Inr ()" and c: "c \<in> set (rb_claims b)"
    and w: "window_ok now (rb_question b)"
  shows "\<exists>is. claim_issues parse p now b c = Inr is \<and> (hard is \<longleftrightarrow> \<not> claim_sound parse p now b c)"
proof -
  from support_sources_set [OF v c] obtain ss where ss: "support_sources (rb_sources b) c = Inr ss" "set ss = supporting b c" by blast
  have "\<forall>s \<in> set ss. \<exists>u. observed_instant parse s = Inr u \<and> (t \<le> u \<longleftrightarrow> fresh_since parse t s)" for t
    using research_validate_parts(2) [OF v] observed_instant_fresh unfolding ss(2) supporting_def by blast
  then have fresh: "any_fresh parse t ss = Inr (\<exists>s \<in> supporting b c. fresh_since parse t s)" for t
    by (simp add: any_fresh_eq list_ex_iff ss(2))
  show ?thesis
  proof (cases "qu_freshness_days (rb_question b)")
    case None
    then show ?thesis by (cases "rl_disposition c")
      (auto simp: claim_issues_def ss(1) disposition_issues_hard [OF ss(2)] claim_sound_def high_authority_def)
  next
    case (Some days)
    with w obtain d where "utc_datetime (instant now - days * micros_per_day) = Inr d"
      "instant d = instant now - days * micros_per_day" "\<bar>days\<bar> \<le> 999999999"
      using utc_datetime_representable(1) by (auto simp: window_ok_def)
    with Some show ?thesis by (cases "rl_disposition c")
      (auto simp: claim_issues_def ss(1) fresh disposition_issues_hard [OF ss(2)] claim_sound_def high_authority_def timedelta_days_def)
  qed
qed

lemma claim_sound_instant: "instant now = instant now' \<Longrightarrow> claim_sound parse p now b c = claim_sound parse p now' b c"
  by (cases "rl_disposition c") (simp_all add: claim_sound_def)

lemma assess_accepts:
  assumes v: "research_validate parse scheme_of b = Inr ()" "research_policy_validate p = Inr ()" "\<not> naive now"
    and w: "representable (instant now)" "window_ok now (rb_question b)"
  shows "\<exists>a. assess parse scheme_of p now b = Inr a \<and> (ra_accepted a \<longleftrightarrow> bundle_sound parse p now b)"
proof -
  from utc_datetime_representable(1) [OF w(1)] obtain u where u: "utc_datetime (instant now) = Inr u" "instant u = instant now"
    by blast
  then have wu: "window_ok u (rb_question b)" using w(2) by (simp add: window_ok_def)
  have "\<exists>per. map_res (claim_issues parse p u b) cs = Inr per \<and>
      (hard (concat per) \<longleftrightarrow> \<not> (\<forall>c \<in> set cs. claim_sound parse p now b c))" if "set cs \<subseteq> set (rb_claims b)" for cs
    using that
  proof (induction cs)
    case (Cons c cs)
    with claim_issues_result [OF v(1) _ wu, of c p] claim_sound_instant [OF u(2), of parse p b c] show ?case by auto
  qed simp
  from this [of "rb_claims b"] obtain per where per: "map_res (claim_issues parse p u b) (rb_claims b) = Inr per"
    "hard (concat per) \<longleftrightarrow> \<not> (\<forall>c \<in> set (rb_claims b). claim_sound parse p now b c)" by blast
  have "hard (bundle_issues p b) \<longleftrightarrow> po_max_gaps p < int (length (rb_unresolved_gaps b)) \<or>
      qu_critical (rb_question b) \<and> (\<exists>c \<in> set (rb_claims b). rl_disposition c = INSUFFICIENT)"
    by (auto simp: bundle_issues_def count_disposition_def filter_empty_conv)
  with v per u(1) show ?thesis
    by (auto simp: assess_def Let_def bundle_sound_def simp flip: hard_def)
qed

text \<open>An assessment at a time, or with a freshness window, that no datetime can express overflows.\<close>

lemma assess_overflows:
  assumes v: "research_validate parse scheme_of b = Inr ()" "research_policy_validate p = Inr ()" "\<not> naive now"
    and w: "\<not> (representable (instant now) \<and> window_ok now (rb_question b))"
  shows "\<exists>m. assess parse scheme_of p now b = Inl (OverflowError m)"
proof (cases "representable (instant now)")
  case False
  then show ?thesis using v utc_datetime_representable(2) by (simp add: assess_def)
next
  case True
  from utc_datetime_representable(1) [OF True] obtain u where u: "utc_datetime (instant now) = Inr u" "instant u = instant now"
    by blast
  with w True have wu: "\<not> window_ok u (rb_question b)" by (simp add: window_ok_def)
  from v(1) have "rb_claims b \<noteq> []" by (simp add: research_validate_def)
  then obtain c cs where c: "rb_claims b = c # cs" by (cases "rb_claims b") auto
  then have "c \<in> set (rb_claims b)" by simp
  from support_sources_set [OF v(1) this] obtain ss where "support_sources (rb_sources b) c = Inr ss" by blast
  from claim_issues_window [OF this wu] obtain m where "claim_issues parse p u b c = Inl (OverflowError m)" by blast
  with v u c show ?thesis by (simp add: assess_def)
qed

section \<open>The fingerprint does not depend on the order of its parts\<close>

lemma sort_key_unique:
  assumes "distinct (map k xs)" "distinct (map k ys)" "set xs = set ys"
  shows "sort_key k xs = sort_key k ys"
  by (rule map_sorted_distinct_set_unique [of k]) (use assms in \<open>simp_all add: distinct_map\<close>)

lemma fingerprint_order:
  assumes "research_validate parse scheme_of b = Inr ()"
    and b': "b' = b\<lparr>rb_sources := ss, rb_claims := cs\<rparr>"
    and "distinct ss" "set ss = set (rb_sources b)" "distinct cs" "set cs = set (rb_claims b)"
  shows "research_fingerprint sha show_float parse scheme_of b' = research_fingerprint sha show_float parse scheme_of b"
proof -
  note parts = research_validate_parts [OF assms(1)]
  have ids: "distinct (map so_source_id ss)" "distinct (map rl_claim_id cs)"
    using assms(3-6) parts(1,4) by (auto simp: distinct_map)
  have "research_text show_float b' = research_text show_float b"
    using ids assms(4,6) parts(1,4)
    by (simp add: b' research_text_def sort_key_unique [of so_source_id ss "rb_sources b"]
        sort_key_unique [of rl_claim_id cs "rb_claims b"])
  moreover have "research_validate parse scheme_of b' = Inr ()"
    using assms(1,4,6) ids by (auto simp: b' research_validate_def validate_sources_Inr validate_claims_Inr)
  ultimately show ?thesis using assms(1) by (simp add: research_fingerprint_def)
qed

end
