(* ===== verification/Secrets.thy ===== *)
theory Secrets
  imports Json
begin

text \<open>
  Secrets and traces (src/factory/runtime/secrets.py, tracing.py): opaque references, the broker that
  resolves them for a trusted executor, the projection that removes resolved values from a Python
  value, and the trace table that stores redacted payloads. Providers and executors are actions
  on a world of any type. \<open>show\<close> is \<open>str\<close> of a container used as a dictionary key. Floats are not
  among the modelled values.
\<close>

section \<open>References and values\<close>

record secret_reference =
  sf_secret_id :: string
  sf_provider :: string
  sf_mission_id :: string
  sf_required_capability :: string
  sf_purpose :: string
  sf_version :: "string option"

definition reference_validate :: "secret_reference \<Rightarrow> unit res" where
  "reference_validate r = checks (map (\<lambda>(name, v). raise_if (blank v) (ValueError (name @ '' is required'')))
     [(''secret_id'', sf_secret_id r), (''provider'', sf_provider r), (''mission_id'', sf_mission_id r),
      (''required_capability'', sf_required_capability r), (''purpose'', sf_purpose r)])"

text \<open>Python values; \<open>PSecret\<close> is a resolved \<open>SecretMaterial\<close>, \<open>PObject\<close> any other object.\<close>

datatype pyval =
    PNone
  | PBool bool
  | PInt int
  | PStr string
  | PSecret secret_reference string
  | PReference secret_reference
  | PList "pyval list"
  | PTuple "pyval list"
  | PSet "pyval list"
  | PDict "(pyval \<times> pyval) list"
  | PObject nat

definition redacted_secret :: string where
  "redacted_secret = ''***SECRET***''"

definition new_material :: "secret_reference \<Rightarrow> string \<Rightarrow> pyval res" where
  "new_material r v = (if v = [] then Inl (ValueError ''resolved secret must not be empty'') else Inr (PSecret r v))"

definition str_or_none :: "string option \<Rightarrow> pyval" where
  "str_or_none s = (case s of None \<Rightarrow> PNone | Some t \<Rightarrow> PStr t)"

definition reference_to_dict :: "secret_reference \<Rightarrow> pyval" where
  "reference_to_dict r = PDict [(PStr ''secret_id'', PStr (sf_secret_id r)), (PStr ''provider'', PStr (sf_provider r)),
     (PStr ''mission_id'', PStr (sf_mission_id r)), (PStr ''required_capability'', PStr (sf_required_capability r)),
     (PStr ''purpose'', PStr (sf_purpose r)), (PStr ''version'', str_or_none (sf_version r))]"

fun contains_secret_material :: "pyval \<Rightarrow> bool" where
  "contains_secret_material (PSecret r v) \<longleftrightarrow> True"
| "contains_secret_material (PDict kvs) \<longleftrightarrow>
     list_ex id (map (\<lambda>(k, v). contains_secret_material k \<or> contains_secret_material v) kvs)"
| "contains_secret_material (PList vs) \<longleftrightarrow> list_ex id (map contains_secret_material vs)"
| "contains_secret_material (PTuple vs) \<longleftrightarrow> list_ex id (map contains_secret_material vs)"
| "contains_secret_material (PSet vs) \<longleftrightarrow> list_ex id (map contains_secret_material vs)"
| "contains_secret_material _ \<longleftrightarrow> False"

text \<open>\<open>str(key)\<close>\<close>

definition key_text :: "(pyval \<Rightarrow> string) \<Rightarrow> pyval \<Rightarrow> string" where
  "key_text show k = (case k of PStr s \<Rightarrow> s | PSecret r v \<Rightarrow> redacted_secret | PNone \<Rightarrow> ''None''
     | PBool b \<Rightarrow> (if b then ''True'' else ''False'') | PInt i \<Rightarrow> show_int i | _ \<Rightarrow> show k)"

text \<open>A dict comprehension: a repeated key keeps its place and takes the later value.\<close>

definition dict_of :: "(pyval \<times> pyval) list \<Rightarrow> (pyval \<times> pyval) list" where
  "dict_of kvs = foldl (\<lambda>d (k, v). AList.update k v d) [] kvs"

fun secret_safe_projection :: "(pyval \<Rightarrow> string) \<Rightarrow> pyval \<Rightarrow> pyval" where
  "secret_safe_projection show (PSecret r v) = PStr redacted_secret"
| "secret_safe_projection show (PReference r) = reference_to_dict r"
| "secret_safe_projection show (PDict kvs) =
     PDict (dict_of (map (\<lambda>(k, v). (PStr (key_text show k), secret_safe_projection show v)) kvs))"
| "secret_safe_projection show (PList vs) = PList (map (secret_safe_projection show) vs)"
| "secret_safe_projection show (PTuple vs) = PList (map (secret_safe_projection show) vs)"
| "secret_safe_projection show (PSet vs) = PList (map (secret_safe_projection show) vs)"
| "secret_safe_projection show v = v"

section \<open>The projection\<close>

text \<open>Values the projection leaves alone: nothing but atoms, lists and dictionaries with text keys.\<close>

fun plain :: "pyval \<Rightarrow> bool" where
  "plain (PDict kvs) \<longleftrightarrow> distinct (map fst kvs) \<and> list_all id (map (\<lambda>(k, v). (\<exists>s. k = PStr s) \<and> plain v) kvs)"
| "plain (PList vs) \<longleftrightarrow> list_all id (map plain vs)"
| "plain (PSecret r v) \<longleftrightarrow> False"
| "plain (PReference r) \<longleftrightarrow> False"
| "plain (PTuple vs) \<longleftrightarrow> False"
| "plain (PSet vs) \<longleftrightarrow> False"
| "plain _ \<longleftrightarrow> True"

lemma distinct_dict_of: "distinct (map fst (dict_of kvs))"
proof -
  have "distinct (map fst d) \<Longrightarrow> distinct (map fst (foldl (\<lambda>d (k, v). AList.update k v d) d kvs))" for d
    by (induction kvs arbitrary: d) (auto simp: distinct_update)
  from this [of "[]"] show ?thesis by (simp add: dict_of_def)
qed

lemma update_set: "set (AList.update k v d) \<subseteq> insert (k, v) (set d)"
  by (induction d) auto

lemma dict_of_set: "set (dict_of kvs) \<subseteq> set kvs"
proof -
  have "set (foldl (\<lambda>d (k, v). AList.update k v d) d kvs) \<subseteq> set d \<union> set kvs" for d
  proof (induction kvs arbitrary: d)
    case (Cons kv kvs)
    obtain k v where "kv = (k, v)" by (cases kv)
    then show ?case using Cons.IH [of "AList.update k v d"] update_set [of k v d] by auto
  qed simp
  from this [of "[]"] show ?thesis by (simp add: dict_of_def)
qed

lemma dict_of_distinct:
  assumes "distinct (map fst kvs)" shows "dict_of kvs = kvs"
proof -
  have "distinct (map fst kvs) \<Longrightarrow> fst ` set d \<inter> fst ` set kvs = {} \<Longrightarrow>
      foldl (\<lambda>d (k, v). AList.update k v d) d kvs = d @ kvs" for d
    by (induction kvs arbitrary: d) (auto simp: update_new)
  from this [of "[]"] assms show ?thesis by (simp add: dict_of_def)
qed

lemma plain_projection: "plain (secret_safe_projection show v)"
proof (induction v)
  case (PDict kvs)
  let ?kvs = "map (\<lambda>(k, v). (PStr (key_text show k), secret_safe_projection show v)) kvs"
  have "(\<exists>s. k = PStr s) \<and> plain v" if "(k, v) \<in> set (dict_of ?kvs)" for k v
    using that dict_of_set [of ?kvs] PDict by fastforce
  then show ?case by (auto simp: distinct_dict_of list_all_iff)
qed (auto simp: reference_to_dict_def str_or_none_def list_all_iff split: option.splits)

lemma projection_plain: "plain v \<Longrightarrow> secret_safe_projection show v = v"
proof (induction v)
  case (PDict kvs)
  have "(PStr (key_text show k), secret_safe_projection show v) = (k, v)" if "(k, v) \<in> set kvs" for k v
  proof -
    from PDict.prems that obtain s where "k = PStr s" "plain v" by (fastforce simp: list_all_iff)
    with PDict.IH that show ?thesis by (auto simp: key_text_def snds.simps)
  qed
  then have "map (\<lambda>(k, v). (PStr (key_text show k), secret_safe_projection show v)) kvs = kvs"
    by (intro map_idI) auto
  with PDict.prems show ?case by (simp add: dict_of_distinct)
next
  case (PList vs)
  then show ?case by (auto simp: list_all_iff intro: map_idI)
qed simp_all

lemma projection_idem [simp]: "secret_safe_projection show (secret_safe_projection show v) = secret_safe_projection show v"
  by (rule projection_plain [OF plain_projection])

lemma plain_no_secret: "plain v \<Longrightarrow> \<not> contains_secret_material v"
  by (induction v) (fastforce simp: list_all_iff list_ex_iff)+

text \<open>A value with every resolved secret blanked out.\<close>

fun erase :: "pyval \<Rightarrow> pyval" where
  "erase (PSecret r v) = PSecret r []"
| "erase (PList vs) = PList (map erase vs)"
| "erase (PTuple vs) = PTuple (map erase vs)"
| "erase (PSet vs) = PSet (map erase vs)"
| "erase (PDict kvs) = PDict (map (\<lambda>(k, v). (erase k, erase v)) kvs)"
| "erase v = v"

text \<open>Printing a container prints \<open>***SECRET***\<close> for a secret inside it, as \<open>SecretMaterial.__repr__\<close> does.\<close>

definition prints_no_secret :: "(pyval \<Rightarrow> string) \<Rightarrow> bool" where
  "prints_no_secret show \<longleftrightarrow> (\<forall>v. show (erase v) = show v)"

lemma key_text_erase:
  assumes "prints_no_secret show" shows "key_text show (erase k) = key_text show k"
proof -
  from assms have "show (erase k) = show k" by (simp add: prints_no_secret_def)
  then show ?thesis by (cases k) (simp_all add: key_text_def)
qed

lemma projection_erase:
  "prints_no_secret show \<Longrightarrow> secret_safe_projection show (erase v) = secret_safe_projection show v"
proof (induction v)
  case (PDict kvs)
  have "map ((\<lambda>(k, v). (PStr (key_text show k), secret_safe_projection show v)) \<circ> (\<lambda>(k, v). (erase k, erase v))) kvs =
      map (\<lambda>(k, v). (PStr (key_text show k), secret_safe_projection show v)) kvs"
    using PDict by (intro map_cong) (auto simp: key_text_erase snds.simps)
  then show ?case by (simp only: erase.simps secret_safe_projection.simps map_map)
qed (auto simp: comp_def)

section \<open>The broker\<close>

record secret_binding =
  bi_env_name :: string
  bi_reference :: secret_reference

definition binding_validate :: "secret_binding \<Rightarrow> unit res" where
  "binding_validate b = checks [
     raise_if (blank (bi_env_name b)) (ValueError ''env_name is required''),
     raise_if (CHR ''='' \<in> set (bi_env_name b) \<or> CHR 0x00 \<in> set (bi_env_name b)) (ValueError ''invalid env_name'')]"

type_synonym 'w provider = "secret_reference \<Rightarrow> ('w, string) act"

text \<open>The constructor checks that each provider is registered under its own name.\<close>

definition new_broker :: "(string \<times> string \<times> 'w provider) list \<Rightarrow> (string \<times> 'w provider) list res" where
  "new_broker providers = res_bind (check_all (\<lambda>(name, provider_name, _). raise_if (provider_name \<noteq> name)
     (ValueError ''provider mapping/name mismatch'')) providers) (\<lambda>_. Inr (map (\<lambda>(name, _, p). (name, p)) providers))"

definition authorise :: "string \<Rightarrow> string list \<Rightarrow> string list \<Rightarrow> (string \<times> 'w provider) list \<Rightarrow> secret_binding \<Rightarrow> 'w provider res" where
  "authorise mission_id caps seen providers b = (let r = bi_reference b in
     res_bind (checks [
       raise_if (bi_env_name b \<in> set seen) (ValueError ''duplicate secret env binding''),
       raise_if (sf_mission_id r \<noteq> mission_id) (PermissionError ''cross_mission_secret_access_denied''),
       raise_if (sf_required_capability r \<notin> set caps) (PermissionError ''missing_secret_capability'')]) (\<lambda>_.
     fetch (KeyError [''unknown secret provider: '' @ sf_provider r]) (map_of providers (sf_provider r))))"

fun resolve_bindings :: "string \<Rightarrow> string list \<Rightarrow> (string \<times> 'w provider) list \<Rightarrow> string list \<Rightarrow> secret_binding list \<Rightarrow>
    ('w, (string \<times> string) list) act" where
  "resolve_bindings mission_id caps providers seen [] = act_return []"
| "resolve_bindings mission_id caps providers seen (b # bs) =
     act_bind (reading (\<lambda>_. authorise mission_id caps seen providers b)) (\<lambda>provider.
     act_bind (provider (bi_reference b)) (\<lambda>v.
     act_bind (reading (\<lambda>_. res_bind (new_material (bi_reference b) v) (\<lambda>_. Inr ()))) (\<lambda>_.
     act_bind (resolve_bindings mission_id caps providers (bi_env_name b # seen) bs) (\<lambda>env.
     act_return ((bi_env_name b, v) # env)))))"

definition execute_with_bindings :: "(string \<times> 'w provider) list \<Rightarrow> string \<Rightarrow> string \<Rightarrow> string list \<Rightarrow> secret_binding list \<Rightarrow>
    ((string \<times> string) list \<Rightarrow> ('w, 'a) act) \<Rightarrow> ('w, 'a) act" where
  "execute_with_bindings providers mission_id actor_id caps bindings executor =
     (if mission_id = [] \<or> actor_id = [] then reading (\<lambda>_. Inl (ValueError ''mission_id and actor_id are required''))
      else if bindings = [] then executor []
      else act_bind (resolve_bindings mission_id caps providers [] bindings) executor)"

definition may_use :: "string \<Rightarrow> string list \<Rightarrow> secret_reference \<Rightarrow> bool" where
  "may_use mission_id caps r \<longleftrightarrow> sf_mission_id r = mission_id \<and> sf_required_capability r \<in> set caps"

lemma authorise_Inr:
  "authorise mission_id caps seen providers b = Inr p \<longleftrightarrow> bi_env_name b \<notin> set seen \<and>
     may_use mission_id caps (bi_reference b) \<and> map_of providers (sf_provider (bi_reference b)) = Some p"
  by (auto simp: authorise_def Let_def may_use_def)

lemma resolve_bindings_env:
  assumes "resolve_bindings mission_id caps providers seen bs w = (w', Inr env)"
  shows "map fst env = map bi_env_name bs \<and> distinct (map bi_env_name bs) \<and>
     set (map bi_env_name bs) \<inter> set seen = {} \<and>
     list_all (\<lambda>b. may_use mission_id caps (bi_reference b)) bs \<and> list_all (\<lambda>e. snd e \<noteq> []) env"
  using assms
proof (induction bs arbitrary: seen w env)
  case (Cons b bs)
  then obtain p v rest w1 where p: "authorise mission_id caps seen providers b = Inr p" "v \<noteq> []"
    "resolve_bindings mission_id caps providers (bi_env_name b # seen) bs w1 = (w', Inr rest)" "env = (bi_env_name b, v) # rest"
    by (auto simp: act_bind_Inr new_material_def split: if_splits)
  from Cons.IH [OF p(3)] p(1,2,4) show ?case by (auto simp: authorise_Inr)
qed simp

text \<open>Bindings that may be resolved: every reference is for the mission and a held capability, every provider is known
  and the names are distinct.\<close>

definition admissible :: "string \<Rightarrow> string list \<Rightarrow> (string \<times> 'w provider) list \<Rightarrow> secret_binding list \<Rightarrow> bool" where
  "admissible mission_id caps providers bs \<longleftrightarrow> distinct (map bi_env_name bs) \<and>
     (\<forall>b \<in> set bs. may_use mission_id caps (bi_reference b) \<and> map_of providers (sf_provider (bi_reference b)) \<noteq> None)"

text \<open>The answers of the providers, each asked once in order; an empty answer is refused.\<close>

fun answers :: "(string \<times> 'w provider) list \<Rightarrow> secret_binding list \<Rightarrow> ('w, string list) act" where
  "answers providers [] = act_return []"
| "answers providers (b # bs) =
     act_bind (the (map_of providers (sf_provider (bi_reference b))) (bi_reference b)) (\<lambda>v.
     if v = [] then reading (\<lambda>_. Inl (ValueError ''resolved secret must not be empty''))
     else act_bind (answers providers bs) (\<lambda>vs. act_return (v # vs)))"

lemma resolve_admissible:
  "admissible mission_id caps providers bs \<Longrightarrow> set (map bi_env_name bs) \<inter> set seen = {} \<Longrightarrow>
     resolve_bindings mission_id caps providers seen bs w =
       act_bind (answers providers bs) (\<lambda>vs. act_return (zip (map bi_env_name bs) vs)) w"
proof (induction bs arbitrary: seen w)
  case (Cons b bs)
  then obtain p where p: "map_of providers (sf_provider (bi_reference b)) = Some p" by (auto simp: admissible_def)
  with Cons.prems have a: "authorise mission_id caps seen providers b = Inr p"
    by (auto simp: authorise_Inr admissible_def)
  have "admissible mission_id caps providers bs" using Cons.prems(1) by (simp add: admissible_def)
  moreover have "set (map bi_env_name bs) \<inter> set (bi_env_name b # seen) = {}"
    using Cons.prems by (auto simp: admissible_def)
  ultimately have IH: "resolve_bindings mission_id caps providers (bi_env_name b # seen) bs u =
      act_bind (answers providers bs) (\<lambda>vs. act_return (zip (map bi_env_name bs) vs)) u" for u by (rule Cons.IH)
  show ?case
    by (auto simp: act_bind_apply a p IH new_material_def split: sum.splits prod.splits)
qed (simp add: act_bind_apply)

lemma resolve_refused:
  assumes "\<not> (admissible mission_id caps providers bs \<and> set (map bi_env_name bs) \<inter> set seen = {})"
  shows "\<exists>w' e pre post. resolve_bindings mission_id caps providers seen bs w = (w', Inl e) \<and> bs = pre @ post \<and>
     admissible mission_id caps providers pre \<and> set (map bi_env_name pre) \<inter> set seen = {} \<and>
     w' = fst (answers providers pre w)"
  using assms
proof (induction bs arbitrary: seen w)
  case Nil
  then show ?case by (simp add: admissible_def)
next
  case (Cons b bs)
  show ?case
  proof (cases "authorise mission_id caps seen providers b")
    case (Inl e)
    then have "resolve_bindings mission_id caps providers seen (b # bs) w = (w, Inl e)" by (simp add: act_bind_apply)
    then show ?thesis by (intro exI [of _ w] exI [of _ e] exI [of _ "[]"] exI [of _ "b # bs"]) (simp add: admissible_def)
  next
    case (Inr p)
    then have b: "bi_env_name b \<notin> set seen" "may_use mission_id caps (bi_reference b)"
      "map_of providers (sf_provider (bi_reference b)) = Some p" by (auto simp: authorise_Inr)
    then have one: "admissible mission_id caps providers [b]" "set (map bi_env_name [b]) \<inter> set seen = {}"
      by (simp_all add: admissible_def)
    obtain w1 v where v: "p (bi_reference b) w = (w1, v)" by (cases "p (bi_reference b) w")
    show ?thesis
    proof (cases "\<exists>s. v = Inr s \<and> s \<noteq> []")
      case False
      then have "\<exists>e. resolve_bindings mission_id caps providers seen (b # bs) w = (w1, Inl e)"
        by (cases v) (auto simp: act_bind_apply Inr v new_material_def)
      moreover have "w1 = fst (answers providers [b] w)"
        using False by (cases v) (auto simp: act_bind_apply b(3) v)
      ultimately show ?thesis using one by (metis append_Cons append_Nil)
    next
      case True
      then obtain s where s: "v = Inr s" "s \<noteq> []" by blast
      have "\<not> (admissible mission_id caps providers bs \<and> set (map bi_env_name bs) \<inter> set (bi_env_name b # seen) = {})"
        using Cons.prems b by (auto simp: admissible_def)
      from Cons.IH [OF this, of w1] obtain w' e pre post where r:
        "resolve_bindings mission_id caps providers (bi_env_name b # seen) bs w1 = (w', Inl e)" "bs = pre @ post"
        "admissible mission_id caps providers pre" "w' = fst (answers providers pre w1)"
        "set (map bi_env_name pre) \<inter> set (bi_env_name b # seen) = {}" by blast
      have "resolve_bindings mission_id caps providers seen (b # bs) w = (w', Inl e)"
        using r(1) by (simp add: act_bind_apply Inr v s new_material_def)
      moreover have "admissible mission_id caps providers (b # pre)" "set (map bi_env_name (b # pre)) \<inter> set seen = {}"
        using r(3,5) b by (auto simp: admissible_def)
      moreover have "w' = fst (answers providers (b # pre) w)"
        using r(4) by (auto simp: act_bind_apply b(3) v s split: sum.splits prod.splits)
      moreover have "b # bs = (b # pre) @ post" using r(2) by simp
      ultimately show ?thesis by blast
    qed
  qed
qed

lemma broker_call:
  fixes executor :: "(string \<times> string) list \<Rightarrow> ('w, 'a) act"
  shows "if mission_id \<noteq> [] \<and> actor_id \<noteq> [] \<and> admissible mission_id caps providers bs
     then execute_with_bindings providers mission_id actor_id caps bs executor w =
       act_bind (answers providers bs) (\<lambda>vs. executor (zip (map bi_env_name bs) vs)) w
     else \<exists>w' e pre post. (\<forall>executor' :: (string \<times> string) list \<Rightarrow> ('w, 'a) act.
         execute_with_bindings providers mission_id actor_id caps bs executor' w = (w', Inl e)) \<and>
       bs = pre @ post \<and> admissible mission_id caps providers pre \<and> w' = fst (answers providers pre w) \<and>
       (mission_id = [] \<or> actor_id = [] \<longrightarrow> w' = w)"
proof (cases "mission_id = [] \<or> actor_id = []")
  case True
  have empty: "admissible mission_id caps providers []" by (simp add: admissible_def)
  have refused: "execute_with_bindings providers mission_id actor_id caps bs ex w =
      (w, Inl (ValueError ''mission_id and actor_id are required''))" for ex :: "(string \<times> string) list \<Rightarrow> ('w, 'a) act"
    using True by (auto simp: execute_with_bindings_def)
  have "\<not> (mission_id \<noteq> [] \<and> actor_id \<noteq> [] \<and> admissible mission_id caps providers bs)" using True by blast
  then show ?thesis
    unfolding if_not_P [OF \<open>\<not> (mission_id \<noteq> [] \<and> actor_id \<noteq> [] \<and> admissible mission_id caps providers bs)\<close>]
    by (intro exI [of _ w] exI [of _ "ValueError ''mission_id and actor_id are required''"] exI [of _ "[]"] exI [of _ bs])
      (simp add: empty refused)
next
  case ids: False
  show ?thesis
  proof (cases "admissible mission_id caps providers bs")
    case True
    have "execute_with_bindings providers mission_id actor_id caps bs executor w =
        act_bind (resolve_bindings mission_id caps providers [] bs) executor w"
      using ids by (cases bs) (simp_all add: execute_with_bindings_def act_bind_apply)
    also have "\<dots> = act_bind (answers providers bs) (\<lambda>vs. executor (zip (map bi_env_name bs) vs)) w"
      using resolve_admissible [OF True, of "[]" w] by (auto simp: act_bind_apply split: sum.splits prod.splits)
    finally show ?thesis using True ids by simp
  next
    case False
    then have "bs \<noteq> []" by (auto simp: admissible_def)
    from False resolve_refused [of mission_id caps providers bs "[]" w] obtain w' e pre post where r:
      "resolve_bindings mission_id caps providers [] bs w = (w', Inl e)" "bs = pre @ post"
      "admissible mission_id caps providers pre" "w' = fst (answers providers pre w)" by auto
    have "execute_with_bindings providers mission_id actor_id caps bs ex w = (w', Inl e)"
      for ex :: "(string \<times> string) list \<Rightarrow> ('w, 'a) act"
      using ids \<open>bs \<noteq> []\<close> r(1) by (simp add: execute_with_bindings_def act_bind_apply)
    with False ids r(2-4) show ?thesis by (simp only: if_False simp_thms) blast
  qed
qed

text \<open>Providers that answer alike for the references a mission may use cannot be told apart.\<close>

definition agree :: "string \<Rightarrow> string list \<Rightarrow> (string \<times> 'w provider) list \<Rightarrow> (string \<times> 'w provider) list \<Rightarrow> bool" where
  "agree mission_id caps ps qs \<longleftrightarrow> list_all2 (\<lambda>(n, p) (m, q). n = m \<and> (\<forall>r. may_use mission_id caps r \<longrightarrow> p r = q r)) ps qs"

lemma agree_lookup:
  assumes "agree mission_id caps ps qs"
  shows "rel_option (\<lambda>p q. \<forall>r. may_use mission_id caps r \<longrightarrow> p r = q r) (map_of ps n) (map_of qs n)"
  using assms unfolding agree_def by (induction rule: list_all2_induct) auto

lemma resolve_bindings_agree:
  assumes "agree mission_id caps ps qs"
  shows "resolve_bindings mission_id caps ps seen bs = resolve_bindings mission_id caps qs seen bs"
proof (induction bs arbitrary: seen)
  case (Cons b bs)
  let ?r = "bi_reference b"
  have alike: "p ?r = q ?r" if "authorise mission_id caps seen ps b = Inr p" "authorise mission_id caps seen qs b = Inr q" for p q
    using that agree_lookup [OF assms, of "sf_provider ?r"] by (simp add: authorise_Inr)
  have fails: "authorise mission_id caps seen ps b = Inl e \<longleftrightarrow> authorise mission_id caps seen qs b = Inl e" for e
    using agree_lookup [OF assms, of "sf_provider ?r"]
    by (cases "map_of ps (sf_provider ?r)"; cases "map_of qs (sf_provider ?r)")
      (auto simp: authorise_def Let_def raise_if_def)
  have "act_bind (reading (\<lambda>_. authorise mission_id caps seen ps b)) (\<lambda>p. act_bind (p ?r) k) =
      act_bind (reading (\<lambda>_. authorise mission_id caps seen qs b)) (\<lambda>p. act_bind (p ?r) k)" for k :: "string \<Rightarrow> ('a, 'c) act"
  proof (cases "authorise mission_id caps seen ps b")
    case (Inl e)
    with fails [of e] show ?thesis by (simp add: act_bind_def)
  next
    case (Inr p)
    with fails obtain q where "authorise mission_id caps seen qs b = Inr q"
      by (cases "authorise mission_id caps seen qs b") auto
    with Inr alike show ?thesis by (simp add: act_bind_def)
  qed
  then show ?case by (simp add: Cons.IH)
qed simp

section \<open>Redaction and traces\<close>

definition redacted :: string where
  "redacted = ''***REDACTED***''"

definition sensitive_keys :: "string list" where
  "sensitive_keys = [''auth'', ''authorization'', ''private_value'', ''access_value'', ''credential_value'', ''secret'',
     ''secret_value'', ''token'', ''access_token'', ''refresh_token'', ''api_key'', ''password'', ''private_key'']"

definition sensitive :: "string \<Rightarrow> bool" where
  "sensitive k \<longleftrightarrow> lower k \<in> set sensitive_keys"

lemma plain_dict_size:
  assumes "plain (PDict kvs)" "(k, v) \<in> set kvs" shows "plain v" "size v < size (PDict kvs)"
proof -
  show "plain v" using assms by (auto simp: list_all_iff)
  have "size_prod size size (k, v) \<le> size_list (size_prod size size) kvs"
    using assms(2) by (metis less_or_eq_imp_le size_list_estimation' order_refl)
  then show "size v < size (PDict kvs)" by simp
qed

lemma plain_list_size:
  assumes "v \<in> set vs" shows "size v < size (PList vs)"
  using size_list_estimation' [OF assms, of "size v" size] by simp

function redact :: "(pyval \<Rightarrow> string) \<Rightarrow> pyval \<Rightarrow> pyval" where
  "redact show v = (case secret_safe_projection show v of
     PDict kvs \<Rightarrow> PDict (dict_of (map (\<lambda>(k, item). (PStr (key_text show k),
       if sensitive (key_text show k) then PStr redacted else redact show item)) kvs))
   | PList vs \<Rightarrow> PList (map (redact show) vs)
   | PTuple vs \<Rightarrow> PList (map (redact show) vs)
   | w \<Rightarrow> w)"
  by pat_completeness auto

text \<open>Redaction ends: a projected value is its own projection, and its parts are smaller.\<close>

termination
proof (relation "measure (\<lambda>(str, v). size (secret_safe_projection str v))", simp)
  fix str :: "pyval \<Rightarrow> string" and v k item :: pyval and kvs :: "(pyval \<times> pyval) list" and z
  assume kvs: "secret_safe_projection str v = PDict kvs" and z: "z \<in> set kvs" "(k, item) = z"
  have p: "plain (PDict kvs)" using plain_projection [of str v] by (simp only: kvs)
  from z have mem: "(k, item) \<in> set kvs" by simp
  have "secret_safe_projection str item = item" by (rule projection_plain [OF plain_dict_size(1) [OF p mem]])
  with plain_dict_size(2) [OF p mem] kvs
  show "((str, item), str, v) \<in> measure (\<lambda>(str, v). size (secret_safe_projection str v))" by simp
next
  fix str :: "pyval \<Rightarrow> string" and v item :: pyval and vs
  assume vs: "secret_safe_projection str v = PList vs" and m: "item \<in> set vs"
  have "plain (PList vs)" using plain_projection [of str v] by (simp only: vs)
  with m have "secret_safe_projection str item = item" by (auto simp: list_all_iff intro: projection_plain)
  with plain_list_size [OF m] vs
  show "((str, item), str, v) \<in> measure (\<lambda>(str, v). size (secret_safe_projection str v))" by simp
next
  fix str :: "pyval \<Rightarrow> string" and v item :: pyval and vs
  assume vs: "secret_safe_projection str v = PTuple vs"
  have False using plain_projection [of str v] by (simp add: vs)
  then show "((str, item), str, v) \<in> measure (\<lambda>(str, v). size (secret_safe_projection str v))" ..
qed

declare redact.simps [simp del]

text \<open>\<open>json.dumps\<close> of a redacted value: the value as JSON; other objects raise.\<close>

fun json_of :: "pyval \<Rightarrow> json res" where
  "json_of PNone = Inr JNull"
| "json_of (PBool b) = Inr (JBool b)"
| "json_of (PInt i) = Inr (JInt i)"
| "json_of (PStr s) = Inr (JStr s)"
| "json_of (PList vs) = res_bind (map_res json_of vs) (\<lambda>js. Inr (JList js))"
| "json_of (PDict kvs) = res_bind (map_res (\<lambda>(k, v). res_bind (json_of v) (\<lambda>j.
     case k of PStr s \<Rightarrow> Inr (s, j) | _ \<Rightarrow> Inl (TypeError ''keys must be text''))) kvs) (\<lambda>js. Inr (JObj js))"
| "json_of _ = Inl (TypeError ''Object is not JSON serializable'')"

record trace_row =
  tw_mission_id :: string
  tw_actor_id :: string
  tw_event_name :: string
  tw_payload_json :: string
  tw_created_at :: string

text \<open>The sequence number of a row is its position, counted from 1.\<close>

definition trace :: "(pyval \<Rightarrow> string) \<Rightarrow> string \<Rightarrow> string \<Rightarrow> string \<Rightarrow> string \<Rightarrow> pyval \<Rightarrow> trace_row list \<Rightarrow>
    (trace_row list \<times> nat) res" where
  "trace show now mission_id actor_id event_name payload rows =
     res_bind (raise_if (mission_id = [] \<or> actor_id = [] \<or> event_name = [])
       (ValueError ''mission_id, actor_id and event_name are required'')) (\<lambda>_.
     res_bind (json_of (redact show payload)) (\<lambda>j.
     Inr (rows @ [\<lparr>tw_mission_id = mission_id, tw_actor_id = actor_id, tw_event_name = event_name,
       tw_payload_json = json_dumps j, tw_created_at = now\<rparr>], length rows + 1)))"

definition trace_events :: "string \<Rightarrow> trace_row list \<Rightarrow> (nat \<times> trace_row) list" where
  "trace_events mission_id rows = filter (\<lambda>(n, r). tw_mission_id r = mission_id) (zip [1 ..< length rows + 1] rows)"

section \<open>What a trace cannot show\<close>

text \<open>Every value under a sensitive key is the redaction mark.\<close>

fun clean :: "pyval \<Rightarrow> bool" where
  "clean (PDict kvs) \<longleftrightarrow> list_all id (map (\<lambda>(k, v). case k of PStr s \<Rightarrow>
     (if sensitive s then v = PStr redacted else clean v) | _ \<Rightarrow> False) kvs)"
| "clean (PList vs) \<longleftrightarrow> list_all id (map clean vs)"
| "clean (PSecret r v) \<longleftrightarrow> False"
| "clean _ \<longleftrightarrow> True"

lemma redact_clean: "clean (redact str v)"
proof (induction str v rule: redact.induct)
  case (1 str v)
  show ?case
  proof (cases "secret_safe_projection str v")
    case (PDict kvs)
    let ?kvs = "map (\<lambda>(k, item). (PStr (key_text str k), if sensitive (key_text str k) then PStr redacted else redact str item)) kvs"
    have "\<exists>t. k = PStr t \<and> (if sensitive t then x = PStr redacted else clean x)" if "(k, x) \<in> set (dict_of ?kvs)" for k x
    proof -
      from that have "(k, x) \<in> set ?kvs" using dict_of_set by (rule rev_subsetD)
      then obtain kk item where item: "(kk, item) \<in> set kvs" "k = PStr (key_text str kk)"
        "x = (if sensitive (key_text str kk) then PStr redacted else redact str item)" by auto
      with 1(3) [OF PDict item(1) refl] show ?thesis by (intro exI [of _ "key_text str kk"]) auto
    qed
    then have "case e of (k, x) \<Rightarrow> case k of PStr s \<Rightarrow> (if sensitive s then x = PStr redacted else clean x) | _ \<Rightarrow> False"
      if "e \<in> set (dict_of ?kvs)" for e using that by (cases e) fastforce
    then have "clean (PDict (dict_of ?kvs))" by (simp only: clean.simps list_all_iff set_map ball_simps id_apply) blast
    then show ?thesis by (subst redact.simps) (simp only: PDict pyval.case)
  next
    case (PList vs)
    with 1(1) show ?thesis by (subst redact.simps) (simp add: list_all_iff)
  next
    case (PTuple vs)
    with plain_projection [of str v] show ?thesis by simp
  next
    case (PSecret r x)
    with plain_projection [of str v] show ?thesis by simp
  qed (subst redact.simps, simp)+
qed

lemma redact_erase: "prints_no_secret str \<Longrightarrow> redact str (erase v) = redact str v"
  by (subst (1 2) redact.simps) (simp add: projection_erase)

end
