(* ===== verification/Qualification.thy ===== *)
theory Qualification
  imports Listing
begin

text \<open>
  Evaluation and qualification: protected baselines and their store (src/factory/evaluations/), the
  comparison of the factory with a simple path (src/factory/qualification/), service level evidence
  (src/factory/reliability/slo.py) and release readiness (readiness.py). Floats are rational numbers;
  a JSON column is the value it encodes.
\<close>

section \<open>Evaluation baselines\<close>

record evaluation_case =
  ec_case_id :: string
  ec_input_ref :: string
  ec_expected_evidence_refs :: "string list"
  ec_protected :: bool

definition case_validate :: "evaluation_case \<Rightarrow> unit res" where
  "case_validate c = checks [
     raise_if (blank (ec_case_id c) \<or> blank (ec_input_ref c)) (ValueError ''evaluation case identity and input_ref are required''),
     raise_if (ec_expected_evidence_refs c = [] \<or> list_ex blank (ec_expected_evidence_refs c))
       (ValueError ''evaluation case requires expected evidence refs''),
     raise_if (\<not> distinct (ec_expected_evidence_refs c)) (ValueError ''duplicate expected evidence refs'')]"

record evaluation_baseline =
  eb_baseline_id :: string
  eb_version :: int
  eb_created_by :: string
  eb_evaluator_id :: string
  eb_cases :: "evaluation_case list"

definition baseline_validate :: "evaluation_baseline \<Rightarrow> unit res" where
  "baseline_validate b = checks [
     raise_if (list_ex blank [eb_baseline_id b, eb_created_by b, eb_evaluator_id b]) (ValueError ''baseline identity is required''),
     raise_if (eb_version b < 1 \<or> eb_cases b = []) (ValueError ''baseline requires positive version and cases''),
     check_all case_validate (eb_cases b),
     raise_if (\<not> distinct (map ec_case_id (eb_cases b))) (ValueError ''duplicate evaluation case ids'')]"

definition case_json :: "evaluation_case \<Rightarrow> json" where
  "case_json c = JObj [(''case_id'', JStr (ec_case_id c)), (''input_ref'', JStr (ec_input_ref c)),
     (''expected_evidence_refs'', JStrs (sort (ec_expected_evidence_refs c))), (''protected'', JBool (ec_protected c))]"

definition baseline_json :: "evaluation_baseline \<Rightarrow> json" where
  "baseline_json b = JObj [(''baseline_id'', JStr (eb_baseline_id b)), (''version'', JInt (eb_version b)),
     (''created_by'', JStr (eb_created_by b)), (''evaluator_id'', JStr (eb_evaluator_id b)),
     (''cases'', JList (map case_json (eb_cases b)))]"

definition baseline_fingerprint :: "(string \<Rightarrow> string) \<Rightarrow> evaluation_baseline \<Rightarrow> string res" where
  "baseline_fingerprint sha b = res_bind (baseline_validate b) (\<lambda>_.
     Inr (''sha256:'' @ sha (json_dumps_ascii (baseline_json b))))"

section \<open>Metrics\<close>

record case_outcome =
  co_case_id :: string
  co_claimed_complete :: bool
  co_evidence_refs :: "string list"
  co_quality_score :: rat
  co_cost_units :: rat
  co_latency_ms :: int

definition outcome_validate :: "case_outcome \<Rightarrow> unit res" where
  "outcome_validate x = checks [
     raise_if (blank (co_case_id x)) (ValueError ''case id required''),
     raise_if (\<not> in_unit (co_quality_score x)) (ValueError ''quality_score must be in [0,1]''),
     raise_if (co_cost_units x < 0 \<or> co_latency_ms x < 0) (ValueError ''cost and latency cannot be negative'')]"

record evaluation_metrics =
  em_case_count :: nat
  em_false_completion_rate :: rat
  em_mean_quality :: rat
  em_total_cost_units :: rat
  em_mean_latency_ms :: rat

record tally =
  ty_false :: nat
  ty_quality :: rat
  ty_cost :: rat
  ty_latency :: int

definition false_completion :: "(string \<times> string list) list \<Rightarrow> case_outcome \<Rightarrow> bool" where
  "false_completion expected x \<longleftrightarrow> co_claimed_complete x \<and>
     (case map_of expected (co_case_id x) of None \<Rightarrow> False | Some refs \<Rightarrow> \<not> set refs \<subseteq> set (co_evidence_refs x))"

fun tally_outcomes :: "(string \<times> string list) list \<Rightarrow> string list \<Rightarrow> tally \<Rightarrow> case_outcome list \<Rightarrow> tally res" where
  "tally_outcomes expected seen t [] = Inr t"
| "tally_outcomes expected seen t (x # xs) =
     res_bind (outcome_validate x) (\<lambda>_.
     res_bind (raise_if (map_of expected (co_case_id x) = None \<or> co_case_id x \<in> set seen)
       (ValueError ''unknown or duplicate outcome case'')) (\<lambda>_.
     tally_outcomes expected (co_case_id x # seen)
       \<lparr>ty_false = (if false_completion expected x then ty_false t + 1 else ty_false t),
        ty_quality = ty_quality t + co_quality_score x, ty_cost = ty_cost t + co_cost_units x,
        ty_latency = ty_latency t + co_latency_ms x\<rparr> xs))"

definition calculate_metrics :: "evaluation_baseline \<Rightarrow> case_outcome list \<Rightarrow> evaluation_metrics res" where
  "calculate_metrics b xs =
     res_bind (baseline_validate b) (\<lambda>_.
     res_bind (raise_if (length xs \<noteq> length (eb_cases b)) (ValueError ''outcomes must cover baseline exactly'')) (\<lambda>_.
     res_bind (tally_outcomes (dict_by ec_case_id ec_expected_evidence_refs (eb_cases b)) []
       \<lparr>ty_false = 0, ty_quality = 0, ty_cost = 0, ty_latency = 0\<rparr> xs) (\<lambda>t.
     let n = of_nat (length xs) in
     Inr \<lparr>em_case_count = length xs, em_false_completion_rate = of_nat (ty_false t) / n,
       em_mean_quality = ty_quality t / n, em_total_cost_units = ty_cost t, em_mean_latency_ms = of_int (ty_latency t) / n\<rparr>)))"

section \<open>The evaluation store\<close>

record baseline_row =
  br_baseline :: evaluation_baseline
  br_fingerprint :: string

record run_row =
  rr_run_id :: string
  rr_baseline_id :: string
  rr_baseline_version :: int
  rr_baseline_fingerprint :: string
  rr_worker_id :: string
  rr_provider_id :: string
  rr_metrics :: evaluation_metrics

record evaluation_db =
  ed_baselines :: "baseline_row list"
  ed_runs :: "run_row list"

definition baseline_key :: "evaluation_baseline \<Rightarrow> string \<times> int" where
  "baseline_key b = (eb_baseline_id b, eb_version b)"

definition register_baseline :: "(string \<Rightarrow> string) \<Rightarrow> string \<Rightarrow> evaluation_baseline \<Rightarrow> evaluation_db \<Rightarrow> (evaluation_db \<times> string) res" where
  "register_baseline sha actor_id b db =
     res_bind (baseline_validate b) (\<lambda>_.
     res_bind (checks [
       raise_if (actor_id = eb_evaluator_id b) (PermissionError ''evaluator cannot self-register its protected baseline''),
       raise_if (list_ex ec_protected (eb_cases b) \<and> actor_id = eb_created_by b)
         (PermissionError ''baseline author requires independent registrar for protected cases'')]) (\<lambda>_.
     res_bind (baseline_fingerprint sha b) (\<lambda>fp.
     res_bind (checks [
       raise_if (baseline_key b \<in> set (map (baseline_key \<circ> br_baseline) (ed_baselines db)))
         (IntegrityError ''UNIQUE constraint failed: eval_baselines.baseline_id, eval_baselines.version''),
       raise_if (fp \<in> set (map br_fingerprint (ed_baselines db)))
         (IntegrityError ''UNIQUE constraint failed: eval_baselines.fingerprint'')]) (\<lambda>_.
     Inr (db\<lparr>ed_baselines := ed_baselines db @ [\<lparr>br_baseline = b, br_fingerprint = fp\<rparr>]\<rparr>, fp)))))"

definition assert_baseline_integrity :: "(string \<Rightarrow> string) \<Rightarrow> evaluation_baseline \<Rightarrow> evaluation_db \<Rightarrow> unit res" where
  "assert_baseline_integrity sha b db =
     res_bind (fetch (KeyError [eb_baseline_id b, show_int (eb_version b)])
       (find (\<lambda>r. baseline_key (br_baseline r) = baseline_key b) (ed_baselines db))) (\<lambda>r.
     res_bind (baseline_fingerprint sha b) (\<lambda>fp.
     raise_if (br_fingerprint r \<noteq> fp) (RuntimeError ''protected evaluation baseline changed after registration'')))"

definition record_run :: "(string \<Rightarrow> string) \<Rightarrow> string \<Rightarrow> evaluation_baseline \<Rightarrow> string \<Rightarrow> string \<Rightarrow> string \<Rightarrow>
    evaluation_metrics \<Rightarrow> evaluation_db \<Rightarrow> evaluation_db res" where
  "record_run sha run_id b worker_id provider_id evaluator metrics db =
     res_bind (checks [
       raise_if (list_ex blank [run_id, worker_id, provider_id, evaluator]) (ValueError ''evaluation run identity is required''),
       raise_if (worker_id = evaluator) (PermissionError ''evaluated worker cannot act as its evaluator''),
       raise_if (eb_evaluator_id b \<noteq> evaluator)
         (PermissionError ''evaluation actor does not own this baseline evaluator role'')]) (\<lambda>_.
     res_bind (assert_baseline_integrity sha b db) (\<lambda>_.
     res_bind (baseline_fingerprint sha b) (\<lambda>fp.
     res_bind (raise_if (run_id \<in> set (map rr_run_id (ed_runs db))) (IntegrityError ''UNIQUE constraint failed: eval_runs.run_id'')) (\<lambda>_.
     Inr (db\<lparr>ed_runs := ed_runs db @ [\<lparr>rr_run_id = run_id, rr_baseline_id = eb_baseline_id b,
       rr_baseline_version = eb_version b, rr_baseline_fingerprint = fp, rr_worker_id = worker_id,
       rr_provider_id = provider_id, rr_metrics = metrics\<rparr>]\<rparr>)))))"

record provider_row =
  pv_provider_id :: string
  pv_runs :: nat
  pv_mean_quality :: rat
  pv_mean_false_completion_rate :: rat
  pv_mean_cost_units :: rat
  pv_mean_latency_ms :: rat

definition mean_of :: "(evaluation_metrics \<Rightarrow> rat) \<Rightarrow> evaluation_metrics list \<Rightarrow> rat" where
  "mean_of f ms = sum_list (map f ms) / of_nat (length ms)"

definition provider_summary :: "evaluation_db \<Rightarrow> provider_row list" where
  "provider_summary db = (let rows = sort_key rr_run_id (ed_runs db) in
     map (\<lambda>p. let items = map rr_metrics (filter (\<lambda>r. rr_provider_id r = p) rows) in
       \<lparr>pv_provider_id = p, pv_runs = length items, pv_mean_quality = mean_of em_mean_quality items,
        pv_mean_false_completion_rate = mean_of em_false_completion_rate items,
        pv_mean_cost_units = mean_of em_total_cost_units items, pv_mean_latency_ms = mean_of em_mean_latency_ms items\<rparr>)
     (sorted_set (map rr_provider_id rows)))"

section \<open>Qualification\<close>

definition required_dimensions :: "string list" where
  "required_dimensions = [''MISSION_PLANNING'', ''ARCHITECTURE_UX'', ''FULL_STACK'', ''MIGRATION'', ''SECURITY'',
     ''QA_REGRESSION'', ''PARALLEL_ISOLATION'', ''RELIABILITY_RECONCILE'', ''APPROVAL_GATE'', ''PERSISTENCE_REPLAY'',
     ''MEMORY_PROMOTION'']"

record qualification_evidence =
  qe_dimension :: string
  qe_evidence_ref :: string

definition qualification_evidence_validate :: "qualification_evidence \<Rightarrow> unit res" where
  "qualification_evidence_validate e = checks [
     raise_if (qe_dimension e \<notin> set required_dimensions) (ValueError (''unknown qualification dimension:'' @ qe_dimension e)),
     raise_if (blank (qe_evidence_ref e)) (ValueError ''qualification evidence_ref required'')]"

record path_result =
  pt_path_id :: string
  pt_evidence :: "qualification_evidence list"
  pt_false_completion_rate :: rat
  pt_quality :: rat
  pt_cost_units :: rat
  pt_latency_ms :: rat

definition path_validate :: "path_result \<Rightarrow> unit res" where
  "path_validate p = checks [
     raise_if (blank (pt_path_id p)) (ValueError ''path_id required''),
     raise_if (\<not> in_unit (pt_false_completion_rate p)) (ValueError ''false_completion_rate must be in [0,1]''),
     raise_if (\<not> in_unit (pt_quality p)) (ValueError ''quality must be in [0,1]''),
     raise_if (pt_cost_units p < 0 \<or> pt_latency_ms p < 0) (ValueError ''cost/latency cannot be negative''),
     check_all qualification_evidence_validate (pt_evidence p),
     raise_if (\<not> distinct (map qe_dimension (pt_evidence p))) (ValueError ''duplicate qualification dimensions'')]"

definition covered_dimensions :: "path_result \<Rightarrow> string list" where
  "covered_dimensions p = map qe_dimension (pt_evidence p)"

record qualification_comparison =
  qc_factory :: path_result
  qc_baseline :: path_result
  qc_quality_delta :: rat
  qc_false_completion_delta :: rat
  qc_cost_overhead :: rat
  qc_latency_overhead_ms :: rat
  qc_factory_justified :: bool
  qc_rationale :: string

definition compare_paths :: "path_result \<Rightarrow> path_result \<Rightarrow> qualification_comparison res" where
  "compare_paths f b =
     res_bind (path_validate f) (\<lambda>_.
     res_bind (path_validate b) (\<lambda>_.
     let missing = filter (\<lambda>d. d \<notin> set (covered_dimensions f)) required_dimensions in
     res_bind (raise_if (missing \<noteq> [])
       (ValueError (''factory qualification missing dimensions:'' @ join '','' (sorted_set missing)))) (\<lambda>_.
     let justified = (pt_false_completion_rate f < pt_false_completion_rate b \<or> 1 / 10 \<le> pt_quality f - pt_quality b) \<and>
       pt_quality b \<le> pt_quality f in
     Inr \<lparr>qc_factory = f, qc_baseline = b, qc_quality_delta = pt_quality f - pt_quality b,
       qc_false_completion_delta = pt_false_completion_rate b - pt_false_completion_rate f,
       qc_cost_overhead = pt_cost_units f - pt_cost_units b, qc_latency_overhead_ms = pt_latency_ms f - pt_latency_ms b,
       qc_factory_justified = justified,
       qc_rationale = (if justified
         then ''Factory path is justified by measurable quality/false-completion improvement; '' @
           ''cost and latency overhead remain explicit routing inputs.''
         else ''Factory complexity is not justified for this mission class; preserve the simpler/single-worker fast path.'')\<rparr>)))"

text \<open>\<open>latency_ms\<close> is the time the action took.\<close>

definition run_path :: "string \<Rightarrow> qualification_evidence list \<Rightarrow> bool \<Rightarrow> rat \<Rightarrow> path_result" where
  "run_path path_id evidence claimed_complete latency_ms =
     (let covered = remdups (map qe_dimension evidence) in
      \<lparr>pt_path_id = path_id, pt_evidence = evidence,
       pt_false_completion_rate = (if claimed_complete \<and> \<not> set required_dimensions \<subseteq> set covered then 1 else 0),
       pt_quality = of_nat (length (filter (\<lambda>d. d \<in> set required_dimensions) covered)) / of_nat (length required_dimensions),
       pt_cost_units = of_nat (length evidence), pt_latency_ms = latency_ms\<rparr>)"

section \<open>Service levels\<close>

record service_level_objective =
  sl_objective_id :: string
  sl_operation :: string
  sl_max_p95_latency_ms :: rat
  sl_max_error_rate :: rat
  sl_min_throughput_per_second :: rat
  sl_min_samples :: int

definition objective_validate :: "service_level_objective \<Rightarrow> unit res" where
  "objective_validate s = checks [
     raise_if (blank (sl_objective_id s) \<or> blank (sl_operation s)) (ValueError ''objective_id and operation are required''),
     raise_if (sl_max_p95_latency_ms s \<le> 0) (ValueError ''max_p95_latency_ms must be > 0''),
     raise_if (\<not> in_unit (sl_max_error_rate s)) (ValueError ''max_error_rate must be between 0 and 1''),
     raise_if (sl_min_throughput_per_second s < 0) (ValueError ''min_throughput_per_second must be >= 0''),
     raise_if (sl_min_samples s < 1) (ValueError ''min_samples must be >= 1'')]"

record operation_sample =
  op_operation :: string
  op_latency_ms :: rat
  op_success :: bool

definition sample_validate :: "operation_sample \<Rightarrow> unit res" where
  "sample_validate s = checks [
     raise_if (blank (op_operation s)) (ValueError ''sample operation is required''),
     raise_if (op_latency_ms s < 0) (ValueError ''latency_ms must be finite and >= 0'')]"

record slo_evidence =
  sw_objective_id :: string
  sw_operation :: string
  sw_environment :: string
  sw_sample_count :: nat
  sw_duration_seconds :: rat
  sw_p95_latency_ms :: rat
  sw_error_rate :: rat
  sw_throughput_per_second :: rat
  sw_latency_pass :: bool
  sw_error_rate_pass :: bool
  sw_throughput_pass :: bool
  sw_sufficient_samples :: bool
  sw_qualified :: bool
  sw_claim_scope :: string

definition assert_claimable_as_production :: "slo_evidence \<Rightarrow> unit res" where
  "assert_claimable_as_production e = checks [
     raise_if (sw_environment e \<noteq> ''PRODUCTION'') (RuntimeError ''non_production_evidence_cannot_claim_production_slo''),
     raise_if (\<not> sw_qualified e) (RuntimeError ''production_slo_not_qualified'')]"

definition nearest_rank_percentile :: "rat list \<Rightarrow> rat \<Rightarrow> rat res" where
  "nearest_rank_percentile vs p = res_bind (checks [
     raise_if (vs = []) (ValueError ''percentile requires at least one value''),
     raise_if (\<not> (0 < p \<and> p \<le> 1)) (ValueError ''percentile must be in (0,1]'')]) (\<lambda>_.
     Inr (sort vs ! (nat (max 1 \<lceil>p * of_nat (length vs)\<rceil>) - 1)))"

definition evaluate_slo :: "service_level_objective \<Rightarrow> operation_sample list \<Rightarrow> rat \<Rightarrow> string \<Rightarrow> slo_evidence res" where
  "evaluate_slo objective samples duration environment =
     res_bind (checks [
       raise_if (environment \<notin> {''LOCAL'', ''CI'', ''STAGING'', ''PRODUCTION''}) (ValueError ''unsupported environment''),
       raise_if (duration \<le> 0) (ValueError ''duration_seconds must be finite and > 0''),
       raise_if (samples = []) (ValueError ''at least one sample is required''),
       raise_if (list_ex (\<lambda>s. op_operation s \<noteq> sl_operation objective) samples)
         (ValueError ''sample operation does not match objective'')]) (\<lambda>_.
     res_bind (nearest_rank_percentile (map op_latency_ms samples) (95 / 100)) (\<lambda>p95.
     let n = length samples; failures = length (filter (\<lambda>s. \<not> op_success s) samples);
       error_rate = of_nat failures / of_nat n; throughput = of_nat n / duration;
       sufficient = sl_min_samples objective \<le> int n; latency_pass = p95 \<le> sl_max_p95_latency_ms objective;
       error_pass = error_rate \<le> sl_max_error_rate objective;
       throughput_pass = sl_min_throughput_per_second objective \<le> throughput in
     Inr \<lparr>sw_objective_id = sl_objective_id objective, sw_operation = sl_operation objective, sw_environment = environment,
       sw_sample_count = n, sw_duration_seconds = duration, sw_p95_latency_ms = p95, sw_error_rate = error_rate,
       sw_throughput_per_second = throughput, sw_latency_pass = latency_pass, sw_error_rate_pass = error_pass,
       sw_throughput_pass = throughput_pass, sw_sufficient_samples = sufficient,
       sw_qualified = (sufficient \<and> latency_pass \<and> error_pass \<and> throughput_pass),
       sw_claim_scope = (if environment = ''PRODUCTION'' then ''PRODUCTION_SLO_EVIDENCE'' else ''NON_PRODUCTION_QUALIFICATION_ONLY'')\<rparr>))"

definition remaining_error_budget :: "service_level_objective \<Rightarrow> int \<Rightarrow> int \<Rightarrow> int res" where
  "remaining_error_budget objective requests failed =
     (if requests < 0 \<or> failed < 0 \<or> requests < failed then Inl (ValueError ''invalid request counts'')
      else Inr (\<lfloor>of_int requests * sl_max_error_rate objective\<rfloor> - failed))"

section \<open>Release readiness\<close>

record readiness_control =
  ct_control_id :: string
  ct_status :: string
  ct_evidence_ref :: "string option"

definition control_validate :: "readiness_control \<Rightarrow> unit res" where
  "control_validate c = checks [
     raise_if (blank (ct_control_id c)) (ValueError ''control_id is required''),
     raise_if (ct_status c \<notin> {''PASS'', ''FAIL'', ''UNVERIFIED'', ''NOT_APPLICABLE''}) (ValueError ''invalid readiness control status''),
     raise_if (ct_status c = ''PASS'' \<and> (case ct_evidence_ref c of None \<Rightarrow> True | Some r \<Rightarrow> blank r))
       (ValueError ''PASS readiness control requires evidence_ref'')]"

record readiness_blocker =
  bk_control_id :: string
  bk_status :: string
  bk_scope :: string

record readiness_report =
  rt_stage :: string
  rt_code_qualified :: bool
  rt_production_ready :: bool
  rt_controls :: "readiness_control list"
  rt_blockers :: "readiness_blocker list"

definition assert_production_ready :: "readiness_report \<Rightarrow> unit res" where
  "assert_production_ready r = raise_if (\<not> rt_production_ready r) (RuntimeError ''production_readiness_not_proven'')"

fun normalize_controls :: "(string \<times> readiness_control) list \<Rightarrow> readiness_control list \<Rightarrow> (string \<times> readiness_control) list res" where
  "normalize_controls d [] = Inr d"
| "normalize_controls d (c # cs) = (if map_of d (ct_control_id c) \<noteq> None
     then Inl (ValueError (''duplicate readiness control:'' @ ct_control_id c))
     else normalize_controls (d @ [(ct_control_id c, c)]) cs)"

definition control_status :: "(string \<times> readiness_control) list \<Rightarrow> string \<Rightarrow> string" where
  "control_status d cid = (case map_of d cid of None \<Rightarrow> ''UNVERIFIED'' | Some c \<Rightarrow> ct_status c)"

definition scope_blockers :: "(string \<times> readiness_control) list \<Rightarrow> string \<Rightarrow> string list \<Rightarrow> readiness_blocker list" where
  "scope_blockers d scope required = map (\<lambda>cid. \<lparr>bk_control_id = cid, bk_status = control_status d cid, bk_scope = scope\<rparr>)
     (filter (\<lambda>cid. control_status d cid \<noteq> ''PASS'') required)"

definition evaluate_release_readiness :: "string list \<Rightarrow> string list \<Rightarrow> readiness_control list \<Rightarrow> readiness_report res" where
  "evaluate_release_readiness required_code required_production controls =
     res_bind (normalize_controls [] controls) (\<lambda>provided.
     let code = scope_blockers provided ''CODE'' required_code;
       production = scope_blockers provided ''PRODUCTION'' required_production;
       code_qualified = (code = []); ready = (code_qualified \<and> production = []) in
     Inr \<lparr>rt_stage = (if ready then ''PRODUCTION_READY'' else if code_qualified then ''CODE_QUALIFIED'' else ''NOT_QUALIFIED''),
       rt_code_qualified = code_qualified, rt_production_ready = ready,
       rt_controls = map snd (sort_key fst provided),
       rt_blockers = sort_key bk_scope (sort_key bk_control_id (code @ production))\<rparr>)"

definition mandatory_code_controls :: "string list" where
  "mandatory_code_controls = [''multi_mission_isolation'', ''backup_restore_integrity'', ''secret_reference_boundary'',
     ''audit_archival_integrity'', ''incident_response_state_machine'', ''supply_chain_inventory'', ''slo_evidence_contract'',
     ''ci_performance_regression'']"

definition mandatory_production_controls :: "string list" where
  "mandatory_production_controls = [''github_branch_protection'', ''production_secret_provider'', ''offsite_recovery'',
     ''production_slo_evidence'']"

section \<open>Metrics count every case of the baseline once\<close>

lemma tally_outcomes_Inr:
  "tally_outcomes expected seen t xs = Inr t' \<Longrightarrow>
     distinct (map co_case_id xs) \<and> co_case_id ` set xs \<inter> set seen = {} \<and> co_case_id ` set xs \<subseteq> fst ` set expected \<and>
     (\<forall>x \<in> set xs. outcome_validate x = Inr ()) \<and>
     ty_false t' = ty_false t + length (filter (false_completion expected) xs) \<and>
     ty_quality t' = ty_quality t + sum_list (map co_quality_score xs) \<and>
     ty_cost t' = ty_cost t + sum_list (map co_cost_units xs) \<and>
     ty_latency t' = ty_latency t + sum_list (map co_latency_ms xs)"
proof (induction xs arbitrary: seen t)
  case (Cons x xs)
  from Cons.prems have x: "outcome_validate x = Inr ()" "map_of expected (co_case_id x) \<noteq> None" "co_case_id x \<notin> set seen"
    by auto
  from x(2) have "co_case_id x \<in> fst ` set expected" by (simp add: map_of_eq_None_iff)
  with x Cons.prems show ?case by (auto dest!: Cons.IH)
qed simp

lemma case_ids_match:
  assumes "distinct (map co_case_id xs)" "co_case_id ` set xs \<subseteq> ec_case_id ` set cs" "length xs = length cs"
  shows "co_case_id ` set xs = ec_case_id ` set cs"
proof (rule card_subset_eq [OF _ assms(2)])
  have "card (ec_case_id ` set cs) \<le> length cs" by (metis card_length length_map set_map)
  moreover have "card (co_case_id ` set xs) = length xs" by (metis assms(1) distinct_card length_map set_map)
  ultimately show "card (co_case_id ` set xs) = card (ec_case_id ` set cs)"
    using card_mono [OF _ assms(2)] assms(3) by simp
qed simp

lemma calculate_metrics_Inr:
  assumes "calculate_metrics b xs = Inr m"
  shows "distinct (map co_case_id xs)" "co_case_id ` set xs = ec_case_id ` set (eb_cases b)"
    "\<forall>x \<in> set xs. outcome_validate x = Inr ()" "xs \<noteq> []"
    "em_false_completion_rate m =
       of_nat (length (filter (false_completion (map (\<lambda>c. (ec_case_id c, ec_expected_evidence_refs c)) (eb_cases b))) xs)) / of_nat (length xs)"
    "em_mean_quality m = sum_list (map co_quality_score xs) / of_nat (length xs)"
proof -
  from assms obtain t where b: "baseline_validate b = Inr ()" "length xs = length (eb_cases b)"
    and t: "tally_outcomes (dict_by ec_case_id ec_expected_evidence_refs (eb_cases b)) []
      \<lparr>ty_false = 0, ty_quality = 0, ty_cost = 0, ty_latency = 0\<rparr> xs = Inr t"
    and m: "em_false_completion_rate m = of_nat (ty_false t) / of_nat (length xs)"
      "em_mean_quality m = ty_quality t / of_nat (length xs)"
    by (auto simp: calculate_metrics_def Let_def)
  from b(1) have ids: "distinct (map ec_case_id (eb_cases b))" "eb_cases b \<noteq> []" by (simp_all add: baseline_validate_def)
  note t' = tally_outcomes_Inr [OF t]
  show "distinct (map co_case_id xs)" "\<forall>x \<in> set xs. outcome_validate x = Inr ()" "xs \<noteq> []"
    using t' b(2) ids(2) by auto
  show "co_case_id ` set xs = ec_case_id ` set (eb_cases b)"
    using t' b(2) by (intro case_ids_match) (auto simp: dict_by_keys)
  show "em_mean_quality m = sum_list (map co_quality_score xs) / of_nat (length xs)" using m t' by simp
  show "em_false_completion_rate m =
     of_nat (length (filter (false_completion (map (\<lambda>c. (ec_case_id c, ec_expected_evidence_refs c)) (eb_cases b))) xs)) / of_nat (length xs)"
    using m(1) t' by (simp add: dict_by_distinct [OF ids(1)])
qed

lemma mean_unit:
  fixes f :: "'a \<Rightarrow> rat"
  assumes "xs \<noteq> []" "\<forall>x \<in> set xs. in_unit (f x)"
  shows "in_unit (sum_list (map f xs) / of_nat (length xs))"
proof -
  have "0 \<le> sum_list (map f xs) \<and> sum_list (map f xs) \<le> of_nat (length xs)"
    using assms(2) by (induction xs) (auto simp: in_unit_def)
  with assms(1) show ?thesis by (simp add: in_unit_def divide_le_eq)
qed

text \<open>The two rates of an evaluation are rates.\<close>

theorem metrics_unit:
  assumes "calculate_metrics b xs = Inr m"
  shows "in_unit (em_false_completion_rate m)" "in_unit (em_mean_quality m)"
proof -
  note c = calculate_metrics_Inr [OF assms]
  show "in_unit (em_mean_quality m)"
    unfolding c(6) using c(3,4) by (intro mean_unit) (auto simp: outcome_validate_def)
  show "in_unit (em_false_completion_rate m)"
    unfolding c(5) using c(4) by (simp add: in_unit_def divide_le_eq)
qed

section \<open>Recorded runs are runs of registered baselines\<close>

definition evaluation_ok :: "(string \<Rightarrow> string) \<Rightarrow> evaluation_db \<Rightarrow> bool" where
  "evaluation_ok sha db \<longleftrightarrow>
     distinct (map (baseline_key \<circ> br_baseline) (ed_baselines db)) \<and> distinct (map rr_run_id (ed_runs db)) \<and>
     (\<forall>r \<in> set (ed_baselines db). baseline_fingerprint sha (br_baseline r) = Inr (br_fingerprint r)) \<and>
     (\<forall>q \<in> set (ed_runs db). \<exists>r \<in> set (ed_baselines db).
        baseline_key (br_baseline r) = (rr_baseline_id q, rr_baseline_version q) \<and> br_fingerprint r = rr_baseline_fingerprint q \<and>
        eb_evaluator_id (br_baseline r) \<noteq> [])"

lemma evaluation_ok_empty: "evaluation_ok sha \<lparr>ed_baselines = [], ed_runs = []\<rparr>"
  by (simp add: evaluation_ok_def)

lemma register_baseline_ok:
  assumes "register_baseline sha actor b db = Inr (db', fp)" "evaluation_ok sha db"
  shows "evaluation_ok sha db'"
  using assms by (auto simp: register_baseline_def evaluation_ok_def)

lemma record_run_ok:
  assumes "record_run sha run_id b worker_id provider_id evaluator metrics db = Inr db'" "evaluation_ok sha db"
  shows "evaluation_ok sha db'"
proof -
  from assms(1) obtain r where r: "find (\<lambda>r. baseline_key (br_baseline r) = baseline_key b) (ed_baselines db) = Some r"
    and fp: "baseline_fingerprint sha b = Inr (br_fingerprint r)" and new: "run_id \<notin> set (map rr_run_id (ed_runs db))"
    and db': "db' = db\<lparr>ed_runs := ed_runs db @ [\<lparr>rr_run_id = run_id, rr_baseline_id = eb_baseline_id b,
       rr_baseline_version = eb_version b, rr_baseline_fingerprint = br_fingerprint r, rr_worker_id = worker_id,
       rr_provider_id = provider_id, rr_metrics = metrics\<rparr>]\<rparr>"
    by (auto simp: record_run_def assert_baseline_integrity_def)
  from r have mem: "r \<in> set (ed_baselines db)" "baseline_key (br_baseline r) = baseline_key b"
    by (auto simp: find_Some_iff)
  have "baseline_fingerprint sha (br_baseline r) = Inr (br_fingerprint r)"
    using assms(2) mem(1) by (simp add: evaluation_ok_def)
  then have "eb_evaluator_id (br_baseline r) \<noteq> []"
    by (auto simp: baseline_fingerprint_def baseline_validate_def)
  with assms(2) mem new show ?thesis unfolding db' evaluation_ok_def by (auto simp: baseline_key_def)
qed

text \<open>A baseline that passes the integrity check prints the registered JSON text, or two texts
  have one digest.\<close>

theorem baseline_tamper_evidence:
  assumes "evaluation_ok sha db" "assert_baseline_integrity sha b db = Inr ()"
  shows "(\<exists>r \<in> set (ed_baselines db). baseline_key (br_baseline r) = baseline_key b \<and>
      json_dumps_ascii (baseline_json (br_baseline r)) = json_dumps_ascii (baseline_json b)) \<or>
    (\<exists>s t. s \<noteq> t \<and> sha s = sha t)"
proof -
  from assms(2) obtain r where r: "find (\<lambda>r. baseline_key (br_baseline r) = baseline_key b) (ed_baselines db) = Some r"
    and fp: "baseline_fingerprint sha b = Inr (br_fingerprint r)"
    by (auto simp: assert_baseline_integrity_def)
  from r have mem: "r \<in> set (ed_baselines db)" "baseline_key (br_baseline r) = baseline_key b"
    by (auto simp: find_Some_iff)
  have "baseline_fingerprint sha (br_baseline r) = Inr (br_fingerprint r)"
    using assms(1) mem(1) by (simp add: evaluation_ok_def)
  with fp have "''sha256:'' @ sha (json_dumps_ascii (baseline_json (br_baseline r))) =
      ''sha256:'' @ sha (json_dumps_ascii (baseline_json b))"
    by (auto simp: baseline_fingerprint_def simp del: append_Cons append_Nil)
  then have "sha (json_dumps_ascii (baseline_json (br_baseline r))) = sha (json_dumps_ascii (baseline_json b))"
    by (rule append_eq_append_conv [THEN iffD1, THEN conjunct2, rotated]) simp
  with mem show ?thesis by blast
qed

section \<open>The nearest-rank percentile\<close>

text \<open>At least the share \<open>p\<close> of the samples is at most the percentile, less than the share \<open>p\<close> is
  below it.\<close>

lemma sorted_nth_counts:
  fixes xs :: "rat list"
  assumes "sorted xs" "i < length xs"
  shows "i < length (filter (\<lambda>x. x \<le> xs ! i) xs)" "length (filter (\<lambda>x. x < xs ! i) xs) \<le> i"
proof -
  have split: "xs = take (Suc i) xs @ drop (Suc i) xs" "xs = take i xs @ drop i xs" by simp_all
  have low: "filter (\<lambda>x. x \<le> xs ! i) (take (Suc i) xs) = take (Suc i) xs"
    using assms by (auto simp: filter_id_conv in_set_conv_nth sorted_nth_mono)
  have "length (filter (\<lambda>x. x \<le> xs ! i) xs) =
      length (filter (\<lambda>x. x \<le> xs ! i) (take (Suc i) xs)) + length (filter (\<lambda>x. x \<le> xs ! i) (drop (Suc i) xs))"
    by (subst split(1)) (simp only: filter_append length_append)
  with low assms(2) show "i < length (filter (\<lambda>x. x \<le> xs ! i) xs)" by simp
  have high: "filter (\<lambda>x. x < xs ! i) (drop i xs) = []"
    using assms by (auto simp: filter_empty_conv in_set_conv_nth not_less intro!: sorted_nth_mono)
  have "length (filter (\<lambda>x. x < xs ! i) xs) =
      length (filter (\<lambda>x. x < xs ! i) (take i xs)) + length (filter (\<lambda>x. x < xs ! i) (drop i xs))"
    by (subst split(2)) (simp only: filter_append length_append)
  also have "\<dots> \<le> length (take i xs)" unfolding high by (simp only: list.size(3) add_0_right length_filter_le)
  finally show "length (filter (\<lambda>x. x < xs ! i) xs) \<le> i" by simp
qed

lemma length_filter_sort: "length (filter P (sort xs)) = length (filter P xs)"
  by (metis filter_sort length_sort)

theorem percentile_rank:
  assumes "nearest_rank_percentile vs p = Inr v"
  shows "v \<in> set vs \<and> p * of_nat (length vs) \<le> of_nat (length (filter (\<lambda>x. x \<le> v) vs)) \<and>
    of_nat (length (filter (\<lambda>x. x < v) vs)) < p * of_nat (length vs)"
proof -
  define k where "k = nat \<lceil>p * of_nat (length vs)\<rceil>"
  from assms have p: "vs \<noteq> []" "0 < p" "p \<le> 1" by (auto simp: nearest_rank_percentile_def)
  then have pos: "0 < p * of_nat (length vs)" by simp
  then have k: "1 \<le> k" "p * of_nat (length vs) \<le> of_nat k" "of_nat k < p * of_nat (length vs) + 1"
    unfolding k_def by linarith+
  have "p * of_nat (length vs) \<le> of_nat (length vs)" using mult_right_mono [OF p(3), of "of_nat (length vs)"] by simp
  with k(3) have "of_nat k < (of_nat (length vs) + 1 :: rat)" by linarith
  then have len: "k \<le> length vs" by linarith
  have v: "v = sort vs ! (k - 1)" using assms k(1)
    by (auto simp: nearest_rank_percentile_def k_def max_def nat_eq_iff)
  have c: "k - 1 < length (filter (\<lambda>x. x \<le> v) vs)" "length (filter (\<lambda>x. x < v) vs) \<le> k - 1"
    using sorted_nth_counts [of "sort vs" "k - 1"] k(1) len unfolding v by (simp_all add: length_filter_sort)
  have "v \<in> set vs" unfolding v using k(1) len by (metis diff_less less_le_trans length_sort less_numeral_extra(1) nth_mem set_sort)
  moreover have "(of_nat k :: rat) \<le> of_nat (length (filter (\<lambda>x. x \<le> v) vs))" using c(1) k(1) by simp
  moreover have "(of_nat (length (filter (\<lambda>x. x < v) vs)) :: rat) \<le> of_nat k - 1" using c(2) k(1) by (simp add: of_nat_diff)
  ultimately show ?thesis using k(2,3) by linarith
qed

section \<open>Readiness\<close>

lemma normalize_controls_Inr:
  "normalize_controls d cs = Inr d' \<Longrightarrow>
     d' = d @ map (\<lambda>c. (ct_control_id c, c)) cs \<and> (distinct (map fst d) \<longrightarrow> distinct (map fst d'))"
proof (induction cs arbitrary: d)
  case (Cons c cs)
  then have "map_of d (ct_control_id c) = None"
    and r: "normalize_controls (d @ [(ct_control_id c, c)]) cs = Inr d'" by (auto split: if_splits)
  then have new: "ct_control_id c \<notin> fst ` set d" by (simp add: map_of_eq_None_iff)
  note ih = Cons.IH [OF r]
  have "distinct (map fst d')" if "distinct (map fst d)"
    by (rule mp [OF conjunct2 [OF ih]]) (simp add: that new)
  with conjunct1 [OF ih] show ?case by simp
qed simp

lemma normalize_controls_distinct:
  "distinct (map fst d @ map ct_control_id cs) \<Longrightarrow> normalize_controls d cs = Inr (d @ map (\<lambda>c. (ct_control_id c, c)) cs)"
proof (induction cs arbitrary: d)
  case (Cons c cs)
  then have "map_of d (ct_control_id c) = None" by (auto simp: map_of_eq_None_iff)
  with Cons show ?case by simp
qed simp

lemma distinct_controls_report:
  "distinct (map ct_control_id cs) \<Longrightarrow> \<exists>r. evaluate_release_readiness code production cs = Inr r"
  using normalize_controls_distinct [of "[]" cs] by (simp add: evaluate_release_readiness_def Let_def)

definition passed :: "readiness_control list \<Rightarrow> string \<Rightarrow> bool" where
  "passed cs cid \<longleftrightarrow> list_ex (\<lambda>c. ct_control_id c = cid \<and> ct_status c = ''PASS'') cs"

lemma status_pass:
  assumes "normalize_controls [] cs = Inr d"
  shows "control_status d cid = ''PASS'' \<longleftrightarrow> passed cs cid"
proof -
  have d: "d = map (\<lambda>c. (ct_control_id c, c)) cs" "distinct (map ct_control_id cs)"
    using normalize_controls_Inr [OF assms] by (auto simp: comp_def)
  have *: "map_of d cid = Some c \<longleftrightarrow> c \<in> set cs \<and> ct_control_id c = cid" for c
    unfolding d(1) using map_of_by_iff [OF d(2), of "\<lambda>c. c"] by auto
  show ?thesis
  proof (cases "map_of d cid")
    case None
    with * show ?thesis by (auto simp: control_status_def passed_def list_ex_iff)
  next
    case (Some c)
    have "c' = c" if "c' \<in> set cs" "ct_control_id c' = cid" for c'
      using * [of c'] Some that by simp
    with * Some show ?thesis by (auto simp: control_status_def passed_def list_ex_iff)
  qed
qed

lemma scope_blockers_Nil:
  "scope_blockers d scope required = [] \<longleftrightarrow> (\<forall>cid \<in> set required. control_status d cid = ''PASS'')"
  by (auto simp: scope_blockers_def filter_empty_conv)

lemma blocker_ids: "bk_control_id ` set (scope_blockers d scope required) = {cid \<in> set required. control_status d cid \<noteq> ''PASS''}"
  by (force simp: scope_blockers_def)

theorem readiness_exact:
  assumes "evaluate_release_readiness code production cs = Inr r"
  shows "(rt_code_qualified r \<longleftrightarrow> (\<forall>cid \<in> set code. passed cs cid)) \<and>
    (rt_production_ready r \<longleftrightarrow> (\<forall>cid \<in> set (code @ production). passed cs cid)) \<and>
    (rt_stage r = ''PRODUCTION_READY'' \<longleftrightarrow> rt_production_ready r) \<and>
    bk_control_id ` set (rt_blockers r) = {cid \<in> set (code @ production). \<not> passed cs cid}"
proof -
  from assms obtain d where d: "normalize_controls [] cs = Inr d"
    by (auto simp: evaluate_release_readiness_def Let_def)
  let ?code = "scope_blockers d ''CODE'' code" and ?production = "scope_blockers d ''PRODUCTION'' production"
  from assms have r: "rt_code_qualified r = (?code = [])" "rt_production_ready r = (?code = [] \<and> ?production = [])"
    "rt_blockers r = sort_key bk_scope (sort_key bk_control_id (?code @ ?production))"
    "rt_stage r = (if ?code = [] \<and> ?production = [] then ''PRODUCTION_READY'' else if ?code = [] then ''CODE_QUALIFIED'' else ''NOT_QUALIFIED'')"
    unfolding evaluate_release_readiness_def d by (auto simp: Let_def simp del: map_eq_conv)
  have "rt_stage r = ''PRODUCTION_READY'' \<longleftrightarrow> rt_production_ready r" unfolding r by simp
  moreover have "bk_control_id ` set (rt_blockers r) = {cid \<in> set (code @ production). \<not> passed cs cid}"
    unfolding r set_sort set_append image_Un blocker_ids status_pass [OF d] by auto
  ultimately show ?thesis unfolding r(1,2) scope_blockers_Nil status_pass [OF d] by auto
qed

end
