(* ===== verification/Market.thy ===== *)
theory Market
  imports Review_Queue Alerts Presentation
begin

text \<open>
  What the real-estate mission promises, stated over whole runs: the inventory after any calls
  (C28, C29), the search service and the alerts over it (C30 to C32), the review queue (C33) and
  the public sitemap (C34). The example is one active listing; its digest function is constant,
  so that the canonical id is a valid public route.
\<close>

section \<open>The example\<close>

definition flat_sha :: "string \<Rightarrow> string" where
  "flat_sha s = replicate 24 CHR ''a''"

definition new_year :: datetime where
  "new_year = utc 2026 1 1 0"

definition spring :: datetime where
  "spring = utc 2026 3 1 0"

definition example_listing :: listing where
  "example_listing = \<lparr>li_listing_id = ''L1'', li_source_ref = ''ref'', li_publisher_id = ''P'',
     li_rights_basis = OWNER_SUBMITTED, li_transaction_type = ''SALE'', li_property_type = ''FLAT'', li_city = ''c'',
     li_locality = ''l'', li_geo_cell = ''g'', li_price_minor = 100, li_area_sqm = 50, li_bedrooms = Some 2,
     li_title = ''flat'', li_description = ''d'', li_image_hashes = [''h''], li_source_updated_at = new_year,
     li_last_verified_at = new_year, li_latitude = None, li_longitude = None, li_state = ACTIVE\<rparr>"

definition example_calls :: "((nat \<Rightarrow> string) \<times> inventory_call) list" where
  "example_calls = [(\<lambda>_. ''t'', AddSource example_listing ''me'')]"

definition example_stock :: inventory where
  "example_stock = inventory_run flat_sha (\<lambda>_. []) example_calls empty_inventory"

definition example_id :: string where
  "example_id = ''CAN-aaaaaaaaaaaaaaaaaaaa''"

definition example_version :: string where
  "example_version = ''SRC-'' @ flat_sha []"

definition example_source :: source_row where
  "example_source = \<lparr>sr_version_id = example_version, sr_listing = example_listing, sr_fingerprint = flat_sha [],
     sr_created_at = ''t''\<rparr>"

definition example_canonical :: canonical_row where
  "example_canonical = new_canonical example_id (flat_sha []) example_version ''t'' example_listing"

lemma example_allowed: "ensure_ingestion_allowed example_listing = Inr ()"
  by (simp add: ensure_ingestion_allowed_def listing_validate_def example_listing_def outside_def negative_def
      allowed_rights_def is_space_def dt_less_def)

lemma example_fields [simp]:
  "li_state example_listing = ACTIVE" "li_last_verified_at example_listing = new_year" "\<not> naive new_year" "\<not> naive spring"
  "example_listing\<lparr>li_latitude := None, li_longitude := None\<rparr> = example_listing"
  by (simp_all add: example_listing_def naive_def utc_def new_year_def spring_def)

lemma example_fingerprint: "duplicate_fingerprint flat_sha example_listing = Inr (flat_sha [])"
  by (simp add: duplicate_fingerprint_def example_allowed flat_sha_def)

lemma example_digests: "''CAN-'' @ take 20 (flat_sha x) = example_id" "source_version_id flat_sha show_float c = example_version"
  by (simp_all add: flat_sha_def example_id_def numeral_eq_Suc source_version_id_def example_version_def)

lemma example_stock [simp]:
  "iv_sources example_stock = [example_source]" "iv_canonicals example_stock = [example_canonical]"
  "iv_trust example_stock = Map.empty"
proof -
  have "\<not> blank ''me''" by (simp add: is_space_def)
  then have stock: "example_stock = \<lparr>iv_sources = [example_source], iv_canonicals = [example_canonical],
      iv_memberships = [\<lparr>mb_canonical_id = example_id, mb_source_version_id = example_version, mb_joined_at = ''t''\<rparr>],
      iv_lifecycle = [\<lparr>lc_canonical_id = example_id, lc_from_state = None, lc_to_state = ACTIVE,
        lc_reason = ''CANONICAL_CREATED'', lc_actor_id = ''me'', lc_occurred_at = ''t''\<rparr>], iv_trust = Map.empty\<rparr>"
    by (simp add: example_stock_def example_calls_def empty_inventory_def add_source_def example_allowed example_fingerprint
        find_source_def Let_def join_group_def append_lifecycle_def kept_def example_digests [simplified] raise_if_def
        example_source_def example_canonical_def is_space_def)
  show "iv_sources example_stock = [example_source]" "iv_canonicals example_stock = [example_canonical]"
    "iv_trust example_stock = Map.empty" unfolding stock by simp_all
qed

lemma example_row [simp]: "cn_canonical_id example_canonical = example_id" "cn_state example_canonical = ACTIVE"
  "cn_active_source example_canonical = example_version"
  by (simp_all add: example_canonical_def)

definition monthly :: freshness_policy where
  "monthly = \<lparr>fp_max_age_days = 30\<rparr>"

section \<open>Inventory\<close>

lemma run_ok: "inventory_ok sha (inventory_run sha show_float calls empty_inventory)"
  by (rule inventory_run_ok [OF inventory_ok_empty])

text \<open>C28. Whatever is called on the inventory, in whatever order and with whatever failures, every
  canonical row shows the columns of a stored source of its duplicate group whose rights basis is
  allowed, no source of the group was verified later, and the lifecycle log of the row is a legal
  history that ends in its state.\<close>

theorem canonical_rows_project_sources:
  assumes "db = inventory_run sha show_float calls empty_inventory" "r \<in> set (iv_canonicals db)"
  shows "(\<exists>s \<in> set (iv_sources db). sr_version_id s = cn_active_source r \<and> sr_fingerprint s = cn_fingerprint r \<and>
       li_rights_basis (sr_listing s) \<in> set allowed_rights \<and> projects r (sr_listing s)) \<and>
     (\<forall>s \<in> set (iv_sources db). sr_fingerprint s = cn_fingerprint r \<longrightarrow> no_later s r) \<and>
     legal_life None (lifecycle_of (cn_canonical_id r) db) \<and>
     life_state None (lifecycle_of (cn_canonical_id r) db) = Some (cn_state r)"
proof -
  have ok: "inventory_ok sha db" using run_ok assms(1) by simp
  then have "li_rights_basis (sr_listing s) \<in> set allowed_rights" if "s \<in> set (iv_sources db)" for s
    using that by (auto simp: inventory_ok_def sources_ok_def list_all_iff source_ok_def ensure_ingestion_allowed_def)
  moreover have "group_ok (iv_sources db) r" using ok assms(2) by (auto simp: inventory_ok_def rows_ok_def list_all_iff)
  moreover have "lives_ok db" using ok by (simp add: inventory_ok_def)
  ultimately show ?thesis using assms(2) by (auto simp: group_ok_def lives_ok_def list_all_iff)
qed

theorem canonical_rows_project_sources_witness:
  "projects example_canonical (sr_listing example_source) \<and>
   life_state None (lifecycle_of (cn_canonical_id example_canonical) example_stock) = Some (cn_state example_canonical)"
  using canonical_rows_project_sources [OF example_stock_def, of example_canonical] by auto

text \<open>C29. A freshness sweep over any inventory built by calls expires exactly the ACTIVE and UNDER_OFFER
  rows whose active source scores 0, returns their ids, and leaves the state of every other row.\<close>

theorem sweep_expires_exactly_the_stale:
  assumes "db = inventory_run sha show_float calls empty_inventory"
    and "aware_sources db" "0 < fp_max_age_days p" "\<not> naive now" "\<not> blank actor_id"
  shows "\<exists>db'. expire_stale clock p now actor_id db =
      (db', Inr (map cn_canonical_id (filter (stale p now db) (iv_canonicals db)))) \<and>
    map id_state (iv_canonicals db') = map (\<lambda>r. (cn_canonical_id r, if stale p now db r then EXPIRED else cn_state r))
      (iv_canonicals db)"
  using expire_stale_result [OF _ assms(2-)] run_ok assms(1) by blast

lemma example_freshness:
  assumes "\<not> naive now"
  shows "row_freshness monthly now example_canonical example_stock =
    (let age = max 0 (of_int (instant now - instant new_year) / 1000000) in
     Inr (if 2592000 \<le> age then 0 else round_to 6 (1 - age / 2592000)))"
proof -
  have "ensure_ingestion_allowed (candidate_from_source example_source ACTIVE) = Inr ()"
    using candidate_from_source_ok [of example_source] example_allowed by (simp add: example_source_def)
  then show ?thesis using assms
    by (simp add: row_freshness_def source_record_def find_source_def freshness_score_def policy_validate_def monthly_def
        age_seconds_def max_seconds_def Let_def) (simp add: candidate_from_source_def example_source_def)
qed

lemma example_stale: "stale monthly spring example_stock example_canonical"
proof -
  have "instant spring - instant new_year = 59 * 86400 * 1000000"
    by (simp add: instant_def wall_micros_def offset_of_def spring_def new_year_def utc_def to_ordinal_def Let_def days_before_month_def
        leap_year_def)
  then show ?thesis by (simp add: stale_def listed_def example_freshness)
qed

lemma example_aware: "aware_sources example_stock"
  by (simp add: aware_sources_def example_source_def)

theorem sweep_expires_exactly_the_stale_witness:
  "\<exists>db'. expire_stale (\<lambda>_. ''t'') monthly spring ''sweeper'' example_stock = (db', Inr [example_id]) \<and>
     map id_state (iv_canonicals db') = [(example_id, EXPIRED)]"
proof -
  have "0 < fp_max_age_days monthly" "\<not> blank ''sweeper''" by (simp_all add: monthly_def is_space_def)
  with sweep_expires_exactly_the_stale [OF example_stock_def example_aware, of monthly "spring" "''sweeper''" "\<lambda>_. ''t''"]
  show ?thesis by (simp add: example_stale)
qed

section \<open>Search\<close>

text \<open>C30. Every page of a search over an inventory built by calls is well formed: it holds at most
  \<open>page_size\<close> results, in strictly decreasing rank order and without repetition, each with a score in
  the unit interval and for an ACTIVE or UNDER_OFFER row that matches the query; and there is a next
  cursor exactly when candidates are left.\<close>

theorem search_pages_are_well_formed:
  assumes "se_store env = inventory_run sha show_float calls empty_inventory"
    and "search sha show_float env now q = Inr page"
  shows "page_ok (nat (sq_page_size q)) (filter (row_matches (inventory_query_of q)) (iv_canonicals (se_store env))) page"
  using search_page_ok [OF assms(2)] run_ok [of sha show_float calls] assms(1) by (simp add: inventory_ok_def rows_ok_def)

definition any_query :: search_query where
  "any_query = \<lparr>sq_text = [], sq_transaction_type = None, sq_property_type = None, sq_city = None, sq_locality = None,
     sq_geo_cell_prefix = None, sq_center_latitude = None, sq_center_longitude = None, sq_radius_km = None,
     sq_min_price_minor = None, sq_max_price_minor = None, sq_bedrooms = None, sq_states = [], sq_page_size = 20, sq_cursor = None\<rparr>"

definition example_env :: search_env where
  "example_env = \<lparr>se_store = example_stock, se_policy = monthly, se_geo = None, se_trig = \<lparr>tg_radians = \<lambda>x. x,
     tg_sin = \<lambda>x. x, tg_cos = \<lambda>x. x, tg_sqrt = \<lambda>x. x, tg_atan2 = \<lambda>x y. x\<rparr>\<rparr>"

definition week :: datetime where
  "week = utc 2026 1 8 0"

lemma week_aware [simp]: "\<not> naive week"
  by (simp add: week_def utc_def naive_def)

lemma week_age: "instant week - instant new_year = 7 * 86400 * 1000000"
  by (simp add: instant_def wall_micros_def offset_of_def week_def new_year_def utc_def to_ordinal_def Let_def
      days_before_month_def leap_year_def)

lemma any_query_valid [simp]: "search_validate (any_query\<lparr>sq_page_size := n\<rparr>) = Inr () \<longleftrightarrow> 1 \<le> n \<and> n \<le> 100"
  by (simp add: search_validate_def any_query_def inventory_query_of_def query_validate_def negative_def Let_def)

lemma example_found:
  "\<exists>r. search_row example_env (any_query\<lparr>sq_page_size := n\<rparr>) week None example_canonical = Inr (Some r) \<and> rs_canonical_id r = example_id"
proof -
  have allowed: "ensure_ingestion_allowed (candidate_from_source example_source ACTIVE) = Inr ()"
    using candidate_from_source_ok [of example_source] example_allowed by (simp add: example_source_def)
  then obtain x where x: "completeness_score (candidate_from_source example_source ACTIVE) = Inr x" "in_unit x"
    using completeness_unit by (fastforce simp: completeness_score_def)
  have source: "source_record (cn_active_source example_canonical) example_stock = Inr example_source"
    by (simp add: source_record_def find_source_def) (simp add: example_source_def)
  have fresh: "freshness_score monthly week (candidate_from_source example_source ACTIVE) = Inr (round_to 6 (23 / 30))"
    using example_freshness [of week] source by (simp add: row_freshness_def week_age)
  then have unit: "in_unit (round_to 6 (23 / 30))" by (rule freshness_unit)
  have "round_to 6 (23 / 30) \<noteq> 0" by (simp add: round_to_eq_0)
  with unit have pos: "\<not> round_to 6 (23 / 30) \<le> 0" by (simp add: in_unit_def)
  have listing: "listing_validate (candidate_from_source example_source ACTIVE) = Inr ()"
    "li_state (candidate_from_source example_source ACTIVE) = ACTIVE"
    using allowed by (simp_all add: ensure_ingestion_allowed_def candidate_from_source_def)
  have words: "tokens [] = []" by (simp add: tokens.simps)
  show ?thesis
    using source fresh x unit pos listing
    by (simp add: search_row_def example_env_def any_query_def row_in_area_def text_relevance_def words trust_score_def
        publisher_trust_def rank_listing_def signals_validate_def in_unit_def)
qed

lemma example_search:
  assumes "1 \<le> n" "n \<le> 100"
  shows "\<exists>r page. search flat_sha (\<lambda>_. []) example_env week (any_query\<lparr>sq_page_size := n\<rparr>) = Inr page \<and>
     rs_canonical_id r = example_id \<and> page = \<lparr>pg_results = [r], pg_next_cursor = None, pg_total_candidates = 1\<rparr>"
proof -
  from example_found obtain r where r: "search_row example_env (any_query\<lparr>sq_page_size := n\<rparr>) week None example_canonical = Inr (Some r)"
    "rs_canonical_id r = example_id" by blast
  have "query_rows (inventory_query_of (any_query\<lparr>sq_page_size := n\<rparr>)) (se_store example_env) = Inr [example_canonical]"
    by (simp add: query_rows_def query_validate_def inventory_query_of_def any_query_def example_env_def negative_def row_matches_def asked_def)
  moreover have "distances example_env (any_query\<lparr>sq_page_size := n\<rparr>) = Inr None" "sq_cursor any_query = None"
    by (simp_all add: distances_def any_query_def)
  moreover have "0 < nat n" using assms(1) by simp
  ultimately show ?thesis using r assms
    by (simp add: search_def Let_def is_after_def [abs_def] take_Cons')
qed

lemma example_store: "se_store example_env = inventory_run flat_sha (\<lambda>_. []) example_calls empty_inventory"
  by (simp add: example_env_def example_stock_def)

theorem search_pages_are_well_formed_witness:
  "\<exists>page. search flat_sha (\<lambda>_. []) example_env week (any_query\<lparr>sq_page_size := 20\<rparr>) = Inr page \<and>
     map rs_canonical_id (pg_results page) = [example_id] \<and>
     page_ok 20 (filter (row_matches (inventory_query_of any_query)) (iv_canonicals example_stock)) page"
proof -
  obtain r page where p: "search flat_sha (\<lambda>_. []) example_env week (any_query\<lparr>sq_page_size := 20\<rparr>) = Inr page"
    "rs_canonical_id r = example_id" "page = \<lparr>pg_results = [r], pg_next_cursor = None, pg_total_candidates = 1\<rparr>"
    using example_search [of 20] by auto
  from search_pages_are_well_formed [OF example_store p(1)] p show ?thesis
    by (simp add: example_env_def inventory_query_of_def)
qed

text \<open>C31. Reading all pages of a search over an inventory built by calls always ends, with the error of the
  search or with every eligible listing exactly once, best first: no page boundary loses or repeats one.\<close>

theorem paging_is_complete:
  assumes "se_store env = inventory_run sha show_float calls empty_inventory"
  shows "\<exists>result. all_matching_ids sha show_float env now q = Some result \<and>
     (case result of
        Inl e \<Rightarrow> eligible_results env now (q\<lparr>sq_page_size := 100, sq_cursor := None\<rparr>) = Inl e
      | Inr found \<Rightarrow> \<exists>rs. eligible_results env now (q\<lparr>sq_page_size := 100, sq_cursor := None\<rparr>) = Inr rs \<and>
          found = map rs_canonical_id rs \<and> distinct found \<and> sorted (map result_key rs))"
proof -
  have d: "distinct (map cn_canonical_id (iv_canonicals (se_store env)))"
    using run_ok [of sha show_float calls] assms by (simp add: inventory_ok_def rows_ok_def)
  let ?e = "eligible_results env now (q\<lparr>sq_page_size := 100, sq_cursor := None\<rparr>)"
  show ?thesis
  proof (cases ?e)
    case (Inl e)
    with all_matching_ids_eq [OF d, of sha show_float now q] show ?thesis by simp
  next
    case (Inr rs)
    with all_matching_ids_eq [OF d, of sha show_float now q] eligible_distinct [OF Inr d] show ?thesis by simp
  qed
qed

lemma example_eligible:
  "\<exists>r. eligible_results example_env week (any_query\<lparr>sq_page_size := 100, sq_cursor := None\<rparr>) = Inr [r] \<and> rs_canonical_id r = example_id"
proof -
  obtain r where "search_row example_env (any_query\<lparr>sq_page_size := 100\<rparr>) week None example_canonical = Inr (Some r)"
    "rs_canonical_id r = example_id" using example_found by blast
  then have "eligible_results example_env week (any_query\<lparr>sq_page_size := 100, sq_cursor := None\<rparr>) = Inr [r]"
    by (simp add: eligible_results_def distances_def query_rows_def query_validate_def inventory_query_of_def
        any_query_def example_env_def negative_def row_matches_def asked_def)
      (simp add: search_validate_def query_validate_def inventory_query_of_def negative_def Let_def)
  with \<open>rs_canonical_id r = example_id\<close> show ?thesis by blast
qed

theorem paging_is_complete_witness:
  "all_matching_ids flat_sha (\<lambda>_. []) example_env week any_query = Some (Inr [example_id])"
proof -
  obtain r where r: "eligible_results example_env week (any_query\<lparr>sq_page_size := 100, sq_cursor := None\<rparr>) = Inr [r]"
    "rs_canonical_id r = example_id" using example_eligible by blast
  from paging_is_complete [OF example_store, of week any_query] obtain result where
    "all_matching_ids flat_sha (\<lambda>_. []) example_env week any_query = Some result"
    "case result of Inl e \<Rightarrow> eligible_results example_env week (any_query\<lparr>sq_page_size := 100, sq_cursor := None\<rparr>) = Inl e
      | Inr found \<Rightarrow> \<exists>rs. eligible_results example_env week (any_query\<lparr>sq_page_size := 100, sq_cursor := None\<rparr>) = Inr rs \<and>
          found = map rs_canonical_id rs \<and> distinct found \<and> sorted (map result_key rs)" by blast
  with r show ?thesis by (cases result) auto
qed

section \<open>Alerts\<close>

text \<open>C32. In every history of the alert store no listing is alerted twice for one version of a saved search,
  and every alert is of a recorded match. Evaluating a search again at once changes nothing.\<close>

theorem alerts_are_sent_once:
  assumes "alert_runs sha show_float empty_alerts db"
    and "se_store env = inventory_run sha' show_float' calls empty_inventory"
  shows "distinct (map event_key (ab_outbox db)) \<and> set (map event_key (ab_outbox db)) \<subseteq> set (match_keys db) \<and>
     (evaluate sha show_float env now sid db = Some (db', Inr events) \<longrightarrow>
       evaluate sha show_float env now sid db' = Some (db', Inr []))"
proof -
  have "distinct (map cn_canonical_id (iv_canonicals (se_store env)))"
    using run_ok [of sha' show_float' calls] assms(2) by (simp add: inventory_ok_def rows_ok_def)
  then show ?thesis using alert_runs_ok [OF assms(1) alerts_ok_empty] evaluate_again [of sha show_float env now sid db db' events]
    by (auto simp: alerts_ok_def event_keys_def)
qed

definition watch :: saved_search where
  "watch = \<lparr>sv_saved_search_id = ''W'', sv_owner_id = ''o'', sv_name = ''n'', sv_query = any_query, sv_enabled = True, sv_version = 1\<rparr>"

definition watched :: "bool \<Rightarrow> string \<Rightarrow> alert_db" where
  "watched primed updated = \<lparr>ab_searches = [\<lparr>sx_search = watch, sx_fingerprint = flat_sha [], sx_primed = primed,
     sx_created_at = ''t'', sx_updated_at = updated\<rparr>], ab_matches = [], ab_outbox = []\<rparr>"

lemma watch_fields [simp]: "sv_query watch = any_query" "sv_saved_search_id watch = ''W''" "sv_enabled watch" "saved_validate watch = Inr ()"
proof -
  have "search_validate any_query = Inr ()" using any_query_valid [of 20] by (simp add: any_query_def)
  then show "sv_query watch = any_query" "sv_saved_search_id watch = ''W''" "sv_enabled watch" "saved_validate watch = Inr ()"
    by (simp_all add: watch_def saved_validate_def is_space_def) (simp_all add: any_query_def)
qed

lemma watched_run: "alert_runs flat_sha (\<lambda>_. []) empty_alerts (watched True (isoformat week))"
proof -
  have "search_validate any_query = Inr ()" "sq_cursor any_query = None" "stored_query any_query = any_query"
    using any_query_valid [of 20] by (simp_all add: any_query_def stored_query_def)
  then have "save_search flat_sha (\<lambda>_. []) ''t'' watch empty_alerts = Inr (watched False ''t'', watch)"
    by (simp add: save_search_def serialize_query_def query_fields_def empty_alerts_def watched_def flat_sha_def Let_def)
  from alert_runs.save [OF alert_runs.start this]
  show ?thesis
    by (rule alert_runs.baseline [where s = watch and cids = "[]" and now = week])
      (simp add: establish_baseline_def writable_at_def watched_def sx_id_def update_where_def)
qed

theorem alerts_are_sent_once_witness:
  "\<exists>db' e. evaluate flat_sha (\<lambda>_. []) example_env week ''W'' (watched True (isoformat week)) = Some (db', Inr [e]) \<and>
     al_canonical_id e = example_id \<and> evaluate flat_sha (\<lambda>_. []) example_env week ''W'' db' = Some (db', Inr [])"
proof -
  let ?db = "watched True (isoformat week)"
  let ?e = "new_alert flat_sha watch (isoformat week) example_id"
  obtain r where r: "eligible_results example_env week (any_query\<lparr>sq_page_size := 100, sq_cursor := None\<rparr>) = Inr [r]"
    "rs_canonical_id r = example_id" using example_eligible by blast
  have db: "get_search ''W'' ?db = Inr watch" "is_primed ''W'' ?db = Inr True"
    by (simp_all add: get_search_def is_primed_def search_row_of_def watched_def sx_id_def)
  have "distinct (map cn_canonical_id (iv_canonicals (se_store example_env)))" by (simp add: example_env_def)
  from evaluate_eq [OF db(1) _ this _ db(2), of week "[r]" flat_sha "\<lambda>_. []"] r
  have e: "evaluate flat_sha (\<lambda>_. []) example_env week ''W'' ?db = Some (transaction (mark_matches flat_sha watch [example_id] week) ?db)"
    by simp
  have "\<not> blank example_id" by (simp add: example_id_def is_space_def)
  then have "\<exists>db'. mark_matches flat_sha watch [example_id] week ?db = Inr (db', [?e])"
    using db(2) by (simp add: mark_matches_def writable_at_def matched_def match_keys_def add_match_def add_alert_def
        watched_def sx_id_def raise_if_def)
  with e obtain db' where db': "evaluate flat_sha (\<lambda>_. []) example_env week ''W'' ?db = Some (db', Inr [?e])"
    by (auto simp: transaction_def)
  with alerts_are_sent_once [OF watched_run example_store, of week "''W''" db' "[?e]"] show ?thesis by (auto simp: new_alert_def)
qed

section \<open>Reviews\<close>

text \<open>C33. However reviews, detections and inventories interleave, a decided case was queued, taken and decided in
  this order by one assigned reviewer, who is not the detector when the impact is high, with evidence and a
  note, and the hash chain of its events verifies.\<close>

theorem decided_cases_were_reviewed:
  assumes "db = review_run sha d calls empty_review" "c \<in> set (rq_cases db)" "rc_status c \<in> {RESOLVED, DISMISSED}"
  shows "\<exists>queued started decided. events_of (rc_case_id c) db = [queued, started, decided] \<and>
     rc_assigned_reviewer c = Some (re_actor_id decided) \<and> re_actor_id started = re_actor_id decided \<and>
     (high_impact (rc_finding c) \<longrightarrow> re_actor_id decided \<noteq> an_detector_id (rc_finding c)) \<and>
     re_evidence_refs decided \<noteq> [] \<and> \<not> blank (re_note decided) \<and>
     (rc_status c = DISMISSED \<longleftrightarrow> re_outcome decided = Some FALSE_POSITIVE) \<and>
     verify_case_chain sha (rc_case_id c) db = Inr True"
proof -
  have ok: "review_ok sha db" using review_run_ok [OF review_ok_empty] assms(1) by simp
  with assms(2) have c: "review_life c (events_of (rc_case_id c) db)" "chain_verifies sha ''GENESIS'' (events_of (rc_case_id c) db)"
    by (auto simp: review_ok_def list_all_iff case_ok_def)
  have "find_case (rc_case_id c) db \<noteq> None" using assms(2) by (auto simp: find_case_def find_None_iff)
  with c(2) have "verify_case_chain sha (rc_case_id c) db = Inr True"
    by (auto simp: verify_case_chain_def case_events_def)
  with c(1) assms(3) show ?thesis
    by (cases "(c, events_of (rc_case_id c) db)" rule: review_life.cases) (auto simp: target_status_def split: if_splits)
qed

definition example_anomaly :: anomaly where
  "example_anomaly = \<lparr>an_finding_id = ''F'', an_anomaly_type = ''T'', an_severity = HIGH, an_canonical_id = ''C'',
     an_source_version_ids = [''s''], an_detector_id = ''D'', an_evidence_refs = [''e''], an_evidence_fingerprint = ''fp'',
     an_summary = ''x'', an_observed_value = 1, an_threshold = 1\<rparr>"

definition review_calls :: "(string \<times> review_call) list" where
  "review_calls = [(''1'', Queue example_anomaly), (''2'', StartReview ''CASE-F'' ''D''), (''3'', StartReview ''CASE-F'' ''R''),
     (''4'', Resolve ''CASE-F'' ''R'' CONFIRMED_ANOMALY [''e''] ''seen'')]"

definition reviewed :: review_db where
  "reviewed = review_run (\<lambda>s. s) \<lparr>dr_medium_threshold = 1, dr_high_threshold = 2, dr_critical_threshold = 3\<rparr> review_calls empty_review"

lemma reviewed_case: "map (\<lambda>c. (rc_case_id c, rc_status c, rc_assigned_reviewer c)) (rq_cases reviewed) = [(''CASE-F'', RESOLVED, Some ''R'')]"
  by code_simp

theorem decided_cases_were_reviewed_witness:
  "\<exists>c. c \<in> set (rq_cases reviewed) \<and> rc_case_id c = ''CASE-F'' \<and> length (events_of (rc_case_id c) reviewed) = 3 \<and>
     verify_case_chain (\<lambda>s. s) (rc_case_id c) reviewed = Inr True"
proof -
  from reviewed_case obtain c where c: "c \<in> set (rq_cases reviewed)" "rc_case_id c = ''CASE-F''" "rc_status c = RESOLVED"
    by (auto simp: map_eq_Cons_conv)
  from decided_cases_were_reviewed [OF reviewed_def c(1)] c show ?thesis by auto
qed

section \<open>The public sitemap\<close>

text \<open>C34. The sitemap over an inventory built by calls lists exactly the ACTIVE and UNDER_OFFER listings that are
  still fresh, each under its own URL.\<close>

theorem sitemap_lists_exactly_the_public:
  assumes "pr_inventory (de_presentation env) = inventory_run sha show_float calls empty_inventory"
    and "sitemap env now = Inr entries"
  shows "(\<lambda>e. (sm_canonical_id e, sm_loc e)) ` set entries =
     (\<lambda>r. (cn_canonical_id r, de_base_url env @ ''/listing/'' @ cn_canonical_id r)) `
       {r \<in> set (iv_canonicals (pr_inventory (de_presentation env))). publicly_fresh (de_presentation env) now r}"
  using sitemap_exact [OF _ assms(2)] run_ok assms(1) by metis

definition example_site :: discovery_env where
  "example_site = \<lparr>de_presentation = \<lparr>pr_inventory = example_stock, pr_review = None,
     pr_detector = \<lparr>dr_medium_threshold = 1, dr_high_threshold = 2, dr_critical_threshold = 3\<rparr>, pr_policy = monthly\<rparr>,
     de_base_url = ''https://x'', de_unescape = \<lambda>s. s\<rparr>"

lemma example_projection: "\<exists>p. consumer_projection (de_presentation example_site) week example_id = Inr p"
proof -
  have allowed: "ensure_ingestion_allowed (candidate_from_source example_source ACTIVE) = Inr ()"
    using candidate_from_source_ok [of example_source] example_allowed by (simp add: example_source_def)
  then obtain x where x: "completeness_score (candidate_from_source example_source ACTIVE) = Inr x"
    by (auto simp: completeness_score_def)
  have source: "source_record example_version example_stock = Inr example_source"
    by (simp add: source_record_def find_source_def) (simp add: example_source_def)
  have fresh: "freshness_score monthly week (candidate_from_source example_source ACTIVE) = Inr (round_to 6 (23 / 30))"
    using example_freshness [of week] source by (simp add: row_freshness_def week_age)
  have row: "canonical_by_id example_id example_stock = Inr example_canonical" by (simp add: canonical_by_id_def)
  show ?thesis using x source fresh
    by (simp add: example_site_def row consumer_projection_def has_active_high_impact_review_def Let_def)
qed

lemma example_sitemap: "\<exists>entries. sitemap example_site week = Inr entries"
proof -
  obtain p where p: "consumer_projection (de_presentation example_site) week example_id = Inr p"
    using example_projection by blast
  have "prefixed ''CAN-'' example_id \<and> length example_id = 24 \<and> list_all lower_hex (drop 4 example_id)"
    by (simp add: prefixed_def example_id_def lower_hex_def)
  then have route: "route_for example_id = Inr (''/listing/'' @ example_id)" by (simp only: route_for_def) simp
  have row: "canonical_by_id example_id example_stock = Inr example_canonical" by (simp add: canonical_by_id_def)
  have rows: "query_rows public_query example_stock = Inr [example_canonical]"
    by (simp add: query_rows_def query_validate_def public_query_def negative_def row_matches_def asked_def)
  have stock: "pr_inventory (de_presentation example_site) = example_stock" by (simp add: example_site_def)
  show ?thesis using p by (simp add: sitemap_def stock rows row listing_document_def route Let_def)
qed

lemma example_public: "publicly_fresh (de_presentation example_site) week example_canonical"
proof -
  have "row_freshness monthly week example_canonical example_stock = Inr (round_to 6 (23 / 30))"
    using example_freshness [of week] by (simp add: week_age)
  moreover have "round_to 6 (23 / 30 :: rat) \<noteq> 0" by (simp add: round_to_eq_0)
  moreover have "0 \<le> round_to 6 (23 / 30 :: rat)" using round_to_mono [of 0 "23 / 30" 6] round_half_even_of_int [of 0] by (simp add: round_to_def)
  ultimately show ?thesis by (simp add: publicly_fresh_def example_site_def listed_def)
qed

theorem sitemap_lists_exactly_the_public_witness:
  "\<exists>entries. sitemap example_site week = Inr entries \<and>
     (\<lambda>e. (sm_canonical_id e, sm_loc e)) ` set entries = {(example_id, ''https://x/listing/'' @ example_id)}"
proof -
  obtain entries where e: "sitemap example_site week = Inr entries" using example_sitemap by blast
  have site: "pr_inventory (de_presentation example_site) = example_stock" "de_base_url example_site = ''https://x''"
    by (simp_all add: example_site_def)
  have "{r \<in> set (iv_canonicals example_stock). publicly_fresh (de_presentation example_site) week r} = {example_canonical}"
    using example_public by auto
  with sitemap_lists_exactly_the_public [OF _ e, unfolded site, OF example_stock_def] e show ?thesis by simp
qed

end
