(* ===== verification/Files.thy ===== *)
theory Files
  imports Json
begin

text \<open>
  Files as the runtime tools use them: a map from paths to texts, a path being the list of its
  components, and JSON texts written to and read from them. Directories are not modelled: \<open>mkdir\<close> with
  \<open>exist_ok\<close> makes every parent available.
\<close>

section \<open>Paths and texts\<close>

type_synonym path = "string list"

type_synonym files = "path \<rightharpoonup> string"

definition path_name :: "path \<Rightarrow> string" where
  "path_name p = (if p = [] then [] else last p)"

definition line_end :: string where
  "line_end = [CHR 0x0A]"

definition json_line :: "json \<Rightarrow> string" where
  "json_line v = json_dumps v @ line_end"

definition json_loads :: "string \<Rightarrow> json res" where
  "json_loads t = fetch (ValueError ''json'') (json_read t)"

definition read_file :: "path \<Rightarrow> files \<Rightarrow> string res" where
  "read_file p fs = fetch (FileNotFoundError (join ''/'' p)) (fs p)"

text \<open>A dictionary read from JSON: of a repeated key the last value counts.\<close>

definition fields_of :: "json \<Rightarrow> (string \<rightharpoonup> json) res" where
  "fields_of v = (case v of JObj kvs \<Rightarrow> Inr (map_of (rev kvs)) | _ \<Rightarrow> Inl (AttributeError ''get''))"

definition exactly_keys :: "string list \<Rightarrow> json \<Rightarrow> (string \<rightharpoonup> json) res" where
  "exactly_keys ks v = res_bind (fields_of v) (\<lambda>d.
     res_bind (raise_if (case v of JObj kvs \<Rightarrow> fst ` set kvs \<noteq> set ks | _ \<Rightarrow> True) (TypeError ''unexpected or missing argument'')) (\<lambda>_.
     Inr d))"

definition str_field :: "(string \<rightharpoonup> json) \<Rightarrow> string \<Rightarrow> string res" where
  "str_field d k = (case d k of Some (JStr s) \<Rightarrow> Inr s | _ \<Rightarrow> Inl (TypeError k))"

definition int_field :: "(string \<rightharpoonup> json) \<Rightarrow> string \<Rightarrow> int res" where
  "int_field d k = (case d k of Some (JInt i) \<Rightarrow> Inr i | _ \<Rightarrow> Inl (TypeError k))"

section \<open>Reading back what was written\<close>

lemma json_loads_line [simp]: "json_loads (json_line v) = Inr (json_norm v)"
  by (simp add: json_loads_def json_line_def line_end_def json_read_padded json_space_def)

lemma json_loads_dumps [simp]: "json_loads (json_dumps v) = Inr (json_norm v)"
  by (simp add: json_loads_def json_read_dumps)

section \<open>Encoded records\<close>

text \<open>A record and its JSON value: what is written is read back, up to the order of keys inside it.\<close>

locale json_codec =
  fixes enc :: "'a \<Rightarrow> json" and dec :: "json \<Rightarrow> 'a res" and canon :: "'a \<Rightarrow> 'a"
  assumes decode_norm: "dec (json_norm (enc x)) = Inr (canon x)"
begin

lemma read_line: "res_bind (json_loads (json_line (enc x))) dec = Inr (canon x)"
  by (simp add: decode_norm)

lemma read_list: "map_res dec (map (json_norm \<circ> enc) xs) = Inr (map canon xs)"
  by (induction xs) (simp_all add: decode_norm)

lemma line_determines: "json_line (enc x) = json_line (enc y) \<Longrightarrow> canon x = canon y"
  using read_line [of x] read_line [of y] by simp

end

end
