(* ===== verification/Archive.thy ===== *)
theory Archive
  imports Durable_Ledger Datetime Files
begin

text \<open>
  Audit archives (src/factory/runtime/audit_retention.py): a prefix of the audit ledger, old enough for the
  retention policy, written as JSON text with a manifest that binds it, and the verification of such
  a pair of files. \<open>parse\<close> is \<open>datetime.fromisoformat\<close>; a field of another JSON type than the writer
  gives it is a \<open>TypeError\<close>, where the code compares by Python equality.
\<close>

section \<open>Policy and manifest\<close>

record retention_policy =
  rp_archive_after_days :: int

definition retention_validate :: "retention_policy \<Rightarrow> unit res" where
  "retention_validate p = raise_if (rp_archive_after_days p < 1) (ValueError ''archive_after_days must be >= 1'')"

definition cutoff :: "retention_policy \<Rightarrow> datetime \<Rightarrow> datetime res" where
  "cutoff p now =
     res_bind (raise_if (naive now) (ValueError ''now must be timezone-aware'')) (\<lambda>_.
     res_bind (utc_datetime (instant now)) (\<lambda>utc_now.
     res_bind (raise_if (999999999 < rp_archive_after_days p) (OverflowError ''days'')) (\<lambda>_.
     utc_datetime (instant utc_now - rp_archive_after_days p * micros_per_day))))"

definition parse_time :: "(string \<Rightarrow> datetime option) \<Rightarrow> string \<Rightarrow> int res" where
  "parse_time parse v = res_bind (fetch (ValueError ''Invalid isoformat string'') (parse v)) (\<lambda>d.
     res_bind (raise_if (naive d) (ValueError ''audit timestamps must be timezone-aware'')) (\<lambda>_. Inr (instant d)))"

record archive_manifest =
  mv_format_version :: int
  mv_archive_file :: string
  mv_created_at :: string
  mv_cutoff_at :: string
  mv_event_count :: int
  mv_first_sequence :: int
  mv_last_sequence :: int
  mv_first_previous_hash :: string
  mv_last_event_hash :: string
  mv_archive_sha256 :: string

definition manifest_to_dict :: "archive_manifest \<Rightarrow> json" where
  "manifest_to_dict m = JObj [
     (''format_version'', JInt (mv_format_version m)), (''archive_file'', JStr (mv_archive_file m)),
     (''created_at'', JStr (mv_created_at m)), (''cutoff_at'', JStr (mv_cutoff_at m)),
     (''event_count'', JInt (mv_event_count m)), (''first_sequence'', JInt (mv_first_sequence m)),
     (''last_sequence'', JInt (mv_last_sequence m)), (''first_previous_hash'', JStr (mv_first_previous_hash m)),
     (''last_event_hash'', JStr (mv_last_event_hash m)), (''archive_sha256'', JStr (mv_archive_sha256 m))]"

definition event_json :: "audit_event \<Rightarrow> json" where
  "event_json e = JObj [
     (''sequence'', JInt (int (ae_sequence e))), (''event_id'', JStr (ae_event_id e)),
     (''mission_id'', JStr (ae_mission_id e)), (''actor_id'', JStr (ae_actor_id e)),
     (''event_type'', JStr (ae_event_type e)), (''payload'', ae_payload e), (''created_at'', JStr (ae_created_at e)),
     (''previous_hash'', JStr (ae_previous_hash e)), (''event_hash'', JStr (ae_event_hash e))]"

section \<open>Reading manifests and events\<close>

definition manifest_keys :: "string list" where
  "manifest_keys = [''format_version'', ''archive_file'', ''created_at'', ''cutoff_at'', ''event_count'', ''first_sequence'',
     ''last_sequence'', ''first_previous_hash'', ''last_event_hash'', ''archive_sha256'']"

definition manifest_of_json :: "json \<Rightarrow> archive_manifest res" where
  "manifest_of_json v = res_bind (exactly_keys manifest_keys v) (\<lambda>d.
     res_bind (int_field d ''format_version'') (\<lambda>version. res_bind (str_field d ''archive_file'') (\<lambda>file.
     res_bind (str_field d ''created_at'') (\<lambda>created. res_bind (str_field d ''cutoff_at'') (\<lambda>cut.
     res_bind (int_field d ''event_count'') (\<lambda>count. res_bind (int_field d ''first_sequence'') (\<lambda>first.
     res_bind (int_field d ''last_sequence'') (\<lambda>final. res_bind (str_field d ''first_previous_hash'') (\<lambda>prev.
     res_bind (str_field d ''last_event_hash'') (\<lambda>hash. res_bind (str_field d ''archive_sha256'') (\<lambda>sum.
     Inr \<lparr>mv_format_version = version, mv_archive_file = file, mv_created_at = created, mv_cutoff_at = cut,
       mv_event_count = count, mv_first_sequence = first, mv_last_sequence = final, mv_first_previous_hash = prev,
       mv_last_event_hash = hash, mv_archive_sha256 = sum\<rparr>)))))))))))"

definition event_keys_of_json :: "string list" where
  "event_keys_of_json = [''sequence'', ''event_id'', ''mission_id'', ''actor_id'', ''event_type'', ''payload'', ''created_at'',
     ''previous_hash'', ''event_hash'']"

definition event_of_json :: "json \<Rightarrow> audit_event res" where
  "event_of_json v = res_bind (exactly_keys event_keys_of_json v) (\<lambda>d.
     res_bind (int_field d ''sequence'') (\<lambda>n. res_bind (raise_if (n < 0) (TypeError ''sequence'')) (\<lambda>_.
     res_bind (str_field d ''event_id'') (\<lambda>i. res_bind (str_field d ''mission_id'') (\<lambda>m.
     res_bind (str_field d ''actor_id'') (\<lambda>a. res_bind (str_field d ''event_type'') (\<lambda>ty.
     res_bind (fetch (TypeError ''payload'') (d ''payload'')) (\<lambda>p. res_bind (str_field d ''created_at'') (\<lambda>c.
     res_bind (str_field d ''previous_hash'') (\<lambda>prev. res_bind (str_field d ''event_hash'') (\<lambda>h.
     Inr \<lparr>ae_sequence = nat n, ae_event_id = i, ae_mission_id = m, ae_actor_id = a, ae_event_type = ty, ae_payload = p,
       ae_created_at = c, ae_previous_hash = prev, ae_event_hash = h\<rparr>)))))))))))"

section \<open>Archiving\<close>

text \<open>The loop that stops at the first event newer than the cutoff.\<close>

fun eligible_prefix :: "(string \<Rightarrow> datetime option) \<Rightarrow> int \<Rightarrow> audit_event list \<Rightarrow> audit_event list res" where
  "eligible_prefix parse limit [] = Inr []"
| "eligible_prefix parse limit (e # es) = res_bind (parse_time parse (ae_created_at e)) (\<lambda>t.
     if t \<le> limit then res_bind (eligible_prefix parse limit es) (\<lambda>rest. Inr (e # rest)) else Inr [])"

fun any_older :: "(string \<Rightarrow> datetime option) \<Rightarrow> int \<Rightarrow> audit_event list \<Rightarrow> bool res" where
  "any_older parse limit [] = Inr False"
| "any_older parse limit (e # es) = res_bind (parse_time parse (ae_created_at e)) (\<lambda>t.
     if t \<le> limit then Inr True else any_older parse limit es)"

definition archive_payload :: "string \<Rightarrow> audit_event list \<Rightarrow> json" where
  "archive_payload limit_text es = JObj [(''format_version'', JInt 1), (''cutoff_at'', JStr limit_text), (''events'', JList (map event_json es))]"

definition create_archive :: "(string \<Rightarrow> string) \<Rightarrow> (string \<Rightarrow> datetime option) \<Rightarrow> audit_row list \<Rightarrow> retention_policy \<Rightarrow>
    path \<Rightarrow> path \<Rightarrow> datetime \<Rightarrow> bool \<Rightarrow> files \<Rightarrow> (files \<times> archive_manifest) res" where
  "create_archive sha parse rows policy archive manifest_path now overwrite fs =
     res_bind (raise_if ((fs archive \<noteq> None \<or> fs manifest_path \<noteq> None) \<and> \<not> overwrite)
       (FileExistsError ''audit archive or manifest already exists'')) (\<lambda>_.
     res_bind (sql_verify_integrity sha rows) (\<lambda>_.
     res_bind (cutoff policy now) (\<lambda>cut.
     res_bind (sql_events rows None) (\<lambda>all_events.
     res_bind (eligible_prefix parse (instant cut) all_events) (\<lambda>eligible.
     res_bind (raise_if (eligible = []) (RuntimeError ''no_audit_events_eligible_for_archive'')) (\<lambda>_.
     res_bind (any_older parse (instant cut) (drop (length eligible) all_events)) (\<lambda>older.
     res_bind (raise_if older (RuntimeError ''non_monotonic_audit_timestamps'')) (\<lambda>_.
     res_bind (from_events sha eligible) (\<lambda>verified.
     let encoded = json_line (archive_payload (isoformat cut) verified) in
     res_bind (utc_datetime (instant now)) (\<lambda>utc_now.
     let m = \<lparr>mv_format_version = 1, mv_archive_file = path_name archive, mv_created_at = isoformat utc_now,
           mv_cutoff_at = isoformat cut, mv_event_count = int (length eligible),
           mv_first_sequence = int (ae_sequence (hd eligible)), mv_last_sequence = int (ae_sequence (last eligible)),
           mv_first_previous_hash = ae_previous_hash (hd eligible), mv_last_event_hash = ae_event_hash (last eligible),
           mv_archive_sha256 = sha encoded\<rparr>
     in Inr (fs(archive \<mapsto> encoded, manifest_path \<mapsto> json_line (manifest_to_dict m)), m)))))))))))"

definition archived_events :: "json option \<Rightarrow> audit_event list res" where
  "archived_events v = (case v of
       Some (JList vs) \<Rightarrow> if vs = [] then Inl (ValueError ''audit archive must contain events'') else map_res event_of_json vs
     | _ \<Rightarrow> Inl (ValueError ''audit archive must contain events''))"

text \<open>The manifest, the payload and the events of an archive, each check in the order of the code.\<close>

definition check_archive :: "(string \<Rightarrow> string) \<Rightarrow> archive_manifest \<Rightarrow> string \<Rightarrow> string \<Rightarrow> audit_event list res" where
  "check_archive sha m name encoded =
     res_bind (checks [
       raise_if (mv_format_version m \<noteq> 1) (ValueError ''unsupported audit archive format''),
       raise_if (mv_archive_file m \<noteq> name) (ValueError ''audit archive filename mismatch''),
       raise_if (sha encoded \<noteq> mv_archive_sha256 m) (ValueError ''audit archive hash mismatch'')]) (\<lambda>_.
     res_bind (json_loads encoded) (\<lambda>payload.
     res_bind (fields_of payload) (\<lambda>d.
     res_bind (checks [
       raise_if (d ''format_version'' \<noteq> Some (JInt 1)) (ValueError ''audit archive payload version mismatch''),
       raise_if (d ''cutoff_at'' \<noteq> Some (JStr (mv_cutoff_at m))) (ValueError ''audit archive cutoff mismatch'')]) (\<lambda>_.
     res_bind (archived_events (d ''events'')) (\<lambda>events.
     res_bind (from_events sha events) (\<lambda>verified.
     res_bind (checks [
       raise_if (mv_event_count m \<noteq> int (length events)) (ValueError ''audit archive event count mismatch''),
       raise_if (mv_first_sequence m \<noteq> int (ae_sequence (hd events)) \<or> mv_first_sequence m \<noteq> 1)
         (ValueError ''audit archive must start at sequence 1''),
       raise_if (mv_last_sequence m \<noteq> int (ae_sequence (last events))) (ValueError ''audit archive last sequence mismatch''),
       raise_if (mv_first_previous_hash m \<noteq> ''GENESIS'' \<or> ae_previous_hash (hd events) \<noteq> ''GENESIS'')
         (ValueError ''audit archive does not start at GENESIS''),
       raise_if (mv_last_event_hash m \<noteq> ae_event_hash (last events)) (ValueError ''audit archive last hash mismatch'')]) (\<lambda>_.
     Inr verified)))))))"

definition verify_archive :: "(string \<Rightarrow> string) \<Rightarrow> path \<Rightarrow> path \<Rightarrow> files \<Rightarrow> archive_manifest res" where
  "verify_archive sha archive manifest_path fs =
     res_bind (read_file manifest_path fs) (\<lambda>text.
     res_bind (json_loads text) (\<lambda>raw.
     res_bind (manifest_of_json raw) (\<lambda>m.
     res_bind (raise_if (mv_format_version m \<noteq> 1) (ValueError ''unsupported audit archive format'')) (\<lambda>_.
     res_bind (raise_if (mv_archive_file m \<noteq> path_name archive) (ValueError ''audit archive filename mismatch'')) (\<lambda>_.
     res_bind (read_file archive fs) (\<lambda>encoded.
     res_bind (check_archive sha m (path_name archive) encoded) (\<lambda>_. Inr m)))))))"

section \<open>Reading back what was written\<close>

interpretation manifest_codec: json_codec manifest_to_dict manifest_of_json "\<lambda>m. m"
  by unfold_locales
    (simp add: manifest_to_dict_def sort_literal manifest_of_json_def exactly_keys_def fields_of_def manifest_keys_def
      int_field_def str_field_def raise_if_def insert_commute)

interpretation event_codec: json_codec event_json event_of_json norm_event
  by unfold_locales
    (simp add: event_json_def sort_literal event_of_json_def exactly_keys_def fields_of_def event_keys_of_json_def
      int_field_def str_field_def raise_if_def norm_event_def insert_commute)

lemma payload_fields:
  "\<exists>d. fields_of (json_norm (archive_payload t es)) = Inr d \<and> d ''format_version'' = Some (JInt 1) \<and>
     d ''cutoff_at'' = Some (JStr t) \<and> d ''events'' = Some (JList (map (json_norm \<circ> event_json) es))"
  by (simp add: archive_payload_def sort_literal fields_of_def)

lemma archived_events_round_trip:
  "es \<noteq> [] \<Longrightarrow> archived_events (Some (JList (map (json_norm \<circ> event_json) es))) = Inr (map norm_event es)"
  by (simp add: archived_events_def event_codec.read_list [unfolded comp_def] comp_def)

lemma archived_events_nonempty: "archived_events v = Inr es \<Longrightarrow> es \<noteq> []"
  by (auto simp: archived_events_def map_res_eq_Inr split: option.splits json.splits if_splits)

lemma eligible_prefix_take: "eligible_prefix parse limit es = Inr el \<Longrightarrow> \<exists>k. el = take k es"
proof (induction es arbitrary: el)
  case (Cons e es)
  then obtain t where t: "if t \<le> limit then \<exists>rest. eligible_prefix parse limit es = Inr rest \<and> el = e # rest else el = []"
    by (auto split: if_splits)
  show ?case
  proof (cases "t \<le> limit")
    case True
    with t obtain rest where "eligible_prefix parse limit es = Inr rest" "el = e # rest" by auto
    with Cons.IH obtain k where "el = take (Suc k) (e # es)" by auto
    then show ?thesis by blast
  next
    case False
    with t have "el = take 0 (e # es)" by simp
    then show ?thesis by blast
  qed
qed simp

lemma verified_head:
  assumes "verify_integrity sha es = Inr ()" "es \<noteq> []"
  shows "ae_sequence (hd es) = 1" "ae_previous_hash (hd es) = ''GENESIS''"
  using assms by (cases es; simp add: verify_integrity_def)+

lemma create_archive_Inr:
  assumes "create_archive sha parse rows policy archive manifest_path now overwrite fs = Inr (fs', m)"
  shows "\<exists>all_events es t. sql_events rows None = Inr all_events \<and> cutoff policy now = Inr t \<and>
     eligible_prefix parse (instant t) all_events = Inr es \<and> es \<noteq> [] \<and> verify_integrity sha es = Inr () \<and>
     any_older parse (instant t) (drop (length es) all_events) = Inr False \<and>
     mv_format_version m = 1 \<and> mv_archive_file m = path_name archive \<and> mv_cutoff_at m = isoformat t \<and>
     mv_event_count m = int (length es) \<and> mv_first_sequence m = int (ae_sequence (hd es)) \<and>
     mv_last_sequence m = int (ae_sequence (last es)) \<and> mv_first_previous_hash m = ae_previous_hash (hd es) \<and>
     mv_last_event_hash m = ae_event_hash (last es) \<and>
     mv_archive_sha256 m = sha (json_line (archive_payload (isoformat t) es)) \<and>
     fs' = fs(archive \<mapsto> json_line (archive_payload (isoformat t) es), manifest_path \<mapsto> json_line (manifest_to_dict m))"
  using assms by (auto simp: create_archive_def from_events_def Let_def)

text \<open>Whatever is written verifies, to the manifest returned.\<close>

lemma archive_verifies:
  assumes c: "create_archive sha parse rows policy archive manifest_path now overwrite fs = Inr (fs', m)"
    and "archive \<noteq> manifest_path"
  shows "verify_archive sha archive manifest_path fs' = Inr m"
proof -
  from create_archive_Inr [OF c] obtain es t where es: "es \<noteq> []" "verify_integrity sha es = Inr ()" and
    m: "mv_format_version m = 1" "mv_archive_file m = path_name archive" "mv_cutoff_at m = isoformat t"
      "mv_event_count m = int (length es)" "mv_first_sequence m = int (ae_sequence (hd es))"
      "mv_last_sequence m = int (ae_sequence (last es))" "mv_first_previous_hash m = ae_previous_hash (hd es)"
      "mv_last_event_hash m = ae_event_hash (last es)"
      "mv_archive_sha256 m = sha (json_line (archive_payload (isoformat t) es))" and
    fs': "fs' = fs(archive \<mapsto> json_line (archive_payload (isoformat t) es), manifest_path \<mapsto> json_line (manifest_to_dict m))"
    by blast
  obtain d where d: "fields_of (json_norm (archive_payload (isoformat t) es)) = Inr d" "d ''format_version'' = Some (JInt 1)"
    "d ''cutoff_at'' = Some (JStr (isoformat t))" "d ''events'' = Some (JList (map (json_norm \<circ> event_json) es))"
    using payload_fields by blast
  have "from_events sha (map norm_event es) = Inr (map norm_event es)"
    using es(2) by (simp add: from_events_def verify_integrity_def verify_from_norm)
  then have "\<exists>v. check_archive sha m (path_name archive) (json_line (archive_payload (isoformat t) es)) = Inr v"
    using es verified_head [OF es(2,1)]
    by (simp add: check_archive_def m d archived_events_round_trip hd_map last_map)
  then show ?thesis using assms(2)
    by (auto simp: verify_archive_def read_file_def fs' manifest_codec.decode_norm m)
qed

section \<open>What is archived\<close>

lemma cutoff_instant: "cutoff p now = Inr t \<Longrightarrow> instant t = instant now - rp_archive_after_days p * micros_per_day"
  by (auto simp: cutoff_def dest!: instant_utc)

definition older :: "(string \<Rightarrow> datetime option) \<Rightarrow> int \<Rightarrow> audit_event \<Rightarrow> bool" where
  "older parse limit e \<longleftrightarrow> (case parse_time parse (ae_created_at e) of Inl _ \<Rightarrow> False | Inr t \<Rightarrow> t \<le> limit)"

lemma eligible_prefix_older: "eligible_prefix parse limit es = Inr el \<Longrightarrow> list_all (older parse limit) el"
  by (induction es arbitrary: el) (auto simp: older_def split: if_splits)

lemma any_older_False: "any_older parse limit es = Inr False \<Longrightarrow> list_all (\<lambda>e. \<not> older parse limit e) es"
  by (induction es) (auto simp: older_def split: if_splits)

text \<open>Exactly the events that are old enough, which are a prefix of the ledger.\<close>

lemma archived_exactly:
  assumes "eligible_prefix parse limit es = Inr el" "any_older parse limit (drop (length el) es) = Inr False"
  shows "el = take (length el) es \<and> el = filter (older parse limit) es"
proof -
  from eligible_prefix_take [OF assms(1)] obtain k where k: "el = take k es" by blast
  then have take: "el = take (length el) es" by (simp add: min_def)
  have "filter (older parse limit) es = filter (older parse limit) (take (length el) es) @ filter (older parse limit) (drop (length el) es)"
    by (metis append_take_drop_id filter_append)
  also have "\<dots> = el @ []"
    using eligible_prefix_older [OF assms(1)] any_older_False [OF assms(2)]
    by (simp add: list_all_iff filter_id_conv filter_empty_conv flip: take)
  finally show ?thesis using take by simp
qed

section \<open>An archive is a prefix of the ledger\<close>

text \<open>An archive that verifies, whose last hash is the one the ledger has at that position, holds the
  events of the ledger, or exhibits a digest collision.\<close>

lemma archive_is_prefix:
  assumes c: "check_archive sha m name encoded = Inr es" and l: "verify_integrity sha ledger = Inr ()"
    and n: "length es \<le> length ledger" and h: "mv_last_event_hash m = ae_event_hash (ledger ! (length es - 1))"
  shows "map event_content es = map event_content (take (length es) ledger) \<or>
     collision sha event_material es (take (length es) ledger)"
proof -
  from c obtain v where v: "archived_events v = Inr es" and es: "verify_integrity sha es = Inr ()"
    "mv_last_event_hash m = ae_event_hash (last es)"
    by (auto simp: check_archive_def from_events_def)
  note es = archived_events_nonempty [OF v] es
  let ?pre = "take (length es) ledger"
  have "linked ae_previous_hash ae_event_hash ''GENESIS'' (?pre @ drop (length es) ledger)"
    "signed sha event_material ae_event_hash (?pre @ drop (length es) ledger)"
    using l by (simp_all add: verify_integrity_def verify_from_iff)
  then have pre: "linked ae_previous_hash ae_event_hash ''GENESIS'' ?pre" "signed sha event_material ae_event_hash ?pre"
    by (simp_all only: linked_append signed_simps)
  have "last ?pre = ledger ! (length es - 1)" using es(1) n by (subst last_conv_nth) auto
  then have "last_hash ae_event_hash ''GENESIS'' es = last_hash ae_event_hash ''GENESIS'' ?pre"
    using es h n by (auto simp: last_hash_def)
  with ledger_chain.same_head_same_content [of es ?pre "''GENESIS''" sha] es(2) pre n show ?thesis
    by (simp add: verify_integrity_def verify_from_iff)
qed

end
