(* ===== verification/Backup.thy ===== *)
theory Backup
  imports Files Datetime
begin

text \<open>
  Backup and restore of the SQLite files (src/factory/runtime/backup.py). A database file is its bytes; the
  engine, which is not part of the program, is the record \<open>sqlite\<close>: what the online backup makes of the
  target file and what \<open>PRAGMA integrity_check\<close> answers on a file. Opening and reading a database leaves
  its file as it is. Every operation is an action on the files, so what it did before an exception is visible.
  \<open>repr\<close> prints the JSON lists and dictionaries a forged manifest may hold, \<open>staged\<close> is the name
  that \<open>mkstemp\<close> picks.
\<close>

section \<open>The database engine and actions on files\<close>

record sqlite =
  sl_backup :: "string option \<Rightarrow> string option \<Rightarrow> string option \<times> unit res"
  sl_integrity :: "string option \<Rightarrow> string option res"

definition sqlite_copy :: "sqlite \<Rightarrow> path \<Rightarrow> path \<Rightarrow> (files, unit) act" where
  "sqlite_copy db p q fs = (case sl_backup db (fs p) (fs q) of (t, r) \<Rightarrow> (fs(q := t), r))"

definition integrity_check :: "sqlite \<Rightarrow> path \<Rightarrow> files \<Rightarrow> string res" where
  "integrity_check db p fs = res_bind (sl_integrity db (fs p)) (\<lambda>row.
     fetch (ValueError ''sqlite integrity_check returned no result'') row)"

definition file_digest :: "(string \<Rightarrow> string) \<Rightarrow> path \<Rightarrow> files \<Rightarrow> string res" where
  "file_digest sha p fs = res_bind (read_file p fs) (\<lambda>data. Inr (sha data))"

definition file_size :: "path \<Rightarrow> files \<Rightarrow> int res" where
  "file_size p fs = res_bind (read_file p fs) (\<lambda>data. Inr (int (length data)))"

definition unlink :: "path \<Rightarrow> (files, unit) act" where
  "unlink p fs = (fs(p := None), Inr ())"

definition write_file :: "path \<Rightarrow> string \<Rightarrow> (files, unit) act" where
  "write_file p t fs = (fs(p \<mapsto> t), Inr ())"

text \<open>\<open>os.replace\<close>\<close>

definition replace_file :: "path \<Rightarrow> path \<Rightarrow> (files, unit) act" where
  "replace_file p q fs = (case fs p of
       None \<Rightarrow> (fs, Inl (FileNotFoundError (join ''/'' p)))
     | Some t \<Rightarrow> ((fs(p := None))(q \<mapsto> t), Inr ()))"

definition act_finally :: "('s, 'a) act \<Rightarrow> ('s \<Rightarrow> 's) \<Rightarrow> ('s, 'a) act" where
  "act_finally m cleanup s = (case m s of (s', r) \<Rightarrow> (cleanup s', r))"

section \<open>Manifests\<close>

record backup_manifest =
  bm_source_name :: string
  bm_created_at :: string
  bm_sha256 :: string
  bm_size_bytes :: int
  bm_sqlite_integrity :: string
  bm_format_version :: int

definition backup_to_dict :: "backup_manifest \<Rightarrow> json" where
  "backup_to_dict m = JObj [
     (''format_version'', JInt (bm_format_version m)), (''source_name'', JStr (bm_source_name m)),
     (''created_at'', JStr (bm_created_at m)), (''sha256'', JStr (bm_sha256 m)),
     (''size_bytes'', JInt (bm_size_bytes m)), (''sqlite_integrity'', JStr (bm_sqlite_integrity m))]"

definition default_manifest :: "path \<Rightarrow> path" where
  "default_manifest p = (if p = [] then [''..manifest.json''] else butlast p @ [last p @ ''.manifest.json''])"

definition manifest_at :: "path option \<Rightarrow> path \<Rightarrow> path" where
  "manifest_at given p = (case given of Some q \<Rightarrow> q | None \<Rightarrow> default_manifest p)"

definition required_keys :: "string list" where
  "required_keys = [''format_version'', ''source_name'', ''created_at'', ''sha256'', ''size_bytes'', ''sqlite_integrity'']"

text \<open>\<open>set(raw) != required\<close>, then \<open>raw[...]\<close>: only a dictionary with exactly the required keys passes.\<close>

definition unhashable :: "json \<Rightarrow> bool" where
  "unhashable v = (case v of JList _ \<Rightarrow> True | JObj _ \<Rightarrow> True | _ \<Rightarrow> False)"

definition required_fields :: "json \<Rightarrow> (string \<rightharpoonup> json) res" where
  "required_fields v = (let invalid = ValueError ''unsupported or invalid backup manifest'' in case v of
       JObj kvs \<Rightarrow> if fst ` set kvs \<noteq> set required_keys then Inl invalid else Inr (map_of (rev kvs))
     | JList vs \<Rightarrow> if list_ex unhashable vs then Inl (TypeError ''unhashable type'')
         else if set vs \<noteq> JStr ` set required_keys then Inl invalid else Inl (TypeError ''list indices must be integers or slices'')
     | JStr _ \<Rightarrow> Inl invalid
     | _ \<Rightarrow> Inl (TypeError ''object is not iterable''))"

text \<open>\<open>int(v)\<close> and \<open>str(v)\<close> of a value read from JSON; \<open>True == 1\<close> holds in Python.\<close>

fun digit_groups :: "string \<Rightarrow> bool" where
  "digit_groups [] = False"
| "digit_groups [c] = is_digit c"
| "digit_groups (c # d # r) = (is_digit c \<and> (if d = CHR ''_'' then digit_groups r else digit_groups (d # r)))"

definition py_int_text :: "string \<Rightarrow> int res" where
  "py_int_text s = (let t = strip s; minus = prefixed ''-'' t; u = (if minus \<or> prefixed ''+'' t then tl t else t);
       n = int (read_nat (filter is_digit u))
     in if digit_groups u then Inr (if minus then - n else n) else Inl (ValueError ''invalid literal for int()''))"

definition py_int :: "json \<Rightarrow> int res" where
  "py_int v = (case v of JInt i \<Rightarrow> Inr i | JBool b \<Rightarrow> Inr (if b then 1 else 0) | JStr s \<Rightarrow> py_int_text s
     | _ \<Rightarrow> Inl (TypeError ''int() argument must be a string or a number''))"

definition json_str :: "(json \<Rightarrow> string) \<Rightarrow> json \<Rightarrow> string" where
  "json_str repr v = (case v of JStr s \<Rightarrow> s | JInt i \<Rightarrow> show_int i | JBool b \<Rightarrow> (if b then ''True'' else ''False'')
     | JNull \<Rightarrow> ''None'' | _ \<Rightarrow> repr v)"

definition equals_one :: "json \<Rightarrow> bool" where
  "equals_one v \<longleftrightarrow> v = JInt 1 \<or> v = JBool True"

definition field :: "(string \<rightharpoonup> json) \<Rightarrow> string \<Rightarrow> json" where
  "field d k = (case d k of None \<Rightarrow> JNull | Some v \<Rightarrow> v)"

section \<open>Backup\<close>

definition create_backup :: "sqlite \<Rightarrow> (string \<Rightarrow> string) \<Rightarrow> path \<Rightarrow> path \<Rightarrow> path option \<Rightarrow> datetime \<Rightarrow> bool \<Rightarrow>
    (files, backup_manifest) act" where
  "create_backup db sha source destination manifest_path now overwrite =
     (let mpath = manifest_at manifest_path destination in
     act_bind (reading (\<lambda>fs. checks [
       raise_if (fs source = None) (FileNotFoundError (join ''/'' source)),
       raise_if (\<not> overwrite \<and> (fs destination \<noteq> None \<or> fs mpath \<noteq> None))
         (FileExistsError ''backup or manifest already exists'')])) (\<lambda>_.
     act_bind (sqlite_copy db source destination) (\<lambda>_.
     act_bind (reading (integrity_check db destination)) (\<lambda>verdict.
     if lower verdict \<noteq> ''ok'' then
       act_bind (unlink destination) (\<lambda>_. reading (\<lambda>_. Inl (ValueError (''backup sqlite integrity failed: '' @ verdict))))
     else
       act_bind (reading (file_digest sha destination)) (\<lambda>digest.
       act_bind (reading (file_size destination)) (\<lambda>size.
       let m = \<lparr>bm_source_name = path_name source, bm_created_at = isoformat now, bm_sha256 = digest, bm_size_bytes = size,
             bm_sqlite_integrity = verdict, bm_format_version = 1\<rparr>
       in act_bind (write_file mpath (json_dumps (backup_to_dict m))) (\<lambda>_. act_return m)))))))"

section \<open>Restore\<close>

text \<open>What is checked before anything is written; it returns the fields of the manifest.\<close>

definition restore_checks :: "sqlite \<Rightarrow> (string \<Rightarrow> string) \<Rightarrow> (json \<Rightarrow> string) \<Rightarrow> path \<Rightarrow> path \<Rightarrow> path \<Rightarrow> bool \<Rightarrow>
    files \<Rightarrow> (string \<rightharpoonup> json) res" where
  "restore_checks db sha repr backup mpath destination overwrite fs =
     res_bind (checks [
       raise_if (fs backup = None) (FileNotFoundError (join ''/'' backup)),
       raise_if (fs mpath = None) (FileNotFoundError (join ''/'' mpath)),
       raise_if (fs destination \<noteq> None \<and> \<not> overwrite) (FileExistsError (join ''/'' destination))]) (\<lambda>_.
     res_bind (read_file mpath fs) (\<lambda>text.
     res_bind (json_loads text) (\<lambda>v.
     res_bind (required_fields v) (\<lambda>raw.
     res_bind (raise_if (\<not> equals_one (field raw ''format_version'')) (ValueError ''unsupported or invalid backup manifest'')) (\<lambda>_.
     res_bind (file_size backup fs) (\<lambda>actual_size.
     res_bind (py_int (field raw ''size_bytes'')) (\<lambda>size.
     res_bind (raise_if (size \<noteq> actual_size) (ValueError ''backup size does not match manifest'')) (\<lambda>_.
     res_bind (file_digest sha backup fs) (\<lambda>actual_hash.
     res_bind (raise_if (json_str repr (field raw ''sha256'') \<noteq> actual_hash) (ValueError ''backup hash does not match manifest'')) (\<lambda>_.
     res_bind (integrity_check db backup fs) (\<lambda>verdict.
     res_bind (raise_if (lower verdict \<noteq> ''ok'') (ValueError (''backup sqlite integrity failed: '' @ verdict))) (\<lambda>_.
     Inr raw))))))))))))"

text \<open>The staged copy, which replaces the destination when its integrity holds and is gone in any case.\<close>

definition stage_and_replace :: "sqlite \<Rightarrow> path \<Rightarrow> path \<Rightarrow> path \<Rightarrow> (files, unit) act" where
  "stage_and_replace db backup staged destination =
     act_bind (write_file staged []) (\<lambda>_.
     act_finally
       (act_bind (sqlite_copy db backup staged) (\<lambda>_.
        act_bind (reading (integrity_check db staged)) (\<lambda>verdict.
        act_bind (reading (\<lambda>_. raise_if (lower verdict \<noteq> ''ok'') (ValueError (''staged restore integrity failed: '' @ verdict)))) (\<lambda>_.
        replace_file staged destination))))
       (\<lambda>fs. fs(staged := None)))"

definition restore_backup :: "sqlite \<Rightarrow> (string \<Rightarrow> string) \<Rightarrow> (json \<Rightarrow> string) \<Rightarrow> path \<Rightarrow> path \<Rightarrow> path \<Rightarrow> path option \<Rightarrow> bool \<Rightarrow>
    (files, backup_manifest) act" where
  "restore_backup db sha repr backup staged destination manifest_path overwrite =
     act_bind (reading (restore_checks db sha repr backup (manifest_at manifest_path backup) destination overwrite)) (\<lambda>raw.
     act_bind (stage_and_replace db backup staged destination) (\<lambda>_.
     reading (\<lambda>_.
       res_bind (py_int (field raw ''size_bytes'')) (\<lambda>size.
       res_bind (py_int (field raw ''format_version'')) (\<lambda>version.
       Inr \<lparr>bm_source_name = json_str repr (field raw ''source_name''), bm_created_at = json_str repr (field raw ''created_at''),
         bm_sha256 = json_str repr (field raw ''sha256''), bm_size_bytes = size,
         bm_sqlite_integrity = json_str repr (field raw ''sqlite_integrity''), bm_format_version = version\<rparr>)))))"

section \<open>Restoring fails closed\<close>

text \<open>A database file that passes the integrity check.\<close>

definition intact :: "sqlite \<Rightarrow> string \<Rightarrow> bool" where
  "intact db data \<longleftrightarrow> (\<exists>verdict. sl_integrity db (Some data) = Inr (Some verdict) \<and> lower verdict = ''ok'')"

lemma integrity_check_ok:
  "integrity_check db p fs = Inr verdict \<Longrightarrow> lower verdict = ''ok'' \<Longrightarrow> fs p = Some data \<Longrightarrow> intact db data"
  by (auto simp: integrity_check_def intact_def)

lemma restore_checks_Inr:
  assumes "restore_checks db sha repr backup mpath destination overwrite fs = Inr raw"
  obtains data size where "fs backup = Some data" "intact db data" "json_str repr (field raw ''sha256'') = sha data"
    "py_int (field raw ''size_bytes'') = Inr size" "size = int (length data)" "equals_one (field raw ''format_version'')"
    "fs destination = None \<or> overwrite"
  using assms by (fastforce simp: restore_checks_def file_size_def file_digest_def read_file_def intact_def integrity_check_def)

lemma stage_and_replace_cases:
  assumes "fs staged = None" "fs backup = Some data" "staged \<noteq> destination" "stage_and_replace db backup staged destination fs = (fs', r)"
  shows "case r of Inl _ \<Rightarrow> fs' = fs
     | Inr _ \<Rightarrow> \<exists>new. sl_backup db (Some data) (Some []) = (Some new, Inr ()) \<and> intact db new \<and> fs' = fs(destination \<mapsto> new)"
proof -
  have ne: "backup \<noteq> staged" using assms by auto
  obtain t q where b: "sl_backup db (Some data) (Some []) = (t, q)" by fastforce
  have undo: "fs(staged := x, staged := None) = fs" for x using assms(1) by auto
  show ?thesis
  proof (cases q)
    case (Inl e)
    then show ?thesis using assms b ne undo
      by (auto simp: stage_and_replace_def act_bind_apply act_finally_def sqlite_copy_def write_file_def)
  next
    case (Inr u)
    show ?thesis
    proof (cases t)
      case None
      then show ?thesis using assms b ne undo Inr
        by (auto simp: stage_and_replace_def act_bind_apply act_finally_def sqlite_copy_def write_file_def replace_file_def
            split: sum.splits prod.splits)
    next
      case (Some new)
      have "fs(staged \<mapsto> new, staged := None, destination \<mapsto> new, staged := None) = fs(destination \<mapsto> new)"
        using assms(1,3) by auto
      then show ?thesis using assms b ne undo Inr Some integrity_check_ok [of db staged "fs(staged \<mapsto> new)"]
        by (auto simp: stage_and_replace_def act_bind_apply act_finally_def sqlite_copy_def write_file_def replace_file_def
            raise_if_def split: sum.splits prod.splits if_splits)
    qed
  qed
qed

text \<open>C14. A restore either raises and leaves every file as it was, or puts an intact copy of the backup at
  the destination and changes nothing else; the backup was intact and had the digest and the size that the
  returned manifest states.\<close>

theorem restore_fails_closed:
  assumes "restore_backup db sha repr backup staged destination manifest_path overwrite fs = (fs', r)"
    and fresh: "fs staged = None" "staged \<noteq> destination"
  shows "case r of Inl _ \<Rightarrow> fs' = fs
     | Inr m \<Rightarrow> \<exists>data new. fs backup = Some data \<and> intact db data \<and> bm_sha256 m = sha data \<and>
         bm_size_bytes m = int (length data) \<and> (fs destination = None \<or> overwrite) \<and>
         sl_backup db (Some data) (Some []) = (Some new, Inr ()) \<and> intact db new \<and> fs' = fs(destination \<mapsto> new)"
proof (cases "restore_checks db sha repr backup (manifest_at manifest_path backup) destination overwrite fs")
  case (Inl e)
  with assms(1) show ?thesis by (auto simp: restore_backup_def act_bind_apply)
next
  case (Inr raw)
  from Inr obtain data size where d: "fs backup = Some data" "intact db data" "json_str repr (field raw ''sha256'') = sha data"
    "py_int (field raw ''size_bytes'') = Inr size" "size = int (length data)" "equals_one (field raw ''format_version'')"
    "fs destination = None \<or> overwrite" by (rule restore_checks_Inr)
  have v: "py_int (field raw ''format_version'') = Inr 1" using d(6) by (auto simp: equals_one_def py_int_def)
  obtain fs1 q where st: "stage_and_replace db backup staged destination fs = (fs1, q)" by fastforce
  note * = stage_and_replace_cases [OF fresh(1) d(1) fresh(2) st]
  show ?thesis
  proof (cases q)
    case Inl
    with assms(1) Inr st * show ?thesis by (auto simp: restore_backup_def act_bind_apply)
  next
    case (Inr u)
    with assms(1) \<open>restore_checks _ _ _ _ _ _ _ _ = _\<close> st * d v show ?thesis
      by (auto simp: restore_backup_def act_bind_apply)
  qed
qed

section \<open>What was backed up is restored\<close>

text \<open>What the program relies on: the online backup of an intact database into a new or empty file succeeds, is intact and
  has the contents of its source.\<close>

definition sound_engine :: "sqlite \<Rightarrow> (string \<Rightarrow> 'c) \<Rightarrow> bool" where
  "sound_engine db contents \<longleftrightarrow> (\<forall>data old. intact db data \<longrightarrow> old = None \<or> old = Some [] \<longrightarrow>
     (\<exists>new. sl_backup db (Some data) old = (Some new, Inr ()) \<and> intact db new \<and> contents new = contents data))"

lemma integrity_check_intact:
  "fs p = Some data \<Longrightarrow> intact db data \<Longrightarrow> \<exists>verdict. integrity_check db p fs = Inr verdict \<and> lower verdict = ''ok''"
  by (auto simp: integrity_check_def intact_def)

lemma create_backup_ok:
  assumes "sound_engine db contents" "fs source = Some data" "intact db data"
    and "fs backup = None" "fs (manifest_at mp backup) = None" "manifest_at mp backup \<noteq> backup"
  shows "\<exists>new m. create_backup db sha source backup mp now False fs =
       (fs(backup \<mapsto> new, manifest_at mp backup \<mapsto> json_dumps (backup_to_dict m)), Inr m) \<and>
     contents new = contents data \<and> intact db new \<and> bm_sha256 m = sha new \<and> bm_size_bytes m = int (length new) \<and>
     bm_format_version m = 1"
proof -
  obtain new where n: "sl_backup db (Some data) None = (Some new, Inr ())" "intact db new" "contents new = contents data"
    using assms(1,3) by (auto simp: sound_engine_def)
  have src: "source \<noteq> backup" using assms(2,4) by auto
  obtain verdict where v: "integrity_check db backup (fs(backup \<mapsto> new)) = Inr verdict" "lower verdict = ''ok''"
    using integrity_check_intact [of "fs(backup \<mapsto> new)" backup new db] n(2) by auto
  show ?thesis
    using assms n v src
    by (auto simp: create_backup_def act_bind_apply sqlite_copy_def Let_def file_digest_def file_size_def read_file_def write_file_def)
qed

lemma required_fields_written:
  "\<exists>d. required_fields (json_norm (backup_to_dict m)) = Inr d \<and> d ''format_version'' = Some (JInt (bm_format_version m)) \<and>
     d ''source_name'' = Some (JStr (bm_source_name m)) \<and> d ''created_at'' = Some (JStr (bm_created_at m)) \<and>
     d ''sha256'' = Some (JStr (bm_sha256 m)) \<and> d ''size_bytes'' = Some (JInt (bm_size_bytes m)) \<and>
     d ''sqlite_integrity'' = Some (JStr (bm_sqlite_integrity m))"
  by (simp add: backup_to_dict_def sort_literal required_fields_def required_keys_def insert_commute)

lemma restore_ok:
  assumes "sound_engine db contents" "fs backup = Some data" "intact db data"
    and "fs (manifest_at mp backup) = Some (json_dumps (backup_to_dict m))"
    and "bm_sha256 m = sha data" "bm_size_bytes m = int (length data)" "bm_format_version m = 1"
    and "fs staged = None" "staged \<noteq> destination" "fs destination = None"
  shows "\<exists>new. restore_backup db sha repr backup staged destination mp False fs = (fs(destination \<mapsto> new), Inr m) \<and>
     contents new = contents data \<and> intact db new"
proof -
  obtain raw where raw: "required_fields (json_norm (backup_to_dict m)) = Inr raw"
    "raw ''format_version'' = Some (JInt (bm_format_version m))" "raw ''source_name'' = Some (JStr (bm_source_name m))"
    "raw ''created_at'' = Some (JStr (bm_created_at m))" "raw ''sha256'' = Some (JStr (bm_sha256 m))"
    "raw ''size_bytes'' = Some (JInt (bm_size_bytes m))" "raw ''sqlite_integrity'' = Some (JStr (bm_sqlite_integrity m))"
    using required_fields_written [of m] by blast
  obtain v where v: "integrity_check db backup fs = Inr v" "lower v = ''ok''"
    using integrity_check_intact [of fs backup data db] assms(2,3) by blast
  have checks: "restore_checks db sha repr backup (manifest_at mp backup) destination False fs = Inr raw"
    using assms(2,4-7,10) raw v
    by (simp add: restore_checks_def read_file_def file_size_def file_digest_def field_def equals_one_def py_int_def json_str_def)
  obtain new where n: "sl_backup db (Some data) (Some []) = (Some new, Inr ())" "intact db new" "contents new = contents data"
    using assms(1,3) unfolding sound_engine_def by blast
  obtain w where w: "integrity_check db staged (fs(staged \<mapsto> new)) = Inr w" "lower w = ''ok''"
    using integrity_check_intact [of "fs(staged \<mapsto> new)" staged new db] n(2) by auto
  have "backup \<noteq> staged" using assms(2,8) by auto
  have "fs(staged \<mapsto> new, staged := None, destination \<mapsto> new, staged := None) = fs(destination \<mapsto> new)"
    using assms(8,9) by auto
  then have "stage_and_replace db backup staged destination fs = (fs(destination \<mapsto> new), Inr ())"
    using assms(2) n(1) w \<open>backup \<noteq> staged\<close>
    by (simp add: stage_and_replace_def act_bind_apply act_finally_def sqlite_copy_def write_file_def replace_file_def)
  with checks raw assms(7) n show ?thesis
    by (auto simp: restore_backup_def act_bind_apply field_def py_int_def json_str_def)
qed

text \<open>C15. A backup of an intact database can be restored: restoring it returns the manifest of the backup and the restored
  file is intact and has the contents of the source.\<close>

theorem backup_round_trip:
  assumes "sound_engine db contents" "fs source = Some data" "intact db data"
    and "fs backup = None" "fs (manifest_at mp backup) = None" "manifest_at mp backup \<noteq> backup"
    and "create_backup db sha source backup mp now False fs = (fs', r)"
    and "fs' staged = None" "staged \<noteq> destination" "fs' destination = None"
  shows "\<exists>m new. r = Inr m \<and>
     restore_backup db sha repr backup staged destination mp False fs' = (fs'(destination \<mapsto> new), Inr m) \<and>
     contents new = contents data \<and> intact db new"
proof -
  obtain copy m where c: "fs' = fs(backup \<mapsto> copy, manifest_at mp backup \<mapsto> json_dumps (backup_to_dict m))" "r = Inr m"
    "contents copy = contents data" "intact db copy" "bm_sha256 m = sha copy" "bm_size_bytes m = int (length copy)" "bm_format_version m = 1"
    using create_backup_ok [OF assms(1-6), where sha = sha and now = now] assms(7) by auto
  have "fs' backup = Some copy" "fs' (manifest_at mp backup) = Some (json_dumps (backup_to_dict m))"
    using c(1) assms(6) by simp_all
  from restore_ok [where sha = sha and contents = contents and fs = fs' and repr = repr and backup = backup and mp = mp and staged = staged and destination = destination,
      OF assms(1) this(1) c(4) this(2) c(5-7) assms(8-10)] c(2,3) show ?thesis by auto
qed

section \<open>One engine\<close>

text \<open>An engine that copies bytes and finds every file that starts with its magic number intact.\<close>

definition plain_engine :: sqlite where
  "plain_engine = \<lparr>sl_backup = \<lambda>s old. (s, Inr ()),
     sl_integrity = \<lambda>s. Inr (Some (case s of Some (CHR ''S'' # _) \<Rightarrow> ''ok'' | _ \<Rightarrow> ''malformed''))\<rparr>"

lemma plain_intact: "intact plain_engine (CHR ''S'' # s)"
  by (simp add: intact_def plain_engine_def lower_def lower_char_def)

lemma plain_sound: "sound_engine plain_engine (\<lambda>data. data)"
  by (simp add: sound_engine_def plain_engine_def intact_def)

definition one_database :: files where
  "one_database = [[''a.db''] \<mapsto> ''SQL'']"

definition new_year_day :: datetime where
  "new_year_day = utc 2024 1 1 0"

theorem backup_round_trip_witness:
  "\<exists>fs' m. create_backup plain_engine (\<lambda>s. s) [''a.db''] [''b.db''] None new_year_day False one_database = (fs', Inr m) \<and>
     restore_backup plain_engine (\<lambda>s. s) (\<lambda>_. []) [''b.db''] [''tmp''] [''c.db''] None False fs' = (fs'([''c.db''] \<mapsto> ''SQL''), Inr m)"
proof -
  have free: "one_database [''a.db''] = Some ''SQL''" "one_database [''b.db''] = None"
    "one_database (manifest_at None [''b.db'']) = None" "manifest_at None [''b.db''] \<noteq> [''b.db'']"
    by (simp_all add: one_database_def manifest_at_def default_manifest_def)
  have intact: "intact plain_engine ''SQL''" by (rule plain_intact)
  obtain new m where c: "create_backup plain_engine (\<lambda>s. s) [''a.db''] [''b.db''] None new_year_day False one_database =
       (one_database([''b.db''] \<mapsto> new, manifest_at None [''b.db''] \<mapsto> json_dumps (backup_to_dict m)), Inr m)"
    using create_backup_ok [where fs = one_database and source = "[''a.db'']" and backup = "[''b.db'']" and mp = None,
      OF plain_sound free(1) intact free(2-4)] by blast
  let ?fs = "one_database([''b.db''] \<mapsto> new, manifest_at None [''b.db''] \<mapsto> json_dumps (backup_to_dict m))"
  have "?fs [''tmp''] = None" "?fs [''c.db''] = None" "[''tmp''] \<noteq> [''c.db'']"
    by (simp_all add: one_database_def manifest_at_def default_manifest_def)
  from backup_round_trip [where repr = "\<lambda>_. []" and fs = one_database and source = "[''a.db'']" and backup = "[''b.db'']" and mp = None
      and fs' = ?fs and staged = "[''tmp'']" and destination = "[''c.db'']", OF plain_sound free(1) intact free(2-4) c this(1,3,2)] c
  show ?thesis by auto
qed

theorem restore_fails_closed_witness:
  "\<exists>fs' r. restore_backup plain_engine (\<lambda>s. s) (\<lambda>_. []) [''b.db''] [''tmp''] [''a.db''] None True
       (one_database([''b.db''] \<mapsto> ''?'', [''b.db.manifest.json''] \<mapsto> ''{}'')) = (fs', r) \<and>
     fs' [''a.db''] = Some ''SQL''"
proof -
  let ?fs = "one_database([''b.db''] \<mapsto> ''?'', [''b.db.manifest.json''] \<mapsto> ''{}'')"
  obtain fs' r where r: "restore_backup plain_engine (\<lambda>s. s) (\<lambda>_. []) [''b.db''] [''tmp''] [''a.db''] None True ?fs = (fs', r)"
    by fastforce
  have "?fs [''tmp''] = None" "[''tmp''] \<noteq> [''a.db'']" "\<not> intact plain_engine ''?''"
    by (simp_all add: one_database_def intact_def plain_engine_def lower_def lower_char_def)
  with restore_fails_closed [OF r] show ?thesis using r
    by (auto simp: one_database_def split: sum.splits)
qed

end
