(* ===== verification/Engineering_Trace.thy ===== *)
theory Engineering_Trace
  imports Engineering_Pod
begin

text \<open>
  What a run of the engineering pod does to its planner and workers (factory/engineering_pod/coordinator.py).
  The calls are observed by running the same pod with a planner and workers that write down each call and
  its answer, on a world that also holds the list of calls; the run itself does not change. The lemmas show
  which calls a successful run makes, and in which order.
\<close>

section \<open>Observed runs\<close>

text \<open>The calls with their answers: plans, revised plans with the round; for the worker registered under an agent
  id, implementations of a package in a workspace and revisions of its evidence.\<close>

datatype pod_call =
    Planned engineering_plan
  | Replanned engineering_plan int engineering_plan
  | Implemented string package string manifest
  | Revised string package string manifest int manifest

definition answered :: "('a \<Rightarrow> pod_call) \<Rightarrow> ('w, 'a) act \<Rightarrow> ('w \<times> pod_call list, 'a) act" where
  "answered entry m = (\<lambda>(w, calls). case m w of
     (w', Inl e) \<Rightarrow> ((w', calls), Inl e) | (w', Inr x) \<Rightarrow> ((w', calls @ [entry x]), Inr x))"

definition watched_planner :: "'w planner \<Rightarrow> ('w \<times> pod_call list) planner" where
  "watched_planner pl = \<lparr>pl_plan_engineering = (\<lambda>design. answered Planned (pl_plan_engineering pl design)),
     pl_revise = map_option (\<lambda>revise design plan request.
       answered (Replanned plan (rv_round_number request)) (revise design plan request)) (pl_revise pl)\<rparr>"

definition watched_worker :: "string \<Rightarrow> 'w eng_worker \<Rightarrow> ('w \<times> pod_call list) eng_worker" where
  "watched_worker agent wk = \<lparr>ew_agent_id = ew_agent_id wk, ew_discipline = ew_discipline wk,
     ew_implement = (\<lambda>design p wid. answered (Implemented agent p wid) (ew_implement wk design p wid)),
     ew_revise = map_option (\<lambda>revise design p wid e request.
       answered (Revised agent p wid e (rv_round_number request)) (revise design p wid e request)) (ew_revise wk)\<rparr>"

definition observed :: "'w engineering_pod \<Rightarrow> ('w \<times> pod_call list) engineering_pod" where
  "observed pod = \<lparr>ep_planner = watched_planner (ep_planner pod),
     ep_workers = map (\<lambda>(agent, wk). (agent, watched_worker agent wk)) (ep_workers pod),
     ep_max_plan_rounds = ep_max_plan_rounds pod, ep_max_implementation_rounds = ep_max_implementation_rounds pod\<rparr>"

text \<open>An action and its observed version: the same effect and result, and, when it returns, calls that \<open>R\<close> holds of.\<close>

definition traces :: "('w eng_state, 'a) act \<Rightarrow> (('w \<times> pod_call list) eng_state, 'a) act \<Rightarrow> ('a \<Rightarrow> pod_call list \<Rightarrow> bool) \<Rightarrow> bool" where
  "traces m m' R \<longleftrightarrow> (\<forall>w a c w' a' c' r past. m ((w, a), c) = (((w', a'), c'), r) \<longrightarrow>
     (\<exists>calls. m' (((w, past), a), c) = ((((w', past @ calls), a'), c'), r) \<and> (\<forall>x. r = Inr x \<longrightarrow> R x calls)))"

lemma tracesI:
  assumes "\<And>w a c w' a' c' r past. m ((w, a), c) = (((w', a'), c'), r) \<Longrightarrow>
     \<exists>calls. m' (((w, past), a), c) = ((((w', past @ calls), a'), c'), r) \<and> (\<forall>x. r = Inr x \<longrightarrow> R x calls)"
  shows "traces m m' R"
  unfolding traces_def using assms by blast

lemma tracesD:
  assumes "traces m m' R" "m ((w, a), c) = (((w', a'), c'), r)"
  obtains calls where "m' (((w, past), a), c) = ((((w', past @ calls), a'), c'), r)" "\<And>x. r = Inr x \<Longrightarrow> R x calls"
proof -
  have "\<exists>calls. m' (((w, past), a), c) = ((((w', past @ calls), a'), c'), r) \<and> (\<forall>x. r = Inr x \<longrightarrow> R x calls)"
    using assms(1) [unfolded traces_def, rule_format, OF assms(2)] .
  then show thesis using that by (elim exE conjE) simp
qed

lemma traces_weaken:
  assumes "traces m m' R" "\<And>x calls. R x calls \<Longrightarrow> Q x calls"
  shows "traces m m' Q"
proof (rule tracesI)
  fix w a c w' a' c' r past
  assume m: "m ((w, a), c) = (((w', a'), c'), r)"
  from tracesD [OF assms(1) m, of past] assms(2)
  show "\<exists>calls. m' (((w, past), a), c) = ((((w', past @ calls), a'), c'), r) \<and> (\<forall>x. r = Inr x \<longrightarrow> Q x calls)" by metis
qed

lemma traces_cond:
  "(b \<Longrightarrow> traces m m' R) \<Longrightarrow> (\<not> b \<Longrightarrow> traces f f' R) \<Longrightarrow>
     traces (if b then m else f) (if b then m' else f') R"
  by simp

lemma traces_res: "(\<And>x. r = Inr x \<Longrightarrow> R x []) \<Longrightarrow> traces (act_res r) (act_res r) R"
  by (rule tracesI) simp

lemma traces_raise: "traces (act_res (Inl e)) (act_res (Inl e)) R"
  by (rule traces_res) simp

lemma traces_return: "R x [] \<Longrightarrow> traces (act_return x) (act_return x) R"
  by (rule tracesI) simp

lemma traces_bind:
  assumes "traces m m' Q" "\<And>x calls. Q x calls \<Longrightarrow> traces (f x) (f' x) (\<lambda>y more. R y (calls @ more))"
  shows "traces (act_bind m f) (act_bind m' f') R"
proof (rule tracesI)
  fix w a c w' a' c' r past
  assume run: "act_bind m f ((w, a), c) = (((w', a'), c'), r)"
  obtain w1 a1 c1 r1 where m: "m ((w, a), c) = (((w1, a1), c1), r1)" by (metis surj_pair)
  from tracesD [OF assms(1) m] obtain calls where
    m': "m' (((w, past), a), c) = ((((w1, past @ calls), a1), c1), r1)" and Q: "\<And>x. r1 = Inr x \<Longrightarrow> Q x calls" by blast
  show "\<exists>calls. act_bind m' f' (((w, past), a), c) = ((((w', past @ calls), a'), c'), r) \<and> (\<forall>x. r = Inr x \<longrightarrow> R x calls)"
  proof (cases r1)
    case (Inl e)
    with run m m' show ?thesis by (intro exI [of _ calls]) (auto simp: act_bind_def)
  next
    case (Inr x)
    with run m have "f x ((w1, a1), c1) = (((w', a'), c'), r)" by (simp add: act_bind_def)
    from tracesD [OF assms(2) [OF Q [OF Inr]] this, of "past @ calls"] obtain more where
      "f' x (((w1, past @ calls), a1), c1) = ((((w', (past @ calls) @ more), a'), c'), r)"
      "\<And>y. r = Inr y \<Longrightarrow> R y (calls @ more)" by blast
    with Inr m' show ?thesis by (intro exI [of _ "calls @ more"]) (simp add: act_bind_def)
  qed
qed

lemma traces_quiet:
  "traces m m' (\<lambda>_ calls. calls = []) \<Longrightarrow> (\<And>x. traces (f x) (f' x) R) \<Longrightarrow> traces (act_bind m f) (act_bind m' f') R"
  by (rule traces_bind [where Q = "\<lambda>_ calls. calls = []"]) simp_all

lemma traces_ask: "(\<And>x. R x [entry x]) \<Longrightarrow> traces (ask_worker m) (ask_worker (answered entry m)) R"
  by (rule tracesI) (auto simp: ask_worker_def ask_def answered_def split: prod.splits sum.splits)

lemma traces_publish:
  "R () [] \<Longrightarrow> traces (publish sha (eng_clock clock) m i content author mt)
     (publish sha (eng_clock (eng_clock clock)) m i content author mt) R"
  by (rule tracesI) (auto simp: publish_def eng_clock_def split: prod.splits option.splits sum.splits)

lemma traces_assign: "R () [] \<Longrightarrow> traces (assign_workspace pid ws) (assign_workspace pid ws) R"
  by (rule tracesI) (auto simp: assign_workspace_def ask_def)

lemma traces_reset: "R () [] \<Longrightarrow> traces reset_workspaces reset_workspaces R"
  by (rule tracesI) (auto simp: reset_workspaces_def ask_def)

text \<open>The two steps that planning and implementation share: a result that passes is returned, another is revised
  by one more call.\<close>

lemma traces_pass:
  assumes "\<And>fs. r = Inr fs \<Longrightarrow> blocking fs = [] \<longleftrightarrow> good" "good \<Longrightarrow> R x []"
    "\<And>fs. \<not> good \<Longrightarrow> traces (otherwise (blocking fs)) (otherwise' (blocking fs)) R"
  shows "traces (act_bind (act_res r) (\<lambda>fs. if blocking fs = [] then act_return x else otherwise (blocking fs)))
     (act_bind (act_res r) (\<lambda>fs. if blocking fs = [] then act_return x else otherwise' (blocking fs))) R"
proof (rule traces_bind [where Q = "\<lambda>fs calls. calls = [] \<and> r = Inr fs"])
  fix fs and calls :: "pod_call list"
  assume "calls = [] \<and> r = Inr fs"
  with assms show "traces (if blocking fs = [] then act_return x else otherwise (blocking fs))
      (if blocking fs = [] then act_return x else otherwise' (blocking fs)) (\<lambda>y more. R y (calls @ more))"
    by (intro traces_cond) (simp_all add: traces_return)
qed (simp add: traces_res)

lemma traces_revise:
  assumes "\<And>y. traces (f y) (f' y) (\<lambda>z more. R z (entry y # more))"
  shows "traces (act_bind (ask_worker m) (\<lambda>y. if same y then act_res (Inl e) else f y))
     (act_bind (ask_worker (answered entry m)) (\<lambda>y. if same y then act_res (Inl e) else f' y)) R"
proof (rule traces_bind [where Q = "\<lambda>y calls. calls = [entry y]"])
  fix y and calls :: "pod_call list"
  assume "calls = [entry y]"
  with assms [of y] show "traces (if same y then act_res (Inl e) else f y) (if same y then act_res (Inl e) else f' y)
      (\<lambda>z more. R z (calls @ more))"
    by (intro traces_cond traces_raise) simp
qed (simp add: traces_ask)

section \<open>Planning\<close>

text \<open>The calls that revise the plans after the first, in rounds counted from \<open>n + 1\<close>.\<close>

fun replannings :: "int \<Rightarrow> engineering_plan list \<Rightarrow> pod_call list" where
  "replannings n (p # q # plans) = Replanned p (n + 1) q # replannings (n + 1) (q # plans)"
| "replannings n _ = []"

definition attempts :: "('a \<Rightarrow> bool) \<Rightarrow> nat \<Rightarrow> 'a \<Rightarrow> 'a list \<Rightarrow> 'a \<Rightarrow> bool" where
  "attempts good k first xs final \<longleftrightarrow> xs \<noteq> [] \<and> hd xs = first \<and> last xs = final \<and> length xs \<le> k + 1 \<and>
     good final \<and> (\<forall>x \<in> set (butlast xs). \<not> good x)"

lemma attempts_once: "good x \<Longrightarrow> attempts good k x [x] x"
  by (simp add: attempts_def)

lemma attempts_again: "\<not> good x \<Longrightarrow> attempts good k y xs z \<Longrightarrow> attempts good (Suc k) x (x # xs) z"
  by (auto simp: attempts_def)

lemma watched_planner_revise: "pl_revise (watched_planner pl) = map_option (\<lambda>revise design plan request.
     answered (Replanned plan (rv_round_number request)) (revise design plan request)) (pl_revise pl)"
  by (simp add: watched_planner_def)

lemma plan_rounds_traces:
  "traces (plan_rounds pl design k n plan) (plan_rounds (watched_planner pl) design k n plan)
     (\<lambda>final calls. \<exists>plans. attempts (plan_ok design) k plan plans final \<and> calls = replannings n plans)"
proof (induction k arbitrary: n plan)
  case 0
  show ?case unfolding plan_rounds.simps plan_pass_def
    by (rule traces_pass [where good = "plan_ok design plan"])
      (rule traces_raise | (auto intro: exI [of _ "[plan]"] attempts_once simp: plan_accepted)[1])+
next
  case (Suc k)
  let ?R = "\<lambda>final calls. \<exists>plans. attempts (plan_ok design) (Suc k) plan plans final \<and> calls = replannings n plans"
  have again: "traces (plan_rounds pl design k (n + 1) plan') (plan_rounds (watched_planner pl) design k (n + 1) plan')
      (\<lambda>final more. ?R final (Replanned plan (n + 1) plan' # more))" if "\<not> plan_ok design plan" for plan'
  proof (rule traces_weaken [OF Suc.IH], elim exE conjE)
    fix final more plans
    assume a: "attempts (plan_ok design) k plan' plans final" "more = replannings (n + 1) plans"
    then obtain rest where "plans = plan' # rest" by (cases plans) (auto simp: attempts_def)
    with a that show "?R final (Replanned plan (n + 1) plan' # more)"
      by (intro exI [of _ "plan # plans"]) (simp add: attempts_again)
  qed
  show ?case unfolding plan_rounds.simps plan_pass_def
  proof (rule traces_pass [where good = "plan_ok design plan"])
    fix fs
    assume "\<not> plan_ok design plan"
    then show "traces (case pl_revise pl of
          None \<Rightarrow> act_res (Inl (RuntimeError ''engineering_plan_revision_unsupported''))
        | Some revise \<Rightarrow>
            act_bind (ask_worker (revise design plan \<lparr>rv_round_number = n + 1, rv_findings = blocking fs\<rparr>)) (\<lambda>plan'.
            if plan_text plan' = plan_text plan
            then act_res (Inl (RuntimeError ''engineering_plan_revision_no_progress''))
            else plan_rounds pl design k (n + 1) plan'))
        (case pl_revise (watched_planner pl) of
          None \<Rightarrow> act_res (Inl (RuntimeError ''engineering_plan_revision_unsupported''))
        | Some revise \<Rightarrow>
            act_bind (ask_worker (revise design plan \<lparr>rv_round_number = n + 1, rv_findings = blocking fs\<rparr>)) (\<lambda>plan'.
            if plan_text plan' = plan_text plan
            then act_res (Inl (RuntimeError ''engineering_plan_revision_no_progress''))
            else plan_rounds (watched_planner pl) design k (n + 1) plan')) ?R"
      unfolding watched_planner_revise
      by (cases "pl_revise pl", simp_all only: option.map option.case traces_raise revision_request.select_convs)
        (rule traces_revise, rule again)
  qed (auto intro: exI [of _ "[plan]"] attempts_once simp: plan_accepted)
qed

text \<open>The planner is asked for a plan, which is revised, at most the given number of times, until it is sound.\<close>

definition planning :: "'w engineering_pod \<Rightarrow> design_bundle \<Rightarrow> engineering_plan \<Rightarrow> pod_call list \<Rightarrow> bool" where
  "planning pod design plan calls \<longleftrightarrow> (\<exists>first plans.
     attempts (plan_ok design) (nat (ep_max_plan_rounds pod)) first plans plan \<and>
     calls = Planned first # replannings 0 plans)"

lemma validated_plan_traces:
  "traces (validated_plan pod design) (validated_plan (observed pod) design) (planning pod design)"
  unfolding validated_plan_def
proof (rule traces_bind [where Q = "\<lambda>plan calls. calls = [Planned plan]"])
  show "traces (ask_worker (pl_plan_engineering (ep_planner pod) design))
      (ask_worker (pl_plan_engineering (ep_planner (observed pod)) design)) (\<lambda>plan calls. calls = [Planned plan])"
    by (simp add: observed_def watched_planner_def traces_ask)
  show "traces (plan_rounds (ep_planner pod) design (nat (ep_max_plan_rounds pod)) 0 plan)
      (plan_rounds (ep_planner (observed pod)) design (nat (ep_max_plan_rounds (observed pod))) 0 plan)
      (\<lambda>final more. planning pod design final (calls @ more))" if "calls = [Planned plan]" for plan calls
    unfolding observed_def engineering_pod.select_convs by (rule traces_weaken [OF plan_rounds_traces]) (auto simp: that planning_def)
qed

section \<open>Execution\<close>

text \<open>The calls that revise evidence after the first, in rounds counted from \<open>n + 1\<close>.\<close>

fun revisions :: "string \<Rightarrow> package \<Rightarrow> string \<Rightarrow> int \<Rightarrow> manifest list \<Rightarrow> pod_call list" where
  "revisions agent p wid n (e # e' # es) = Revised agent p wid e (n + 1) e' # revisions agent p wid (n + 1) (e' # es)"
| "revisions agent p wid n _ = []"

lemma watched_worker_revise: "ew_revise (watched_worker agent wk) = map_option (\<lambda>revise design p wid e request.
     answered (Revised agent p wid e (rv_round_number request)) (revise design p wid e request)) (ew_revise wk)"
  by (simp add: watched_worker_def)

lemma evidence_rounds_traces:
  assumes "package_sound p" "\<forall>w \<in> set (pk_write_scopes p). \<exists>cs. denotes w cs"
  shows "traces (evidence_rounds wk design p wid k n e) (evidence_rounds (watched_worker agent wk) design p wid k n e)
     (\<lambda>final calls. \<exists>es. attempts (evidence_ok p) k e es final \<and> calls = revisions agent p wid n es)"
proof (induction k arbitrary: n e)
  case 0
  have ok: "blocking fs = [] \<longleftrightarrow> evidence_ok p e" if "check_evidence p e = Inr fs" for fs
    using that assms(2) by (intro evidence_accepted_iff) (auto simp: valid_scope_iff list_all_iff)
  show ?case unfolding evidence_rounds.simps evidence_pass_def
    by (rule traces_pass [where good = "evidence_ok p e"])
      (rule traces_raise | (auto intro: exI [of _ "[e]"] attempts_once simp: ok)[1])+
next
  case (Suc k)
  have ok: "blocking fs = [] \<longleftrightarrow> evidence_ok p e" if "check_evidence p e = Inr fs" for fs
    using that assms(2) by (intro evidence_accepted_iff) (auto simp: valid_scope_iff list_all_iff)
  let ?R = "\<lambda>final calls. \<exists>es. attempts (evidence_ok p) (Suc k) e es final \<and> calls = revisions agent p wid n es"
  have again: "traces (evidence_rounds wk design p wid k (n + 1) e') (evidence_rounds (watched_worker agent wk) design p wid k (n + 1) e')
      (\<lambda>final more. ?R final (Revised agent p wid e (n + 1) e' # more))" if "\<not> evidence_ok p e" for e'
  proof (rule traces_weaken [OF Suc.IH], elim exE conjE)
    fix final more es
    assume a: "attempts (evidence_ok p) k e' es final" "more = revisions agent p wid (n + 1) es"
    then obtain rest where "es = e' # rest" by (cases es) (auto simp: attempts_def)
    with a that show "?R final (Revised agent p wid e (n + 1) e' # more)"
      by (intro exI [of _ "e # es"]) (simp add: attempts_again)
  qed
  show ?case unfolding evidence_rounds.simps evidence_pass_def
  proof (rule traces_pass [where good = "evidence_ok p e"])
    fix fs
    assume "\<not> evidence_ok p e"
    then show "traces (case ew_revise wk of
          None \<Rightarrow> act_res (Inl (RuntimeError (''engineering_implementation_revision_unsupported:'' @ pk_package_id p)))
        | Some revise \<Rightarrow>
            act_bind (ask_worker (revise design p wid e \<lparr>rv_round_number = n + 1, rv_findings = blocking fs\<rparr>)) (\<lambda>e'.
            if e' = e then act_res (Inl (RuntimeError (''engineering_implementation_revision_no_progress:'' @ pk_package_id p)))
            else evidence_rounds wk design p wid k (n + 1) e'))
        (case ew_revise (watched_worker agent wk) of
          None \<Rightarrow> act_res (Inl (RuntimeError (''engineering_implementation_revision_unsupported:'' @ pk_package_id p)))
        | Some revise \<Rightarrow>
            act_bind (ask_worker (revise design p wid e \<lparr>rv_round_number = n + 1, rv_findings = blocking fs\<rparr>)) (\<lambda>e'.
            if e' = e then act_res (Inl (RuntimeError (''engineering_implementation_revision_no_progress:'' @ pk_package_id p)))
            else evidence_rounds (watched_worker agent wk) design p wid k (n + 1) e')) ?R"
      unfolding watched_worker_revise
      by (cases "ew_revise wk", simp_all only: option.map option.case traces_raise revision_request.select_convs)
        (rule traces_revise, rule again)
  qed (auto intro: exI [of _ "[e]"] attempts_once simp: ok)
qed

text \<open>A package is given, in its own workspace, to the worker that owns its discipline and to no other; the worker
  implements it and revises the evidence, at most the given number of times, until it is sound.\<close>

definition handed_out :: "'w engineering_pod \<Rightarrow> package \<Rightarrow> manifest \<Rightarrow> pod_call list \<Rightarrow> bool" where
  "handed_out pod p e calls \<longleftrightarrow> (\<exists>wk first es. map_of (ep_workers pod) (pk_owner_agent p) = Some wk \<and>
     ew_agent_id wk = pk_owner_agent p \<and> ew_discipline wk = pk_discipline p \<and>
     attempts (evidence_ok p) (nat (ep_max_implementation_rounds pod)) first es e \<and>
     calls = Implemented (pk_owner_agent p) p (pk_mission_id p @ '':'' @ pk_package_id p) first #
       revisions (pk_owner_agent p) p (pk_mission_id p @ '':'' @ pk_package_id p) 0 es)"

lemma map_of_map_keyed: "map_of (map (\<lambda>(k, v). (k, f k v)) xs) k = map_option (f k) (map_of xs k)"
  by (induction xs) auto

lemma observed_workers:
  "map_of (ep_workers (observed pod)) agent = map_option (watched_worker agent) (map_of (ep_workers pod) agent)"
  by (simp add: observed_def map_of_map_keyed)

lemma sound_owner: "package_sound p \<Longrightarrow> discipline_owner (pk_discipline p) = Some (pk_owner_agent p)"
  by (auto simp: package_sound_def discipline_owner_def)

lemma worker_for_cases:
  assumes "package_sound p"
  obtains (missing) e where "worker_for pod p = Inl e" "worker_for (observed pod) p = Inl e"
  | (found) wk where "worker_for pod p = Inr wk" "worker_for (observed pod) p = Inr (watched_worker (pk_owner_agent p) wk)"
      "map_of (ep_workers pod) (pk_owner_agent p) = Some wk" "ew_agent_id wk = pk_owner_agent p"
      "ew_discipline wk = pk_discipline p"
proof (cases "map_of (ep_workers pod) (pk_owner_agent p)")
  case None
  with that(1) show thesis by (simp add: worker_for_def sound_owner [OF assms] observed_workers)
next
  case (Some wk)
  then have o: "map_of (ep_workers (observed pod)) (pk_owner_agent p) = Some (watched_worker (pk_owner_agent p) wk)"
    by (simp add: observed_workers)
  show thesis
  proof (cases "ew_agent_id wk = pk_owner_agent p \<and> ew_discipline wk = pk_discipline p")
    case True
    with Some o that(2) show thesis by (simp add: worker_for_def sound_owner [OF assms] watched_worker_def)
  next
    case False
    with Some o that(1) show thesis by (simp add: worker_for_def sound_owner [OF assms] watched_worker_def raise_if_def)
  qed
qed

lemma allocated_workspace: "allocate p = Inr ws \<Longrightarrow> ws_workspace_id ws = pk_mission_id p @ '':'' @ pk_package_id p"
  by (auto simp: allocate_def Let_def)

lemma bind_res_simps:
  "act_bind (act_res (Inl e)) f = act_res (Inl e)" "act_bind (act_res (Inr x)) f = f x"
  by (simp_all add: act_bind_def fun_eq_iff)

lemma run_package_traces:
  assumes "package_sound p" "\<forall>w \<in> set (pk_write_scopes p). \<exists>cs. denotes w cs"
  shows "traces (run_package pod design p) (run_package (observed pod) design p) (handed_out pod p)"
  using assms(1)
proof (cases rule: worker_for_cases [where pod = pod])
  case (missing e)
  then show ?thesis unfolding run_package_def
    by (simp only: bind_res_simps traces_raise)
next
  case (found wk)
  let ?owner = "pk_owner_agent p" and ?wid = "pk_mission_id p @ '':'' @ pk_package_id p"
    and ?k = "nat (ep_max_implementation_rounds pod)"
  have rounds: "nat (ep_max_implementation_rounds (observed pod)) = ?k" by (simp add: observed_def)
  let ?R = "\<lambda>e calls. handed_out pod p e calls"
  have work: "traces (act_bind (ask_worker (ew_implement wk design p ?wid)) (\<lambda>e. evidence_rounds wk design p ?wid ?k 0 e))
      (act_bind (ask_worker (ew_implement (watched_worker ?owner wk) design p ?wid))
        (\<lambda>e. evidence_rounds (watched_worker ?owner wk) design p ?wid ?k 0 e)) ?R"
  proof (rule traces_bind [where Q = "\<lambda>e calls. calls = [Implemented ?owner p ?wid e]"])
    fix e and calls :: "pod_call list"
    assume c: "calls = [Implemented ?owner p ?wid e]"
    show "traces (evidence_rounds wk design p ?wid ?k 0 e) (evidence_rounds (watched_worker ?owner wk) design p ?wid ?k 0 e)
        (\<lambda>final more. handed_out pod p final (calls @ more))"
      by (rule traces_weaken [OF evidence_rounds_traces [OF assms]]) (use found c in \<open>auto simp: handed_out_def\<close>)
  qed (simp add: watched_worker_def traces_ask)
  show ?thesis unfolding run_package_def found(1,2) rounds bind_res_simps
  proof (rule traces_bind [where Q = "\<lambda>ws calls. calls = [] \<and> ws_workspace_id ws = ?wid"])
    fix ws :: workspace and calls :: "pod_call list"
    assume ws: "calls = [] \<and> ws_workspace_id ws = ?wid"
    show "traces (act_bind (act_res (workspace_validate_for ws p)) (\<lambda>_. act_bind (assign_workspace (pk_package_id p) ws) (\<lambda>_.
          act_bind (ask_worker (ew_implement wk design p (ws_workspace_id ws))) (\<lambda>e.
          evidence_rounds wk design p (ws_workspace_id ws) ?k 0 e))))
        (act_bind (act_res (workspace_validate_for ws p)) (\<lambda>_. act_bind (assign_workspace (pk_package_id p) ws) (\<lambda>_.
          act_bind (ask_worker (ew_implement (watched_worker ?owner wk) design p (ws_workspace_id ws))) (\<lambda>e.
          evidence_rounds (watched_worker ?owner wk) design p (ws_workspace_id ws) ?k 0 e))))
        (\<lambda>e more. handed_out pod p e (calls @ more))"
      unfolding conjunct1 [OF ws] conjunct2 [OF ws] append_Nil
      by (rule traces_quiet, simp add: traces_res, rule traces_quiet, simp add: traces_assign, rule work)
  qed (simp add: traces_res allocated_workspace)
qed

lemma run_packages_traces:
  assumes "\<forall>p \<in> set ps. package_sound p \<and> (\<forall>w \<in> set (pk_write_scopes p). \<exists>cs. denotes w cs)"
  shows "traces (run_packages sha clock pod design author ps) (run_packages sha (eng_clock clock) (observed pod) design author ps)
     (\<lambda>es calls. \<exists>dispatches. calls = concat dispatches \<and> length es = length ps \<and> length dispatches = length ps \<and>
        (\<forall>i < length ps. handed_out pod (ps ! i) (es ! i) (dispatches ! i)))"
  using assms
proof (induction ps)
  case Nil
  show ?case unfolding run_packages.simps by (rule traces_return) simp
next
  case (Cons p ps)
  let ?Q = "\<lambda>ps es calls. \<exists>dispatches. calls = concat dispatches \<and> length es = length ps \<and> length dispatches = length ps \<and>
        (\<forall>i < length ps. handed_out pod (ps ! i) (es ! i) (dispatches ! i))"
  have rest: "traces (act_bind (run_packages sha clock pod design author ps) (\<lambda>es. act_return (e # es)))
      (act_bind (run_packages sha (eng_clock clock) (observed pod) design author ps) (\<lambda>es. act_return (e # es)))
      (\<lambda>es more. ?Q (p # ps) es (calls @ more))" if d: "handed_out pod p e calls" for e calls
  proof (rule traces_bind [where Q = "?Q ps"])
    fix es more
    assume "?Q ps es more"
    then obtain dispatches where "more = concat dispatches" "length es = length ps" "length dispatches = length ps"
      "\<forall>i < length ps. handed_out pod (ps ! i) (es ! i) (dispatches ! i)" by blast
    with d have "?Q (p # ps) (e # es) (calls @ more @ [])"
      by (intro exI [of _ "calls # dispatches"]) (auto simp: less_Suc_eq_0_disj)
    then show "traces (act_return (e # es)) (act_return (e # es)) (\<lambda>es last. ?Q (p # ps) es (calls @ more @ last))"
      by (rule traces_return)
  qed (use Cons in simp)
  show ?case unfolding run_packages.simps
  proof (rule traces_bind [OF run_package_traces])
    fix e calls
    assume d: "handed_out pod p e calls"
    show "traces (act_bind (publish sha (eng_clock clock) (dg_mission_id design) (''engineering-evidence-'' @ lower (pk_package_id p))
          (manifest_text e) author ''application/vnd.ai-factory.engineering-evidence+json'') (\<lambda>_.
          act_bind (run_packages sha clock pod design author ps) (\<lambda>es. act_return (e # es))))
        (act_bind (publish sha (eng_clock (eng_clock clock)) (dg_mission_id design) (''engineering-evidence-'' @ lower (pk_package_id p))
          (manifest_text e) author ''application/vnd.ai-factory.engineering-evidence+json'') (\<lambda>_.
          act_bind (run_packages sha (eng_clock clock) (observed pod) design author ps) (\<lambda>es. act_return (e # es))))
        (\<lambda>es more. ?Q (p # ps) es (calls @ more))"
    proof (rule traces_bind [where Q = "\<lambda>_ calls. calls = []"])
      fix u and none :: "pod_call list"
      assume "none = []"
      with rest [OF d] show "traces (act_bind (run_packages sha clock pod design author ps) (\<lambda>es. act_return (e # es)))
          (act_bind (run_packages sha (eng_clock clock) (observed pod) design author ps) (\<lambda>es. act_return (e # es)))
          (\<lambda>es more. ?Q (p # ps) es (calls @ none @ more))" by simp
    qed (simp add: traces_publish)
  qed (use Cons.prems in simp_all)
qed

section \<open>The whole run\<close>

text \<open>The evidence returned for each package of the order.\<close>

definition delivered :: "package list \<Rightarrow> manifest list \<Rightarrow> string \<Rightarrow> manifest" where
  "delivered order es i = the (map_of (zip (map pk_package_id order) es) i)"

text \<open>The calls of a run: first those of planning, then those of each package, in the given order.\<close>

definition run_calls :: "'w engineering_pod \<Rightarrow> design_bundle \<Rightarrow> engineering_plan \<Rightarrow> package list \<Rightarrow> manifest list \<Rightarrow> pod_call list \<Rightarrow> bool" where
  "run_calls pod design plan order es calls \<longleftrightarrow> (\<exists>plan_calls dispatches. calls = plan_calls @ concat dispatches \<and>
     planning pod design plan plan_calls \<and> length es = length order \<and> length dispatches = length order \<and>
     (\<forall>i < length order. handed_out pod (order ! i) (es ! i) (dispatches ! i)))"

definition run_sound :: "'w engineering_pod \<Rightarrow> design_bundle \<Rightarrow> engineering_plan \<Rightarrow> package list \<Rightarrow> manifest list \<Rightarrow> pod_call list \<Rightarrow> bool" where
  "run_sound pod design plan order es calls \<longleftrightarrow> plan_ok design plan \<and> mset order = mset plan \<and>
     in_dependency_order [] order \<and> run_calls pod design plan order es calls"

lemma execute_traces:
  "traces (engineering_execute sha clock pod design author) (engineering_execute sha (eng_clock clock) (observed pod) design author)
     (\<lambda>(plan, order, es) calls. run_sound pod design plan order es calls)"
  unfolding engineering_execute_def
proof (rule traces_bind [where Q = "\<lambda>_ calls. calls = []"])
  fix u :: unit and none :: "pod_call list"
  assume none: "none = []"
  let ?R = "\<lambda>(plan, order, es) calls. run_sound pod design plan order es calls"
  show "traces (act_bind (validated_plan pod design) (\<lambda>plan. act_bind (act_res (execution_order plan)) (\<lambda>order.
        act_bind reset_workspaces (\<lambda>_. act_bind (run_packages sha clock pod design author order) (\<lambda>es. act_return (plan, order, es))))))
      (act_bind (validated_plan (observed pod) design) (\<lambda>plan. act_bind (act_res (execution_order plan)) (\<lambda>order.
        act_bind reset_workspaces (\<lambda>_. act_bind (run_packages sha (eng_clock clock) (observed pod) design author order)
          (\<lambda>es. act_return (plan, order, es)))))) (\<lambda>x more. ?R x (none @ more))"
    unfolding none append_Nil
  proof (rule traces_bind [OF validated_plan_traces])
    fix plan plan_calls
    assume plan: "planning pod design plan plan_calls"
    then have ok: "plan_ok design plan" by (auto simp: planning_def attempts_def)
    from plan_has_order [OF ok] obtain order where order: "execution_order plan = Inr order" "mset order = mset plan"
      "in_dependency_order [] order" by blast
    have "set order = set plan" using order(2) by (rule mset_eq_setD)
    then have sound: "\<forall>p \<in> set order. package_sound p \<and> (\<forall>w \<in> set (pk_write_scopes p). \<exists>cs. denotes w cs)"
      using ok by (simp add: plan_ok_def)
    have "traces (act_bind (run_packages sha clock pod design author order) (\<lambda>es. act_return (plan, order, es)))
        (act_bind (run_packages sha (eng_clock clock) (observed pod) design author order) (\<lambda>es. act_return (plan, order, es)))
        (\<lambda>x more. ?R x (plan_calls @ more))"
    proof (rule traces_bind [OF run_packages_traces [OF sound]])
      fix es more
      assume "\<exists>dispatches. more = concat dispatches \<and> length es = length order \<and> length dispatches = length order \<and>
        (\<forall>i < length order. handed_out pod (order ! i) (es ! i) (dispatches ! i))"
      with plan ok order have "?R (plan, order, es) (plan_calls @ more @ [])"
        by (auto simp: run_sound_def run_calls_def)
      then show "traces (act_return (plan, order, es)) (act_return (plan, order, es)) (\<lambda>x last. ?R x (plan_calls @ more @ last))"
        by (rule traces_return)
    qed
    then show "traces (act_bind (act_res (execution_order plan)) (\<lambda>order. act_bind reset_workspaces (\<lambda>_.
          act_bind (run_packages sha clock pod design author order) (\<lambda>es. act_return (plan, order, es)))))
        (act_bind (act_res (execution_order plan)) (\<lambda>order. act_bind reset_workspaces (\<lambda>_.
          act_bind (run_packages sha (eng_clock clock) (observed pod) design author order) (\<lambda>es. act_return (plan, order, es)))))
        (\<lambda>x more. ?R x (plan_calls @ more))"
      unfolding order(1) bind_res_simps
      by (rule traces_quiet [rotated]) (simp add: traces_reset)
  qed
qed (simp add: traces_res)

lemma integrates_cong:
  "(\<And>p. p \<in> set ps \<Longrightarrow> ev (pk_package_id p) = ev' (pk_package_id p)) \<Longrightarrow> integrates m ps ev order g \<Longrightarrow>
     integrates m ps ev' order g"
proof -
  assume same: "\<And>p. p \<in> set ps \<Longrightarrow> ev (pk_package_id p) = ev' (pk_package_id p)" and i: "integrates m ps ev order g"
  then have o: "set order = pk_package_id ` set ps" by (simp add: integrates_def)
  with same have s: "ev i = ev' i" if "i \<in> set order" for i using that by auto
  have "concat (map (mf_changed_paths \<circ> ev) order) = concat (map (mf_changed_paths \<circ> ev') order)"
    by (intro arg_cong [where f = concat] map_cong) (simp_all add: s)
  moreover have "concat (map (map vr_verification_id \<circ> mf_verification_results \<circ> ev) order) =
      concat (map (map vr_verification_id \<circ> mf_verification_results \<circ> ev') order)"
    by (intro arg_cong [where f = concat] map_cong) (simp_all add: s)
  moreover have "{(a, i). i \<in> set order \<and> a \<in> set (mf_produced_artifacts (ev i))} =
      {(a, i). i \<in> set order \<and> a \<in> set (mf_produced_artifacts (ev' i))}" using s by auto
  ultimately show ?thesis using i same unfolding integrates_def by metis
qed

lemma delivered_nth:
  assumes "distinct (map pk_package_id order)" "length es = length order" "i < length order"
  shows "delivered order es (pk_package_id (order ! i)) = es ! i"
  using assms map_of_zip_nth [of "map pk_package_id order" es i] by (simp add: delivered_def)

lemma run_sound_integrates:
  assumes "run_sound pod design plan order es calls"
    "integrate (dg_mission_id design) plan es (map pk_package_id order) = Inr g"
  shows "integrates (dg_mission_id design) plan (delivered order es) (map pk_package_id order) g"
proof -
  from assms(1) have ok: "plan_ok design plan" and o: "mset order = mset plan" and len: "length es = length order"
    and d: "\<forall>i < length order. \<exists>calls. handed_out pod (order ! i) (es ! i) calls"
    by (auto simp: run_sound_def run_calls_def)
  have "distinct (map pk_package_id plan)" using ok unfolding plan_ok_def by (rule conjunct1)
  then have dist: "distinct (map pk_package_id order)" using o by (metis mset_eq_imp_distinct_iff mset_map)
  have ids: "mf_package_id (es ! i) = pk_package_id (order ! i)" if "i < length order" for i
    using d that by (auto simp: handed_out_def attempts_def evidence_ok_def)
  from integrate_Inr [OF assms(2)] obtain ev where ev: "integrates (dg_mission_id design) plan ev (map pk_package_id order) g"
    "\<forall>p \<in> set plan. ev (pk_package_id p) \<in> set es" by blast
  have "ev (pk_package_id p) = delivered order es (pk_package_id p)" if p: "p \<in> set plan" for p
  proof -
    have "p \<in> set order" using p o by (metis mset_eq_setD)
    then obtain i where i: "i < length order" "p = order ! i" by (auto simp: in_set_conv_nth)
    obtain j where j: "j < length order" "ev (pk_package_id p) = es ! j"
      using ev(2) p len by (metis in_set_conv_nth)
    have "mf_package_id (ev (pk_package_id p)) = pk_package_id p"
      using ev(1) p by (simp add: integrates_def evidence_ok_def)
    with j ids [OF j(1)] i have "pk_package_id (order ! j) = pk_package_id (order ! i)" by simp
    with dist i(1) j(1) have "j = i" by (simp add: distinct_conv_nth) (metis)
    with i j delivered_nth [OF dist len i(1)] show ?thesis by simp
  qed
  then show ?thesis using ev(1) by (rule integrates_cong)
qed

lemma run_integrated_observed:
  assumes run: "run_integrated sha clock pod design author ((w, a), c) = (((w', a'), c'), Inr (es, g))"
  shows "\<exists>plan order calls. run_integrated sha (eng_clock clock) (observed pod) design author (((w, []), a), c) =
       ((((w', calls), a'), c'), Inr (es, g)) \<and> run_sound pod design plan order es calls \<and>
     integrates (dg_mission_id design) plan (delivered order es) (map pk_package_id order) g"
proof -
  let ?R = "\<lambda>(es, g) calls. \<exists>plan order. run_sound pod design plan order es calls \<and>
     integrates (dg_mission_id design) plan (delivered order es) (map pk_package_id order) g"
  have "traces (run_integrated sha clock pod design author) (run_integrated sha (eng_clock clock) (observed pod) design author) ?R"
    unfolding run_integrated_def
  proof (rule traces_bind [OF execute_traces])
    fix x :: "engineering_plan \<times> package list \<times> manifest list" and calls
    assume x: "(\<lambda>(plan, order, es) calls. run_sound pod design plan order es calls) x calls"
    obtain plan order es where s: "x = (plan, order, es)" by (cases x) auto
    have sound: "run_sound pod design plan order es calls" using x s by simp
    show "traces (case x of (plan, order, es) \<Rightarrow>
          act_bind (act_res (integrate (dg_mission_id design) plan es (map pk_package_id order))) (\<lambda>g.
          act_bind (publish sha (eng_clock clock) (dg_mission_id design) ''engineering-integration-manifest''
            (integration_text g) author ''application/vnd.ai-factory.engineering-integration+json'') (\<lambda>_. act_return (es, g))))
        (case x of (plan, order, es) \<Rightarrow>
          act_bind (act_res (integrate (dg_mission_id design) plan es (map pk_package_id order))) (\<lambda>g.
          act_bind (publish sha (eng_clock (eng_clock clock)) (dg_mission_id design) ''engineering-integration-manifest''
            (integration_text g) author ''application/vnd.ai-factory.engineering-integration+json'') (\<lambda>_. act_return (es, g))))
        (\<lambda>y more. ?R y (calls @ more))"
      unfolding s prod.case
    proof (rule traces_bind [where Q = "\<lambda>g none. none = [] \<and> integrate (dg_mission_id design) plan es (map pk_package_id order) = Inr g"])
      fix g and none :: "pod_call list"
      assume "none = [] \<and> integrate (dg_mission_id design) plan es (map pk_package_id order) = Inr g"
      then have none: "none = []" and "?R (es, g) calls"
        using run_sound_integrates [OF sound] sound by auto
      then show "traces (act_bind (publish sha (eng_clock clock) (dg_mission_id design) ''engineering-integration-manifest''
            (integration_text g) author ''application/vnd.ai-factory.engineering-integration+json'') (\<lambda>_. act_return (es, g)))
          (act_bind (publish sha (eng_clock (eng_clock clock)) (dg_mission_id design) ''engineering-integration-manifest''
            (integration_text g) author ''application/vnd.ai-factory.engineering-integration+json'') (\<lambda>_. act_return (es, g)))
          (\<lambda>y more. ?R y (calls @ none @ more))"
        by (intro traces_quiet [OF traces_publish] traces_return) simp_all
    qed (simp add: traces_res)
  qed
  from tracesD [OF this run, of "[]"] obtain calls where
    "run_integrated sha (eng_clock clock) (observed pod) design author (((w, []), a), c) = ((((w', calls), a'), c'), Inr (es, g))"
    "?R (es, g) calls" by auto
  then show ?thesis by auto
qed

end
