(* ===== verification/Engineering_Fixtures.thy ===== *)
theory Engineering_Fixtures
  imports Engineering_Pod
begin

text \<open>
  The fixture planner of evaluations (factory/engineering_pod/fixtures.py): an explicit mapping from design
  requirements to work packages, which implements the planner interface of the engineering pod
  without revisions. The lemmas say which rules of the plan validator it meets by construction and
  which it leaves to the validator.
\<close>

section \<open>Specifications\<close>

record fixture_spec =
  fx_package_id :: string
  fx_discipline :: string
  fx_requirement_ids :: "string list"
  fx_write_scopes :: "string list"
  fx_expected_artifacts :: "string list"
  fx_verification_methods :: "string list"
  fx_depends_on :: "string list"
  fx_objective :: string

definition fixture_validate :: "fixture_spec \<Rightarrow> unit res" where
  "fixture_validate f = checks [
     raise_if (fx_package_id f = [] \<or> blank (fx_objective f)) (ValueError ''fixture package_id and objective are required''),
     raise_if (fx_discipline f \<notin> set engineering_disciplines) (ValueError (''unknown fixture discipline: '' @ fx_discipline f)),
     raise_if (fx_requirement_ids f = []) (ValueError ''fixture must map at least one requirement''),
     raise_if (fx_write_scopes f = [] \<or> fx_expected_artifacts f = [] \<or> fx_verification_methods f = [])
       (ValueError ''fixture package requires scopes, artifacts and verification'')]"

definition new_fixture_planner :: "fixture_spec list \<Rightarrow> fixture_spec list res" where
  "new_fixture_planner specs = res_bind (raise_if (specs = []) (ValueError ''at least one fixture package spec is required'')) (\<lambda>_.
     Inr specs)"

section \<open>Planning\<close>

definition unknown_items :: "string list \<Rightarrow> string list \<Rightarrow> string list" where
  "unknown_items xs known = sorted_set (filter (\<lambda>x. x \<notin> set known) xs)"

definition fixture_package :: "string list \<Rightarrow> string list \<Rightarrow> string \<Rightarrow> fixture_spec \<Rightarrow> package res" where
  "fixture_package known_requirements package_ids mission_id f =
     res_bind (checks [fixture_validate f,
       raise_if (unknown_items (fx_requirement_ids f) known_requirements \<noteq> [])
         (ValueError (''fixture references unknown requirements: '' @
           join '','' (unknown_items (fx_requirement_ids f) known_requirements))),
       raise_if (unknown_items (fx_depends_on f) package_ids \<noteq> [])
         (ValueError (''fixture references unknown dependencies: '' @ join '','' (unknown_items (fx_depends_on f) package_ids)))]) (\<lambda>_.
     res_bind (fetch (KeyError [fx_discipline f]) (discipline_owner (fx_discipline f))) (\<lambda>owner.
     Inr \<lparr>pk_package_id = fx_package_id f, pk_mission_id = mission_id, pk_owner_agent = owner, pk_discipline = fx_discipline f,
       pk_objective = fx_objective f, pk_requirement_ids = fx_requirement_ids f, pk_depends_on = fx_depends_on f,
       pk_write_scopes = fx_write_scopes f, pk_expected_artifacts = fx_expected_artifacts f,
       pk_verification_methods = fx_verification_methods f\<rparr>))"

definition plan_engineering :: "fixture_spec list \<Rightarrow> design_bundle \<Rightarrow> engineering_plan res" where
  "plan_engineering specs design =
     res_bind (bundle_validate design) (\<lambda>_.
     res_bind (raise_if (\<not> distinct (map fx_package_id specs)) (ValueError ''fixture package IDs must be unique'')) (\<lambda>_.
     map_res (fixture_package (requirement_ids design) (map fx_package_id specs) (dg_mission_id design)) specs))"

text \<open>The planner the pod is given: it has no method for revisions.\<close>

definition fixture_planner :: "fixture_spec list \<Rightarrow> 'w planner" where
  "fixture_planner specs = \<lparr>pl_plan_engineering = (\<lambda>design w. (w, plan_engineering specs design)), pl_revise = None\<rparr>"

section \<open>What holds by construction\<close>

lemma unknown_items_eq_Nil [simp]: "unknown_items xs known = [] \<longleftrightarrow> set xs \<subseteq> set known"
  by (auto simp: unknown_items_def filter_empty_conv)

lemma fixture_package_Inr:
  assumes "fixture_package rs is m f = Inr p"
  shows "pk_package_id p = fx_package_id f" "pk_mission_id p = m" "pk_depends_on p = fx_depends_on f"
    "pk_write_scopes p = fx_write_scopes f" "pk_requirement_ids p = fx_requirement_ids f"
    "fixture_validate f = Inr ()" "discipline_owner (pk_discipline p) = Some (pk_owner_agent p)"
    "set (fx_requirement_ids f) \<subseteq> set rs" "set (fx_depends_on f) \<subseteq> set is"
  using assms by (auto simp: fixture_package_def)

text \<open>What a specification is not asked for, but a package is.\<close>

definition fixture_lists_ok :: "fixture_spec \<Rightarrow> bool" where
  "fixture_lists_ok f \<longleftrightarrow> fx_package_id f \<notin> set (fx_depends_on f) \<and> distinct (fx_depends_on f) \<and> distinct (fx_write_scopes f)"

lemma fixture_package_valid:
  assumes "fixture_package rs is m f = Inr p" "m \<noteq> []"
  shows "package_validate p = Inr () \<longleftrightarrow> fixture_lists_ok f"
  using assms by (auto simp: fixture_package_def package_validate_def fixture_validate_def fixture_lists_ok_def)

lemma plan_engineering_packages:
  assumes "plan_engineering specs design = Inr ps"
  shows "list_all2 (\<lambda>f p. fixture_package (requirement_ids design) (map fx_package_id specs) (dg_mission_id design) f = Inr p) specs ps"
    "map pk_package_id ps = map fx_package_id specs" "distinct (map pk_package_id ps)" "bundle_validate design = Inr ()"
proof -
  show 1: "list_all2 (\<lambda>f p. fixture_package (requirement_ids design) (map fx_package_id specs) (dg_mission_id design) f = Inr p) specs ps"
    using assms by (auto simp: plan_engineering_def map_res_eq_Inr)
  have "list_all2 (\<lambda>f p. fx_package_id f = pk_package_id p) specs ps"
    using 1 by (rule list_all2_mono) (simp add: fixture_package_Inr)
  then show "map pk_package_id ps = map fx_package_id specs"
    by (induction rule: list_all2_induct) auto
  then show "distinct (map pk_package_id ps)" "bundle_validate design = Inr ()" using assms by (auto simp: plan_engineering_def)
qed

lemma list_all2_same_pred:
  "list_all2 R xs ys \<Longrightarrow> (\<And>x y. R x y \<Longrightarrow> P x \<longleftrightarrow> Q y) \<Longrightarrow> list_all P xs \<longleftrightarrow> list_all Q ys"
  by (induction rule: list_all2_induct) auto

text \<open>What is left to the plan validator, stated on the specifications.\<close>

definition fixture_depends :: "fixture_spec list \<Rightarrow> (string \<times> string) set" where
  "fixture_depends specs = {(fx_package_id f, d) | f d. f \<in> set specs \<and> d \<in> set (fx_depends_on f)}"

definition fixture_sound :: "design_bundle \<Rightarrow> fixture_spec list \<Rightarrow> bool" where
  "fixture_sound design specs \<longleftrightarrow>
     list_all (\<lambda>f. fixture_lists_ok f \<and> list_all (\<lambda>w. is_ok (normalize_scope w)) (fx_write_scopes f)) specs \<and>
     acyclic (fixture_depends specs) \<and>
     set (must_ids design) \<subseteq> set (concat (map fx_requirement_ids specs)) \<and>
     (\<forall>(l, r) \<in> set (later_pairs specs). scopes_overlap (fx_write_scopes l) (fx_write_scopes r) \<longrightarrow>
        (fx_package_id l, fx_package_id r) \<in> (fixture_depends specs)\<^sup>+ \<or>
        (fx_package_id r, fx_package_id l) \<in> (fixture_depends specs)\<^sup>+)"

lemma later_pairs_map: "later_pairs (map f xs) = map (map_prod f f) (later_pairs xs)"
  by (induction xs) simp_all

text \<open>The specification a package came from, as far as the validator looks at it.\<close>

definition spec_view :: "package \<Rightarrow> string \<times> string list \<times> string list \<times> string list" where
  "spec_view p = (pk_package_id p, pk_depends_on p, pk_write_scopes p, pk_requirement_ids p)"

definition fixture_view :: "fixture_spec \<Rightarrow> string \<times> string list \<times> string list \<times> string list" where
  "fixture_view f = (fx_package_id f, fx_depends_on f, fx_write_scopes f, fx_requirement_ids f)"

lemma plan_engineering_views:
  assumes "plan_engineering specs design = Inr ps"
  shows "map spec_view ps = map fixture_view specs"
  using plan_engineering_packages(1) [OF assms]
  by (induction rule: list_all2_induct) (auto simp: spec_view_def fixture_view_def fixture_package_Inr)

lemma plan_ok_iff_fixture_sound:
  assumes "plan_engineering specs design = Inr ps"
  shows "plan_ok design ps \<longleftrightarrow> fixture_sound design specs"
proof -
  note packages = plan_engineering_packages [OF assms]
  note views = plan_engineering_views [OF assms]
  have "dg_mission_id design \<noteq> []" using packages(4) by (simp add: bundle_validate_def)
  have set_views: "spec_view ` set ps = fixture_view ` set specs" using arg_cong [OF views, of set] by simp
  have dep: "package_depends ps = fixture_depends specs"
  proof -
    have "package_depends ps = (\<Union>v \<in> spec_view ` set ps. {fst v} \<times> set (fst (snd v)))"
      by (auto simp: package_depends_def spec_view_def)
    also have "\<dots> = fixture_depends specs"
      unfolding set_views by (auto simp: fixture_depends_def fixture_view_def)
    finally show ?thesis .
  qed
  have req: "set (concat (map pk_requirement_ids ps)) = set (concat (map fx_requirement_ids specs))"
  proof -
    have "set (concat (map pk_requirement_ids ps)) = (\<Union>v \<in> spec_view ` set ps. set (snd (snd (snd v))))"
      by (simp add: spec_view_def)
    also have "\<dots> = set (concat (map fx_requirement_ids specs))" unfolding set_views by (simp add: fixture_view_def)
    finally show ?thesis .
  qed
  let ?clash = "\<lambda>(v, w). scopes_overlap (fst (snd (snd v))) (fst (snd (snd w))) \<longrightarrow>
     (fst v, fst w) \<in> (fixture_depends specs)\<^sup>+ \<or> (fst w, fst v) \<in> (fixture_depends specs)\<^sup>+"
  have pairs: "map_prod spec_view spec_view ` set (later_pairs ps) = map_prod fixture_view fixture_view ` set (later_pairs specs)"
    using arg_cong [OF views, of "set \<circ> later_pairs"] by (simp add: later_pairs_map)
  have "(\<forall>(l, r) \<in> set (later_pairs ps). scopes_overlap (pk_write_scopes l) (pk_write_scopes r) \<longrightarrow>
        (pk_package_id l, pk_package_id r) \<in> (fixture_depends specs)\<^sup>+ \<or>
        (pk_package_id r, pk_package_id l) \<in> (fixture_depends specs)\<^sup>+) \<longleftrightarrow>
     (\<forall>x \<in> map_prod spec_view spec_view ` set (later_pairs ps). ?clash x)"
    by (simp add: spec_view_def case_prod_beta')
  also have "\<dots> \<longleftrightarrow> (\<forall>(l, r) \<in> set (later_pairs specs). scopes_overlap (fx_write_scopes l) (fx_write_scopes r) \<longrightarrow>
        (fx_package_id l, fx_package_id r) \<in> (fixture_depends specs)\<^sup>+ \<or>
        (fx_package_id r, fx_package_id l) \<in> (fixture_depends specs)\<^sup>+)"
    unfolding pairs by (simp add: fixture_view_def case_prod_beta')
  finally have clash: "(\<forall>(l, r) \<in> set (later_pairs ps). scopes_overlap (pk_write_scopes l) (pk_write_scopes r) \<longrightarrow>
        (pk_package_id l, pk_package_id r) \<in> (fixture_depends specs)\<^sup>+ \<or>
        (pk_package_id r, pk_package_id l) \<in> (fixture_depends specs)\<^sup>+) \<longleftrightarrow> \<dots>" .
  have "list_all (\<lambda>f. fixture_lists_ok f \<and> list_all (\<lambda>w. is_ok (normalize_scope w)) (fx_write_scopes f)) specs \<longleftrightarrow>
     list_all (\<lambda>p. package_validate p = Inr () \<and> set (pk_requirement_ids p) \<subseteq> set (requirement_ids design) \<and>
       set (pk_depends_on p) \<subseteq> set (map pk_package_id ps) \<and>
       list_all (\<lambda>w. is_ok (normalize_scope w)) (pk_write_scopes p)) ps"
  proof (rule list_all2_same_pred [OF packages(1)])
    fix f p
    assume made: "fixture_package (requirement_ids design) (map fx_package_id specs) (dg_mission_id design) f = Inr p"
    note p = fixture_package_Inr [OF made]
    show "fixture_lists_ok f \<and> list_all (\<lambda>w. is_ok (normalize_scope w)) (fx_write_scopes f) \<longleftrightarrow>
       package_validate p = Inr () \<and> set (pk_requirement_ids p) \<subseteq> set (requirement_ids design) \<and>
       set (pk_depends_on p) \<subseteq> set (map pk_package_id ps) \<and>
       list_all (\<lambda>w. is_ok (normalize_scope w)) (pk_write_scopes p)"
      unfolding fixture_package_valid [OF made \<open>dg_mission_id design \<noteq> []\<close>] packages(2) p(3-5) using p(8,9) by blast
  qed
  with packages(3) dep req clash show ?thesis by (simp add: plan_ok_passes plan_passes_def fixture_sound_def)
qed

section \<open>The planner in the pod\<close>

lemma plan_rounds_no_revision:
  assumes "pl_revise pl = None"
  shows "plan_rounds pl design k n plan s = (s', Inr x) \<longleftrightarrow>
     s' = s \<and> x = plan \<and> is_ok (eng_plan_validate design plan) \<and> plan_ok design plan"
  using assms
  by (cases k) (auto simp: plan_pass_def act_bind_Inr is_ok_iff plan_accepted split: if_splits)

lemma fixture_plan_accepted:
  assumes "ep_planner pod = fixture_planner specs"
  shows "validated_plan pod design s = (s', Inr plan) \<longleftrightarrow>
     s' = s \<and> plan_engineering specs design = Inr plan \<and> fixture_sound design specs"
proof -
  obtain w a c where s: "s = ((w, a), c)" by (metis surj_pair)
  have ask: "ask_worker (pl_plan_engineering (ep_planner pod) design) s = (s, plan_engineering specs design)"
    by (simp add: assms fixture_planner_def ask_worker_def ask_def s)
  have revise: "pl_revise (ep_planner pod) = None" by (simp add: assms fixture_planner_def)
  have "is_ok (eng_plan_validate design plan)" if "plan_engineering specs design = Inr plan"
    using plan_engineering_packages(4) [OF that] by (simp add: eng_plan_validate_def)
  then show ?thesis
    by (auto simp: validated_plan_def act_bind_Inr ask plan_rounds_no_revision [OF revise] plan_ok_iff_fixture_sound)
qed

end
