(* ===== verification/Performance.thy ===== *)
theory Performance
  imports Qualification Files
begin

text \<open>
  Performance qualification (src/factory/reliability/performance.py): an operation is run on a world of
  any type and timed with a clock of that world, its failures become samples, and the service level
  evidence of Qualification is wrapped in a report. The environment of the interpreter is a
  parameter; \<open>show_float\<close> prints the floats of the report.
\<close>

section \<open>Environment and report\<close>

record environment_fingerprint =
  en_python_version :: string
  en_implementation :: string
  en_platform :: string
  en_machine :: string

text \<open>\<open>EnvironmentFingerprint.current\<close>, from what the module \<open>platform\<close> answers\<close>

definition current_environment :: "string \<Rightarrow> string \<Rightarrow> string \<Rightarrow> string \<Rightarrow> environment_fingerprint" where
  "current_environment version implementation plat machine = \<lparr>en_python_version = version, en_implementation = implementation,
     en_platform = plat, en_machine = (if machine = [] then ''unknown'' else machine)\<rparr>"

definition environment_json :: "environment_fingerprint \<Rightarrow> json" where
  "environment_json e = JObj [(''python_version'', JStr (en_python_version e)), (''implementation'', JStr (en_implementation e)),
     (''platform'', JStr (en_platform e)), (''machine'', JStr (en_machine e))]"

definition environment_digest :: "(string \<Rightarrow> string) \<Rightarrow> environment_fingerprint \<Rightarrow> string" where
  "environment_digest sha e = sha (json_dumps_ascii (environment_json e))"

record performance_report =
  pq_report_version :: int
  pq_environment :: string
  pq_fingerprint :: environment_fingerprint
  pq_fingerprint_sha256 :: string
  pq_objective :: service_level_objective
  pq_evidence :: slo_evidence

text \<open>The texts of \<open>asdict\<close> of the parts and of \<open>to_dict\<close>, with \<open>sort_keys=True\<close>.\<close>

definition sorted_object :: "(string \<times> string) list \<Rightarrow> string" where
  "sorted_object kvs = object_text (sort_key fst kvs)"

definition objective_text :: "(rat \<Rightarrow> string) \<Rightarrow> service_level_objective \<Rightarrow> string" where
  "objective_text show_float s = sorted_object [
     (''objective_id'', str_text (sl_objective_id s)), (''operation'', str_text (sl_operation s)),
     (''max_p95_latency_ms'', show_float (sl_max_p95_latency_ms s)), (''max_error_rate'', show_float (sl_max_error_rate s)),
     (''min_throughput_per_second'', show_float (sl_min_throughput_per_second s)), (''min_samples'', show_int (sl_min_samples s))]"

definition evidence_text :: "(rat \<Rightarrow> string) \<Rightarrow> slo_evidence \<Rightarrow> string" where
  "evidence_text show_float e = sorted_object [
     (''objective_id'', str_text (sw_objective_id e)), (''operation'', str_text (sw_operation e)),
     (''environment'', str_text (sw_environment e)), (''sample_count'', show_int (int (sw_sample_count e))),
     (''duration_seconds'', show_float (sw_duration_seconds e)), (''p95_latency_ms'', show_float (sw_p95_latency_ms e)),
     (''error_rate'', show_float (sw_error_rate e)), (''throughput_per_second'', show_float (sw_throughput_per_second e)),
     (''latency_pass'', bool_text (sw_latency_pass e)), (''error_rate_pass'', bool_text (sw_error_rate_pass e)),
     (''throughput_pass'', bool_text (sw_throughput_pass e)), (''sufficient_samples'', bool_text (sw_sufficient_samples e)),
     (''qualified'', bool_text (sw_qualified e)), (''claim_scope'', str_text (sw_claim_scope e))]"

definition report_text :: "(rat \<Rightarrow> string) \<Rightarrow> performance_report \<Rightarrow> string" where
  "report_text show_float r = sorted_object [
     (''report_version'', show_int (pq_report_version r)), (''environment'', str_text (pq_environment r)),
     (''environment_fingerprint'', json_dumps (environment_json (pq_fingerprint r))),
     (''environment_fingerprint_sha256'', str_text (pq_fingerprint_sha256 r)),
     (''objective'', objective_text show_float (pq_objective r)), (''evidence'', evidence_text show_float (pq_evidence r))]"

definition write_report :: "(rat \<Rightarrow> string) \<Rightarrow> performance_report \<Rightarrow> path \<Rightarrow> bool \<Rightarrow> files \<Rightarrow> files res" where
  "write_report show_float r target overwrite fs =
     res_bind (raise_if (fs target \<noteq> None \<and> \<not> overwrite) (FileExistsError (join ''/'' target))) (\<lambda>_.
     Inr (fs(target \<mapsto> report_text show_float r @ line_end)))"

section \<open>Timed runs\<close>

definition read_clock :: "('w \<Rightarrow> 'w \<times> rat) \<Rightarrow> ('w, rat) act" where
  "read_clock clock w = (case clock w of (w', t) \<Rightarrow> (w', Inr t))"

text \<open>\<open>try: operation() except Exception: success = False\<close>\<close>

definition tried :: "('w, unit) act \<Rightarrow> ('w, bool) act" where
  "tried operation w = (case operation w of (w', r) \<Rightarrow> (w', Inr (is_ok r)))"

fun warm_up :: "('w, unit) act \<Rightarrow> nat \<Rightarrow> ('w, unit) act" where
  "warm_up operation 0 = act_return ()"
| "warm_up operation (Suc n) = act_bind operation (\<lambda>_. warm_up operation n)"

definition new_sample :: "string \<Rightarrow> rat \<Rightarrow> bool \<Rightarrow> operation_sample res" where
  "new_sample operation latency success = (let s = \<lparr>op_operation = operation, op_latency_ms = latency, op_success = success\<rparr> in
     res_bind (sample_validate s) (\<lambda>_. Inr s))"

definition take_sample :: "('w \<Rightarrow> 'w \<times> rat) \<Rightarrow> ('w, unit) act \<Rightarrow> string \<Rightarrow> ('w, operation_sample) act" where
  "take_sample clock operation name =
     act_bind (read_clock clock) (\<lambda>start.
     act_bind (tried operation) (\<lambda>success.
     act_bind (read_clock clock) (\<lambda>finish.
     reading (\<lambda>_. new_sample name ((finish - start) * 1000) success))))"

fun take_samples :: "('w \<Rightarrow> 'w \<times> rat) \<Rightarrow> ('w, unit) act \<Rightarrow> string \<Rightarrow> nat \<Rightarrow> ('w, operation_sample list) act" where
  "take_samples clock operation name 0 = act_return []"
| "take_samples clock operation name (Suc n) =
     act_bind (take_sample clock operation name) (\<lambda>s.
     act_bind (take_samples clock operation name n) (\<lambda>rest. act_return (s # rest)))"

definition float_epsilon :: rat where
  "float_epsilon = 1 / 2 ^ 52"

definition qualify_operation :: "(string \<Rightarrow> string) \<Rightarrow> environment_fingerprint \<Rightarrow> ('w \<Rightarrow> 'w \<times> rat) \<Rightarrow> service_level_objective \<Rightarrow>
    int \<Rightarrow> ('w, unit) act \<Rightarrow> string \<Rightarrow> int \<Rightarrow> ('w, performance_report) act" where
  "qualify_operation sha env clock objective iterations operation environment warmups =
     act_bind (reading (\<lambda>_. checks [raise_if (iterations < 1) (ValueError ''iterations must be >= 1''),
       raise_if (warmups < 0) (ValueError ''warmup_iterations must be >= 0'')])) (\<lambda>_.
     act_bind (warm_up operation (nat warmups)) (\<lambda>_.
     act_bind (read_clock clock) (\<lambda>start.
     act_bind (take_samples clock operation (sl_operation objective) (nat iterations)) (\<lambda>samples.
     act_bind (read_clock clock) (\<lambda>finish.
     reading (\<lambda>_. res_bind (evaluate_slo objective samples (max (finish - start) float_epsilon) environment) (\<lambda>evidence.
       Inr \<lparr>pq_report_version = 1, pq_environment = environment, pq_fingerprint = env,
         pq_fingerprint_sha256 = environment_digest sha env, pq_objective = objective, pq_evidence = evidence\<rparr>)))))))"

section \<open>What the runs are\<close>

text \<open>The outcomes of \<open>n\<close> runs, as the loop sees them between its clock readings, and the world after them.\<close>

fun timed_runs :: "('w \<Rightarrow> 'w \<times> rat) \<Rightarrow> ('w, unit) act \<Rightarrow> nat \<Rightarrow> 'w \<Rightarrow> bool list \<times> 'w" where
  "timed_runs clock operation 0 w = ([], w)"
| "timed_runs clock operation (Suc n) w =
     (let (w1, r) = operation (fst (clock w)); (rest, w2) = timed_runs clock operation n (fst (clock w1)) in (is_ok r # rest, w2))"

text \<open>What the module \<open>time\<close> promises: the clock never goes back, whatever the operation does.\<close>

definition clock_monotone :: "('w \<Rightarrow> rat) \<Rightarrow> ('w \<Rightarrow> 'w \<times> rat) \<Rightarrow> ('w, unit) act \<Rightarrow> bool" where
  "clock_monotone time clock operation \<longleftrightarrow>
     (\<forall>w. time w \<le> snd (clock w) \<and> snd (clock w) \<le> time (fst (clock w))) \<and> (\<forall>w. time w \<le> time (fst (operation w)))"

lemma take_sample_apply:
  assumes "clock_monotone time clock operation" "\<not> blank name"
  shows "\<exists>s. take_sample clock operation name w =
       (fst (clock (fst (operation (fst (clock w))))), Inr s) \<and>
     op_operation s = name \<and> op_success s = is_ok (snd (operation (fst (clock w)))) \<and> 0 \<le> op_latency_ms s"
proof -
  let ?w1 = "fst (clock w)"
  let ?w2 = "fst (operation ?w1)"
  have "snd (clock w) \<le> time ?w1" "time ?w1 \<le> time ?w2" "time ?w2 \<le> snd (clock ?w2)"
    using assms(1) by (auto simp: clock_monotone_def)
  then have "0 \<le> snd (clock ?w2) - snd (clock w)" by linarith
  then show ?thesis using assms(2)
    by (auto simp: take_sample_def act_bind_apply read_clock_def tried_def new_sample_def Let_def sample_validate_def
        raise_if_def case_prod_beta' split: sum.splits)
qed

lemma take_samples_apply:
  assumes "clock_monotone time clock operation" "\<not> blank name"
  shows "\<exists>ss. take_samples clock operation name n w = (snd (timed_runs clock operation n w), Inr ss) \<and>
     map op_success ss = fst (timed_runs clock operation n w) \<and> list_all (\<lambda>s. op_operation s = name) ss"
proof (induction n arbitrary: w)
  case (Suc n)
  from take_sample_apply [OF assms, of w] obtain s where s: "take_sample clock operation name w =
       (fst (clock (fst (operation (fst (clock w))))), Inr s)" "op_operation s = name"
    "op_success s = is_ok (snd (operation (fst (clock w))))" by blast
  from Suc [of "fst (clock (fst (operation (fst (clock w)))))"] s show ?case
    by (auto simp: act_bind_apply Let_def case_prod_beta')
qed simp

lemma length_timed_runs [simp]: "length (fst (timed_runs clock operation n w)) = n"
  by (induction n arbitrary: w) (simp_all add: Let_def case_prod_beta')

lemma evaluate_slo_Inr:
  assumes "environment \<in> {''LOCAL'', ''CI'', ''STAGING'', ''PRODUCTION''}" "0 < duration" "samples \<noteq> []"
    "list_all (\<lambda>s. op_operation s = sl_operation objective) samples"
  shows "\<exists>e. evaluate_slo objective samples duration environment = Inr e \<and> sw_environment e = environment \<and>
     sw_sample_count e = length samples \<and>
     sw_error_rate e = of_nat (length (filter Not (map op_success samples))) / of_nat (length samples)"
proof -
  have "nearest_rank_percentile (map op_latency_ms samples) (95 / 100) \<noteq> Inl e" for e
    using assms(3) by (auto simp: nearest_rank_percentile_def raise_if_def)
  then obtain p where "nearest_rank_percentile (map op_latency_ms samples) (95 / 100) = Inr p"
    by (metis sum.exhaust)
  moreover have "\<not> list_ex (\<lambda>s. op_operation s \<noteq> sl_operation objective) samples"
    using assms(4) by (auto simp: list_all_iff list_ex_iff)
  ultimately show ?thesis
    using assms(1-3) by (auto simp: evaluate_slo_def raise_if_def Let_def filter_map comp_def)
qed

text \<open>Failures of the measured operation are data: whatever it raises, a qualification whose arguments are valid and whose
  warm-up passes returns a report with one sample per iteration, whose error rate is the share of the
  iterations that raised; only evidence from PRODUCTION can be claimed as production.\<close>

theorem failures_are_measured:
  assumes "clock_monotone time clock operation" "objective_validate objective = Inr ()" "0 < iterations" "0 \<le> warmups"
    and "environment \<in> {''LOCAL'', ''CI'', ''STAGING'', ''PRODUCTION''}" "warm_up operation (nat warmups) w = (w1, Inr ())"
  shows "\<exists>w' r. qualify_operation sha env clock objective iterations operation environment warmups w = (w', Inr r) \<and>
     sw_sample_count (pq_evidence r) = nat iterations \<and>
     sw_error_rate (pq_evidence r) =
       of_nat (length (filter Not (fst (timed_runs clock operation (nat iterations) (fst (clock w1)))))) / of_int iterations \<and>
     (assert_claimable_as_production (pq_evidence r) = Inr () \<longrightarrow> environment = ''PRODUCTION'')"
proof -
  have "\<not> blank (sl_operation objective)" using assms(2) by (simp add: objective_validate_def)
  from take_samples_apply [OF assms(1) this, of "nat iterations" "fst (clock w1)"] obtain ss where
    ss: "take_samples clock operation (sl_operation objective) (nat iterations) (fst (clock w1)) =
       (snd (timed_runs clock operation (nat iterations) (fst (clock w1))), Inr ss)"
    "map op_success ss = fst (timed_runs clock operation (nat iterations) (fst (clock w1)))"
    "list_all (\<lambda>s. op_operation s = sl_operation objective) ss" by blast
  have n: "length ss = nat iterations" using arg_cong [OF ss(2), of length] by simp
  with assms(3) have "ss \<noteq> []" by auto
  obtain w2 finish where c: "clock (snd (timed_runs clock operation (nat iterations) (fst (clock w1)))) = (w2, finish)" by fastforce
  have "0 < max (finish - snd (clock w1)) float_epsilon" by (simp add: float_epsilon_def less_max_iff_disj)
  from evaluate_slo_Inr [OF assms(5) this \<open>ss \<noteq> []\<close> ss(3)] obtain e where
    e: "evaluate_slo objective ss (max (finish - snd (clock w1)) float_epsilon) environment = Inr e"
    "sw_environment e = environment" "sw_sample_count e = length ss"
    "sw_error_rate e = of_nat (length (filter Not (map op_success ss))) / of_nat (length ss)" by blast
  have "of_nat (nat iterations) = (of_int iterations :: rat)" using assms(3) by (simp add: of_nat_nat)
  then show ?thesis
    using assms(3,4,6) ss(1,2) c e n
    by (simp add: qualify_operation_def act_bind_apply read_clock_def case_prod_beta' assert_claimable_as_production_def)
qed

text \<open>A clock that ticks at every reading and an operation that raises every other time.\<close>

definition tick :: "nat \<Rightarrow> nat \<times> rat" where
  "tick w = (w + 1, of_nat w)"

definition flaky :: "(nat, unit) act" where
  "flaky w = (w + 1, if even w then Inr () else Inl (RuntimeError ''flaky''))"

definition example_objective :: service_level_objective where
  "example_objective = \<lparr>sl_objective_id = ''o'', sl_operation = ''op'', sl_max_p95_latency_ms = 1, sl_max_error_rate = 1 / 2,
     sl_min_throughput_per_second = 0, sl_min_samples = 1\<rparr>"

theorem failures_are_measured_witness:
  "\<exists>w' r. qualify_operation (\<lambda>s. s) (current_environment ''3'' ''C'' ''L'' []) tick example_objective 2 flaky ''CI'' 0 0 = (w', Inr r) \<and>
     sw_sample_count (pq_evidence r) = 2 \<and> sw_error_rate (pq_evidence r) = 1 / 2"
proof -
  have "clock_monotone of_nat tick flaky" by (simp add: clock_monotone_def tick_def flaky_def)
  moreover have "objective_validate example_objective = Inr ()"
    by (simp add: objective_validate_def example_objective_def in_unit_def is_space_def)
  moreover have "warm_up flaky (nat 0) 0 = (0, Inr ())" by simp
  moreover have "length (filter Not (fst (timed_runs tick flaky (nat 2) (fst (tick 0))))) = 1"
  proof -
    have two: "nat 2 = Suc (Suc 0)" by simp
    show ?thesis unfolding two by (simp add: tick_def flaky_def)
  qed
  ultimately show ?thesis
    using failures_are_measured [of of_nat tick flaky example_objective 2 0 "''CI''" 0 0 "\<lambda>s. s" "current_environment ''3'' ''C'' ''L'' []"]
    by auto
qed

end
