(* ===== verification/Supply_Chain.thy ===== *)
theory Supply_Chain
  imports Files
begin

text \<open>
  The supply-chain inventory (src/factory/reliability/supply_chain.py): the roots of the modules that the
  Python files import, the pins of the workflow actions, and a bill of materials that its fingerprint binds. A
  project is the list of its files; \<open>parse\<close> is \<open>ast.walk\<close> of \<open>ast.parse\<close>, reduced to the import
  statements, and \<open>stdlib\<close> is \<open>sys.stdlib_module_names\<close>.
\<close>

section \<open>Imports\<close>

datatype import_node = Import "string list" | ImportFrom int "string option" | OtherNode

type_synonym project = "(path \<times> string) list"

record dependency_inventory =
  iv_standard_library :: "string list"
  iv_internal :: "string list"
  iv_external :: "string list"

definition module_root :: "string \<Rightarrow> string" where
  "module_root m = takeWhile (\<lambda>c. c \<noteq> CHR ''.'') m"

fun node_roots :: "import_node \<Rightarrow> string list" where
  "node_roots (Import names) = map module_root names"
| "node_roots (ImportFrom level (Some m)) = (if level = 0 \<and> m \<noteq> [] then [module_root m] else [])"
| "node_roots (ImportFrom level None) = []"
| "node_roots OtherNode = []"

definition suffixed :: "string \<Rightarrow> string \<Rightarrow> bool" where
  "suffixed e s = prefixed (rev e) (rev s)"

text \<open>\<open>sorted(root.rglob("*.py"))\<close>\<close>

definition below :: "path \<Rightarrow> path \<Rightarrow> bool" where
  "below root p \<longleftrightarrow> length root < length p \<and> take (length root) p = root"

definition python_files :: "path \<Rightarrow> project \<Rightarrow> project" where
  "python_files root project = sort_key fst (filter (\<lambda>(p, _). below root p \<and> suffixed ''.py'' (path_name p)) project)"

definition path_exists :: "path \<Rightarrow> project \<Rightarrow> bool" where
  "path_exists p project = list_ex (\<lambda>(q, _). q = p \<or> below p q) project"

definition imported_roots :: "(string \<Rightarrow> import_node list res) \<Rightarrow> project \<Rightarrow> string list res" where
  "imported_roots parse sources = res_bind (map_res (\<lambda>(_, text). parse text) sources) (\<lambda>trees.
     Inr (concat (map node_roots (concat trees))))"

definition scan_python_imports :: "(string \<Rightarrow> import_node list res) \<Rightarrow> string list \<Rightarrow> path \<Rightarrow> string list \<Rightarrow> project \<Rightarrow>
    dependency_inventory res" where
  "scan_python_imports parse stdlib root internal project =
     res_bind (raise_if (\<not> path_exists root project) (FileNotFoundError (join ''/'' root))) (\<lambda>_.
     res_bind (imported_roots parse (python_files root project)) (\<lambda>imported.
     Inr \<lparr>iv_standard_library = sorted_set (filter (\<lambda>m. m \<in> set stdlib) imported),
       iv_internal = sorted_set (filter (\<lambda>m. m \<in> set internal) imported),
       iv_external = sorted_set (filter (\<lambda>m. m \<notin> set stdlib \<and> m \<notin> set internal) imported)\<rparr>))"

definition verify_declared :: "dependency_inventory \<Rightarrow> string list \<Rightarrow> unit res" where
  "verify_declared inventory declared =
     (let undeclared = sorted_set (filter (\<lambda>m. m \<notin> set declared) (iv_external inventory));
       unused = sorted_set (filter (\<lambda>m. m \<notin> set (iv_external inventory)) declared) in
     checks [
       raise_if (undeclared \<noteq> []) (RuntimeError (''undeclared_python_dependencies:'' @ join '','' undeclared)),
       raise_if (unused \<noteq> []) (RuntimeError (''declared_dependency_not_imported:'' @ join '','' unused))])"

section \<open>Workflow actions\<close>

record action_pin =
  wa_action :: string
  wa_sha :: string

text \<open>\<open>str.splitlines\<close>\<close>

definition line_break :: "char \<Rightarrow> bool" where
  "line_break c = (let n = (of_char c :: nat) in 10 \<le> n \<and> n \<le> 13 \<or> 28 \<le> n \<and> n \<le> 30 \<or> n = 133)"

fun lines_from :: "string \<Rightarrow> string \<Rightarrow> string list" where
  "lines_from cur [] = (if cur = [] then [] else [rev cur])"
| "lines_from cur (c # s) = (if \<not> line_break c then lines_from (c # cur) s
     else rev cur # (case s of [] \<Rightarrow> []
       | d # r \<Rightarrow> if c = CHR 0x0D \<and> d = CHR 0x0A then lines_from [] r else lines_from [] (d # r)))"

definition splitlines :: "string \<Rightarrow> string list" where
  "splitlines s = lines_from [] s"

text \<open>The regular expression \<open>USES_LINE\<close>: the value of a \<open>uses:\<close> line, up to white space or a comment.\<close>

definition uses_value :: "string \<Rightarrow> string option" where
  "uses_value line = (let s = dropWhile is_space line;
       t = (case s of c # r \<Rightarrow> if c = CHR ''-'' then dropWhile is_space r else s | [] \<Rightarrow> []);
       v = takeWhile (\<lambda>c. \<not> is_space c \<and> c \<noteq> CHR ''#'') (dropWhile is_space (drop 5 t))
     in if prefixed ''uses:'' t \<and> v \<noteq> [] then Some v else None)"

definition name_char :: "char \<Rightarrow> bool" where
  "name_char c = (let n = (of_char c :: nat) in 65 \<le> n \<and> n \<le> 90 \<or> 97 \<le> n \<and> n \<le> 122 \<or> is_digit c \<or>
     c \<in> {CHR ''_'', CHR ''.'', CHR ''-''})"

definition hex_char :: "char \<Rightarrow> bool" where
  "hex_char c = (let n = (of_char c :: nat) in is_digit c \<or> 97 \<le> n \<and> n \<le> 102)"

definition name_ok :: "string \<Rightarrow> bool" where
  "name_ok s \<longleftrightarrow> s \<noteq> [] \<and> list_all name_char s"

text \<open>The regular expression \<open>ACTION_REF\<close>: owner/name at a full commit digest.\<close>

definition pinned_ref :: "string \<Rightarrow> action_pin option" where
  "pinned_ref v = (let action = takeWhile (\<lambda>c. c \<noteq> CHR ''@'') v; digest = drop (length action + 1) v;
       owner = takeWhile (\<lambda>c. c \<noteq> CHR ''/'') action; name = drop (length owner + 1) action
     in if action @ ''@'' @ digest = v \<and> owner @ ''/'' @ name = action \<and> name_ok owner \<and> name_ok name \<and>
          length digest = 40 \<and> list_all hex_char digest
       then Some \<lparr>wa_action = action, wa_sha = digest\<rparr> else None)"

fun pins_of :: "string list \<Rightarrow> action_pin list res" where
  "pins_of [] = Inr []"
| "pins_of (l # ls) = (case uses_value l of
       None \<Rightarrow> pins_of ls
     | Some v \<Rightarrow> if prefixed ''./'' v then pins_of ls
         else res_bind (fetch (RuntimeError (''workflow_action_not_sha_pinned:'' @ v)) (pinned_ref v)) (\<lambda>pin.
           res_bind (pins_of ls) (\<lambda>pins. Inr (pin # pins))))"

definition scan_workflow_action_pins :: "path \<Rightarrow> project \<Rightarrow> action_pin list res" where
  "scan_workflow_action_pins p project = res_bind (read_file p (map_of project)) (\<lambda>text. pins_of (splitlines text))"

section \<open>The bill of materials\<close>

definition pin_json :: "action_pin \<Rightarrow> json" where
  "pin_json a = JObj [(''action'', JStr (wa_action a)), (''sha'', JStr (wa_sha a))]"

definition sbom_payload :: "dependency_inventory \<Rightarrow> action_pin list \<Rightarrow> (string \<times> json) list" where
  "sbom_payload inventory actions = [(''format'', JStr ''AI_FACTORY_SBOM_V1''),
     (''python'', JObj [(''external_dependencies'', JStrs (iv_external inventory)),
       (''standard_library_imports'', JStrs (iv_standard_library inventory)), (''internal_roots'', JStrs (iv_internal inventory))]),
     (''github_actions'', JList (map pin_json actions))]"

definition workflow_path :: "path \<Rightarrow> path" where
  "workflow_path root = root @ [''.github'', ''workflows'', ''test.yml'']"

definition build_sbom :: "(string \<Rightarrow> string) \<Rightarrow> (string \<Rightarrow> import_node list res) \<Rightarrow> string list \<Rightarrow> path \<Rightarrow> string list \<Rightarrow> project \<Rightarrow>
    (string \<times> json) list res" where
  "build_sbom sha parse stdlib root declared project =
     res_bind (scan_python_imports parse stdlib (root @ [''factory'']) [''factory''] project) (\<lambda>inventory.
     res_bind (verify_declared inventory declared) (\<lambda>_.
     res_bind (scan_workflow_action_pins (workflow_path root) project) (\<lambda>actions.
     let payload = sbom_payload inventory actions in
     Inr (AList.update ''fingerprint'' (JStr (sha (json_dumps (JObj payload)))) payload))))"

definition verify_sbom_fingerprint :: "(string \<Rightarrow> string) \<Rightarrow> (string \<times> json) list \<Rightarrow> unit res" where
  "verify_sbom_fingerprint sha sbom = (case map_of sbom ''fingerprint'' of
       Some (JStr supplied) \<Rightarrow>
         raise_if (sha (json_dumps (JObj (AList.delete ''fingerprint'' sbom))) \<noteq> supplied) (ValueError ''sbom fingerprint mismatch'')
     | _ \<Rightarrow> Inl (ValueError ''sbom fingerprint missing''))"

section \<open>What an accepted inventory says\<close>

lemma pinned_ref_Some:
  "pinned_ref v = Some pin \<Longrightarrow> v = wa_action pin @ ''@'' @ wa_sha pin \<and> length (wa_sha pin) = 40 \<and> list_all hex_char (wa_sha pin)"
  by (auto simp: pinned_ref_def Let_def split: if_splits)

lemma pins_of_Inr:
  assumes "pins_of ls = Inr pins" "l \<in> set ls" "uses_value l = Some v" "\<not> prefixed ''./'' v"
  shows "\<exists>pin \<in> set pins. pinned_ref v = Some pin"
  using assms by (induction ls arbitrary: pins) (auto split: option.splits if_splits)

lemma sbom_fingerprint_ok:
  "build_sbom sha parse stdlib root declared project = Inr sbom \<Longrightarrow> verify_sbom_fingerprint sha sbom = Inr ()"
  by (auto simp: build_sbom_def Let_def verify_sbom_fingerprint_def sbom_payload_def update_new)

lemma verify_declared_Inr: "verify_declared inventory declared = Inr () \<longleftrightarrow> set (iv_external inventory) = set declared"
  by (auto simp: verify_declared_def Let_def filter_empty_conv)

lemma imported_roots_Inr:
  assumes "imported_roots parse sources = Inr ms" "(p, text) \<in> set sources" "parse text = Inr nodes" "n \<in> set nodes"
  shows "set (node_roots n) \<subseteq> set ms"
proof -
  from assms(1) obtain trees where t: "map_res (\<lambda>(_, text). parse text) sources = Inr trees"
    "ms = concat (map node_roots (concat trees))" by (auto simp: imported_roots_def)
  from t(1) have "list_all2 (\<lambda>s tree. parse (snd s) = Inr tree) sources trees"
    unfolding map_res_eq_Inr by (simp add: case_prod_beta')
  then have "nodes \<in> set trees" using assms(2,3)
    by (induction rule: list_all2_induct) auto
  with assms(4) t(2) show ?thesis by auto
qed

section \<open>The lines and actions of a workflow\<close>

text \<open>The specification of what is scanned: a line is a stretch between line breaks, and a line uses an action when it
  is \<open>uses: v\<close>, possibly as a list item, up to white space or a comment.\<close>

definition line_breaks :: string where
  "line_breaks = [CHR 0x0A, CHR 0x0B, CHR 0x0C, CHR 0x0D, CHR 0x1C, CHR 0x1D, CHR 0x1E, CHR 0x85]"

definition is_line :: "string \<Rightarrow> string \<Rightarrow> bool" where
  "is_line text l \<longleftrightarrow> (\<exists>pre post. text = pre @ l @ post \<and> set l \<inter> set line_breaks = {} \<and>
     (pre = [] \<or> last pre \<in> set line_breaks) \<and> (post = [] \<or> hd post \<in> set line_breaks))"

definition uses_line :: "string \<Rightarrow> string \<Rightarrow> bool" where
  "uses_line line v \<longleftrightarrow> (\<exists>indent dash gap rest. line = indent @ dash @ ''uses:'' @ gap @ v @ rest \<and>
     list_all is_space indent \<and> (dash = [] \<or> (\<exists>w. dash = ''-'' @ w \<and> list_all is_space w)) \<and> list_all is_space gap \<and>
     v \<noteq> [] \<and> list_all (\<lambda>c. \<not> is_space c \<and> c \<noteq> CHR ''#'') v \<and> (rest = [] \<or> is_space (hd rest) \<or> hd rest = CHR ''#''))"

lemma line_break_iff: "line_break c \<longleftrightarrow> c \<in> set line_breaks"
proof -
  have e: "c = d \<longleftrightarrow> (of_char c :: nat) = of_char d" for d by simp
  show ?thesis unfolding line_breaks_def list.set insert_iff empty_iff e line_break_def Let_def
    by simp arith
qed

lemma line_from_break:
  assumes "rev cur @ c # s = pre @ l @ post" "line_break c" "\<not> list_ex line_break cur" "set l \<inter> set line_breaks = {}"
    and "pre = [] \<or> last pre \<in> set line_breaks" "post = [] \<or> hd post \<in> set line_breaks"
  shows "l = rev cur \<or> (\<exists>pre'. s = pre' @ l @ post \<and> (pre' = [] \<or> last pre' \<in> set line_breaks))"
proof (cases "pre = []")
  case True
  have l: "list_all (\<lambda>x. \<not> line_break x) l" using assms(4) by (auto simp: list_all_iff line_break_iff)
  have "takeWhile (\<lambda>x. \<not> line_break x) (rev cur @ c # s) = rev cur"
    using assms(2,3) by (subst takeWhile_append2) (auto simp: list_ex_iff)
  moreover have "takeWhile (\<lambda>x. \<not> line_break x) (l @ post) = l"
    using l assms(6) by (cases post) (auto simp: takeWhile_append2 list_all_iff line_break_iff)
  ultimately show ?thesis using assms(1) True by simp
next
  case False
  then obtain p x where p: "pre = p @ [x]" by (cases pre rule: rev_exhaust) auto
  with False assms(5) have x: "line_break x" by (simp add: line_break_iff)
  from assms(1) p consider us where "rev cur @ us = p" "c # s = us @ x # l @ post"
    | us where "rev cur = p @ us" "us @ c # s = x # l @ post"
    by (auto simp: append_eq_append_conv2)
  then show ?thesis
  proof cases
    case 1
    with p x show ?thesis by (cases us) (auto simp: line_break_iff)
  next
    case 2
    show ?thesis
    proof (cases us)
      case Nil
      with 2 show ?thesis by auto
    next
      case (Cons y ys)
      with 2 have "x \<in> set (rev cur)" by simp
      with x assms(3) show ?thesis by (auto simp: list_ex_iff)
    qed
  qed
qed

lemma lines_from_complete:
  "is_line (rev cur @ s) l \<Longrightarrow> l \<noteq> [] \<Longrightarrow> \<not> list_ex line_break cur \<Longrightarrow> l \<in> set (lines_from cur s)"
proof (induction cur s rule: lines_from.induct)
  case (1 cur)
  from "1.prems" obtain pre post where p: "rev cur = pre @ l @ post" "pre = [] \<or> last pre \<in> set line_breaks"
    "post = [] \<or> hd post \<in> set line_breaks" by (auto simp: is_line_def)
  have no: "x \<notin> set line_breaks" if "x \<in> set pre \<union> set post" for x
  proof -
    have "x \<in> set (rev cur)" using that p(1) by auto
    with "1.prems"(3) show ?thesis by (auto simp: list_ex_iff line_break_iff)
  qed
  have "pre = []" using p(2) no [of "last pre"] by (cases "pre = []") auto
  moreover have "post = []" using p(3) no by (cases post) auto
  ultimately show ?case using p(1) "1.prems"(2) by auto
next
  case (2 cur c s)
  show ?case
  proof (cases "line_break c")
    case False
    with 2 show ?thesis by simp
  next
    case True
    from "2.prems" obtain pre post where p: "rev cur @ c # s = pre @ l @ post" "set l \<inter> set line_breaks = {}"
      "pre = [] \<or> last pre \<in> set line_breaks" "post = [] \<or> hd post \<in> set line_breaks" by (auto simp: is_line_def)
    from line_from_break [OF p(1) True "2.prems"(3) p(2-4)]
    show ?thesis
    proof
      assume "l = rev cur"
      with True show ?thesis by simp
    next
      assume "\<exists>pre'. s = pre' @ l @ post \<and> (pre' = [] \<or> last pre' \<in> set line_breaks)"
      then obtain pre' where s: "s = pre' @ l @ post" "pre' = [] \<or> last pre' \<in> set line_breaks" by blast
      then have "s \<noteq> []" using "2.prems"(2) by simp
      then obtain d r where dr: "s = d # r" by (meson neq_Nil_conv)
      show ?thesis
      proof (cases "c = CHR 0x0D \<and> d = CHR 0x0A")
        case False
        have "is_line (rev [] @ d # r) l" using s p(2,4) dr by (auto simp: is_line_def)
        with "2.IH"(3) [of d r] True False dr "2.prems"(2) show ?thesis by auto
      next
        case crlf: True
        have "pre' \<noteq> []" using s(1) dr crlf p(2) "2.prems"(2) by (cases l) (auto simp: line_breaks_def)
        then obtain pre'' where "pre' = d # pre''" using s(1) dr by (cases pre') auto
        with s dr have "is_line (rev [] @ r) l" using p(2,4) unfolding is_line_def by (auto split: if_splits)
        with "2.IH"(2) [of d r] True crlf dr "2.prems"(2) show ?thesis by auto
      qed
    qed
  qed
qed

lemma splitlines_complete: "is_line s l \<Longrightarrow> l \<noteq> [] \<Longrightarrow> l \<in> set (splitlines s)"
  using lines_from_complete [of "[]" s l] by (simp add: splitlines_def)

lemma dropWhile_spaces: "list_all is_space w \<Longrightarrow> dropWhile is_space (w @ s) = dropWhile is_space s"
  by (induction w) auto

lemma uses_line_value:
  assumes "uses_line line v" shows "uses_value line = Some v"
proof -
  from assms obtain indent dash gap rest where l: "line = indent @ dash @ ''uses:'' @ gap @ v @ rest"
    "list_all is_space indent" "dash = [] \<or> (\<exists>w. dash = ''-'' @ w \<and> list_all is_space w)" "list_all is_space gap"
    "v \<noteq> []" "list_all (\<lambda>c. \<not> is_space c \<and> c \<noteq> CHR ''#'') v" "rest = [] \<or> is_space (hd rest) \<or> hd rest = CHR ''#''"
    unfolding uses_line_def by blast
  let ?t = "''uses:'' @ gap @ v @ rest"
  have "\<not> is_space CHR ''u''" "\<not> is_space CHR ''-''" by (simp_all add: is_space_def)
  then have "(case dropWhile is_space line of c # r \<Rightarrow> if c = CHR ''-'' then dropWhile is_space r else dropWhile is_space line
      | [] \<Rightarrow> []) = ?t"
    using l(1,2,3) by (auto simp: dropWhile_spaces)
  moreover have "prefixed ''uses:'' ?t" by (auto simp: prefixed_iff)
  moreover have "dropWhile is_space (drop 5 ?t) = v @ rest"
    using l(4,5,6) by (cases v) (simp_all add: dropWhile_spaces)
  moreover have "takeWhile (\<lambda>c. \<not> is_space c \<and> c \<noteq> CHR ''#'') (v @ rest) = v"
    using l(6,7) by (cases rest) (auto simp: takeWhile_append2 list_all_iff)
  ultimately show ?thesis using l(5) by (simp add: uses_value_def Let_def)
qed

lemma hex_char_digits: "hex_char c \<Longrightarrow> c \<in> set ''0123456789abcdef''"
proof -
  have e: "c = d \<longleftrightarrow> (of_char c :: nat) = of_char d" for d by simp
  show "hex_char c \<Longrightarrow> c \<in> set ''0123456789abcdef''"
    unfolding list.set insert_iff empty_iff e hex_char_def is_digit_def Let_def by simp arith
qed

lemma workflow_pinned:
  assumes "pins_of (splitlines workflow) = Inr pins" "is_line workflow line" "uses_line line v" "\<not> prefixed ''./'' v"
  shows "\<exists>p \<in> set pins. v = wa_action p @ ''@'' @ wa_sha p \<and> length (wa_sha p) = 40 \<and> set (wa_sha p) \<subseteq> set ''0123456789abcdef''"
proof -
  from assms(3) have "line \<noteq> []" by (auto simp: uses_line_def)
  from splitlines_complete [OF assms(2) this] pins_of_Inr [OF assms(1) _ uses_line_value [OF assms(3)] assms(4)]
  obtain p where p: "p \<in> set pins" "pinned_ref v = Some p" by blast
  from pinned_ref_Some [OF p(2)] have "v = wa_action p @ ''@'' @ wa_sha p" "length (wa_sha p) = 40"
    "set (wa_sha p) \<subseteq> set ''0123456789abcdef''"
    using hex_char_digits by (auto simp only: list_all_iff subset_iff)
  with p(1) show ?thesis by blast
qed

text \<open>The modules that a file imports absolutely.\<close>

definition imports_module :: "(string \<Rightarrow> import_node list res) \<Rightarrow> string \<Rightarrow> string \<Rightarrow> bool" where
  "imports_module parse source m \<longleftrightarrow> (\<exists>nodes. parse source = Inr nodes \<and>
     ((\<exists>names. Import names \<in> set nodes \<and> m \<in> set names) \<or> ImportFrom 0 (Some m) \<in> set nodes \<and> m \<noteq> []))"

lemma python_file_found:
  assumes "(root @ d # ds @ [f @ ''.py''], source) \<in> set project"
  shows "(root @ d # ds @ [f @ ''.py''], source) \<in> set (python_files (root @ [d]) project)"
proof -
  have "below (root @ [d]) (root @ d # ds @ [f @ ''.py''])" by (simp add: below_def)
  moreover have "suffixed ''.py'' (path_name (root @ d # ds @ [f @ ''.py'']))"
    by (simp add: suffixed_def prefixed_def path_name_def)
  ultimately show ?thesis using assms by (simp add: python_files_def)
qed

lemma imported_module_root:
  assumes "imported_roots parse (python_files (root @ [''factory'']) project) = Inr imported"
    and "(root @ ''factory'' # ds @ [f @ ''.py''], source) \<in> set project" "imports_module parse source m"
  shows "\<exists>r rest. m = r @ rest \<and> CHR ''.'' \<notin> set r \<and> (rest = [] \<or> hd rest = CHR ''.'') \<and> r \<in> set imported"
proof -
  from assms(3) obtain nodes where nodes: "parse source = Inr nodes"
    "(\<exists>names. Import names \<in> set nodes \<and> m \<in> set names) \<or> ImportFrom 0 (Some m) \<in> set nodes \<and> m \<noteq> []"
    unfolding imports_module_def by blast
  note found = imported_roots_Inr [OF assms(1) python_file_found [OF assms(2)] nodes(1)]
  from nodes(2) have "module_root m \<in> set imported"
  proof (elim disjE exE conjE)
    fix names
    assume n: "Import names \<in> set nodes" "m \<in> set names"
    from found [OF n(1)] n(2) show ?thesis by auto
  next
    assume "ImportFrom 0 (Some m) \<in> set nodes" "m \<noteq> []"
    from found [OF this(1)] this(2) show ?thesis by simp
  qed
  moreover have "m = module_root m @ dropWhile (\<lambda>c. c \<noteq> CHR ''.'') m" by (simp add: module_root_def)
  moreover have "CHR ''.'' \<notin> set (module_root m)" by (auto simp: module_root_def dest: set_takeWhileD)
  moreover have "dropWhile (\<lambda>c. c \<noteq> CHR ''.'') m = [] \<or> hd (dropWhile (\<lambda>c. c \<noteq> CHR ''.'') m) = CHR ''.''"
    using hd_dropWhile [of "\<lambda>c. c \<noteq> CHR ''.''" m] by auto
  ultimately show ?thesis by blast
qed

text \<open>A signed inventory cannot be changed without breaking its fingerprint or the digest.\<close>

lemma sbom_tamper_evident:
  assumes "verify_sbom_fingerprint sha a = Inr ()" "verify_sbom_fingerprint sha b = Inr ()"
    and "map_of a ''fingerprint'' = map_of b ''fingerprint''"
  shows "json_norm (JObj (AList.delete ''fingerprint'' a)) = json_norm (JObj (AList.delete ''fingerprint'' b)) \<or>
     (\<exists>s t. s \<noteq> t \<and> sha s = sha t)"
  using assms json_dumps_eq_iff [of "JObj (AList.delete ''fingerprint'' a)" "JObj (AList.delete ''fingerprint'' b)"]
  by (auto simp: verify_sbom_fingerprint_def split: option.splits json.splits) metis+

text \<open>C40. A bill of materials that is built carries the digest of its canonical text, which its verification accepts. It
  lists, pinned to a full commit digest, the action of every line of the workflow of the form \<open>uses: v\<close> that is not
  local, and exactly the declared external modules; every module that a Python file below the factory imports
  is of the standard library, internal, or declared.\<close>

theorem sbom_is_complete:
  assumes "build_sbom sha parse stdlib root declared project = Inr sbom"
  shows "map_of sbom ''fingerprint'' = Some (JStr (sha (json_dumps (JObj (AList.delete ''fingerprint'' sbom))))) \<and>
     verify_sbom_fingerprint sha sbom = Inr () \<and>
     (\<exists>pins workflow. map_of project (root @ [''.github'', ''workflows'', ''test.yml'']) = Some workflow \<and>
        map_of sbom ''github_actions'' =
          Some (JList (map (\<lambda>(a, d). JObj [(''action'', JStr a), (''sha'', JStr d)]) pins)) \<and>
        (\<forall>line v. is_line workflow line \<longrightarrow> uses_line line v \<longrightarrow> \<not> prefixed ''./'' v \<longrightarrow>
           (\<exists>(a, d) \<in> set pins. v = a @ ''@'' @ d \<and> length d = 40 \<and> set d \<subseteq> set ''0123456789abcdef''))) \<and>
     (\<exists>kvs externals. map_of sbom ''python'' = Some (JObj kvs) \<and>
        map_of kvs ''external_dependencies'' = Some (JStrs externals) \<and> set externals = set declared) \<and>
     (\<forall>ds f source m. (root @ ''factory'' # ds @ [f @ ''.py''], source) \<in> set project \<longrightarrow> imports_module parse source m \<longrightarrow>
        (\<exists>r rest. m = r @ rest \<and> CHR ''.'' \<notin> set r \<and> (rest = [] \<or> hd rest = CHR ''.'') \<and>
           r \<in> set stdlib \<union> {''factory''} \<union> set declared))"
proof -
  from assms obtain inventory pins workflow imported where
    scan: "scan_python_imports parse stdlib (root @ [''factory'']) [''factory''] project = Inr inventory"
      "imported_roots parse (python_files (root @ [''factory'']) project) = Inr imported" and
    declared: "verify_declared inventory declared = Inr ()" and
    flow: "map_of project (workflow_path root) = Some workflow" "pins_of (splitlines workflow) = Inr pins" and
    sbom: "sbom = AList.update ''fingerprint'' (JStr (sha (json_dumps (JObj (sbom_payload inventory pins))))) (sbom_payload inventory pins)"
    unfolding build_sbom_def scan_workflow_action_pins_def read_file_def Let_def
    by (fastforce simp: scan_python_imports_def)
  have external: "set (iv_external inventory) = set declared" using declared by (simp add: verify_declared_Inr)
  have "iv_external inventory = sorted_set (filter (\<lambda>m. m \<notin> set stdlib \<and> m \<notin> {''factory''}) imported)"
    using scan by (auto simp: scan_python_imports_def)
  then have roots: "set imported \<subseteq> set stdlib \<union> {''factory''} \<union> set declared"
    unfolding external [symmetric] by auto
  let ?pins = "map (\<lambda>p. (wa_action p, wa_sha p)) pins"
  have payload: "AList.delete ''fingerprint'' sbom = sbom_payload inventory pins"
    unfolding sbom by (simp add: sbom_payload_def update_new)
  have fields: "map_of sbom ''fingerprint'' = Some (JStr (sha (json_dumps (JObj (AList.delete ''fingerprint'' sbom)))))"
    "map_of sbom ''github_actions'' = Some (JList (map (\<lambda>(a, d). JObj [(''action'', JStr a), (''sha'', JStr d)]) ?pins))"
    "\<exists>kvs. map_of sbom ''python'' = Some (JObj kvs) \<and> map_of kvs ''external_dependencies'' = Some (JStrs (iv_external inventory))"
    unfolding payload unfolding sbom by (simp_all add: sbom_payload_def update_new comp_def pin_json_def)
  have pinned: "\<exists>(a, d) \<in> set ?pins. v = a @ ''@'' @ d \<and> length d = 40 \<and> set d \<subseteq> set ''0123456789abcdef''"
    if "is_line workflow line" "uses_line line v" "\<not> prefixed ''./'' v" for line v
    using workflow_pinned [OF flow(2) that] by force
  have modules: "\<exists>r rest. m = r @ rest \<and> CHR ''.'' \<notin> set r \<and> (rest = [] \<or> hd rest = CHR ''.'') \<and>
      r \<in> set stdlib \<union> {''factory''} \<union> set declared"
    if "(root @ ''factory'' # ds @ [f @ ''.py''], source) \<in> set project" "imports_module parse source m" for ds f source m
    using imported_module_root [OF scan(2) that] roots by blast
  have "map_of project (root @ [''.github'', ''workflows'', ''test.yml'']) = Some workflow"
    using flow(1) by (simp add: workflow_path_def)
  with fields(2) pinned have "\<exists>pins workflow. map_of project (root @ [''.github'', ''workflows'', ''test.yml'']) = Some workflow \<and>
        map_of sbom ''github_actions'' =
          Some (JList (map (\<lambda>(a, d). JObj [(''action'', JStr a), (''sha'', JStr d)]) pins)) \<and>
        (\<forall>line v. is_line workflow line \<longrightarrow> uses_line line v \<longrightarrow> \<not> prefixed ''./'' v \<longrightarrow>
           (\<exists>(a, d) \<in> set pins. v = a @ ''@'' @ d \<and> length d = 40 \<and> set d \<subseteq> set ''0123456789abcdef''))" by blast
  with fields(1,3) external modules sbom_fingerprint_ok [OF assms] show ?thesis by blast
qed

definition example_workflow :: string where
  "example_workflow = ''  - uses: a/b@'' @ replicate 40 (CHR ''0'') @ [CHR 0x0A] @ ''- uses: ./local''"

definition example_project :: project where
  "example_project = [([''factory'', ''a.py''], ''import json''), ([''.github'', ''workflows'', ''test.yml''], example_workflow)]"

definition example_parse :: "string \<Rightarrow> import_node list res" where
  "example_parse text = Inr [Import [''json'']]"

lemma example_sbom: "is_ok (build_sbom (\<lambda>s. ''d'') example_parse [''json''] [] [] example_project)"
  by code_simp

lemma example_line:
  "is_line example_workflow (''  - uses: a/b@'' @ replicate 40 (CHR ''0''))"
  "uses_line (''  - uses: a/b@'' @ replicate 40 (CHR ''0'')) (''a/b@'' @ replicate 40 (CHR ''0''))"
proof -
  show "is_line example_workflow (''  - uses: a/b@'' @ replicate 40 (CHR ''0''))"
    unfolding is_line_def example_workflow_def
    by (intro exI [of _ "[]"] exI [of _ "[CHR 0x0A] @ ''- uses: ./local''"]) (auto simp: line_breaks_def)
  show "uses_line (''  - uses: a/b@'' @ replicate 40 (CHR ''0'')) (''a/b@'' @ replicate 40 (CHR ''0''))"
    unfolding uses_line_def
    by (rule exI [of _ "''  ''"], rule exI [of _ "''- ''"], rule exI [of _ "'' ''"], rule exI [of _ "[]"])
      (simp add: is_space_def list_all_iff)
qed

theorem sbom_is_complete_witness:
  "\<exists>sbom pins. build_sbom (\<lambda>s. ''d'') example_parse [''json''] [] [] example_project = Inr sbom \<and>
     map_of sbom ''github_actions'' = Some (JList (map (\<lambda>(a, d). JObj [(''action'', JStr a), (''sha'', JStr d)]) pins)) \<and>
     (\<exists>(a, d) \<in> set pins. ''a/b@'' @ replicate 40 (CHR ''0'') = a @ ''@'' @ d)"
proof -
  obtain sbom where sbom: "build_sbom (\<lambda>s. ''d'') example_parse [''json''] [] [] example_project = Inr sbom"
    using example_sbom by (auto simp: is_ok_iff)
  note all = sbom_is_complete [OF sbom]
  then obtain pins where pins: "map_of example_project ([] @ [''.github'', ''workflows'', ''test.yml'']) = Some example_workflow"
    "map_of sbom ''github_actions'' = Some (JList (map (\<lambda>(a, d). JObj [(''action'', JStr a), (''sha'', JStr d)]) pins))"
    and each: "\<And>line v. is_line example_workflow line \<Longrightarrow> uses_line line v \<Longrightarrow> \<not> prefixed ''./'' v \<Longrightarrow>
       \<exists>(a, d) \<in> set pins. v = a @ ''@'' @ d \<and> length d = 40 \<and> set d \<subseteq> set ''0123456789abcdef''"
    by (auto simp: example_project_def)
  have "\<not> prefixed ''./'' (''a/b@'' @ replicate 40 (CHR ''0''))" by (simp add: prefixed_def)
  from each [OF example_line this] sbom pins(2) show ?thesis by fast
qed

text \<open>The scan reads lines: an action in the flow style of YAML is not seen, and a bill of materials is built for a
  workflow that uses it at a branch.\<close>

definition flow_style_project :: project where
  "flow_style_project = [([''factory'', ''a.py''], ''import json''),
     ([''.github'', ''workflows'', ''test.yml''], ''  - {uses: a/b@main}'')]"

theorem flow_style_action_escapes:
  "map_sum id (\<lambda>sbom. map_of sbom ''github_actions'')
     (build_sbom (\<lambda>s. ''d'') example_parse [''json''] [] [] flow_style_project) = Inr (Some (JList []))"
  by code_simp

end
