(* ===== verification/Localization.thy ===== *)
theory Localization
  imports Presentation
begin

text \<open>
  The market adapter (src/missions/real_estate/localization.py): texts, numbers, amounts and times of a
  listing for the locales fa-IR and en-US. A localized text is a list of Unicode code points; the texts of
  the listing itself are below 256 and embedded by \<open>uni\<close>. The time zone data are a parameter: \<open>zones\<close> is
  \<open>ZoneInfo\<close>, which raises \<open>KeyError\<close> for an unknown key (\<open>ZoneInfoNotFoundError\<close>).
\<close>

section \<open>Locales\<close>

type_synonym ustring = "nat list"

definition uni :: "string \<Rightarrow> ustring" where
  "uni s = map of_char s"

datatype text_direction = LTR | RTL

record locale_context =
  lc_locale :: string
  lc_language :: string
  lc_numbering_system :: string
  lc_direction :: text_direction
  lc_timezone :: string
  lc_currency_code :: string

record zone =
  zn_offset :: "int \<Rightarrow> int"
  zn_name :: "int \<Rightarrow> string"

definition supported_currencies :: "string list" where
  "supported_currencies = [''IRR'', ''EUR'', ''USD'']"

definition zone_info :: "(string \<Rightarrow> zone res) \<Rightarrow> string \<Rightarrow> zone res" where
  "zone_info zones tz = (case zones tz of Inl (KeyError _) \<Rightarrow> Inl (ValueError (''unknown timezone: '' @ tz)) | r \<Rightarrow> r)"

definition locale_validate :: "(string \<Rightarrow> zone res) \<Rightarrow> locale_context \<Rightarrow> unit res" where
  "locale_validate zones c =
     res_bind (checks [
       raise_if (lc_locale c \<notin> {''fa-IR'', ''en-US''}) (ValueError (''unsupported locale: '' @ lc_locale c)),
       raise_if ((lc_language c, lc_numbering_system c, lc_direction c) \<noteq>
           (if lc_locale c = ''fa-IR'' then (''fa'', ''arabext'', RTL) else (''en'', ''latn'', LTR)))
         (ValueError ''locale profile fields are inconsistent''),
       raise_if (lc_currency_code c \<notin> set supported_currencies) (ValueError ''currency_code must be explicit and supported'')]) (\<lambda>_.
     res_bind (zone_info zones (lc_timezone c)) (\<lambda>_. Inr ()))"

record market_adapter =
  ma_context :: locale_context
  ma_zone :: zone

definition new_adapter :: "(string \<Rightarrow> zone res) \<Rightarrow> locale_context \<Rightarrow> market_adapter res" where
  "new_adapter zones c = res_bind (locale_validate zones c) (\<lambda>_.
     res_bind (zones (lc_timezone c)) (\<lambda>z. Inr \<lparr>ma_context = c, ma_zone = z\<rparr>))"

section \<open>Messages\<close>

definition messages_fa :: "(string \<times> ustring) list" where
  "messages_fa = [
     (''LISTING_STALE'', [1575, 1740, 1606, 32, 1570, 1711, 1607, 1740, 32, 1606, 1740, 1575, 1586, 32, 1576, 1607, 32, 1576, 1585, 1585, 1587, 1740,
     32, 1578, 1575, 1586, 1711, 1740, 32, 1583, 1575, 1585, 1583, 46]),
     (''DISCLOSURE_INCOMPLETE'', [1576, 1582, 1588, 1740, 32, 1575, 1586, 32, 1575, 1591, 1604, 1575, 1593, 1575, 1578, 32, 1570, 1711, 1607, 1740, 32, 1705,
     1575, 1605, 1604, 32, 1606, 1740, 1587, 1578, 46]),
     (''TRUST_REVIEW_PENDING'', [1575, 1591, 1604, 1575, 1593, 1575, 1578, 32, 1575, 1593, 1578, 1605, 1575, 1583, 32, 1575, 1740, 1606, 32, 1570, 1711, 1607,
     1740, 32, 1583, 1585, 32, 1581, 1575, 1604, 32, 1576, 1585, 1585, 1587, 1740, 32, 1575, 1587, 1578, 46]),
     (''TRUST_EVIDENCE_AVAILABLE'', [1576, 1585, 1575, 1740, 32, 1606, 1575, 1588, 1585, 32, 1588, 1608, 1575, 1607, 1583, 32, 1576, 1585, 1585, 1587, 1740, 8204,
     1588, 1583, 1607, 32, 1579, 1576, 1578, 32, 1588, 1583, 1607, 32, 1575, 1587, 1578, 46]),
     (''ALERT_NOT_EXTERNALLY_DELIVERED'', [1607, 1588, 1583, 1575, 1585, 32, 1601, 1602, 1591, 32, 1583, 1575, 1582, 1604, 32, 1587, 1740, 1587, 1578, 1605, 32, 1579,
     1576, 1578, 32, 1588, 1583, 1607, 32, 1608, 32, 1578, 1581, 1608, 1740, 1604, 32, 1582, 1575, 1585, 1580, 1740, 32, 1578,
     1571, 1740, 1740, 1583, 32, 1606, 1588, 1583, 1607, 32, 1575, 1587, 1578, 46]),
     (''ALERT_DELIVERY_UNVERIFIED'', [1608, 1590, 1593, 1740, 1578, 32, 1578, 1581, 1608, 1740, 1604, 32, 1582, 1575, 1585, 1580, 1740, 32, 1607, 1588, 1583, 1575,
     1585, 32, 1578, 1571, 1740, 1740, 1583, 32, 1606, 1588, 1583, 1607, 32, 1575, 1587, 1578, 46]),
     (''ANOMALY_REVIEW_REQUIRED'', [1575, 1740, 1606, 32, 1605, 1608, 1585, 1583, 32, 1576, 1585, 1575, 1740, 32, 1576, 1585, 1585, 1587, 1740, 32, 1575, 1606,
     1587, 1575, 1606, 1740, 32, 1593, 1604, 1575, 1605, 1578, 8204, 1711, 1584, 1575, 1585, 1740, 32, 1588, 1583, 1607, 32, 1575,
     1587, 1578, 46]),
     (''ANOMALY_EVIDENCE_STALE'', [1588, 1608, 1575, 1607, 1583, 32, 1575, 1740, 1606, 32, 1576, 1585, 1585, 1587, 1740, 32, 1606, 1587, 1576, 1578, 32, 1576,
     1607, 32, 1608, 1590, 1593, 1740, 1578, 32, 1601, 1593, 1604, 1740, 32, 1602, 1583, 1740, 1605, 1740, 32, 1588, 1583, 1607,
     32, 1575, 1587, 1578, 46])]"

definition messages_en :: "(string \<times> ustring) list" where
  "messages_en = [
     (''LISTING_STALE'', uni ''This listing needs a freshness review.''),
     (''DISCLOSURE_INCOMPLETE'', uni ''Some listing disclosures are incomplete.''),
     (''TRUST_REVIEW_PENDING'', uni ''Trust information for this listing is under review.''),
     (''TRUST_EVIDENCE_AVAILABLE'', uni ''Reviewed publisher trust evidence is available.''),
     (''ALERT_NOT_EXTERNALLY_DELIVERED'', uni ''The alert exists internally; external delivery is not confirmed.''),
     (''ALERT_DELIVERY_UNVERIFIED'', uni ''External alert delivery is unverified.''),
     (''ANOMALY_REVIEW_REQUIRED'', uni ''This item is flagged for human review.''),
     (''ANOMALY_EVIDENCE_STALE'', uni ''The review evidence is stale relative to current data.'')]"

record localized_message =
  lm_code :: string
  lm_text :: ustring
  lm_fallback_used :: bool

definition localize_message :: "market_adapter \<Rightarrow> string \<Rightarrow> localized_message" where
  "localize_message a code =
     (case map_of (if lc_locale (ma_context a) = ''fa-IR'' then messages_fa else messages_en) code of
       Some t \<Rightarrow> \<lparr>lm_code = code, lm_text = t, lm_fallback_used = False\<rparr>
     | None \<Rightarrow> \<lparr>lm_code = code, lm_text = uni (''['' @ code @ '']''), lm_fallback_used = True\<rparr>)"

section \<open>Numbers and amounts\<close>

text \<open>The format \<open>{n:,}\<close>: a comma between groups of three digits, counted from the right.\<close>

fun group_from_right :: "string \<Rightarrow> string" where
  "group_from_right (a # b # c # d # r) = a # b # c # CHR '','' # group_from_right (d # r)"
| "group_from_right r = r"

definition grouped_nat :: "nat \<Rightarrow> string" where
  "grouped_nat n = rev (group_from_right (rev (show_nat n)))"

definition grouped :: "int \<Rightarrow> string" where
  "grouped i = (if i < 0 then ''-'' else []) @ grouped_nat (nat \<bar>i\<bar>)"

text \<open>The format \<open>{x:,.kf}\<close>\<close>

definition grouped_fixed :: "nat \<Rightarrow> rat \<Rightarrow> string" where
  "grouped_fixed k x = (let n = nat (round_half_even (\<bar>x\<bar> * 10 ^ k)) in
     (if x < 0 then ''-'' else []) @ grouped_nat (n div 10 ^ k) @ (if k = 0 then [] else ''.'' @ padded k (n mod 10 ^ k)))"

text \<open>\<open>translate(_PERSIAN_DIGITS)\<close> and \<open>replace\<close> of one character\<close>

definition persian_digit :: "nat \<Rightarrow> nat" where
  "persian_digit c = (if 48 \<le> c \<and> c \<le> 57 then c + 1728 else c)"

definition replace_code :: "nat \<Rightarrow> nat \<Rightarrow> ustring \<Rightarrow> ustring" where
  "replace_code c d t = map (\<lambda>x. if x = c then d else x) t"

definition arabext :: "market_adapter \<Rightarrow> bool" where
  "arabext a \<longleftrightarrow> lc_numbering_system (ma_context a) = ''arabext''"

definition format_integer :: "market_adapter \<Rightarrow> int \<Rightarrow> ustring" where
  "format_integer a v = (if arabext a then replace_code 44 1644 (map persian_digit (uni (grouped v))) else uni (grouped v))"

definition format_decimal :: "market_adapter \<Rightarrow> rat \<Rightarrow> int \<Rightarrow> ustring res" where
  "format_decimal a v places = res_bind (raise_if (places < 0 \<or> 6 < places) (ValueError ''places must be between 0 and 6'')) (\<lambda>_.
     let rendered = uni (grouped_fixed (nat places) v) in
     Inr (if arabext a then replace_code 46 1643 (replace_code 44 1644 (map persian_digit rendered)) else rendered))"

definition currency_label :: "string \<Rightarrow> ustring" where
  "currency_label c = (if c = ''IRR'' then [1585, 1740, 1575, 1604] else if c = ''EUR'' then [1740, 1608, 1585, 1608]
     else [1583, 1604, 1575, 1585, 32, 1570, 1605, 1585, 1740, 1705, 1575])"

definition format_amount :: "market_adapter \<Rightarrow> int \<Rightarrow> string \<Rightarrow> ustring res" where
  "format_amount a minor currency = res_bind (checks [
       raise_if (minor < 0) (ValueError ''amount cannot be negative''),
       raise_if (currency \<notin> set supported_currencies) (ValueError ''currency_code must be explicit and supported''),
       raise_if (currency \<noteq> lc_currency_code (ma_context a))
         (ValueError ''currency conversion is not a localization concern; canonical and display currency must match'')]) (\<lambda>_.
     let number = format_integer a minor in
     Inr (if lc_locale (ma_context a) = ''fa-IR'' then number @ uni '' '' @ currency_label currency
       else if currency = ''EUR'' then [8364] @ number
       else if currency = ''USD'' then uni ''$'' @ number else number @ uni '' IRR''))"

section \<open>Times\<close>

text \<open>\<open>astimezone\<close>, then \<open>strftime("%Y-%m-%d %H:%M %Z")\<close>\<close>

definition format_datetime :: "market_adapter \<Rightarrow> datetime \<Rightarrow> ustring res" where
  "format_datetime a v = res_bind (raise_if (naive v) (ValueError ''canonical datetime must be timezone-aware'')) (\<lambda>_.
     res_bind (utc_datetime (instant v)) (\<lambda>_.
     res_bind (utc_datetime (instant v + zn_offset (ma_zone a) (instant v) * 1000000)) (\<lambda>local.
     let rendered = uni (padded 4 (dt_year local) @ ''-'' @ padded 2 (dt_month local) @ ''-'' @ padded 2 (dt_day local) @ '' '' @
       padded 2 (dt_hour local) @ '':'' @ padded 2 (dt_minute local) @ '' '' @ zn_name (ma_zone a) (instant v)) in
     Inr (if arabext a then map persian_digit rendered else rendered))))"

section \<open>Listings and discovery documents\<close>

record localized_listing =
  lz_canonical_id :: string
  lz_canonical_url :: "string option"
  lz_locale :: string
  lz_direction :: text_direction
  lz_title :: string
  lz_location_text :: ustring
  lz_price_text :: ustring
  lz_currency_code :: string
  lz_area_text :: ustring
  lz_bedrooms_text :: ustring
  lz_last_verified_text :: ustring
  lz_state :: string
  lz_trust_code :: string
  lz_verification_badge :: bool
  lz_message_codes :: "string list"
  lz_messages :: "localized_message list"

definition trust_value :: "trust_code \<Rightarrow> string" where
  "trust_value t = (case t of TRUST_UNKNOWN \<Rightarrow> ''UNKNOWN'' | EVIDENCE_AVAILABLE \<Rightarrow> ''EVIDENCE_AVAILABLE'' | NEEDS_REVIEW \<Rightarrow> ''NEEDS_REVIEW'')"

definition localize_consumer_listing :: "(string \<Rightarrow> datetime option) \<Rightarrow> market_adapter \<Rightarrow> consumer_listing \<Rightarrow> string \<Rightarrow> string option \<Rightarrow>
    localized_listing res" where
  "localize_consumer_listing parse a p currency url =
     res_bind (fetch (ValueError ''Invalid isoformat string'') (parse (cl_last_verified_at p))) (\<lambda>verified.
     let messages = map (localize_message a) (cl_message_codes p); persian = (lc_locale (ma_context a) = ''fa-IR'');
       location = (if persian then uni (cl_city p) @ [1548, 32] @ uni (cl_locality p)
         else uni (cl_locality p) @ uni '', '' @ uni (cl_city p)) in
     res_bind (format_decimal a (cl_area_sqm p) 1) (\<lambda>number.
     let area = number @ (if persian then [32, 1605, 1578, 1585, 32, 1605, 1585, 1576, 1593] else [32, 109, 178]);
       bedrooms = (case cl_bedrooms p of
           None \<Rightarrow> if persian then [1606, 1575, 1605, 1588, 1582, 1589] else uni ''Unknown''
         | Some b \<Rightarrow> format_integer a b @ (if persian then [32, 1582, 1608, 1575, 1576] else uni '' bed'')) in
     res_bind (format_amount a (cl_price_minor p) currency) (\<lambda>price.
     res_bind (format_datetime a verified) (\<lambda>verified_text.
     Inr \<lparr>lz_canonical_id = cl_canonical_id p, lz_canonical_url = url, lz_locale = lc_locale (ma_context a),
       lz_direction = lc_direction (ma_context a), lz_title = cl_title p, lz_location_text = location, lz_price_text = price,
       lz_currency_code = currency, lz_area_text = area, lz_bedrooms_text = bedrooms, lz_last_verified_text = verified_text,
       lz_state = cl_state p, lz_trust_code = trust_value (cl_trust_code p), lz_verification_badge = cl_verification_badge p,
       lz_message_codes = cl_message_codes p, lz_messages = messages\<rparr>))))"

record localized_document =
  ld_canonical_id :: string
  ld_locale :: string
  ld_direction :: text_direction
  ld_canonical_url :: string
  ld_route_path :: string
  ld_indexable :: bool
  ld_robots_directive :: string
  ld_noindex_reasons :: "string list"
  ld_title :: string
  ld_description :: string
  ld_lastmod :: string
  ld_structured_data_profile :: string
  ld_structured_data :: "(string \<times> string) list"

definition localize_discovery_document :: "market_adapter \<Rightarrow> discovery_document \<Rightarrow> localized_document" where
  "localize_discovery_document a d = \<lparr>ld_canonical_id = dd_canonical_id d, ld_locale = lc_locale (ma_context a),
     ld_direction = lc_direction (ma_context a), ld_canonical_url = dd_canonical_url d, ld_route_path = dd_route_path d,
     ld_indexable = dd_indexable d, ld_robots_directive = dd_robots_directive d, ld_noindex_reasons = dd_noindex_reasons d,
     ld_title = dd_title d, ld_description = dd_description d, ld_lastmod = dd_lastmod d,
     ld_structured_data_profile = dd_structured_data_profile d, ld_structured_data = dd_structured_data d\<rparr>"

section \<open>Numbers keep their value\<close>

text \<open>The decimal digits of either numbering system, and the number that a text shows when everything else is skipped.\<close>

definition digit_value :: "nat \<Rightarrow> nat option" where
  "digit_value c = (if 48 \<le> c \<and> c \<le> 57 then Some (c - 48) else if 1776 \<le> c \<and> c \<le> 1785 then Some (c - 1776) else None)"

definition shown_number :: "ustring \<Rightarrow> nat" where
  "shown_number t = foldl (\<lambda>n d. 10 * n + d) 0 (List.map_filter digit_value t)"

declare map_filter_append [simp]

lemma map_filter_map: "List.map_filter f (map g xs) = List.map_filter (f \<circ> g) xs"
  by (simp add: List.map_filter_def filter_map comp_def)

lemma digits_of_groups: "List.map_filter (digit_value \<circ> of_char) (group_from_right s) = List.map_filter (digit_value \<circ> of_char) s"
  by (induction s rule: group_from_right.induct) (simp_all add: List.map_filter_simps digit_value_def)

lemma digits_of_uni_grouped: "List.map_filter digit_value (uni (grouped v)) = List.map_filter (digit_value \<circ> of_char) (show_nat (nat \<bar>v\<bar>))"
  by (simp add: uni_def grouped_def grouped_nat_def map_filter_map map_filter_rev digits_of_groups List.map_filter_simps digit_value_def)

lemma digit_value_persian: "digit_value (persian_digit c) = digit_value c" if "c < 256"
  using that by (simp add: digit_value_def persian_digit_def)

lemma uni_bound: "\<forall>c \<in> set (uni s). c < 256"
  by (auto simp: uni_def)

lemma digits_of_persian: "\<forall>c \<in> set t. c < 256 \<Longrightarrow> List.map_filter digit_value (map persian_digit t) = List.map_filter digit_value t"
  by (induction t) (simp_all add: List.map_filter_simps digit_value_persian split: option.split)

lemma digits_of_replace:
  "digit_value c = None \<Longrightarrow> digit_value d = None \<Longrightarrow> List.map_filter digit_value (replace_code c d t) = List.map_filter digit_value t"
  by (induction t) (simp_all add: List.map_filter_simps replace_code_def split: option.split)

lemma fold_digits:
  "list_all is_digit s \<Longrightarrow> foldl (\<lambda>n d. 10 * n + d) k (List.map_filter (digit_value \<circ> of_char) s) =
     foldl (\<lambda>n c. 10 * n + (of_char c - 48)) k s"
  by (induction s arbitrary: k) (simp_all add: List.map_filter_simps digit_value_def is_digit_def Let_def)

lemma shown_format_integer: "shown_number (format_integer a v) = nat \<bar>v\<bar>"
proof -
  have "shown_number (uni (grouped v)) = read_nat (show_nat (nat \<bar>v\<bar>))"
    unfolding shown_number_def digits_of_uni_grouped read_nat_def by (rule fold_digits) (rule show_nat_digits)
  moreover have "List.map_filter digit_value (format_integer a v) = List.map_filter digit_value (uni (grouped v))"
    using uni_bound by (simp add: format_integer_def digits_of_replace digits_of_persian digit_value_def [of 44] digit_value_def [of 1644])
  ultimately show ?thesis by (simp add: shown_number_def)
qed

lemma no_digits: "\<forall>c \<in> set t. digit_value c = None \<Longrightarrow> List.map_filter digit_value t = []"
  by (induction t) (simp_all add: List.map_filter_simps)

lemma shown_suffix: "List.map_filter digit_value t = [] \<Longrightarrow> shown_number (s @ t) = shown_number s"
  by (simp add: shown_number_def)

lemma shown_prefix: "List.map_filter digit_value s = [] \<Longrightarrow> shown_number (s @ t) = shown_number t"
  by (simp add: shown_number_def)

lemma label_no_digits: "List.map_filter digit_value (currency_label c) = []" "List.map_filter digit_value (uni '' '') = []"
  "List.map_filter digit_value [8364] = []" "List.map_filter digit_value (uni ''$'') = []"
  "List.map_filter digit_value (uni '' IRR'') = []"
  by (simp_all add: currency_label_def List.map_filter_simps digit_value_def uni_def)

lemma format_amount_Inr:
  assumes "format_amount a minor currency = Inr t"
  shows "0 \<le> minor" "currency = lc_currency_code (ma_context a)" "currency \<in> set supported_currencies" "shown_number t = nat minor"
proof -
  show 1: "0 \<le> minor" "currency = lc_currency_code (ma_context a)" "currency \<in> set supported_currencies"
    using assms by (auto simp: format_amount_def)
  have n: "shown_number (format_integer a minor) = nat minor" using 1(1) by (simp add: shown_format_integer)
  have "t \<in> {format_integer a minor @ uni '' '' @ currency_label currency, [8364] @ format_integer a minor,
     uni ''$'' @ format_integer a minor, format_integer a minor @ uni '' IRR''}"
    using assms by (auto simp: format_amount_def Let_def split: if_splits)
  moreover have "shown_number ([8364] @ format_integer a minor) = nat minor"
    "shown_number (uni ''$'' @ format_integer a minor) = nat minor"
    "shown_number (format_integer a minor @ uni '' IRR'') = nat minor"
    "shown_number (format_integer a minor @ uni '' '' @ currency_label currency) = nat minor"
    using n by (simp_all only: shown_prefix [OF label_no_digits(3)] shown_prefix [OF label_no_digits(4)]
        shown_suffix [OF label_no_digits(5)] shown_suffix map_filter_append label_no_digits append_Nil)
  ultimately show "shown_number t = nat minor" by blast
qed

section \<open>Localization keeps the domain\<close>

lemma bedroom_labels: "List.map_filter digit_value (uni '' bed'') = []" "List.map_filter digit_value [32, 1582, 1608, 1575, 1576] = []"
  by (simp_all add: List.map_filter_simps digit_value_def uni_def)

lemma lm_code_localize [simp]: "lm_code (localize_message a code) = code"
  by (simp add: localize_message_def split: option.split)

lemma localize_consumer_listing_Inr:
  assumes "localize_consumer_listing parse a p currency url = Inr l"
  shows "lz_canonical_id l = cl_canonical_id p" "lz_title l = cl_title p" "lz_state l = cl_state p"
    "lz_trust_code l = trust_value (cl_trust_code p)" "lz_verification_badge l = cl_verification_badge p"
    "map lm_code (lz_messages l) = cl_message_codes p" "lz_currency_code l = currency"
    "format_amount a (cl_price_minor p) currency = Inr (lz_price_text l)"
    "cl_bedrooms p = Some b \<Longrightarrow> shown_number (lz_bedrooms_text l) = nat \<bar>b\<bar>"
  using assms
  by (auto simp: localize_consumer_listing_def Let_def comp_def shown_suffix [OF bedroom_labels(1)]
      shown_suffix [OF bedroom_labels(2)] shown_format_integer)

end
