(* ===== verification/Booking.thy ===== *)
theory Booking
  imports Prelude
begin

text \<open>
  The booking application that the factory's full-stack evaluation builds (src/examples/phase4_booking_app/): a
  repository on one SQLite table with an idempotent migration, the service that validates requests
  and the form adapter. The database is the list of its rows, the columns of the table, the last key that
  AUTOINCREMENT gave out and the migrations applied.
\<close>

section \<open>The repository\<close>

record booking =
  bo_booking_id :: nat
  bo_customer_name :: string
  bo_slot :: string

record booking_db =
  bd_rows :: "booking list"
  bd_columns :: "string list"
  bd_last_id :: nat
  bd_migrations :: "string list"

text \<open>Opening a repository creates the tables of a new file.\<close>

definition open_repository :: "booking_db option \<Rightarrow> booking_db" where
  "open_repository file = (case file of Some db \<Rightarrow> db
     | None \<Rightarrow> \<lparr>bd_rows = [], bd_columns = [''booking_id'', ''customer_name'', ''slot''], bd_last_id = 0, bd_migrations = []\<rparr>)"

definition notes_migration :: string where
  "notes_migration = ''2026-08-add-booking-notes''"

definition has_column :: "string \<Rightarrow> booking_db \<Rightarrow> bool" where
  "has_column c db \<longleftrightarrow> c \<in> set (bd_columns db)"

definition apply_add_notes_migration :: "booking_db \<Rightarrow> booking_db \<times> bool" where
  "apply_add_notes_migration db =
     (if notes_migration \<in> set (bd_migrations db) then (db, False)
      else (db\<lparr>bd_columns := (if has_column ''notes'' db then bd_columns db else bd_columns db @ [''notes'']),
        bd_migrations := bd_migrations db @ [notes_migration]\<rparr>, True))"

definition insert_booking :: "string \<Rightarrow> string \<Rightarrow> booking_db \<Rightarrow> booking_db \<times> booking" where
  "insert_booking customer slot db =
     (let b = \<lparr>bo_booking_id = bd_last_id db + 1, bo_customer_name = customer, bo_slot = slot\<rparr> in
      (db\<lparr>bd_rows := bd_rows db @ [b], bd_last_id := bd_last_id db + 1\<rparr>, b))"

definition select_booking :: "nat \<Rightarrow> booking_db \<Rightarrow> booking option" where
  "select_booking i db = find (\<lambda>b. bo_booking_id b = i) (bd_rows db)"

section \<open>The service and the form\<close>

record booking_request =
  bq_customer_name :: string
  bq_slot :: string

definition booking_validate :: "booking_request \<Rightarrow> unit res" where
  "booking_validate r = checks [
     raise_if (blank (bq_customer_name r)) (ValueError ''customer_name is required''),
     raise_if (blank (bq_slot r)) (ValueError ''slot is required'')]"

definition create_booking :: "booking_request \<Rightarrow> booking_db \<Rightarrow> (booking_db \<times> booking) res" where
  "create_booking r db = res_bind (booking_validate r) (\<lambda>_.
     Inr (insert_booking (strip (bq_customer_name r)) (strip (bq_slot r)) db))"

definition get_booking :: "int \<Rightarrow> booking_db \<Rightarrow> booking option res" where
  "get_booking i db = res_bind (raise_if (i \<le> 0) (ValueError ''booking_id must be positive'')) (\<lambda>_. Inr (select_booking (nat i) db))"

record booking_form =
  bf_customer_name :: string
  bf_slot :: string

definition submit_booking :: "booking_form \<Rightarrow> booking_db \<Rightarrow> (booking_db \<times> booking) res" where
  "submit_booking f db = create_booking \<lparr>bq_customer_name = bf_customer_name f, bq_slot = bf_slot f\<rparr> db"

section \<open>Bookings are kept\<close>

datatype booking_call = Submit booking_form | Migrate | Reopen

definition booking_step :: "booking_call \<Rightarrow> booking_db \<Rightarrow> booking_db" where
  "booking_step c db = (case c of
       Submit f \<Rightarrow> (case submit_booking f db of Inl _ \<Rightarrow> db | Inr (db', _) \<Rightarrow> db')
     | Migrate \<Rightarrow> fst (apply_add_notes_migration db)
     | Reopen \<Rightarrow> open_repository (Some db))"

definition booking_run :: "booking_call list \<Rightarrow> booking_db \<Rightarrow> booking_db" where
  "booking_run cs db = fold booking_step cs db"

text \<open>The keys of a repository: given out once, in order.\<close>

definition bookings_ok :: "booking_db \<Rightarrow> bool" where
  "bookings_ok db \<longleftrightarrow> distinct (map bo_booking_id (bd_rows db)) \<and>
     list_all (\<lambda>b. 1 \<le> bo_booking_id b \<and> bo_booking_id b \<le> bd_last_id db) (bd_rows db)"

lemma bookings_ok_new: "bookings_ok (open_repository None)"
  by (simp add: bookings_ok_def open_repository_def)

lemma submit_booking_Inr:
  "submit_booking f db = Inr (db', b) \<longleftrightarrow> \<not> blank (bf_customer_name f) \<and> \<not> blank (bf_slot f) \<and>
     b = \<lparr>bo_booking_id = bd_last_id db + 1, bo_customer_name = strip (bf_customer_name f), bo_slot = strip (bf_slot f)\<rparr> \<and>
     db' = db\<lparr>bd_rows := bd_rows db @ [b], bd_last_id := bd_last_id db + 1\<rparr>"
  by (auto simp: submit_booking_def create_booking_def booking_validate_def insert_booking_def Let_def)

lemma step_ok: "bookings_ok db \<Longrightarrow> bookings_ok (booking_step c db)"
  by (cases c)
     (fastforce simp: booking_step_def apply_add_notes_migration_def open_repository_def bookings_ok_def submit_booking_Inr list_all_iff
        split: sum.split prod.split)+

lemma booking_run_ok: "bookings_ok db \<Longrightarrow> bookings_ok (booking_run cs db)"
  unfolding booking_run_def by (induction cs arbitrary: db) (simp_all add: step_ok)

lemma step_extends: "\<exists>new. bd_rows (booking_step c db) = bd_rows db @ new"
  by (cases c) (auto simp: booking_step_def apply_add_notes_migration_def open_repository_def submit_booking_Inr split: sum.split prod.split)

lemma run_extends: "\<exists>new. bd_rows (booking_run cs db) = bd_rows db @ new"
  unfolding booking_run_def
proof (induction cs arbitrary: db)
  case (Cons c cs)
  from Cons [of "booking_step c db"] step_extends [of c db] show ?case by auto
qed simp

lemma select_booking_row:
  "bookings_ok db \<Longrightarrow> b \<in> set (bd_rows db) \<Longrightarrow> select_booking (bo_booking_id b) db = Some b"
proof -
  have "distinct (map bo_booking_id bs) \<Longrightarrow> b \<in> set bs \<Longrightarrow> find (\<lambda>x. bo_booking_id x = bo_booking_id b) bs = Some b" for bs
    by (induction bs) auto
  then show "bookings_ok db \<Longrightarrow> b \<in> set (bd_rows db) \<Longrightarrow> ?thesis" by (simp add: bookings_ok_def select_booking_def)
qed

lemma booking_kept:
  assumes "bookings_ok db" "submit_booking f db = Inr (db', b)"
  shows "get_booking (int (bo_booking_id b)) (booking_run cs db') = Inr (Some b)"
proof -
  have "bookings_ok (booking_step (Submit f) db)" using assms(1) by (rule step_ok)
  then have ok: "bookings_ok (booking_run cs db')" using assms(2) by (simp add: booking_step_def booking_run_ok)
  have "b \<in> set (bd_rows db')" "1 \<le> bo_booking_id b" using assms(2) by (auto simp: submit_booking_Inr)
  moreover from this(1) have "b \<in> set (bd_rows (booking_run cs db'))" using run_extends [of cs db'] by auto
  ultimately show ?thesis using select_booking_row [OF ok] by (simp add: get_booking_def raise_if_def)
qed

text \<open>The migration happens once, and only adds a column.\<close>

lemma migration_once:
  assumes "apply_add_notes_migration db = (db', first)"
  shows "apply_add_notes_migration db' = (db', False)" "bd_rows db' = bd_rows db"
    "first \<Longrightarrow> has_column ''notes'' db'"
  using assms by (auto simp: apply_add_notes_migration_def has_column_def split: if_splits)

end
