(* ===== verification/Spec2Isabelle.thy ===== *)
theory Spec2Isabelle
  imports Prelude Json_Text Json Hash_Chain Task_Graph Task_State Audit_Ledger Mission_Runner Durable_Ledger
    Reliability_Rules Reliability_Store Reliability_Controller Catalog Incidents Memory Governance
    Interoperability Pods Design_Pod Engineering_Plan Engineering_Integration Engineering_Pod Assurance_Pod
    Datetime Listing Inventory Anomalies Review_Queue Search Alerts Presentation
    Research_Pod Secrets Qualification Market Archive Backup Engineering_Trace Engineering_Fixtures Performance Supply_Chain
    Localization Booking
begin

text \<open>
  A verification development for AI Factory (src/factory/ and src/missions/): a platform that lets
  workers which are not trusted (language models, external tools) propose work, while
  deterministic Python code decides what is accepted, records it in hash-chained logs and can
  rebuild its state from them. What is modelled is that deterministic code.

  Parts and theories.

  \<^item> Prelude, Json_Text, Json, Hash_Chain, Datetime, Files: exceptions as the sum type \<open>'a res\<close> (every raise of the
    source is an \<open>Inl\<close>), actions that keep their effects when they raise, Python dicts as association
    lists; the JSON text of \<open>json.dumps\<close> (a flag for \<open>ensure_ascii\<close>, and \<open>object_text\<close> for objects that hold
    floats), the strict reader \<open>json.loads\<close> and their round trip; the contract of a hash-chained log as a locale that the audit
    ledger, the incident history and the review queue interpret; datetimes, their
    instants and ISO texts; files as a map from paths to texts.
  \<^item> Task_Graph (control_plane/graph.py, orchestration.py), Task_State (state.py), Audit_Ledger
    (ledger.py), Mission_Runner (runner.py), Durable_Ledger (runtime/sqlite_store.py): a mission is a
    graph of tasks; every state change is guarded by a transition table and appended to the ledger;
    the runner and the durable store rebuild the task records from the events (C1 to C9).
  \<^item> Reliability_Rules (reliability/contracts.py, engine.py), Reliability_Store (store.py),
    Reliability_Controller (controller.py, recovery.py): what is retried, reconciled or stopped, and
    the journal of attempts and decisions behind it (C10 to C12).
  \<^item> Archive (runtime/audit_retention.py), Backup (runtime/backup.py): archives of the ledger and backups of
    the databases, written with manifests that bind them and read back fail-closed (C13 to C15).
  \<^item> Catalog (runtime/catalog.py, mission_scope.py, adapters.py), Incidents (runtime/incidents.py), Memory
    (memory/), Governance (control_plane/contracts.py, registry.py, policy.py, runtime/policy.py,
    intake.py), Interoperability (interoperability/): shared artifacts, budgets and approvals, incident
    response with protected actions, organizational memory, capability grants, bounded calls of
    external systems (C16 to C22).
  \<^item> Pods, Design_Pod, Write_Scopes, Engineering_Plan, Engineering_Integration, Engineering_Pod, Assurance_Pod
    (design_pod/, engineering_pod/, assurance_pod/): three coordinators that collect proposals of
    workers, validate them, allow a bounded number of revisions and publish the accepted result in
    the catalog (C23 to C27). Engineering_Trace observes which workers a run calls, with what and in which
    order, and that observing them changes nothing. Engineering_Fixtures (engineering_pod/fixtures.py): a planner for the pod from an
    explicit mapping. Booking (src/examples/phase4_booking_app/): the application that evaluations build.
  \<^item> Listing, Inventory, Anomalies, Review_Queue, Search, Alerts, Presentation, Market
    (src/missions/real_estate/): listings and their lawful ingestion, the canonical inventory, price
    anomalies and their review, geographic search with a cursor, saved searches and alerts, public
    projections and the sitemap; Market states what they promise over whole runs (C28 to C34).
    Localization (localization.py) formats the projections for two locales (C35).
  \<^item> Research_Pod (research_pod/), Secrets (runtime/secrets.py, tracing.py, capability brokering), Qualification
    (evaluations/, qualification/, reliability/slo.py, readiness.py), Performance
    (reliability/performance.py), Supply_Chain (reliability/supply_chain.py): what counts as evidence, what a trace
    may show, and what has to be proven before a release (C36 to C40).

  The lemmas of each theory are, in this order: what a successful operation did (\<open>..._Inr\<close>), the invariant and
  its preservation, and the declarative rule that a validator decides; the claims combine them. The rules are
  stated over the data of the program: scopes over the components of paths, lines of a workflow over the text,
  dependencies over the nodes, calls of workers and providers over what they were asked; where a rule is narrower than
  what it is meant for, a theorem shows the gap: \<open>dotted_scopes_hide_conflicts\<close> (components \<open>.\<close> in scopes),
  \<open>flow_style_action_escapes\<close> (YAML that the workflow scan cannot read), \<open>replayed_runner_cannot_release\<close> (automatic event
  identifiers that a replayed ledger has already used).

  Correspondence. A dataclass is a record whose fields carry a prefix per class, an Enum a datatype, a method a
  function from the old state to \<open>(new state, result)\<close> or to \<open>Inl\<close> of the exception. A SQLite table is a
  list of rows or, where it is only used by its key, a map; a \<open>with connection\<close> block is a transaction,
  which changes nothing when it raises. Error messages are kept where the code builds them from a fixed text.

  Parameters. \<open>sha\<close> is the digest (any function: a theorem that needs a collision to be impossible
  shows the collision instead), \<open>now\<close> or \<open>clock\<close> the clock, transports and workers are arbitrary
  actions on a world of any type, so every theorem about a coordinator holds for hostile workers. Dates that
  Python cannot express raise its \<open>OverflowError\<close>. \<open>parse\<close> is
  \<open>datetime.fromisoformat\<close>, \<open>show_float\<close> the text of a float, and \<open>scheme_of\<close>, \<open>urlsplit\<close>, \<open>unescape\<close>, the
  trigonometric functions, the time zone data, the Python parser and the SQLite engine are arguments too,
  with what is relied on as a named hypothesis (\<open>sound_engine\<close>, \<open>clock_monotone\<close>).

  Termination. Every loop of the modelled code is total: structural recursion over the lists the code
  iterates over, recursion on the number of revisions left, or a measure on the graph of tasks or
  packages not yet visited. The JSON reader takes fuel, and twice the length of its text suffices (\<open>read_fuel\<close>). Reading
  all pages of a search is a \<open>partial_function\<close>, and that it ends is a theorem (C31).

  Not modelled: SQL connections, pragmas, schema versions and the width of SQLite integers; characters beyond
  Latin-1, save in localized texts; rounding of floats (rational numbers stand for them); the base64
  text of a search cursor; directories; floats and escapes beyond Latin-1 in JSON texts that are read; the lists that
  some error messages print. The remaining Python files are package exports, worker protocols without
  behaviour, and tests.
\<close>

section \<open>Missions: tasks, transitions, release, replay\<close>

text \<open>C1. Whatever sequence of transitions a runner goes through, interleaved with other appends to
  its ledger, the ledger verifies and every task record is sound: a task past BACKLOG, READY and
  BLOCKED has a worker, a task in REVIEW, VERIFIED or DONE has evidence, and a VERIFIED one has
  reviewers disjoint from its workers and no blocking objection.\<close>

theorem runner_invariant:
  assumes "new_runner m ts [] ns = Inr r0" "runs sha r0 r" "map_of (rn_tasks r) t = Some rec"
  shows "record_ok rec \<and> verify_integrity sha (rn_ledger r) = Inr ()"
proof -
  have "runner_ok sha r" using runs_ok [OF assms(2)] new_runner_ok [OF assms(1) ledger_ok_Nil] .
  with map_of_SomeD [OF assms(3)] show ?thesis
    by (auto simp: runner_ok_def ledger_ok_def list_all_iff)
qed

text \<open>A run of the examples: one task, released by the control plane.\<close>

lemma example_run:
  "\<exists>r0 r rec. new_runner ''M'' [''A''] [] [] = Inr r0 \<and> runs (\<lambda>s. s) r0 r \<and>
     map_of (rn_tasks r) ''A'' = Some rec \<and> tr_state rec = READY \<and> rn_ledger r \<noteq> []"
proof -
  obtain r0 where r0: "new_runner ''M'' [''A''] [] [] = Inr r0"
    by (simp add: new_runner_def Let_def plain_node_def validate_graph_def validate_node_def ids_def check_all_def
        visit.simps deps_of_def node_of_def)
  note facts = new_runner_tasks [OF r0]
  have tasks: "rn_tasks r0 = [(''A'', fresh_record)]"
    using r0 by (simp add: new_runner_def Let_def) (elim conjE, drule sym, simp)
  have keys: "distinct (map fst (rn_tasks r0))"
    using new_runner_ok [OF r0 ledger_ok_Nil [of "\<lambda>s. s"]] by (simp add: runner_ok_def)
  have start: "map_of (rn_tasks r0) ''A'' = Some fresh_record" "rn_mission_id r0 \<noteq> []"
    "\<not> id_taken (rn_ledger r0) (length (rn_ledger r0) + 1)"
    using facts by (simp_all add: id_taken_def)
  have fresh: "tr_state fresh_record = BACKLOG" "''CP'' \<noteq> []" by (simp_all add: fresh_record_def)
  from release_one [OF start(1) fresh start(2,3) keys, of "\<lambda>s. s" "''t''"] obtain e
    where e: "transition (\<lambda>s. s) ''t'' r0 ''A'' READY (plain_args ''CP'') =
      Inr (r0\<lparr>rn_tasks := released [''A''] (rn_tasks r0), rn_ledger := rn_ledger r0 @ [e]\<rparr>, e)" by blast
  let ?r1 = "r0\<lparr>rn_tasks := released [''A''] (rn_tasks r0), rn_ledger := rn_ledger r0 @ [e]\<rparr>"
  have "runs (\<lambda>s. s) r0 ?r1" by (rule runs.step [OF runs.start e])
  moreover have "rn_ledger ?r1 \<noteq> []" by simp
  moreover have "map_of (rn_tasks ?r1) ''A'' = Some (fresh_record\<lparr>tr_state := READY, tr_blocking_objections := []\<rparr>)"
    by (simp add: tasks released_def)
  ultimately show ?thesis using r0 by fastforce
qed

theorem runner_invariant_witness:
  "\<exists>r0 r rec. new_runner ''M'' [''A''] [] [] = Inr r0 \<and> runs (\<lambda>s. s) r0 r \<and> rn_ledger r \<noteq> [] \<and>
     map_of (rn_tasks r) ''A'' = Some rec \<and> record_ok rec \<and> verify_integrity (\<lambda>s. s) (rn_ledger r) = Inr ()"
proof -
  obtain r0 r rec where "new_runner ''M'' [''A''] [] [] = Inr r0" "runs (\<lambda>s. s) r0 r"
    "map_of (rn_tasks r) ''A'' = Some rec" "rn_ledger r \<noteq> []" using example_run by blast
  with runner_invariant [OF this(1-3)] show ?thesis by blast
qed

text \<open>C2. Replaying a runner's own ledger rebuilds its dictionary of task records, whatever other
  missions and other event types were appended in between and in whatever order the tasks are
  listed.\<close>

theorem replay_rebuilds_tasks:
  assumes "new_runner m ts [] ns = Inr r0" "runs sha r0 r"
    and "new_runner m ts' [] ns' = Inr r0'" "set ts' = set ts"
  shows "\<exists>r'. replay sha clock m ts' (rn_ledger r) ns' = Inr r' \<and> map_of (rn_tasks r') = map_of (rn_tasks r)"
  using replay_run [OF assms(1) ledger_ok_Nil _ assms(2-4), of clock] by (auto simp: transitions_of_def)

theorem replay_rebuilds_tasks_witness:
  "\<exists>r0 r r'. new_runner ''M'' [''A''] [] [] = Inr r0 \<and> runs (\<lambda>s. s) r0 r \<and> rn_ledger r \<noteq> [] \<and>
     replay (\<lambda>s. s) (\<lambda>_. ''t'') ''M'' [''A''] (rn_ledger r) [] = Inr r' \<and>
     map_of (rn_tasks r') = map_of (rn_tasks r)"
proof -
  obtain r0 r rec where r: "new_runner ''M'' [''A''] [] [] = Inr r0" "runs (\<lambda>s. s) r0 r" "rn_ledger r \<noteq> []"
    using example_run by blast
  from replay_rebuilds_tasks [OF r(1,2) r(1) refl, of "\<lambda>_. ''t''"] r show ?thesis by blast
qed

text \<open>C3. A release orders the BACKLOG tasks whose dependencies are all DONE by their ids and moves them to READY one
  after the other, each with one event of the control plane; nothing else of the runner changes. Events
  without an identifier get one from the length of the ledger. If other missions or explicit identifiers have taken
  the next one, the release stops there: the earlier tasks stay released and the exception names the identifier.
  The actor is not empty.\<close>

theorem release_is_exact:
  assumes "new_runner m ts [] ns = Inr r0" "runs sha r0 r" "actor_id \<noteq> []"
  shows "\<exists>r' result ready k es. release_ready_tasks sha clock actor_id r = (r', result) \<and>
     set ready = Collect (releasable r) \<and> sorted ready \<and> distinct ready \<and>
     result = (if k = length ready then Inr ready
       else Inl (ValueError (''duplicate event id: '' @ auto_event_id (length (rn_ledger r) + k + 1)))) \<and>
     k \<le> length ready \<and> (\<forall>j < k. \<not> id_taken (rn_ledger r) (length (rn_ledger r) + j + 1)) \<and>
     (k < length ready \<longrightarrow> id_taken (rn_ledger r) (length (rn_ledger r) + k + 1)) \<and>
     r' = r\<lparr>rn_tasks := released (take k ready) (rn_tasks r), rn_ledger := rn_ledger r @ es\<rparr> \<and> length es = k \<and>
     (\<forall>j < k. release_event r actor_id (ready ! j) (length (rn_ledger r) + j + 1) (es ! j))"
proof -
  have ok: "runner_ok sha r" using runs_ok [OF assms(2)] new_runner_ok [OF assms(1) ledger_ok_Nil] .
  have m: "rn_mission_id r \<noteq> []"
    using runs_frame [OF assms(2)] new_runner_tasks [OF assms(1)] assms(1) by (auto simp: new_runner_def)
  from release_ready [OF ok assms(3) m, of clock] obtain r' ready k es where
    "release_ready_tasks sha clock actor_id r = (r', stopped_at r ready k ready)" "set ready = Collect (releasable r)"
    "sorted ready" "distinct ready" and p: "released_prefix r actor_id ready k es r'" by blast
  with p [unfolded released_prefix_def] show ?thesis unfolding stopped_at_def by blast
qed

theorem release_is_exact_witness:
  "\<exists>r0 r' ready. new_runner ''M'' [''A''] [] [] = Inr r0 \<and>
     release_ready_tasks (\<lambda>s. s) (\<lambda>_. ''t'') ''CP'' r0 = (r', Inr ready) \<and> set ready = Collect (releasable r0)"
proof -
  obtain r0 where r0: "new_runner ''M'' [''A''] [] [] = Inr r0" using example_run by blast
  have free: "\<not> id_taken (rn_ledger r0) n" for n using new_runner_tasks [OF r0] by (simp add: id_taken_def)
  have "''CP'' \<noteq> []" by simp
  from release_is_exact [OF r0 runs.start this, of "\<lambda>s. s" "\<lambda>_. ''t''"] obtain r' result ready k where
    run: "release_ready_tasks (\<lambda>s. s) (\<lambda>_. ''t'') ''CP'' r0 = (r', result)" "set ready = Collect (releasable r0)"
      "result = (if k = length ready then Inr ready
         else Inl (ValueError (''duplicate event id: '' @ auto_event_id (length (rn_ledger r0) + k + 1))))"
      "k \<le> length ready" "k < length ready \<longrightarrow> id_taken (rn_ledger r0) (length (rn_ledger r0) + k + 1)"
    by (elim exE conjE)
  with free have "k = length ready" by (meson le_neq_implies_less)
  with run r0 show ?thesis by auto
qed

text \<open>C4. No deadlock among the tasks: while every task is BACKLOG or DONE and some task is not DONE, a release moves a
  task to READY, unless the next automatic event identifier is taken; then it raises and changes nothing. In a
  ledger where every event has the automatic identifier of its place, the release completes with at least one task.\<close>

theorem release_makes_progress:
  assumes "new_runner m ts [] ns = Inr r0" "runs sha r0 r" "actor_id \<noteq> []"
    and "list_all (\<lambda>(t, rec). tr_state rec \<in> {BACKLOG, DONE}) (rn_tasks r)"
    and "assert_all_done sha r \<noteq> Inr ()"
  shows "(if id_taken (rn_ledger r) (length (rn_ledger r) + 1)
      then release_ready_tasks sha clock actor_id r =
        (r, Inl (ValueError (''duplicate event id: '' @ auto_event_id (length (rn_ledger r) + 1))))
      else \<exists>t r' result. release_ready_tasks sha clock actor_id r = (r', result) \<and> releasable r t \<and>
        map_option tr_state (map_of (rn_tasks r') t) = Some READY) \<and>
    (map ae_event_id (rn_ledger r) = map auto_event_id [1 ..< length (rn_ledger r) + 1] \<longrightarrow>
       (\<exists>r' t ts'. release_ready_tasks sha clock actor_id r = (r', Inr (t # ts'))))"
proof -
  have ok: "runner_ok sha r" using runs_ok [OF assms(2)] new_runner_ok [OF assms(1) ledger_ok_Nil] .
  have m: "rn_mission_id r \<noteq> []"
    using runs_frame [OF assms(2)] new_runner_tasks [OF assms(1)] assms(1) by (auto simp: new_runner_def)
  have "\<not> (\<forall>(t, rec) \<in> set (rn_tasks r). tr_state rec = DONE)"
    using assms(5) ok by (auto simp: assert_all_done_def runner_ok_def ledger_ok_def)
  then obtain t where t: "releasable r t"
    using some_releasable [OF ok] assms(4) by (auto simp: list_all_iff)
  from release_ready [OF ok assms(3) m, of clock] obtain r' ready k es where
    rel: "release_ready_tasks sha clock actor_id r = (r', stopped_at r ready k ready)" "set ready = Collect (releasable r)"
      "released_prefix r actor_id ready k es r'" by blast
  from t rel(2) have "t \<in> set ready" by simp
  then obtain u us where ready: "ready = u # us" by (cases ready) auto
  show ?thesis
    by (rule release_progress [OF rel(1) [unfolded ready] rel(3) [unfolded ready]])
      (use rel(2) ready in auto)
qed

theorem release_makes_progress_witness:
  "\<exists>r0 r' t ts'. new_runner ''M'' [''A''] [] [] = Inr r0 \<and>
     release_ready_tasks (\<lambda>s. s) (\<lambda>_. ''t'') ''CP'' r0 = (r', Inr (t # ts'))"
proof -
  obtain r0 where r0: "new_runner ''M'' [''A''] [] [] = Inr r0" using example_run by blast
  have cp: "''CP'' \<noteq> []" by simp
  have tasks: "rn_tasks r0 = [(''A'', fresh_record)]"
    using r0 by (simp add: new_runner_def Let_def) (elim conjE, drule sym, simp)
  have "list_all (\<lambda>(t, rec). tr_state rec \<in> {BACKLOG, DONE}) (rn_tasks r0)" "assert_all_done (\<lambda>s. s) r0 \<noteq> Inr ()"
    by (simp_all add: tasks fresh_record_def assert_all_done_def)
  from release_makes_progress [OF r0 runs.start cp this, of "\<lambda>_. ''t''"] r0 new_runner_tasks [OF r0]
  show ?thesis by auto
qed

text \<open>A mission that shares its ledger with another one is replayed alone: the replayed ledger keeps the identifier
  EVT-000002 as its only event, so the next automatic identifier is taken and no task can be released.\<close>

definition shared_run :: "(runner \<times> audit_event) res" where
  "shared_run =
     res_bind (ledger_append (take 8) ''t'' [] ''EVT-000001'' ''N'' ''X'' ''NOTE'' JNull None) (\<lambda>(shared, _).
     res_bind (new_runner ''M'' [''A'', ''B''] shared []) (\<lambda>r.
     transition (take 8) ''t'' r ''A'' READY (plain_args ''CP'')))"

definition replayed_runner :: "runner res" where
  "replayed_runner = res_bind shared_run (\<lambda>(r, _). replay (take 8) (\<lambda>_. ''t'') ''M'' [''A'', ''B''] (rn_ledger r) [])"

definition replayed_release :: "(runner \<times> string list res) res" where
  "replayed_release = res_bind replayed_runner (\<lambda>r. Inr (release_ready_tasks (take 8) (\<lambda>_. ''t'') ''CP'' r))"

theorem replayed_runner_cannot_release:
  "(case replayed_release of Inl _ \<Rightarrow> [] | Inr (r, result) \<Rightarrow> map (\<lambda>(t, rec). (t, tr_state rec)) (rn_tasks r)) =
     [(''A'', READY), (''B'', BACKLOG)] \<and>
   (case replayed_release of Inl _ \<Rightarrow> [] | Inr (r, result) \<Rightarrow> map ae_event_id (rn_ledger r)) = [''EVT-000002''] \<and>
   (case replayed_release of Inl _ \<Rightarrow> Inr [] | Inr (r, result) \<Rightarrow> result) =
     Inl (ValueError ''duplicate event id: EVT-000002'')"
  by (intro conjI; code_simp)

text \<open>C5. Graph validation accepts exactly the task lists with distinct ids, known dependencies and
  an acyclic dependency relation; the depth-first search always ends.\<close>

theorem validate_graph_correct:
  "validate_graph ns = Inr () \<longleftrightarrow>
     distinct (ids ns) \<and> (\<Union>n \<in> set ns. set (dependencies n)) \<subseteq> set (ids ns) \<and> acyclic (depends ns)"
  by (auto simp: validate_graph_spec)

text \<open>C6. The tasks invalidated by a change are exactly those downstream of it in the dependency
  graph, however the breadth-first traversal meets them, cycles included.\<close>

theorem invalidation_is_reachability:
  "set (invalidate_downstream c ns) = {t. (c, t) \<in> (dependents ns)\<^sup>+}"
  by (rule invalidate_downstream_spec)

text \<open>C7. Two ledgers that verify, of the same length and with the same head hash, hold the same events
  up to the order of keys in payloads, or exhibit a collision of the digest: no event can be altered
  in place undetected.\<close>

theorem ledger_tamper_evidence:
  assumes "verify_integrity sha es = Inr ()" "verify_integrity sha es' = Inr ()" "length es = length es'"
    and "last_hash ae_event_hash ''GENESIS'' es = last_hash ae_event_hash ''GENESIS'' es'"
  shows "map event_content es = map event_content es' \<or> collision sha event_material es es'"
  using ledger_chain.same_head_same_content [of es es' "''GENESIS''" sha] assms
  by (simp add: verify_integrity_def verify_from_iff)

definition example_ledger :: "json \<Rightarrow> audit_event list" where
  "example_ledger payload = (case ledger_append (\<lambda>s. s) ''t'' [] ''E1'' ''M'' ''A'' ''NOTE'' payload None of
     Inl _ \<Rightarrow> [] | Inr (es, _) \<Rightarrow> es)"

theorem ledger_tamper_evidence_witness:
  "map event_content (example_ledger (JObj [(''b'', JInt 1), (''a'', JNull)])) =
     map event_content (example_ledger (JObj [(''a'', JNull), (''b'', JInt 1)])) \<or>
   collision (\<lambda>s. s) event_material (example_ledger (JObj [(''b'', JInt 1), (''a'', JNull)]))
     (example_ledger (JObj [(''a'', JNull), (''b'', JInt 1)]))"
proof (rule ledger_tamper_evidence)
  show "verify_integrity (\<lambda>s. s) (example_ledger (JObj [(''b'', JInt 1), (''a'', JNull)])) = Inr ()"
    "verify_integrity (\<lambda>s. s) (example_ledger (JObj [(''a'', JNull), (''b'', JInt 1)])) = Inr ()"
    by (simp_all add: example_ledger_def ledger_append_def verify_integrity_def Let_def)
  show "length (example_ledger (JObj [(''b'', JInt 1), (''a'', JNull)])) =
      length (example_ledger (JObj [(''a'', JNull), (''b'', JInt 1)]))"
    by (simp add: example_ledger_def ledger_append_def Let_def)
  show "last_hash ae_event_hash ''GENESIS'' (example_ledger (JObj [(''b'', JInt 1), (''a'', JNull)])) =
      last_hash ae_event_hash ''GENESIS'' (example_ledger (JObj [(''a'', JNull), (''b'', JInt 1)]))"
    by (simp add: example_ledger_def ledger_append_def Let_def last_hash_def event_material_eq
        event_content_def new_event_def sort_literal)
qed

text \<open>C8. One append to the SQLite ledger is one append to the in-memory ledger it stands for: it
  returns the same event and stores its row, and succeeds in the same cases but for one: the table
  refuses an event whose digest equals an earlier one.\<close>

theorem durable_append_refines:
  assumes "holds_events rows es"
  shows "sql_append sha now rows i m a t p c = Inr (rows', e) \<longleftrightarrow>
     ledger_append sha now es i m a t p c = Inr (es @ [e], e) \<and> rows' = rows @ [row_of_event e] \<and>
     ae_event_hash e \<notin> ae_event_hash ` set es"
  using assms by (rule sql_append_refines)

theorem durable_append_refines_witness:
  "sql_append (\<lambda>s. s) ''t'' [] ''E1'' ''M'' ''A'' ''NOTE'' JNull None =
     Inr ([row_of_event (new_event (\<lambda>s. s) 1 ''E1'' ''M'' ''A'' ''NOTE'' JNull ''t'' ''GENESIS'')],
          new_event (\<lambda>s. s) 1 ''E1'' ''M'' ''A'' ''NOTE'' JNull ''t'' ''GENESIS'')"
  by (subst durable_append_refines [of "[]" "[]"])
     (simp_all add: holds_events_def ledger_append_Inr or_now_def)

text \<open>C9. After any run on a mission created in the store, restoring the runner from the tables
  succeeds and gives the same dictionary of task records, with the durable ledger attached.\<close>

theorem restore_rebuilds_runner:
  assumes "create_runner now m ns db = Inr (db1, r0)" "no_orphans db"
    and "holds_events (ml_events db) es0" "ledger_ok sha es0" "transitions_of m es0 = []"
    and "runs sha r0 r" "holds_events rows es" "map norm_event es = map norm_event (rn_ledger r)"
  shows "\<exists>r'. restore_runner sha clock m (db1\<lparr>ml_events := rows\<rparr>) = Inr r' \<and>
     map_of (rn_tasks r') = map_of (rn_tasks r) \<and> rn_ledger r' = map norm_event (rn_ledger r)"
  using restore_run [OF assms, of clock] by blast

theorem restore_rebuilds_runner_witness:
  "\<exists>db1 r0 r rows r'. create_runner ''t'' ''M'' [plain_node ''A'']
       \<lparr>ml_missions = [], ml_tasks = [], ml_events = []\<rparr> = Inr (db1, r0) \<and>
     runs (\<lambda>s. s) r0 r \<and> rn_ledger r \<noteq> [] \<and>
     restore_runner (\<lambda>s. s) (\<lambda>_. ''t'') ''M'' (db1\<lparr>ml_events := rows\<rparr>) = Inr r' \<and>
     map_of (rn_tasks r') = map_of (rn_tasks r)"
proof -
  let ?db = "\<lparr>ml_missions = [], ml_tasks = [], ml_events = []\<rparr>"
  obtain r0 r rec where r: "new_runner ''M'' [''A''] [] [] = Inr r0" "runs (\<lambda>s. s) r0 r" "rn_ledger r \<noteq> []"
    using example_run by blast
  have same: "new_runner ''M'' [''A''] [] [plain_node ''A''] = Inr r0"
    using r(1) by (simp add: new_runner_def Let_def)
  have graph: "validate_graph [plain_node ''A''] = Inr ()"
    using r(1) by (auto simp: new_runner_def Let_def)
  have ids: "ids [plain_node ''A''] = [''A'']" by (simp add: ids_def plain_node_def)
  have tables: "table_events [] = []" by (simp add: table_events_def sql_events_def)
  obtain db1 where c: "create_runner ''t'' ''M'' [plain_node ''A''] ?db = Inr (db1, r0)"
    using graph same by (auto simp: create_runner_Inr ids tables)
  have "runner_ok (\<lambda>s. s) r" using runs_ok [OF r(2)] new_runner_ok [OF r(1) ledger_ok_Nil] .
  then have rows: "holds_events (map row_of_event (rn_ledger r)) (rn_ledger r)"
    by (simp add: runner_ok_def ledger_ok_def verify_integrity_def verify_from_iff holds_events_def)
  have start: "no_orphans ?db" "holds_events (ml_events ?db) []" "ledger_ok (\<lambda>s. s) []" "transitions_of ''M'' [] = []"
    by (simp_all add: no_orphans_def holds_events_def ledger_ok_Nil transitions_of_def)
  from restore_rebuilds_runner [OF c start r(2) rows refl, of "\<lambda>_. ''t''"] c r show ?thesis by blast
qed

section \<open>Durable operations: retry, reconciliation, recovery\<close>

text \<open>C10. In any session with the controller, whatever its calls return or raise, the journal of an
  operation is consistent: its attempts are numbered 1, 2, ... without gaps, never more than
  \<open>max_attempts\<close>, and its status is the one the last recorded decision implies.\<close>

theorem journal_invariant_holds:
  assumes "rs_operations (ct_store (ctl_run calls (new_controller sink))) i = Some row"
  defines "st \<equiv> ct_store (ctl_run calls (new_controller sink))"
  shows "map at_attempt (attempts_of i st) = [1 .. or_latest_attempt row] \<and>
     or_latest_attempt row \<le> op_max_attempts (or_spec row) \<and>
     (if decisions_of i st = [] then or_status row = ''READY''
      else status_for (last (decisions_of i st)) = Inr (or_status row))"
  using run_row [OF assms(1)] unfolding st_def row_ok_def by (auto split: if_splits)

definition read_op :: operation_spec where
  "read_op = \<lparr>op_operation_id = ''O1'', op_mission_id = ''M'', op_effect_class = ''READ_ONLY'',
     op_max_attempts = 2, op_timeout_seconds = 30, op_idempotency_key = None,
     op_reconciliation_supported = False, op_compensation_ref = None\<rparr>"

definition write_op :: operation_spec where
  "write_op = \<lparr>op_operation_id = ''O1'', op_mission_id = ''M'', op_effect_class = ''EXTERNAL_WRITE'',
     op_max_attempts = 3, op_timeout_seconds = 30, op_idempotency_key = Some ''K'',
     op_reconciliation_supported = True, op_compensation_ref = None\<rparr>"

definition attempt_with :: "int \<Rightarrow> string \<Rightarrow> attempt_record" where
  "attempt_with n out = \<lparr>at_operation_id = ''O1'', at_attempt = n, at_outcome = out,
     at_error_code = None, at_reconciliation_result = None\<rparr>"

text \<open>The first calls of a session on one operation, computed step by step.\<close>

lemmas controller_eval = ctl_register_def record_attempt_def on_store_def asks_def ctl_trace_def
  act_bind_def transaction_def reading_def act_return_def store_register_def attempt_decision_def load_operation_def
  load_circuit_def decide_def decision_def retry_or_stop_def next_circuit_state_def circuit_stop_def
  append_attempt_and_decision_def append_metric_def status_for_def rel_log_def set_status_def count_metric_def
  operation_validate_def attempt_validate_def circuit_validate_def decision_validate_def metric_validate_def
  attempt_outcomes_def recovery_actions_def reconciliation_results_def default_circuit_def
  new_controller_def initialize_def is_space_def Let_def

lemma example_session:
  "\<exists>row. rs_operations (ct_store (ctl_run [(''t'', Register read_op),
      (''t'', RecordAttempt (attempt_with 1 ''RETRYABLE_FAILURE''))] (new_controller False))) ''O1'' = Some row \<and>
     or_status row = ''RETRY_READY'' \<and> or_latest_attempt row = 1"
  by (simp add: controller_eval read_op_def attempt_with_def)

theorem journal_invariant_holds_witness:
  "\<exists>row. rs_operations (ct_store (ctl_run [(''t'', Register read_op),
       (''t'', RecordAttempt (attempt_with 1 ''RETRYABLE_FAILURE''))] (new_controller False))) ''O1'' = Some row \<and>
     map at_attempt (attempts_of ''O1'' (ct_store (ctl_run [(''t'', Register read_op),
       (''t'', RecordAttempt (attempt_with 1 ''RETRYABLE_FAILURE''))] (new_controller False)))) = [1 .. or_latest_attempt row]"
  using example_session journal_invariant_holds by blast

text \<open>An operation that is COMPLETED or STOPPED is over: no further call on the controller, in any
  number or order, changes its row or adds an attempt.\<close>

theorem finished_is_final:
  assumes "rs_operations (ct_store s) i = Some row" "or_status row \<in> {''COMPLETED'', ''STOPPED''}"
  shows "rs_operations (ct_store (ctl_run calls s)) i = Some row \<and>
     attempts_of i (ct_store (ctl_run calls s)) = attempts_of i (ct_store s)"
  using finished.ctl_run_inv [of i row "attempts_of i (ct_store s)" s calls] assms
  by (simp add: finished_as_def)

definition completed_session :: rel_controller where
  "completed_session = ctl_run [(''t'', Register read_op), (''t'', RecordAttempt (attempt_with 1 ''SUCCESS''))]
     (new_controller False)"

lemma completed_session_row:
  "\<exists>row. rs_operations (ct_store completed_session) ''O1'' = Some row \<and> or_status row = ''COMPLETED'' \<and>
     op_mission_id (or_spec row) = ''M''"
  by (simp add: completed_session_def controller_eval read_op_def attempt_with_def)

theorem finished_is_final_witness:
  "\<exists>row. or_status row = ''COMPLETED'' \<and>
     rs_operations (ct_store (ctl_run [(''u'', RecordAttempt (attempt_with 2 ''SUCCESS''))] completed_session)) ''O1''
       = Some row"
proof -
  obtain row where row: "rs_operations (ct_store completed_session) ''O1'' = Some row" "or_status row = ''COMPLETED''"
    using completed_session_row by blast
  then have "or_status row \<in> {''COMPLETED'', ''STOPPED''}" by simp
  from finished_is_final [OF row(1) this, of "[(''u'', RecordAttempt (attempt_with 2 ''SUCCESS''))]"] row(2)
  show ?thesis by blast
qed

text \<open>C11. The decision engine answers every valid request, with the action of the decision table, a
  reason, and the number of the next attempt exactly when it asks for a retry.\<close>

theorem decide_follows_table:
  assumes "decidable op a c"
  shows "\<exists>reason. decide op a (Some c) = Inr \<lparr>rd_operation_id = op_operation_id op,
     rd_action = action_of op a c, rd_reason = reason,
     rd_next_attempt = (if action_of op a c = ''RETRY'' then Some (at_attempt a + 1) else None)\<rparr> \<and>
     \<not> blank reason"
  using assms by (rule decide_eq)

lemma decidable_example: "decidable write_op (attempt_with 1 ''UNKNOWN'') default_circuit"
  by (simp add: decidable_def write_op_def attempt_with_def operation_validate_def attempt_validate_def
      circuit_validate_def default_circuit_def attempt_outcomes_def is_space_def blank_opt_def)

theorem decide_follows_table_witness:
  "\<exists>reason. decide write_op (attempt_with 1 ''UNKNOWN'') (Some default_circuit) =
     Inr \<lparr>rd_operation_id = ''O1'', rd_action = ''RECONCILE'', rd_reason = reason, rd_next_attempt = None\<rparr>"
  using decide_follows_table [OF decidable_example]
  by (auto simp: action_of_def default_circuit_def write_op_def attempt_with_def)

text \<open>An external write whose outcome is unknown is never retried blindly: the engine retries it
  only when reconciliation has confirmed that it was not applied, completes it only when
  reconciliation has confirmed that it was, and never retries beyond \<open>max_attempts\<close>.\<close>

theorem no_blind_retry:
  assumes "decide op a (Some c) = Inr d" "op_effect_class op = ''EXTERNAL_WRITE''" "at_outcome a = ''UNKNOWN''"
  shows "(rd_action d = ''RETRY'' \<longrightarrow>
       at_reconciliation_result a = Some ''NOT_APPLIED'' \<and> at_attempt a < op_max_attempts op) \<and>
     (rd_action d = ''COMPLETE'' \<longrightarrow> at_reconciliation_result a = Some ''APPLIED'')"
  using decide_valid(3) [OF assms(1)] assms(2,3) by (auto simp: action_of_def Let_def split: if_splits)

theorem no_blind_retry_witness:
  "\<exists>d. decide write_op (attempt_with 1 ''UNKNOWN'') (Some default_circuit) = Inr d \<and>
     rd_action d \<notin> {''RETRY'', ''COMPLETE''}"
proof -
  obtain d where d: "decide write_op (attempt_with 1 ''UNKNOWN'') (Some default_circuit) = Inr d"
    using decide_eq [OF decidable_example] by blast
  have "op_effect_class write_op = ''EXTERNAL_WRITE''" "at_outcome (attempt_with 1 ''UNKNOWN'') = ''UNKNOWN''"
    "at_reconciliation_result (attempt_with 1 ''UNKNOWN'') = None"
    by (simp_all add: write_op_def attempt_with_def)
  with no_blind_retry [OF d this(1,2)] d show ?thesis by auto
qed

text \<open>The circuit breaker counts the failures since the last success and is OPEN exactly when
  there are three or more of them.\<close>

theorem circuit_counts_failures:
  assumes "list_all (\<lambda>a. attempt_validate a = Inr ()) as"
  shows "circuit_after default_circuit as =
     Inr \<lparr>cb_state = (if 3 \<le> recent_failures as then ''OPEN'' else ''CLOSED''),
          cb_consecutive_failures = int (recent_failures as), cb_failure_threshold = 3\<rparr>"
  using assms by (rule circuit_after_eq)

theorem circuit_counts_failures_witness:
  "circuit_after default_circuit [attempt_with 1 ''SUCCESS'', attempt_with 2 ''UNKNOWN''] =
     Inr \<lparr>cb_state = ''CLOSED'', cb_consecutive_failures = 1, cb_failure_threshold = 3\<rparr>"
  by (subst circuit_counts_failures)
     (simp_all add: attempt_with_def attempt_validate_def attempt_outcomes_def is_space_def recent_failures_def)

text \<open>C12. After any session, the recovery of a mission from the journal succeeds for every list of its
  operations and tells for each what its status implies; it declares the mission safe to continue
  exactly when no operation waits for reconciliation or is stopped.\<close>

theorem recovery_reports_journal:
  fixes calls sink
  defines "st \<equiv> ct_store (ctl_run calls (new_controller sink))"
  assumes "\<not> blank m" "is \<noteq> []" "distinct is"
    and "list_all (\<lambda>i. map_option (op_mission_id \<circ> or_spec) (rs_operations st i) = Some m) is"
  shows "\<exists>r. recover st m is = Inr r \<and> map ri_operation_id (rr_items r) = is \<and>
     map ri_action (rr_items r) = map (\<lambda>i. item_action (or_status (the (rs_operations st i)))) is \<and>
     (rr_safe_to_continue r \<longleftrightarrow>
       list_all (\<lambda>i. or_status (the (rs_operations st i)) \<notin> {''RECONCILE_REQUIRED'', ''STOPPED''}) is)"
proof -
  have "\<forall>i \<in> set is. \<exists>row. rs_operations st i = Some row \<and> op_mission_id (or_spec row) = m"
    using assms(5) by (force simp: list_all_iff)
  from recover_Inr [OF session_ok [of calls sink, folded st_def] assms(2-4) this] show ?thesis
    by (fastforce simp: list_all_iff item_action_def split: if_splits)
qed

theorem recovery_reports_journal_witness:
  "\<exists>r. recover (ct_store completed_session) ''M'' [''O1''] = Inr r \<and> rr_safe_to_continue r"
proof -
  obtain row where row: "rs_operations (ct_store completed_session) ''O1'' = Some row" "or_status row = ''COMPLETED''"
      "op_mission_id (or_spec row) = ''M''"
    using completed_session_row by blast
  then have "list_all (\<lambda>i. map_option (op_mission_id \<circ> or_spec) (rs_operations (ct_store completed_session) i)
      = Some ''M'') [''O1'']" using row(1) by simp
  moreover have "\<not> blank ''M''" by (simp add: is_space_def)
  ultimately show ?thesis
    using recovery_reports_journal [of "''M''" "[''O1'']" "[(''t'', Register read_op),
      (''t'', RecordAttempt (attempt_with 1 ''SUCCESS''))]" False] row
    unfolding completed_session_def [symmetric] by auto
qed

definition awaiting_session :: rel_controller where
  "awaiting_session = ctl_run [(''t'', Register write_op), (''t'', RecordAttempt (attempt_with 1 ''UNKNOWN''))]
     (new_controller False)"

text \<open>The controller does not hold back attempts while an operation waits for reconciliation: after
  an external write of unknown outcome (status RECONCILE_REQUIRED) a second attempt is accepted and
  completes the operation, with no reconciliation in the journal. The store refuses attempts only
  for COMPLETED and STOPPED operations.\<close>

theorem attempt_before_reconciliation:
  "map_option or_status (rs_operations (ct_store awaiting_session) ''O1'') = Some ''RECONCILE_REQUIRED'' \<and>
   map_option or_status (rs_operations (ct_store
     (ctl_step ''u'' (RecordAttempt (attempt_with 2 ''SUCCESS'')) awaiting_session)) ''O1'') = Some ''COMPLETED'' \<and>
   map (event_type \<circ> re_payload) (rs_events (ct_store
     (ctl_step ''u'' (RecordAttempt (attempt_with 2 ''SUCCESS'')) awaiting_session))) =
     [''ATTEMPT'', ''DECISION'', ''CIRCUIT'', ''ATTEMPT'', ''DECISION'', ''CIRCUIT'']"
  by (simp add: awaiting_session_def controller_eval write_op_def attempt_with_def blank_opt_def)

section \<open>Catalog: artifacts, budgets, approvals\<close>

text \<open>C16. Whatever is done to the catalog, a decided approval keeps its decision, its decider and the
  action it was given for.\<close>

theorem approvals_are_final:
  assumes "ca_approvals c p = Some r" "ap_status r \<noteq> ''PENDING''"
  shows "ca_approvals (catalog_run sha calls c) p = Some r"
  using catalog_run_decided [of p r c sha calls] assms by (simp add: decided_def)

definition example_approvals :: catalog where
  "example_approvals = catalog_run (\<lambda>s. s)
     [(''t'', ProposeAction ''P'' ''M'' ''DEPLOY'' ''web'' True), (''t'', DecideAction ''P'' True ''owner'' None)] empty_catalog"

lemma example_approvals_row:
  "\<exists>r. ca_approvals example_approvals ''P'' = Some r \<and> ap_status r = ''APPROVED'' \<and> ap_mission_id r = ''M''"
  by (simp add: example_approvals_def empty_catalog_def propose_action_def decide_action_def after_def foreign_def Let_def)

theorem approvals_are_final_witness:
  "\<exists>r. ap_status r = ''APPROVED'' \<and>
     ca_approvals (catalog_run (\<lambda>s. s) [(''u'', DecideAction ''P'' False ''other'' None)] example_approvals) ''P'' = Some r"
proof -
  obtain r where r: "ca_approvals example_approvals ''P'' = Some r" "ap_status r = ''APPROVED''"
    using example_approvals_row by blast
  then have "ap_status r \<noteq> ''PENDING''" by simp
  from approvals_are_final [OF r(1) this] r(2) show ?thesis by blast
qed

text \<open>C17. Mission isolation: whatever other missions do through their scoped catalogs, the artifacts,
  the budget and the approvals of a mission do not change.\<close>

theorem missions_are_isolated:
  assumes "list_all (\<lambda>(now, m, call). m \<noteq> m') calls"
  shows "mission_view m' (scopes_run sha calls c) = mission_view m' c"
  using assms by (intro scopes_run_other) (simp add: list_all_iff)

theorem missions_are_isolated_witness:
  "mission_view ''M'' (scopes_run (\<lambda>s. s) [(''t'', ''N'', ScopeSetBudget 5), (''t'', ''N'', ScopeConsumeBudget 2),
     (''t'', ''N'', ScopeDecideAction ''P'' False ''x'')] example_approvals) = mission_view ''M'' example_approvals"
  by (rule missions_are_isolated) simp

text \<open>In every reachable catalog, the artifact just added is the latest version, its version is
  one more than the number of versions before it, and it carries the digest of its content.\<close>

theorem added_artifact_is_latest:
  assumes "add_artifact sha now m a body author mt (catalog_run sha calls empty_catalog) = Inr (c', row)"
  shows "latest_artifact m a c' = Inr row \<and>
     af_version row = length (versions_of m a (catalog_run sha calls empty_catalog)) + 1 \<and>
     af_content_hash row = sha body"
proof -
  have ok: "catalog_ok sha (catalog_run sha calls empty_catalog)" using catalog_run_ok [OF empty_catalog_ok] .
  then have "af_version row = length (versions_of m a (catalog_run sha calls empty_catalog)) + 1"
    using assms next_version_eq by (auto simp: add_artifact_Inr catalog_ok_def)
  with latest_added [OF ok assms] assms show ?thesis by (auto simp: add_artifact_Inr)
qed

theorem added_artifact_is_latest_witness:
  "\<exists>c' row. add_artifact (\<lambda>s. s) ''t'' ''M'' ''doc'' ''two'' ''A'' ''text/plain''
       (catalog_run (\<lambda>s. s) [(''t'', AddArtifact ''M'' ''doc'' ''one'' ''A'' ''text/plain'')] empty_catalog) = Inr (c', row) \<and>
     latest_artifact ''M'' ''doc'' c' = Inr row"
proof -
  obtain c' row where add: "add_artifact (\<lambda>s. s) ''t'' ''M'' ''doc'' ''two'' ''A'' ''text/plain''
       (catalog_run (\<lambda>s. s) [(''t'', AddArtifact ''M'' ''doc'' ''one'' ''A'' ''text/plain'')] empty_catalog) = Inr (c', row)"
    by (auto simp: add_artifact_Inr)
  from added_artifact_is_latest [OF add] add show ?thesis by blast
qed

text \<open>C18. In any session on the catalog, the units a mission has consumed never exceed the largest
  limit it was ever given.\<close>

theorem consumption_within_limit:
  assumes "list_all (\<lambda>(now, call). limits_within m l call) calls" "0 \<le> l"
    and "ca_budgets (catalog_run sha calls empty_catalog) m = Some b"
  shows "bu_consumed_units b \<le> l"
  using catalog_run_consumed [OF _ assms(1,2), of empty_catalog sha] assms(3)
  by (simp add: consumed_within_def empty_catalog_def)

theorem consumption_within_limit_witness:
  "\<exists>b. ca_budgets (catalog_run (\<lambda>s. s) [(''t'', SetBudget ''M'' 3), (''t'', ConsumeBudget ''M'' 2),
     (''t'', ConsumeBudget ''M'' 2)] empty_catalog) ''M'' = Some b \<and> bu_consumed_units b \<le> 3"
proof -
  let ?calls = "[(''t'', SetBudget ''M'' 3), (''t'', ConsumeBudget ''M'' 2), (''t'', ConsumeBudget ''M'' 2)]"
  obtain b where b: "ca_budgets (catalog_run (\<lambda>s. s) ?calls empty_catalog) ''M'' = Some b"
    by (simp add: empty_catalog_def set_budget_def consume_budget_def after_def Let_def)
  have "list_all (\<lambda>(now, call). limits_within ''M'' 3 call) ?calls" by (simp add: limits_within_def)
  from consumption_within_limit [OF this _ b] b show ?thesis by auto
qed

section \<open>Incidents\<close>

lemma verified_in_history:
  "snd (history_state es) \<Longrightarrow> list_ex (\<lambda>e. iv_event_type e = ''RECOVERY_VERIFIED'') es"
  by (induction es rule: rev_induct) (auto simp: history_step_def history_state_def split: if_splits)

text \<open>In any session, a CLOSED incident has recorded evidence and its history contains a recovery
  verification.\<close>

theorem closure_needs_verified_recovery:
  fixes sha calls
  defines "db \<equiv> fst (response_run sha calls (empty_incidents, empty_catalog))"
  assumes "db_incidents db i = Some r" "in_status r = ''CLOSED''"
  shows "has_evidence i db \<and> list_ex (\<lambda>e. iv_event_type e = ''RECOVERY_VERIFIED'') (history_of i db)"
proof -
  have ok: "incidents_ok sha db"
    unfolding db_def using empty_incidents_ok by (intro response_run_ok) simp
  note row = incident_row [OF ok assms(2)]
  from row(4) row(5) [OF assms(3)] row(2) verified_in_history [of "history_of i db"] show ?thesis by simp
qed

text \<open>C19. In any session of incident and catalog calls, the history of every incident verifies and the
  status and recovery flag of its row are the ones the history records; a CLOSED incident has recorded
  evidence and a recovery verification in its history.\<close>

theorem incident_history_is_faithful:
  assumes "db_incidents (fst (response_run sha calls (empty_incidents, empty_catalog))) i = Some r"
  defines "db \<equiv> fst (response_run sha calls (empty_incidents, empty_catalog))"
  shows "verify_history sha i (in_mission_id r) db = Inr () \<and>
     history_state (history_of i db) = (in_status r, in_recovery_verified r) \<and>
     (in_status r = ''CLOSED'' \<longrightarrow> has_evidence i db \<and>
        list_ex (\<lambda>e. iv_event_type e = ''RECOVERY_VERIFIED'') (history_of i db))"
proof -
  have ok: "incidents_ok sha db"
    unfolding db_def using empty_incidents_ok by (intro response_run_ok) simp
  then have "log_ok sha i db" by (simp add: incidents_ok_def incident_ok_def)
  then have "chain_ok sha (history_of i db)" using log_ok_history [of sha i db] by (simp add: log_ok_def)
  with incident_row(2) [OF ok] assms(1) have "verify_history sha i (in_mission_id r) db = Inr ()"
    "history_state (history_of i db) = (in_status r, in_recovery_verified r)"
    by (auto simp: verify_history_iff db_def)
  with closure_needs_verified_recovery [of sha calls i r, folded db_def] assms(1) show ?thesis by (simp add: db_def)
qed

lemmas incident_eval = declare_incident_def transition_incident_def record_evidence_def plan_action_def
  mark_action_executed_def verify_recovery_def append_incident_event_def owned_incident_def get_incident_def
  empty_incidents_def incident_severities_def incident_statuses_def allowed_incident_def outcome_def
  history_of_def last_hash_def require_approval_def is_action_def falsy_def is_space_def Let_def

definition declared_calls :: "(string \<times> response_call) list" where
  "declared_calls = [(''t'', OnIncidents (Declare ''I'' ''M'' ''SEV1'' ''x'' ''me'' [''db'']))]"

lemma declared_row:
  "\<exists>r. db_incidents (fst (response_run (\<lambda>s. s) declared_calls (empty_incidents, empty_catalog))) ''I'' = Some r \<and>
     in_mission_id r = ''M'' \<and> in_status r = ''DECLARED''"
  by (simp add: declared_calls_def incident_eval)

theorem incident_history_is_faithful_witness:
  "verify_history (\<lambda>s. s) ''I'' ''M'' (fst (response_run (\<lambda>s. s) declared_calls (empty_incidents, empty_catalog)))
     = Inr ()"
proof -
  obtain r where "db_incidents (fst (response_run (\<lambda>s. s) declared_calls (empty_incidents, empty_catalog))) ''I'' = Some r"
    "in_mission_id r = ''M''" using declared_row by blast
  from incident_history_is_faithful [OF this(1)] this(2) show ?thesis by simp
qed

text \<open>An incident driven to MONITORING with its recovery verified once, reopened, and closed.\<close>

definition reopened_calls :: "(string \<times> response_call) list" where
  "reopened_calls = [
     (''1'', OnIncidents (Declare ''I'' ''M'' ''SEV1'' ''x'' ''me'' [''db''])),
     (''2'', OnIncidents (Transition ''I'' ''M'' ''me'' ''TRIAGED'')),
     (''3'', OnIncidents (Transition ''I'' ''M'' ''me'' ''CONTAINING'')),
     (''4'', OnIncidents (Transition ''I'' ''M'' ''me'' ''CONTAINED'')),
     (''5'', OnIncidents (Transition ''I'' ''M'' ''me'' ''RECOVERING'')),
     (''6'', OnIncidents (RecordEvidence ''I'' ''M'' ''E'' ''log'' ''r'' ''me'')),
     (''7'', OnIncidents (VerifyRecovery ''I'' ''M'' ''me'' ''E'')),
     (''8'', OnIncidents (Transition ''I'' ''M'' ''me'' ''MONITORING'')),
     (''9'', OnIncidents (Transition ''I'' ''M'' ''me'' ''RECOVERING'')),
     (''a'', OnIncidents (Transition ''I'' ''M'' ''me'' ''MONITORING'')),
     (''b'', OnIncidents (Transition ''I'' ''M'' ''me'' ''CLOSED''))]"

definition reopened_db :: incident_db where
  "reopened_db = fst (response_run (take 40) reopened_calls (empty_incidents, empty_catalog))"

definition incident_summary :: "incident_db \<Rightarrow> string option \<times> string list" where
  "incident_summary db = (map_option in_status (db_incidents db ''I''), map iv_event_type (history_of ''I'' db))"

lemma reopened_summary:
  "incident_summary reopened_db = (Some ''CLOSED'',
     [''INCIDENT_DECLARED'', ''STATUS_CHANGED'', ''STATUS_CHANGED'', ''STATUS_CHANGED'', ''STATUS_CHANGED'',
      ''EVIDENCE_RECORDED'', ''RECOVERY_VERIFIED'', ''STATUS_CHANGED'', ''STATUS_CHANGED'', ''STATUS_CHANGED'',
      ''STATUS_CHANGED''])"
  by code_simp

lemmas reopened_run = reopened_summary [unfolded incident_summary_def prod.inject]

theorem closure_needs_verified_recovery_witness:
  "has_evidence ''I'' reopened_db \<and>
   list_ex (\<lambda>e. iv_event_type e = ''RECOVERY_VERIFIED'') (history_of ''I'' reopened_db)"
proof -
  obtain r where r: "db_incidents reopened_db ''I'' = Some r" "in_status r = ''CLOSED''"
    using reopened_run by (cases "db_incidents reopened_db ''I''") auto
  from closure_needs_verified_recovery [OF r [unfolded reopened_db_def]] show ?thesis
    by (simp add: reopened_db_def)
qed

text \<open>Reopening an incident (MONITORING back to RECOVERING) does not reset its recovery
  verification: after one verification it can be reopened, monitored again and closed without the
  second recovery ever being verified.\<close>

theorem reopened_incident_closes_unverified:
  "\<exists>r. db_incidents reopened_db ''I'' = Some r \<and> in_status r = ''CLOSED'' \<and>
     map iv_event_type (drop 7 (history_of ''I'' reopened_db)) = replicate 4 ''STATUS_CHANGED''"
  using reopened_run by (cases "db_incidents reopened_db ''I''") (auto simp: drop_map [symmetric] numeral_eq_Suc)

text \<open>C20. However incident calls and approvals are interleaved, every executed protected action has an
  approval in the catalog, APPROVED, given for the mission of its incident.\<close>

theorem protected_actions_are_approved:
  fixes sha calls
  defines "s \<equiv> response_run sha calls (empty_incidents, empty_catalog)"
  assumes "find (is_action i act) (db_actions (fst s)) = Some a" "ia_status a = ''EXECUTED''" "ia_protected a"
  shows "\<exists>p r inc. ia_proposal_id a = Some p \<and> ca_approvals (snd s) p = Some r \<and> ap_status r = ''APPROVED'' \<and>
     db_incidents (fst s) i = Some inc \<and> ap_mission_id r = in_mission_id inc"
proof -
  have "all_authorised (empty_incidents, empty_catalog)" by (simp add: all_authorised_def empty_incidents_def)
  then have "all_authorised s" unfolding s_def by (rule response_run_authorised)
  moreover have "a \<in> set (db_actions (fst s))" "ia_incident_id a = i"
    using assms(2) by (auto simp: find_Some_iff is_action_def)
  ultimately show ?thesis using assms(3,4) by (auto simp: all_authorised_def list_all_iff authorised_def)
qed

text \<open>A protected action carried out under an approval that was given for something else.\<close>

definition other_approval_calls :: "(string \<times> response_call) list" where
  "other_approval_calls = [
     (''1'', OnIncidents (Declare ''I'' ''M'' ''SEV1'' ''x'' ''me'' [''db''])),
     (''2'', OnCatalog (ProposeAction ''P'' ''M'' ''NOTIFY'' ''mail'' False)),
     (''3'', OnCatalog (DecideAction ''P'' True ''owner'' None)),
     (''4'', OnIncidents (PlanAction ''I'' ''M'' ''A'' ''DELETE'' ''db'' True ''me'' (Some ''P''))),
     (''5'', OnIncidents (MarkExecuted ''I'' ''M'' ''A'' ''me''))]"

definition other_approval_state :: "incident_db \<times> catalog" where
  "other_approval_state = response_run (take 40) other_approval_calls (empty_incidents, empty_catalog)"

definition action_summary :: "incident_db \<times> catalog \<Rightarrow> (string \<times> string \<times> string \<times> string \<times> bool \<times> string option) list \<times>
     (string \<times> string \<times> bool \<times> string) option" where
  "action_summary s = (map (\<lambda>a. (ia_incident_id a, ia_action_id a, ia_action_type a, ia_status a, ia_protected a,
       ia_proposal_id a)) (db_actions (fst s)),
     map_option (\<lambda>r. (ap_action_type r, ap_target r, ap_protected r, ap_status r)) (ca_approvals (snd s) ''P''))"

lemma other_approval_run:
  "action_summary other_approval_state = ([(''I'', ''A'', ''DELETE'', ''EXECUTED'', True, Some ''P'')],
     Some (''NOTIFY'', ''mail'', False, ''APPROVED''))"
  by code_simp

lemma other_approval_action:
  "\<exists>a. find (is_action ''I'' ''A'') (db_actions (fst other_approval_state)) = Some a \<and> ia_action_type a = ''DELETE'' \<and>
     ia_status a = ''EXECUTED'' \<and> ia_protected a \<and> ia_proposal_id a = Some ''P''"
proof -
  obtain a where "db_actions (fst other_approval_state) = [a]" "ia_incident_id a = ''I''" "ia_action_id a = ''A''"
    "ia_action_type a = ''DELETE''" "ia_status a = ''EXECUTED''" "ia_protected a" "ia_proposal_id a = Some ''P''"
    using other_approval_run by (auto simp: action_summary_def map_eq_Cons_conv)
  then show ?thesis by (simp add: is_action_def)
qed

theorem protected_actions_are_approved_witness:
  "\<exists>p r inc. ca_approvals (snd other_approval_state) p = Some r \<and> ap_status r = ''APPROVED'' \<and>
     db_incidents (fst other_approval_state) ''I'' = Some inc \<and> ap_mission_id r = in_mission_id inc"
proof -
  obtain a where a: "find (is_action ''I'' ''A'') (db_actions (fst other_approval_state)) = Some a"
    "ia_status a = ''EXECUTED''" "ia_protected a" using other_approval_action by blast
  from protected_actions_are_approved [OF a [unfolded other_approval_state_def]] show ?thesis
    unfolding other_approval_state_def by blast
qed

text \<open>The approval a protected action is executed under need not be for that action: an approved
  unprotected NOTIFY proposal of the same mission lets a protected DELETE be marked as executed.
  Type, target and protection of the proposal are never compared with the action.\<close>

theorem approval_for_another_action:
  "\<exists>a r. find (is_action ''I'' ''A'') (db_actions (fst other_approval_state)) = Some a \<and>
     ia_action_type a = ''DELETE'' \<and> ia_status a = ''EXECUTED'' \<and> ia_protected a \<and> ia_proposal_id a = Some ''P'' \<and>
     ca_approvals (snd other_approval_state) ''P'' = Some r \<and> ap_action_type r = ''NOTIFY'' \<and> \<not> ap_protected r"
  using other_approval_action other_approval_run by (auto simp: action_summary_def)

section \<open>Pods: design, engineering, assurance\<close>

text \<open>A design bundle is ready to build exactly when its parts are valid and it is traceable: ids are
  unique, every reference is to a requirement of the bundle, and every MUST requirement has an
  acceptance criterion and is covered by the architecture or a UX flow.\<close>

theorem build_ready_is_traceable:
  "is_build_ready b = Inr True \<longleftrightarrow> bundle_validate b = Inr () \<and> traceable b"
  by (rule is_build_ready_iff)

text \<open>C23. Whatever the workers of the design pod do, a bundle that a run returns is ready to build, is of the
  mission, and is the next version of the published design-bundle artifact; a run that raises
  publishes nothing.\<close>

theorem design_run_publishes_ready_bundle:
  "publishes_ready sha m s (design_run sha clock pod m objective author s)"
  by (rule design_run_result)

text \<open>C24. The plan validator finds nothing blocking exactly for the plans that obey the rules: unique ids; complete
  packages with the owner of their discipline; known requirements and dependencies; scopes that denote paths; an acyclic
  dependency relation; every MUST requirement owned; and no two packages, unordered by dependencies, one of whose
  scopes is or lies below a scope of the other. The rules are stated over lists of path components, and compare them as
  written: a component that is empty or a single dot counts as a name.\<close>

theorem plan_accepted_iff_sound:
  "(\<exists>fs. eng_plan_validate design ps = Inr fs \<and> blocking fs = []) \<longleftrightarrow> bundle_validate design = Inr () \<and> plan_ok design ps"
proof -
  have "bundle_validate design = Inr () \<longleftrightarrow> (\<exists>fs. eng_plan_validate design ps = Inr fs)"
    by (simp add: eng_plan_validate_def)
  then show ?thesis using plan_accepted by blast
qed

text \<open>A design of one requirement and a plan of two packages for it.\<close>

definition example_design :: design_bundle where
  "example_design = \<lparr>dg_mission_id = ''M'', dg_product_summary = ''p'', dg_non_goals = [],
     dg_requirements = [\<lparr>rq_requirement_id = ''R1'', rq_statement = ''s'', rq_priority = ''MUST'', rq_source = ''MISSION''\<rparr>],
     dg_acceptance_criteria = [], dg_architecture_decisions = [], dg_ux_flows = [], dg_assumptions = [], dg_risks = []\<rparr>"

definition example_package :: "string \<Rightarrow> string list \<Rightarrow> string \<Rightarrow> package" where
  "example_package i ds scope = \<lparr>pk_package_id = i, pk_mission_id = ''M'', pk_owner_agent = ''A06-BACKEND'',
     pk_discipline = ''BACKEND'', pk_objective = ''o'', pk_requirement_ids = [''R1''], pk_depends_on = ds,
     pk_write_scopes = [scope], pk_expected_artifacts = [i], pk_verification_methods = [''test'']\<rparr>"

definition example_plan :: "package list" where
  "example_plan = [example_package ''P2'' [''P1''] ''src'', example_package ''P1'' [] ''src/api'']"

lemma example_plan_ok: "plan_ok example_design example_plan"
proof -
  have "eng_plan_validate example_design example_plan = Inr []" by code_simp
  then show ?thesis by (simp add: plan_findings_iff [symmetric])
qed

text \<open>C25. Every accepted plan can be executed: the ordering of its packages never deadlocks, contains every
  package once, and puts each after the packages it depends on.\<close>

theorem accepted_plan_never_deadlocks:
  assumes "plan_ok design ps"
  shows "\<exists>order. execution_order ps = Inr order \<and> mset order = mset ps \<and> in_dependency_order [] order"
  using assms by (rule plan_has_order)

theorem accepted_plan_never_deadlocks_witness:
  "\<exists>order. execution_order example_plan = Inr order \<and> in_dependency_order [] order"
  using accepted_plan_never_deadlocks [OF example_plan_ok] by blast

text \<open>C26. A completed engineering run is sound, whatever the planner and the workers do. Observing the planner and the
  workers does not change the run, and shows its calls: first the planner, which revises its plan at most the given number
  of times until it obeys the rules; then every package of that plan once, in an order where each comes after its
  dependencies, given in its own workspace to the worker registered for the owner of its discipline and to no other,
  which revises its evidence at most the given number of times until it is sound. That evidence is what the run returns
  for the package and what the integration manifest is made of, which lists every changed path, verification and artifact once.\<close>

theorem engineering_run_sound:
  assumes "run_integrated sha clock pod design author ((w, a), c) = (((w', a'), c'), Inr (es, g))"
  shows "\<exists>plan order calls plan_calls dispatches.
     run_integrated sha (eng_clock clock) (observed pod) design author (((w, []), a), c) = ((((w', calls), a'), c'), Inr (es, g)) \<and>
     plan_ok design plan \<and> mset order = mset plan \<and> in_dependency_order [] order \<and>
     calls = plan_calls @ concat dispatches \<and> planning pod design plan plan_calls \<and>
     length es = length order \<and> length dispatches = length order \<and>
     (\<forall>i < length order. handed_out pod (order ! i) (es ! i) (dispatches ! i)) \<and>
     integrates (dg_mission_id design) plan (delivered order es) (map pk_package_id order) g"
  using run_integrated_observed [OF assms] unfolding run_sound_def run_calls_def by blast

definition example_evidence :: "string \<Rightarrow> string \<Rightarrow> manifest" where
  "example_evidence i path = \<lparr>mf_package_id = i, mf_changed_paths = [path], mf_produced_artifacts = [i],
     mf_verification_results = [\<lparr>vr_verification_id = i, vr_method = ''test'', vr_status = ''PASS'', vr_evidence_ref = ''e''\<rparr>]\<rparr>"

definition example_pod :: "unit engineering_pod" where
  "example_pod = \<lparr>ep_planner = \<lparr>pl_plan_engineering = \<lambda>_. act_return example_plan, pl_revise = None\<rparr>,
     ep_workers = [(''A06-BACKEND'', \<lparr>ew_agent_id = ''A06-BACKEND'', ew_discipline = ''BACKEND'',
       ew_implement = (\<lambda>_ p _. act_return (example_evidence (pk_package_id p) (''src/api/'' @ pk_package_id p))),
       ew_revise = None\<rparr>)],
     ep_max_plan_rounds = 2, ep_max_implementation_rounds = 2\<rparr>"

lemma example_pod_run: "is_ok (snd (run_integrated (\<lambda>s. s) (\<lambda>w. (w, ''t'')) example_pod example_design ''me'' (((), []), None)))"
  by code_simp

lemma example_pod_calls:
  "snd (fst (fst (fst (run_integrated (\<lambda>s. s) (eng_clock (\<lambda>w. (w, ''t''))) (observed example_pod) example_design ''me''
      ((((), []), []), None))))) =
   [Planned example_plan,
    Implemented ''A06-BACKEND'' (example_package ''P1'' [] ''src/api'') ''M:P1'' (example_evidence ''P1'' ''src/api/P1''),
    Implemented ''A06-BACKEND'' (example_package ''P2'' [''P1''] ''src'') ''M:P2'' (example_evidence ''P2'' ''src/api/P2'')]"
  by code_simp

text \<open>The example runs the package \<open>P1\<close> before \<open>P2\<close>, which depends on it.\<close>

theorem engineering_run_sound_witness:
  "\<exists>plan g order es dispatches. plan_ok example_design plan \<and> in_dependency_order [] order \<and>
     integrates (dg_mission_id example_design) plan (delivered order es) (map pk_package_id order) g \<and>
     (\<forall>i < length order. handed_out example_pod (order ! i) (es ! i) (dispatches ! i)) \<and>
     (\<exists>plan_calls. plan_calls @ concat dispatches = [Planned example_plan,
    Implemented ''A06-BACKEND'' (example_package ''P1'' [] ''src/api'') ''M:P1'' (example_evidence ''P1'' ''src/api/P1''),
    Implemented ''A06-BACKEND'' (example_package ''P2'' [''P1''] ''src'') ''M:P2'' (example_evidence ''P2'' ''src/api/P2'')])"
proof -
  obtain w' a' c' es g where "run_integrated (\<lambda>s. s) (\<lambda>w. (w, ''t'')) example_pod example_design ''me'' (((), []), None) =
      (((w', a'), c'), Inr (es, g))"
    using example_pod_run unfolding is_ok_iff by (metis surj_pair snd_conv)
  from engineering_run_sound [OF this] obtain plan order calls plan_calls dispatches where
    run: "run_integrated (\<lambda>s. s) (eng_clock (\<lambda>w. (w, ''t''))) (observed example_pod) example_design ''me'' ((((), []), []), None) =
      ((((w', calls), a'), c'), Inr (es, g))"
    and calls: "calls = plan_calls @ concat dispatches" and plan: "plan_ok example_design plan" "in_dependency_order [] order"
      "integrates (dg_mission_id example_design) plan (delivered order es) (map pk_package_id order) g"
      "\<forall>i < length order. handed_out example_pod (order ! i) (es ! i) (dispatches ! i)"
    by (elim exE conjE) blast
  from example_pod_calls have "calls = [Planned example_plan,
    Implemented ''A06-BACKEND'' (example_package ''P1'' [] ''src/api'') ''M:P1'' (example_evidence ''P1'' ''src/api/P1''),
    Implemented ''A06-BACKEND'' (example_package ''P2'' [''P1''] ''src'') ''M:P2'' (example_evidence ''P2'' ''src/api/P2'')]"
    unfolding run fst_conv snd_conv .
  with calls plan show ?thesis by blast
qed

text \<open>The limit of the comparison of scopes: \<open>./src\<close> and \<open>src\<close> are the same place, and two unordered packages that
  both write there are accepted.\<close>

definition located :: "string list \<Rightarrow> string list" where
  "located cs = filter (\<lambda>c. c \<noteq> [] \<and> c \<noteq> ''.'') cs"

definition dotted_plan :: "package list" where
  "dotted_plan = [example_package ''P1'' [] ''./src'', example_package ''P2'' [] ''src'']"

lemma dotted_plan_findings: "eng_plan_validate example_design dotted_plan = Inr []"
  by code_simp

theorem dotted_scopes_hide_conflicts:
  "eng_plan_validate example_design dotted_plan = Inr [] \<and> package_depends dotted_plan = {} \<and>
     (\<exists>cs ds. denotes ''./src'' cs \<and> denotes ''src'' ds \<and> located cs = located ds)"
proof (intro conjI)
  have "normalize_scope ''./src'' = Inr ''./src''" "normalize_scope ''src'' = Inr ''src''" by code_simp+
  from normalize_scope_Inr(1) [OF this(1)] normalize_scope_Inr(1) [OF this(2)]
  have "denotes ''./src'' [''.'', ''src'']" "denotes ''src'' [''src'']" by simp_all
  then show "\<exists>cs ds. denotes ''./src'' cs \<and> denotes ''src'' ds \<and> located cs = located ds"
    by (intro exI [of _ "[''.'', ''src'']"] exI [of _ "[''src'']"]) (simp add: located_def)
  show "package_depends dotted_plan = {}" by (auto simp: package_depends_def dotted_plan_def example_package_def)
qed (rule dotted_plan_findings)

text \<open>The engineering pod accepts the plan of a fixture planner exactly when the specifications are free of
  self-dependencies, repeated entries, cycles and unordered write conflicts and cover every MUST requirement; it is then
  the plan that the specifications describe.\<close>

theorem fixture_plan_accepted_iff:
  assumes "ep_planner pod = fixture_planner specs"
  shows "validated_plan pod design s = (s', Inr plan) \<longleftrightarrow>
     s' = s \<and> plan_engineering specs design = Inr plan \<and> fixture_sound design specs"
  using assms by (rule fixture_plan_accepted)

definition example_spec :: "string \<Rightarrow> string list \<Rightarrow> string \<Rightarrow> fixture_spec" where
  "example_spec i ds scope = \<lparr>fx_package_id = i, fx_discipline = ''BACKEND'', fx_requirement_ids = [''R1''], fx_write_scopes = [scope],
     fx_expected_artifacts = [i], fx_verification_methods = [''test''], fx_depends_on = ds, fx_objective = ''o''\<rparr>"

definition example_specs :: "fixture_spec list" where
  "example_specs = [example_spec ''P2'' [''P1''] ''src'', example_spec ''P1'' [] ''src/api'']"

lemma example_specs_plan: "plan_engineering example_specs example_design = Inr example_plan"
  by code_simp

theorem fixture_plan_accepted_iff_witness:
  "validated_plan (example_pod\<lparr>ep_planner := fixture_planner example_specs\<rparr>) example_design (((), []), None) =
     ((((), []), None), Inr example_plan)"
  using example_specs_plan plan_ok_iff_fixture_sound [OF example_specs_plan] example_plan_ok
  by (simp add: fixture_plan_accepted_iff)

text \<open>Two ordered packages with nested scopes, changing one file under two spellings.\<close>

definition same_file_twice :: "integration res" where
  "same_file_twice = integrate ''M'' example_plan
     [example_evidence ''P1'' ''src/api/x'', example_evidence ''P2'' ''/src/api/x'']  [''P1'', ''P2'']"

lemma same_file_twice_eval:
  "(case same_file_twice of Inl e \<Rightarrow> ([], []) | Inr g \<Rightarrow> (ig_changed_paths g, map normalize_scope (ig_changed_paths g))) =
     ([''src/api/x'', ''/src/api/x''], [Inr ''src/api/x'', Inr ''src/api/x''])"
  by code_simp

text \<open>Integration refuses a path changed by two packages, but compares the spellings, not the normalised
  paths the scope check uses: two packages can change one file under two spellings and be integrated.\<close>

theorem same_file_two_owners:
  "\<exists>g. integrate ''M'' example_plan [example_evidence ''P1'' ''src/api/x'', example_evidence ''P2'' ''/src/api/x'']
       [''P1'', ''P2''] = Inr g \<and> map normalize_scope (ig_changed_paths g) = [Inr ''src/api/x'', Inr ''src/api/x'']"
  using same_file_twice_eval by (cases same_file_twice) (auto simp: same_file_twice_def)

text \<open>C27. An integration that may be released was assured: the cycle it is released under was decided on this very
  integration (or the digest collides), by the three roles, none of whom implemented it, with no
  blocking finding and with every acceptance criterion of the design covered by QA.\<close>

theorem released_integration_was_assured:
  assumes "assurance_run sha clock workers design g0 implementers author s = (s', Inr (rs, d))"
    and "record_cycle sha i g0 d n = Inr c" and "assert_release_ready sha c g = Inr ()"
  shows "(g = g0 \<or> fingerprint_text g \<noteq> fingerprint_text g0 \<and> sha (fingerprint_text g) = sha (fingerprint_text g0)) \<and>
     set (map ar_reviewer_agent rs) = set assurance_roles \<and>
     list_all (\<lambda>r. ar_reviewer_agent r \<notin> set implementers \<and> list_all (\<lambda>f. \<not> sf_blocking f) (ar_findings r)) rs \<and>
     list_all (\<lambda>cr. list_ex (\<lambda>r. ar_reviewer_agent r = ''A10-QA'' \<and>
       cr_criterion_id cr \<in> set (map av_criterion_id (ar_acceptance_coverage r))) rs) (dg_acceptance_criteria design)"
proof -
  have d: "decision_stands (dg_mission_id design) rs implementers (map cr_criterion_id (dg_acceptance_criteria design)) d"
    using assurance_run_Inr [OF assms(1)] by blast
  have c: "cy_subject_fingerprint c = sha (fingerprint_text g0)" "cy_decision_status c = as_status d"
    using assms(2) by (auto simp: record_cycle_Inr)
  with assms(3) have "as_status d = ''PASS''" and "sha (fingerprint_text g) = sha (fingerprint_text g0)"
    by (auto simp: release_ready_iff)
  with d show ?thesis by (auto simp: decision_stands_def list_all_iff comp_def)
qed

definition assured_design :: design_bundle where
  "assured_design = example_design\<lparr>dg_acceptance_criteria := [\<lparr>cr_criterion_id = ''AC1'', cr_requirement_id = ''R1'',
     cr_statement = ''s'', cr_verification_method = ''test''\<rparr>]\<rparr>"

definition assured_integration :: integration where
  "assured_integration = \<lparr>ig_mission_id = ''M'', ig_package_order = [''P1''], ig_artifacts = [(''P1'', ''P1'')],
     ig_changed_paths = [''src''], ig_verification_ids = [''V'']\<rparr>"

definition example_reviewer :: "string \<Rightarrow> acceptance_coverage list \<Rightarrow> string \<times> unit assurance_worker" where
  "example_reviewer a cov = (a, \<lparr>aw_agent_id = a, aw_review = (\<lambda>_ _. act_return \<lparr>ar_report_id = a, ar_mission_id = ''M'',
     ar_reviewer_agent = a, ar_subject_artifact_ref = ''x'', ar_findings = [], ar_verification_refs = [''v''],
     ar_acceptance_coverage = cov\<rparr>)\<rparr>)"

definition example_reviewers :: "(string \<times> unit assurance_worker) list" where
  "example_reviewers = [example_reviewer ''A09-SECURITY'' [],
     example_reviewer ''A10-QA'' [\<lparr>av_criterion_id = ''AC1'', av_evidence_refs = [''e'']\<rparr>], example_reviewer ''A12-RED-TEAM'' []]"

definition example_release :: "bool" where
  "example_release = (case snd (assurance_run (\<lambda>s. s) (\<lambda>w. (w, ''t'')) example_reviewers assured_design
       assured_integration [''A06-BACKEND''] ''me'' ((), None)) of
     Inl e \<Rightarrow> False
   | Inr (rs, d) \<Rightarrow> (case record_cycle (\<lambda>s. s) ''C'' assured_integration d 1 of
       Inl e \<Rightarrow> False | Inr c \<Rightarrow> is_ok (assert_release_ready (\<lambda>s. s) c assured_integration)))"

lemma example_release: "example_release"
  by code_simp

theorem released_integration_was_assured_witness:
  "\<exists>rs :: assurance_report list. set (map ar_reviewer_agent rs) = set assurance_roles \<and>
     list_all (\<lambda>r. ar_reviewer_agent r \<notin> set [''A06-BACKEND'']) rs"
proof -
  obtain s' r where r: "assurance_run (\<lambda>s. s) (\<lambda>w. (w, ''t'')) example_reviewers assured_design
       assured_integration [''A06-BACKEND''] ''me'' ((), None) = (s', r)" by (cases "assurance_run (\<lambda>s. s) (\<lambda>w. (w, ''t''))
       example_reviewers assured_design assured_integration [''A06-BACKEND''] ''me'' ((), None)")
  then obtain rs d where rd: "r = Inr (rs, d)"
    and rest: "case record_cycle (\<lambda>s. s) ''C'' assured_integration d 1 of
       Inl e \<Rightarrow> False | Inr c \<Rightarrow> is_ok (assert_release_ready (\<lambda>s. s) c assured_integration)"
    using example_release by (cases r) (auto simp: example_release_def simp del: is_ok_def)
  note run = r [unfolded rd]
  from rest obtain c where c: "record_cycle (\<lambda>s. s) ''C'' assured_integration d 1 = Inr c"
    "assert_release_ready (\<lambda>s. s) c assured_integration = Inr ()"
    by (auto simp: is_ok_unit split: sum.splits)
  from released_integration_was_assured [OF run c] show ?thesis by (auto simp: list_all_iff)
qed

text \<open>In every history of reviews the attempts are numbered from 1 and stay within the budget, every cycle
  but the latest is stale and was blocking, and no re-review is of an unchanged subject.\<close>

theorem review_history_is_bounded:
  assumes "review_history sha max_attempts cs"
  shows "history_ok max_attempts cs"
  using assms by (rule review_history_ok)

definition passing_decision :: assurance_decision where
  "passing_decision = \<lparr>as_mission_id = ''M'', as_status = ''PASS'', as_reviewer_agents = assurance_roles,
     as_blocking_finding_ids = [], as_report_ids = [''1'', ''2'', ''3'']\<rparr>"

definition blocking_decision :: assurance_decision where
  "blocking_decision = passing_decision\<lparr>as_status := ''CHANGES_REQUIRED'', as_blocking_finding_ids := [''F'']\<rparr>"

definition two_reviews :: "(cycle \<times> cycle \<times> cycle) res" where
  "two_reviews = res_bind (record_cycle (\<lambda>s. s) ''C1'' assured_integration blocking_decision 1) (\<lambda>c.
     res_bind (re_review (\<lambda>s. s) 3 c (assured_integration\<lparr>ig_changed_paths := [''lib'']\<rparr>) passing_decision ''C2'') (\<lambda>(old, new).
     Inr (c, old, new)))"

lemma two_reviews_ok: "is_ok two_reviews"
  by code_simp

theorem review_history_is_bounded_witness:
  "\<exists>c old new. two_reviews = Inr (c, old, new) \<and> history_ok 3 [old, new]"
proof -
  obtain c old new where r: "record_cycle (\<lambda>s. s) ''C1'' assured_integration blocking_decision 1 = Inr c"
    "re_review (\<lambda>s. s) 3 c (assured_integration\<lparr>ig_changed_paths := [''lib'']\<rparr>) passing_decision ''C2'' = Inr (old, new)"
    using two_reviews_ok by (auto simp: is_ok_iff two_reviews_def)
  have "review_history (\<lambda>s. s) 3 ([] @ [old, new])"
    by (rule review_history.again [OF _ r(2)]) (simp add: review_history.first [OF r(1)])
  from review_history_is_bounded [OF this] r show ?thesis by (simp add: two_reviews_def)
qed

section \<open>Evidence, secrets, readiness\<close>


text \<open>C37. Two payloads that differ only in resolved secret values leave the same trace, and whatever the payload is, the
  redacted value holds no secret and nothing but the mark under a sensitive key. The text of a
  container used as a dictionary key is taken to print no secret, as \<open>SecretMaterial.__repr__\<close> ensures.\<close>

theorem traces_hide_secrets:
  assumes "prints_no_secret str" "erase v = erase w"
  shows "trace str now mission_id actor_id event_name v rows = trace str now mission_id actor_id event_name w rows \<and>
     clean (redact str v)"
  using redact_erase [OF assms(1), of v] redact_erase [OF assms(1), of w] assms(2) redact_clean [of str v]
  by (simp add: trace_def)

definition example_reference :: secret_reference where
  "example_reference = \<lparr>sf_secret_id = ''S'', sf_provider = ''vault'', sf_mission_id = ''M'', sf_required_capability = ''deploy'',
     sf_purpose = ''p'', sf_version = None\<rparr>"

definition example_payload :: "string \<Rightarrow> pyval" where
  "example_payload v = PDict [(PStr ''k'', PList [PSecret example_reference v]), (PStr ''Token'', PStr ''t'')]"

lemma example_trace:
  "map_sum id (map tw_payload_json \<circ> fst) (trace (\<lambda>_. []) ''now'' ''M'' ''A'' ''E'' (example_payload ''one'') []) =
     Inr [''{\"Token\":\"***REDACTED***\",\"k\":[\"***SECRET***\"]}'']"
  by code_simp

theorem traces_hide_secrets_witness:
  "trace (\<lambda>_. []) ''now'' ''M'' ''A'' ''E'' (example_payload ''one'') [] =
     trace (\<lambda>_. []) ''now'' ''M'' ''A'' ''E'' (example_payload ''two'') [] \<and> clean (redact (\<lambda>_. []) (example_payload ''one''))"
  by (rule traces_hide_secrets) (simp_all add: prints_no_secret_def example_payload_def)

text \<open>C38. The broker runs the executor exactly on admissible calls: with both identities given, every reference of the
  calling mission and a held capability, its provider known and the names distinct, it asks each provider once, in
  order, and runs the executor on their answers. Any other call ends in an exception that does not depend on the
  executor, so it is never run, and only providers of an admissible prefix of the bindings were asked. No call
  depends on how providers would answer references the mission may not use.\<close>

theorem broker_resolves_only_entitled:
  fixes providers :: "(string \<times> 'w provider) list" and executor :: "(string \<times> string) list \<Rightarrow> ('w, 'a) act"
  assumes "agree mission_id caps providers providers'"
  shows "execute_with_bindings providers mission_id actor_id caps bs executor =
      execute_with_bindings providers' mission_id actor_id caps bs executor \<and>
    (if mission_id \<noteq> [] \<and> actor_id \<noteq> [] \<and> admissible mission_id caps providers bs
     then execute_with_bindings providers mission_id actor_id caps bs executor w =
       act_bind (answers providers bs) (\<lambda>vs. executor (zip (map bi_env_name bs) vs)) w
     else \<exists>w' e pre post. (\<forall>executor' :: (string \<times> string) list \<Rightarrow> ('w, 'a) act.
         execute_with_bindings providers mission_id actor_id caps bs executor' w = (w', Inl e)) \<and>
       bs = pre @ post \<and> admissible mission_id caps providers pre \<and> w' = fst (answers providers pre w) \<and>
       (mission_id = [] \<or> actor_id = [] \<longrightarrow> w' = w))"
proof -
  have "execute_with_bindings providers mission_id actor_id caps bs executor =
      execute_with_bindings providers' mission_id actor_id caps bs executor"
    using resolve_bindings_agree [OF assms, of "[]" bs] by (auto simp: execute_with_bindings_def)
  then show ?thesis using broker_call [of mission_id actor_id caps providers bs executor w] by (intro conjI)
qed

definition vault :: "string \<Rightarrow> nat provider" where
  "vault other r n = (n + 1, Inr (if may_use ''M'' [''deploy''] r then ''secret'' else other))"

definition example_binding :: secret_binding where
  "example_binding = \<lparr>bi_env_name = ''E'', bi_reference = example_reference\<rparr>"

text \<open>A call that is allowed runs the executor; the same call without the capability does not, and asks nobody.\<close>

theorem broker_resolves_only_entitled_witness:
  "execute_with_bindings [(''vault'', vault ''x'')] ''M'' ''A'' [''deploy''] [example_binding] (\<lambda>env. act_return (length env)) 0 = (1, Inr 1) \<and>
   (\<exists>w' e. \<forall>executor' :: (string \<times> string) list \<Rightarrow> (nat, nat) act.
      execute_with_bindings [(''vault'', vault ''x'')] ''M'' ''A'' [] [example_binding] executor' 0 = (w', Inl e))"
proof
  let ?n = "\<lambda>env :: (string \<times> string) list. act_return (length env) :: (nat, nat) act"
  have same: "agree ''M'' caps [(''vault'', vault ''x'')] [(''vault'', vault ''x'')]" for caps
    by (simp add: agree_def)
  have yes: "admissible ''M'' [''deploy''] [(''vault'', vault ''x'')] [example_binding]"
    by (simp add: admissible_def may_use_def example_binding_def example_reference_def)
  have no: "\<not> admissible ''M'' [] [(''vault'', vault ''x'')] [example_binding]"
    by (simp add: admissible_def may_use_def example_binding_def example_reference_def)
  have ids: "''M'' \<noteq> []" "''A'' \<noteq> []" by simp_all
  have "answers [(''vault'', vault ''x'')] [example_binding] 0 = (1, Inr [''secret''])"
    by (simp add: act_bind_apply vault_def may_use_def example_binding_def example_reference_def)
  with broker_resolves_only_entitled [OF same [of "[''deploy'']"], where actor_id = "''A''" and bs = "[example_binding]" and
    executor = ?n and w = 0] yes ids
  show "execute_with_bindings [(''vault'', vault ''x'')] ''M'' ''A'' [''deploy''] [example_binding] ?n 0 = (1, Inr 1)"
    by (simp add: act_bind_apply)
  from broker_resolves_only_entitled [OF same [of "[]"], where actor_id = "''A''" and bs = "[example_binding]" and
    executor = ?n and w = 0] no
  show "\<exists>w' e. \<forall>executor' :: (string \<times> string) list \<Rightarrow> (nat, nat) act.
      execute_with_bindings [(''vault'', vault ''x'')] ''M'' ''A'' [] [example_binding] executor' 0 = (w', Inl e)"
    by (simp only: if_False simp_thms) blast
qed

text \<open>C39. A release is PRODUCTION_READY exactly when every mandatory code and production control was supplied with status
  PASS, CODE_QUALIFIED needs the code controls, and the blockers are exactly the mandatory controls that were
  not passed: a missing control counts against the release.\<close>

theorem readiness_is_proven:
  assumes "evaluate_release_readiness mandatory_code_controls mandatory_production_controls cs = Inr r"
  shows "(rt_stage r = ''PRODUCTION_READY'' \<longleftrightarrow>
       (\<forall>cid \<in> set (mandatory_code_controls @ mandatory_production_controls). passed cs cid)) \<and>
     (rt_code_qualified r \<longleftrightarrow> (\<forall>cid \<in> set mandatory_code_controls. passed cs cid)) \<and>
     (assert_production_ready r = Inr () \<longleftrightarrow> rt_blockers r = []) \<and>
     bk_control_id ` set (rt_blockers r) =
       {cid \<in> set (mandatory_code_controls @ mandatory_production_controls). \<not> passed cs cid}"
proof -
  from readiness_exact [OF assms] have e:
    "rt_code_qualified r \<longleftrightarrow> (\<forall>cid \<in> set mandatory_code_controls. passed cs cid)"
    "rt_production_ready r \<longleftrightarrow> (\<forall>cid \<in> set (mandatory_code_controls @ mandatory_production_controls). passed cs cid)"
    "rt_stage r = ''PRODUCTION_READY'' \<longleftrightarrow> rt_production_ready r"
    "bk_control_id ` set (rt_blockers r) = {cid \<in> set (mandatory_code_controls @ mandatory_production_controls). \<not> passed cs cid}"
    by (rule conjunct1, rule conjunct2 [THEN conjunct1], rule conjunct2 [THEN conjunct2, THEN conjunct1],
      rule conjunct2 [THEN conjunct2, THEN conjunct2])
  have "rt_blockers r = [] \<longleftrightarrow> bk_control_id ` set (rt_blockers r) = {}" by simp
  then have "assert_production_ready r = Inr () \<longleftrightarrow> rt_blockers r = []"
    unfolding e(4) assert_production_ready_def raise_if_eq_Inr e(2) by (simp only: not_not Collect_empty_eq) blast
  then show ?thesis unfolding e(3,4) unfolding e(1,2) by (intro conjI refl)
qed

definition all_passed :: "readiness_control list" where
  "all_passed = map (\<lambda>cid. \<lparr>ct_control_id = cid, ct_status = ''PASS'', ct_evidence_ref = Some ''e''\<rparr>)
     (mandatory_code_controls @ mandatory_production_controls)"

lemma all_passed_distinct: "distinct (map ct_control_id all_passed)"
  by (simp add: all_passed_def mandatory_code_controls_def mandatory_production_controls_def)

lemma all_passed_each: "list_all (passed all_passed) (mandatory_code_controls @ mandatory_production_controls)"
  unfolding list_all_iff passed_def all_passed_def list_ex_iff set_map by (intro ballI rev_bexI [OF imageI]) simp_all

theorem readiness_is_proven_witness:
  "\<exists>r. evaluate_release_readiness mandatory_code_controls mandatory_production_controls all_passed = Inr r \<and>
     rt_stage r = ''PRODUCTION_READY''"
proof -
  obtain r where r: "evaluate_release_readiness mandatory_code_controls mandatory_production_controls all_passed = Inr r"
    using distinct_controls_report [OF all_passed_distinct] by blast
  with readiness_is_proven [OF r] all_passed_each show ?thesis unfolding list_all_iff by blast
qed

section \<open>Audit archives\<close>

text \<open>C13. An archive that is written verifies, to the manifest that is returned; it holds exactly the events of the
  ledger that are at least the policy's number of days old, and they are a prefix of the ledger.\<close>

theorem archive_round_trip:
  assumes "create_archive sha parse rows policy archive manifest_path now overwrite fs = Inr (fs', m)" "archive \<noteq> manifest_path"
  shows "verify_archive sha archive manifest_path fs' = Inr m \<and>
     (\<exists>all_events es t. sql_events rows None = Inr all_events \<and>
        fs' archive = Some (json_line (archive_payload (isoformat t) es)) \<and>
        es = filter (older parse (instant now - rp_archive_after_days policy * micros_per_day)) all_events \<and>
        es = take (length es) all_events \<and> mv_event_count m = int (length es))"
proof -
  from create_archive_Inr [OF assms(1)] obtain all_events es t where e: "sql_events rows None = Inr all_events"
    "cutoff policy now = Inr t" "eligible_prefix parse (instant t) all_events = Inr es"
    "any_older parse (instant t) (drop (length es) all_events) = Inr False" "mv_event_count m = int (length es)"
    "fs' = fs(archive \<mapsto> json_line (archive_payload (isoformat t) es), manifest_path \<mapsto> json_line (manifest_to_dict m))" by blast
  with archived_exactly [OF e(3,4)] cutoff_instant [OF e(2)] archive_verifies [OF assms] assms(2) show ?thesis by auto
qed

definition old_rows :: "audit_row list" where
  "old_rows = [row_of_event (new_event (\<lambda>s. s) 1 ''E1'' ''M'' ''A'' ''NOTE'' JNull ''t'' ''GENESIS'')]"

lemma old_events: "sql_events old_rows None = Inr [new_event (\<lambda>s. s) 1 ''E1'' ''M'' ''A'' ''NOTE'' JNull ''t'' ''GENESIS'']"
  by (simp add: old_rows_def sql_events_def event_of_row_of_event norm_event_def new_event_def Let_def)

definition third_day :: datetime where
  "third_day = utc 1 1 3 0"

lemma third_day_instant: "instant third_day = 3 * micros_per_day" "\<not> naive third_day"
  by (simp_all add: third_day_def utc_def instant_def wall_micros_def to_ordinal_def offset_of_def Let_def
      days_before_month_def leap_year_def micros_per_day_def naive_def)

lemma archived_example:
  "\<exists>fs m. create_archive (\<lambda>s. s) (\<lambda>_. Some (utc 1 1 1 0)) old_rows \<lparr>rp_archive_after_days = 1\<rparr> [''a''] [''m'']
     third_day False Map.empty = Inr (fs, m)"
proof -
  note third = third_day_instant
  obtain d where d: "utc_datetime (3 * micros_per_day) = Inr d"
    by (cases "ymd_of_ordinal 3") (simp add: utc_datetime_def Let_def micros_per_day_def)
  obtain t where t: "utc_datetime (2 * micros_per_day) = Inr t"
    by (cases "ymd_of_ordinal 2") (simp add: utc_datetime_def Let_def micros_per_day_def)
  have cut: "cutoff \<lparr>rp_archive_after_days = 1\<rparr> third_day = Inr t"
    using third d t instant_utc [OF d] by (simp add: cutoff_def)
  have "instant t = 2 * micros_per_day" using instant_utc [OF t] by simp
  moreover have "instant (utc 1 1 1 0) = micros_per_day" "\<not> naive (utc 1 1 1 0)" "0 < micros_per_day"
    by (simp_all add: utc_def instant_def wall_micros_def to_ordinal_def offset_of_def Let_def days_before_month_def
        leap_year_def micros_per_day_def naive_def)
  ultimately show ?thesis
    using cut d third old_events
    by (simp add: create_archive_def sql_verify_integrity_def from_events_def verify_integrity_def parse_time_def Let_def)
qed

theorem archive_round_trip_witness:
  "\<exists>fs m. verify_archive (\<lambda>s. s) [''a''] [''m''] fs = Inr m \<and> mv_event_count m = 1"
proof -
  obtain fs m where c: "create_archive (\<lambda>s. s) (\<lambda>_. Some (utc 1 1 1 0)) old_rows \<lparr>rp_archive_after_days = 1\<rparr> [''a''] [''m'']
     third_day False Map.empty = Inr (fs, m)" using archived_example by blast
  have "[''a''] \<noteq> [''m'']" by simp
  from archive_round_trip [OF c this] obtain all_events es where e: "verify_archive (\<lambda>s. s) [''a''] [''m''] fs = Inr m"
    "sql_events old_rows None = Inr all_events" "es = take (length es) all_events" "mv_event_count m = int (length es)"
    by blast
  from e(3) have "length es \<le> length all_events" by (metis length_take min.cobounded1)
  moreover have "length all_events = 1" using e(2) old_events by (metis Inr_inject length_Cons list.size(3) One_nat_def)
  ultimately have "length es \<le> 1" by simp
  moreover from create_archive_Inr [OF c] obtain es' :: "audit_event list" where "es' \<noteq> []" "mv_event_count m = int (length es')"
    by blast
  then have "1 \<le> mv_event_count m" by (cases es') auto
  ultimately have "mv_event_count m = 1" using e(4) by linarith
  with e(1) show ?thesis by blast
qed

section \<open>Localized listings\<close>

text \<open>C35. A localized listing shows the canonical row: its identity, state and trust are copied, its badge stays off, its messages
  are those of the projection, the currency is the one of the locale, and the digits of its price and bedroom
  texts, in whichever numbering system, spell the numbers of the row.\<close>

theorem localization_keeps_the_domain:
  assumes "consumer_projection pr now cid = Inr p" "localize_consumer_listing parse a p currency url = Inr l"
  shows "\<exists>row. canonical_by_id cid (pr_inventory pr) = Inr row \<and> lz_canonical_id l = cid \<and> lz_title l = cn_title row \<and>
     lz_state l = listing_value (cn_state row) \<and> lz_trust_code l = trust_value (cl_trust_code p) \<and>
     \<not> lz_verification_badge l \<and> map lm_code (lz_messages l) = cl_message_codes p \<and>
     lz_currency_code l = currency \<and> currency = lc_currency_code (ma_context a) \<and>
     0 \<le> cn_price_minor row \<and> shown_number (lz_price_text l) = nat (cn_price_minor row) \<and>
     (\<forall>b. cn_bedrooms row = Some b \<longrightarrow> shown_number (lz_bedrooms_text l) = nat \<bar>b\<bar>)"
proof -
  from assms(1) obtain row where row: "canonical_by_id cid (pr_inventory pr) = Inr row" "cl_canonical_id p = cid"
    "cl_title p = cn_title row" "cl_state p = listing_value (cn_state row)" "\<not> cl_verification_badge p"
    "cl_price_minor p = cn_price_minor row" "cl_bedrooms p = cn_bedrooms row"
    by (auto simp: consumer_projection_def Let_def)
  from localize_consumer_listing_Inr(9) [OF assms(2)] row(7)
  have bedrooms: "\<forall>b. cn_bedrooms row = Some b \<longrightarrow> shown_number (lz_bedrooms_text l) = nat \<bar>b\<bar>" by simp
  note l = localize_consumer_listing_Inr(1-8) [OF assms(2)]
  from format_amount_Inr [OF l(8)] row(6)
  have price: "0 \<le> cn_price_minor row" "currency = lc_currency_code (ma_context a)"
    "shown_number (lz_price_text l) = nat (cn_price_minor row)" by simp_all
  from row(1-5) l(1-7) bedrooms price show ?thesis by simp
qed

definition persian_adapter :: market_adapter where
  "persian_adapter = \<lparr>ma_context = \<lparr>lc_locale = ''fa-IR'', lc_language = ''fa'', lc_numbering_system = ''arabext'', lc_direction = RTL,
     lc_timezone = ''UTC'', lc_currency_code = ''IRR''\<rparr>, ma_zone = \<lparr>zn_offset = \<lambda>_. 0, zn_name = \<lambda>_. ''UTC''\<rparr>\<rparr>"

lemma persian_adapter_valid: "new_adapter (\<lambda>_. Inr (ma_zone persian_adapter)) (ma_context persian_adapter) = Inr persian_adapter"
  by (simp add: new_adapter_def locale_validate_def zone_info_def persian_adapter_def supported_currencies_def)

lemma example_localized:
  assumes "consumer_projection (de_presentation example_site) week example_id = Inr p"
  shows "\<exists>l. localize_consumer_listing (\<lambda>_. Some third_day) persian_adapter p ''IRR'' None = Inr l"
proof -
  obtain d where d: "utc_datetime (3 * micros_per_day) = Inr d"
    by (cases "ymd_of_ordinal 3") (simp add: utc_datetime_def Let_def micros_per_day_def)
  have "zn_offset (ma_zone persian_adapter) t = 0" for t by (simp add: persian_adapter_def)
  then have "\<exists>t. format_datetime persian_adapter third_day = Inr t"
    using d third_day_instant by (simp add: format_datetime_def Let_def)
  moreover have "cl_price_minor p = 100"
    using assms by (auto simp: consumer_projection_def Let_def example_site_def canonical_by_id_def example_canonical_def
        new_canonical_def example_listing_def)
  then have "\<exists>t. format_amount persian_adapter (cl_price_minor p) ''IRR'' = Inr t"
    by (simp add: format_amount_def supported_currencies_def persian_adapter_def Let_def)
  ultimately show ?thesis by (auto simp: localize_consumer_listing_def format_decimal_def Let_def)
qed

theorem localization_keeps_the_domain_witness:
  "\<exists>p l. localize_consumer_listing (\<lambda>_. Some third_day) persian_adapter p ''IRR'' None = Inr l \<and>
     lz_canonical_id l = example_id \<and> shown_number (lz_price_text l) = 100"
proof -
  obtain p where p: "consumer_projection (de_presentation example_site) week example_id = Inr p" using example_projection by blast
  obtain l where l: "localize_consumer_listing (\<lambda>_. Some third_day) persian_adapter p ''IRR'' None = Inr l"
    using example_localized [OF p] by blast
  have stock: "pr_inventory (de_presentation example_site) = example_stock" by (simp add: example_site_def)
  from localization_keeps_the_domain [OF p l] obtain row where "canonical_by_id example_id example_stock = Inr row"
    "lz_canonical_id l = example_id" "shown_number (lz_price_text l) = nat (cn_price_minor row)" unfolding stock by blast
  moreover have "canonical_by_id example_id example_stock = Inr example_canonical" by (simp add: canonical_by_id_def)
  moreover have "cn_price_minor example_canonical = 100"
    by (simp add: example_canonical_def new_canonical_def example_listing_def)
  ultimately show ?thesis using l by auto
qed

end
